(* ===== verification/Nexo_Prelude.thy ===== *)
theory Nexo_Prelude
  imports Main "HOL-Library.Word" "HOL-Library.Signed_Division"
begin

text \<open>
  Shared vocabulary of the development: the machine types of \<^verbatim>\<open>src/common/define.hh\<close>,
  C++ integer conversions, \<^verbatim>\<open>std::to_string\<close>, and the generic lemmas on lists and
  strings the component theories use.  Lemmas about decimal strings are collected in
  \<open>decimal_simps\<close>, unfolding facts of the record operations in \<open>ds_defs\<close>.
\<close>

named_theorems decimal_simps \<open>rewriting of decimal representations\<close>
named_theorems ds_defs \<open>unfolding of the operations on the data structures\<close>

type_synonym byte = "8 word"
type_synonym uuid = "128 word"
type_synonym md5_fun = "byte list \<Rightarrow> byte list"
type_synonym allocator = "int \<Rightarrow> byte list option"

subsection \<open>C++ integers\<close>

text \<open>Conversion to a signed integer of \<open>w\<close> bits (two's complement).\<close>

definition to_signed :: "nat \<Rightarrow> int \<Rightarrow> int" where
  "to_signed w x = (x + 2 ^ (w - 1)) mod 2 ^ w - 2 ^ (w - 1)"

definition to_unsigned :: "nat \<Rightarrow> int \<Rightarrow> int" where
  "to_unsigned w x = x mod 2 ^ w"

abbreviation int32 :: "int \<Rightarrow> int" where
  "int32 \<equiv> to_signed 32"

subsection \<open>Decimal strings\<close>

definition digit_char :: "nat \<Rightarrow> char" where
  "digit_char d = char_of (48 + d)"

fun nat_to_string :: "nat \<Rightarrow> string" where
  "nat_to_string n =
     (if n < 10 then [digit_char n] else nat_to_string (n div 10) @ [digit_char (n mod 10)])"

declare nat_to_string.simps [simp del]

definition int_to_string :: "int \<Rightarrow> string" where
  "int_to_string i = (if i < 0 then CHR ''-'' # nat_to_string (nat (- i)) else nat_to_string (nat i))"

definition digit_value :: "char \<Rightarrow> nat" where
  "digit_value c = of_char c - 48"

definition dec_value :: "string \<Rightarrow> nat" where
  "dec_value s = foldl (\<lambda>a c. 10 * a + digit_value c) 0 s"

definition is_digit :: "char \<Rightarrow> bool" where
  "is_digit c \<longleftrightarrow> 48 \<le> (of_char c :: nat) \<and> (of_char c :: nat) \<le> 57"

lemma to_signed_id:
  assumes "0 < w" and "- (2 ^ (w - 1)) \<le> x" and "x < 2 ^ (w - 1)"
  shows "to_signed w x = x"
proof -
  have w: "(2::int) ^ w = 2 * 2 ^ (w - 1)"
    using assms(1) by (cases w) auto
  have "(x + 2 ^ (w - 1)) mod 2 ^ w = x + 2 ^ (w - 1)"
    using assms by (intro mod_pos_pos_trivial) (auto simp: w)
  then show ?thesis by (simp add: to_signed_def)
qed

lemma int32_id [simp]: "- 2147483648 \<le> x \<Longrightarrow> x < 2147483648 \<Longrightarrow> int32 x = x"
  by (rule to_signed_id) simp_all

lemma int32_bounds: "- 2147483648 \<le> int32 x \<and> int32 x < 2147483648"
proof -
  have "0 \<le> (x + 2147483648) mod 4294967296 \<and> (x + 2147483648) mod 4294967296 < 4294967296"
    by simp
  then show ?thesis by (simp add: to_signed_def)
qed

lemma digit_char_value [decimal_simps]: "d < 10 \<Longrightarrow> digit_value (digit_char d) = d"
  by (simp add: digit_value_def digit_char_def)

lemma digit_char_digit [decimal_simps]: "d < 10 \<Longrightarrow> is_digit (digit_char d)"
  by (simp add: is_digit_def digit_char_def)

lemma dec_value_snoc [decimal_simps]: "dec_value (s @ [c]) = 10 * dec_value s + digit_value c"
  by (simp add: dec_value_def)

lemma dec_value_nat_to_string [decimal_simps]: "dec_value (nat_to_string n) = n"
proof (induction n rule: nat_to_string.induct)
  case (1 n)
  show ?case
  proof (cases "n < 10")
    case True
    then show ?thesis
      by (simp add: nat_to_string.simps [of n] dec_value_def decimal_simps)
  next
    case False
    with "1.IH" have "dec_value (nat_to_string (n div 10)) = n div 10" by simp
    with False show ?thesis
      by (simp add: nat_to_string.simps [of n] decimal_simps)
  qed
qed

lemma nat_to_string_digits: "c \<in> set (nat_to_string n) \<Longrightarrow> is_digit c"
proof (induction n rule: nat_to_string.induct)
  case (1 n)
  then show ?case
    by (cases "n < 10") (auto simp: nat_to_string.simps [of n] decimal_simps)
qed

lemma nat_to_string_inject [simp]: "nat_to_string m = nat_to_string n \<longleftrightarrow> m = n"
  by (metis dec_value_nat_to_string)

lemma nat_to_string_not_Nil [simp]: "nat_to_string n \<noteq> []"
  by (subst nat_to_string.simps) simp

lemma minus_not_digit [simp]: "\<not> is_digit (CHR ''-'')"
  and underscore_not_digit [simp]: "\<not> is_digit (CHR ''_'')"
  and dot_not_digit [simp]: "\<not> is_digit (CHR ''.'')"
  and slash_not_digit [simp]: "\<not> is_digit (CHR ''/'')"
  by (simp_all add: is_digit_def)

lemma int_to_string_chars: "c \<in> set (int_to_string i) \<Longrightarrow> is_digit c \<or> c = CHR ''-''"
  by (auto simp: int_to_string_def dest: nat_to_string_digits split: if_splits)

lemma int_to_string_inject [simp]: "int_to_string i = int_to_string j \<longleftrightarrow> i = j"
proof
  assume eq: "int_to_string i = int_to_string j"
  have hd: "CHR ''-'' # s \<noteq> nat_to_string n" for s n
    using nat_to_string_digits [of "CHR ''-''" n] by (metis list.set_intros(1) minus_not_digit)
  from eq show "i = j"
    using hd hd [symmetric] by (auto simp: int_to_string_def split: if_splits)
qed simp

subsection \<open>Strings split at a separator\<close>

lemma split_at_separator:
  assumes "a @ x # s = b @ x # t" and "x \<notin> set a" and "x \<notin> set b"
  shows "a = b \<and> s = t"
  using assms
proof (induction a arbitrary: b)
  case Nil
  then show ?case by (cases b) auto
next
  case (Cons c a)
  then show ?case by (cases b) auto
qed

lemma split_at_last_separator:
  assumes "s @ x # a = t @ x # b" and "x \<notin> set a" and "x \<notin> set b"
  shows "s = t \<and> a = b"
proof -
  from assms(1) have "rev a @ x # rev s = rev b @ x # rev t"
    by (metis append.assoc append_Cons append_Nil rev.simps(2) rev_append)
  with assms(2,3) show ?thesis
    using split_at_separator [of "rev a" x "rev s" "rev b" "rev t"] by simp
qed

end
