(* ===== verification/Nexo_Data.thy ===== *)
theory Nexo_Data
  imports Nexo_Prelude
begin

text \<open>
  The data structures of \<^verbatim>\<open>src/ds\<close> and the enumerations of \<^verbatim>\<open>src/common/define.hh\<close>:
  chunks, coding metadata and files with their copy operations.  A pointer to a buffer is an
  option (\<open>None\<close> is the null pointer); buffers are values, so the model records which object
  is responsible for a buffer (\<open>freeData\<close>) and not the addresses.  What boost, OpenSSL and the
  allocator compute is a parameter: \<open>uts\<close> is \<^verbatim>\<open>boost::uuids::to_string\<close>, \<open>gen\<close> the name
  generator seeded with \<^verbatim>\<open>FILE_DNS_UUID\<close>, \<open>md5\<close> the digest, \<open>alloc\<close> the allocator.
\<close>

subsection \<open>Enumerations and constants\<close>

datatype Opcode =
    PUT_CHUNK_REQ | GET_CHUNK_REQ | DEL_CHUNK_REQ | CPY_CHUNK_REQ | ENC_CHUNK_REQ
  | PUT_CHUNK_REP_SUCCESS | GET_CHUNK_REP_SUCCESS | DEL_CHUNK_REP_SUCCESS
  | CPY_CHUNK_REP_SUCCESS | ENC_CHUNK_REP_SUCCESS
  | PUT_CHUNK_REP_FAIL | GET_CHUNK_REP_FAIL | DEL_CHUNK_REP_FAIL
  | CPY_CHUNK_REP_FAIL | ENC_CHUNK_REP_FAIL
  | REG_AGENT_REQ | REG_AGENT_REP_SUCCESS | REG_AGENT_REP_FAIL | UPD_AGENT_REQ | UPD_AGENT_REP
  | SYN_PING | ACK_PING
  | RPR_CHUNK_REQ | RPR_CHUNK_REP_SUCCESS | RPR_CHUNK_REP_FAIL
  | CHK_CHUNK_REQ | CHK_CHUNK_REP_SUCCESS | CHK_CHUNK_REP_FAIL
  | MOV_CHUNK_REQ | MOV_CHUNK_REP_SUCCESS | MOV_CHUNK_REP_FAIL
  | RVT_CHUNK_REQ | RVT_CHUNK_REP_SUCCESS | RVT_CHUNK_REP_FAIL
  | GET_SYSINFO_REQ | GET_SYSINFO_REP
  | VRF_CHUNK_REQ | VRF_CHUNK_REP_SUCCESS | VRF_CHUNK_REP_FAIL
  | UNKNOWN_OP

datatype DistributionPolicy = STATIC | RR | LU | UNKNOWN_DIST_POLICY

datatype FileStatus = NONE | BG_TASK_PENDING | PART_BG_TASK_COMPLETED | ALL_BG_TASKS_COMPLETED

definition RS :: int where "RS = 0"
definition UNKNOWN_CODE :: int where "UNKNOWN_CODE = 1"

definition INVALID_CHUNK_ID :: int where "INVALID_CHUNK_ID = -1"
definition INVALID_CONTAINER_ID :: int where "INVALID_CONTAINER_ID = -1"
definition UNUSED_CONTAINER_ID :: int where "UNUSED_CONTAINER_ID = -2"
definition INVALID_NAMESPACE_ID :: nat where "INVALID_NAMESPACE_ID = 255"
definition INVALID_FILE_OFFSET :: nat where "INVALID_FILE_OFFSET = 2 ^ 64 - 1"
definition CHUNK_VERSION_MAX_LEN :: nat where "CHUNK_VERSION_MAX_LEN = 128"
definition MD5_DIGEST_LENGTH :: nat where "MD5_DIGEST_LENGTH = 16"
definition PATH_MAX :: int where "PATH_MAX = 4096"

subsection \<open>Chunks\<close>

record chunk =
  c_namespaceId :: nat
  c_fuuid :: uuid
  c_chunkId :: int
  c_data :: "byte list option"
  c_size :: int
  c_freeData :: bool
  c_fileVersion :: int
  c_chunkVersion :: string
  c_md5 :: "byte list"

definition chunk_resetMD5 :: "chunk \<Rightarrow> chunk" where
  "chunk_resetMD5 c = c\<lparr>c_md5 := replicate MD5_DIGEST_LENGTH 0\<rparr>"

definition chunk_reset :: chunk where
  "chunk_reset = chunk_resetMD5
     \<lparr>c_namespaceId = INVALID_NAMESPACE_ID, c_fuuid = 0, c_chunkId = INVALID_CHUNK_ID,
      c_data = None, c_size = 0, c_freeData = True, c_fileVersion = 0, c_chunkVersion = [],
      c_md5 = []\<rparr>"

definition chunk_release :: "chunk \<Rightarrow> chunk" where
  "chunk_release c = chunk_reset"

definition setId :: "nat \<Rightarrow> uuid \<Rightarrow> int \<Rightarrow> chunk \<Rightarrow> chunk" where
  "setId ns u i c = c\<lparr>c_namespaceId := ns, c_fuuid := u, c_chunkId := i\<rparr>"

definition setChunkId :: "int \<Rightarrow> chunk \<Rightarrow> chunk" where
  "setChunkId i c = c\<lparr>c_chunkId := i\<rparr>"

definition copyMD5 :: "chunk \<Rightarrow> chunk \<Rightarrow> chunk" where
  "copyMD5 src c = c\<lparr>c_md5 := c_md5 src\<rparr>"

definition chunk_copyMeta :: "chunk \<Rightarrow> bool \<Rightarrow> chunk \<Rightarrow> chunk" where
  "chunk_copyMeta src copySize c =
     (let c1 = setId (c_namespaceId src) (c_fuuid src) (c_chunkId src) c;
          c2 = c1\<lparr>c_fileVersion := c_fileVersion src,
                  c_chunkVersion := take CHUNK_VERSION_MAX_LEN (c_chunkVersion src)\<rparr>;
          c3 = copyMD5 src c2
      in if copySize then c3\<lparr>c_size := c_size src\<rparr> else c3)"

definition allocateData :: "allocator \<Rightarrow> int \<Rightarrow> bool \<Rightarrow> chunk \<Rightarrow> chunk \<times> bool" where
  "allocateData alloc sizet aligned c =
     (if sizet \<le> 0 then (c, False)
      else if c_data c \<noteq> None \<and> c_size c = sizet \<and> c_freeData c \<and> \<not> aligned then (c, True)
      else case alloc sizet of
             None \<Rightarrow> (c, False)
           | Some datat \<Rightarrow> (c\<lparr>c_data := Some datat, c_size := sizet, c_freeData := True\<rparr>, True))"

text \<open>\<^verbatim>\<open>memcpy\<close> of \<open>n\<close> bytes over the front of a buffer.\<close>

definition memcpy :: "byte list \<Rightarrow> byte list \<Rightarrow> nat \<Rightarrow> byte list" where
  "memcpy dst src n = take n src @ drop n dst"

definition chunk_copy :: "allocator \<Rightarrow> chunk \<Rightarrow> bool \<Rightarrow> chunk \<Rightarrow> chunk \<times> bool" where
  "chunk_copy alloc src aligned c =
     (let c1 = chunk_copyMeta src True (chunk_release c)
      in case allocateData alloc (c_size src) aligned c1 of
           (c2, False) \<Rightarrow> (c2, False)
         | (c2, True) \<Rightarrow>
             (c2\<lparr>c_data := Some (memcpy (the (c_data c2)) (case c_data src of None \<Rightarrow> [] | Some b \<Rightarrow> b)
                                   (nat (c_size c2)))\<rparr>, True))"

definition chunk_move :: "chunk \<Rightarrow> chunk \<Rightarrow> chunk \<times> chunk" where
  "chunk_move src c =
     (let c1 = chunk_copyMeta src True (chunk_release c)
      in (c1\<lparr>c_data := c_data src, c_size := c_size src, c_freeData := c_freeData src\<rparr>,
          src\<lparr>c_data := None, c_freeData := False\<rparr>))"

definition getChunkName :: "(uuid \<Rightarrow> string) \<Rightarrow> chunk \<Rightarrow> string" where
  "getChunkName uts c =
     nat_to_string (c_namespaceId c) @ ''_'' @ uts (c_fuuid c) @ ''_''
       @ int_to_string (c_fileVersion c) @ ''_'' @ int_to_string (c_chunkId c)"

definition chunk_bytes :: "chunk \<Rightarrow> byte list" where
  "chunk_bytes c = take (nat (c_size c)) (case c_data c of None \<Rightarrow> [] | Some b \<Rightarrow> b)"

definition computeMD5 :: "md5_fun \<Rightarrow> chunk \<Rightarrow> chunk \<times> bool" where
  "computeMD5 md5 c =
     (if c_size c \<le> 0 then (c, False) else (c\<lparr>c_md5 := md5 (chunk_bytes c)\<rparr>, True))"

definition verifyMD5 :: "md5_fun \<Rightarrow> chunk \<Rightarrow> bool" where
  "verifyMD5 md5 c \<longleftrightarrow> c_md5 c = md5 (chunk_bytes c)"

text \<open>\<^verbatim>\<open>memcmp(md5, in.md5, len)\<close> is used as a truth value: it holds when the digests differ.\<close>

definition matchMeta :: "chunk \<Rightarrow> chunk \<Rightarrow> bool" where
  "matchMeta c d \<longleftrightarrow> c_chunkId c = c_chunkId d \<and> c_md5 c \<noteq> c_md5 d \<and> c_size c = c_size d"

subsection \<open>Coding metadata\<close>

record coding_meta =
  cm_coding :: int
  cm_codingState :: "byte list option"
  cm_n :: int
  cm_k :: int
  cm_f :: int
  cm_codingStateSize :: int
  cm_maxChunkSize :: int

definition codingMeta_reset :: coding_meta where
  "codingMeta_reset =
     \<lparr>cm_coding = UNKNOWN_CODE, cm_codingState = None, cm_n = 0, cm_k = 0, cm_f = 0,
      cm_codingStateSize = 0, cm_maxChunkSize = 0\<rparr>"

definition newCodingMeta :: "int \<Rightarrow> int \<Rightarrow> int \<Rightarrow> int \<Rightarrow> int \<Rightarrow> coding_meta" where
  "newCodingMeta cs cn ck maxcs cf =
     codingMeta_reset\<lparr>cm_coding := cs, cm_maxChunkSize := maxcs, cm_n := cn, cm_k := ck, cm_f := cf\<rparr>"

definition codingMeta_copyMeta :: "coding_meta \<Rightarrow> bool \<Rightarrow> coding_meta \<Rightarrow> coding_meta" where
  "codingMeta_copyMeta src parametersOnly m =
     (let m1 = m\<lparr>cm_n := cm_n src, cm_k := cm_k src, cm_f := cm_f src, cm_coding := cm_coding src,
                 cm_maxChunkSize := cm_maxChunkSize src\<rparr>
      in if parametersOnly then m1
         else let m2 = m1\<lparr>cm_codingStateSize := cm_codingStateSize src\<rparr>
              in if cm_codingStateSize m2 > 0
                 then m2\<lparr>cm_codingState :=
                       Some (take (nat (cm_codingStateSize src))
                              (case cm_codingState src of None \<Rightarrow> [] | Some b \<Rightarrow> b))\<rparr>
                 else m2)"

text \<open>The conditional operator binds weaker than the conjunctions in front of it.\<close>

definition codingMeta_eq :: "coding_meta \<Rightarrow> coding_meta \<Rightarrow> bool" where
  "codingMeta_eq x y =
     (if cm_coding x = cm_coding y \<and> cm_n x = cm_n y \<and> cm_k x = cm_k y \<and> cm_f x = cm_f y
         \<and> cm_maxChunkSize x = cm_maxChunkSize y \<and> cm_codingStateSize x = cm_codingStateSize y
         \<and> cm_codingState x \<noteq> None
      then take (nat (cm_codingStateSize x)) (the (cm_codingState x))
             = take (nat (cm_codingStateSize x)) (case cm_codingState y of None \<Rightarrow> [] | Some b \<Rightarrow> b)
      else True)"

lemmas chunk_defs = chunk_resetMD5_def chunk_reset_def chunk_release_def setId_def setChunkId_def
  copyMD5_def chunk_copyMeta_def Let_def

subsection \<open>Properties of chunks and coding metadata\<close>

text \<open>A chunk that moved keeps its bytes and metadata, and the source no longer owns a buffer.\<close>

lemma chunk_move_data:
  assumes "length (c_chunkVersion src) \<le> CHUNK_VERSION_MAX_LEN"
  shows "fst (chunk_move src c) = src"
    and "c_data (snd (chunk_move src c)) = None" and "\<not> c_freeData (snd (chunk_move src c))"
  using assms by (simp_all add: chunk_move_def chunk_defs)

lemma chunk_copyMeta_same [simp]:
  "c_chunkId (chunk_copyMeta src b c) = c_chunkId src"
  "c_namespaceId (chunk_copyMeta src b c) = c_namespaceId src"
  "c_fuuid (chunk_copyMeta src b c) = c_fuuid src"
  "c_fileVersion (chunk_copyMeta src b c) = c_fileVersion src"
  "c_md5 (chunk_copyMeta src b c) = c_md5 src"
  "c_size (chunk_copyMeta src True c) = c_size src"
  "c_size (chunk_copyMeta src False c) = c_size c"
  "c_data (chunk_copyMeta src b c) = c_data c"
  "c_freeData (chunk_copyMeta src b c) = c_freeData c"
  "c_chunkVersion (chunk_copyMeta src b c) = take CHUNK_VERSION_MAX_LEN (c_chunkVersion src)"
  by (simp_all add: chunk_defs)

lemma getChunkName_copyMeta [simp]: "getChunkName uts (chunk_copyMeta src b c) = getChunkName uts src"
  by (simp add: getChunkName_def)

lemma getChunkName_cong:
  "c_namespaceId c = c_namespaceId d \<Longrightarrow> c_fuuid c = c_fuuid d \<Longrightarrow> c_fileVersion c = c_fileVersion d
     \<Longrightarrow> c_chunkId c = c_chunkId d \<Longrightarrow> getChunkName uts c = getChunkName uts d"
  by (simp add: getChunkName_def)

lemma chunk_reset_fields [simp]:
  "c_data chunk_reset = None" "c_size chunk_reset = 0" "c_freeData chunk_reset"
  "c_chunkId chunk_reset = INVALID_CHUNK_ID" "c_namespaceId chunk_reset = INVALID_NAMESPACE_ID"
  by (simp_all add: chunk_defs)

lemma allocateData_True:
  assumes "allocateData alloc n al c = (d, True)" and "\<And>n b. alloc n = Some b \<Longrightarrow> length b = nat n"
    and "c_data c = None \<or> length (the (c_data c)) = nat (c_size c)"
  shows "0 < n \<and> c_size d = n \<and> c_freeData d \<and> (\<exists>b. c_data d = Some b \<and> length b = nat n)"
  using assms by (auto simp: allocateData_def split: if_splits option.splits)

lemma int_to_string_no_underscore [simp]: "CHR ''_'' \<notin> set (int_to_string i)"
  using int_to_string_chars [of "CHR ''_''" i] by auto

lemma nat_to_string_no_underscore [simp]: "CHR ''_'' \<notin> set (nat_to_string n)"
  using nat_to_string_digits [of "CHR ''_''" n] by auto

text \<open>
  C34.  The name under which a chunk is stored identifies it: two chunks with the same object name
  agree on namespace, file, version and chunk number, provided the textual form of a UUID is
  injective and free of underscores.
\<close>

theorem chunk_name_identifies_chunk:
  assumes "inj uts" and "\<And>u. CHR ''_'' \<notin> set (uts u)"
    and "getChunkName uts c = getChunkName uts d"
  shows "c_namespaceId c = c_namespaceId d \<and> c_fuuid c = c_fuuid d
    \<and> c_fileVersion c = c_fileVersion d \<and> c_chunkId c = c_chunkId d"
proof -
  let ?r = "\<lambda>c. uts (c_fuuid c) @ CHR ''_'' # int_to_string (c_fileVersion c)
                  @ CHR ''_'' # int_to_string (c_chunkId c)"
  from assms(3) have "nat_to_string (c_namespaceId c) @ CHR ''_'' # ?r c
      = nat_to_string (c_namespaceId d) @ CHR ''_'' # ?r d"
    by (simp add: getChunkName_def)
  then have ns: "nat_to_string (c_namespaceId c) = nat_to_string (c_namespaceId d)" and r: "?r c = ?r d"
    using split_at_separator by fastforce+
  from r assms(2) have u: "uts (c_fuuid c) = uts (c_fuuid d)"
    and v: "int_to_string (c_fileVersion c) @ CHR ''_'' # int_to_string (c_chunkId c)
      = int_to_string (c_fileVersion d) @ CHR ''_'' # int_to_string (c_chunkId d)"
    using split_at_separator [of "uts (c_fuuid c)" "CHR ''_''" _ "uts (c_fuuid d)"] by simp_all
  have "int_to_string (c_fileVersion c) = int_to_string (c_fileVersion d)
      \<and> int_to_string (c_chunkId c) = int_to_string (c_chunkId d)"
    by (rule split_at_separator [OF v]) (rule int_to_string_no_underscore)+
  with ns u assms(1) show ?thesis by (auto dest: injD)
qed

theorem chunk_name_identifies_chunk_witness:
  "inj (\<lambda>u::uuid. nat_to_string (unat u)) \<and>
   getChunkName (\<lambda>u. nat_to_string (unat u)) (setId 1 7 3 chunk_reset)
     = getChunkName (\<lambda>u. nat_to_string (unat u)) ((setId 1 7 3 chunk_reset)\<lparr>c_size := 9\<rparr>) \<and>
   c_chunkId (setId 1 7 3 chunk_reset) = c_chunkId ((setId 1 7 3 chunk_reset)\<lparr>c_size := 9\<rparr>)"
proof -
  have inj: "inj (\<lambda>u::uuid. nat_to_string (unat u))" by (simp add: inj_def word_unat_eq_iff)
  have eq: "getChunkName (\<lambda>u. nat_to_string (unat u)) (setId 1 7 3 chunk_reset)
     = getChunkName (\<lambda>u. nat_to_string (unat u)) ((setId 1 7 3 chunk_reset)\<lparr>c_size := 9\<rparr>)"
    by (rule getChunkName_cong) (simp_all add: chunk_defs)
  show ?thesis
    using inj eq chunk_name_identifies_chunk [OF inj _ eq] by simp
qed

text \<open>A chunk never matches itself: the digest comparison of \<^verbatim>\<open>matchMeta\<close> is inverted.\<close>

lemma matchMeta_irrefl: "\<not> matchMeta c c"
  by (simp add: matchMeta_def)

text \<open>
  Coding metadata without coding state, which is what every storage class has, compares equal
  to any other coding metadata: the comparison of the parameters has no effect.
\<close>

theorem codingMeta_eq_ignores_parameters:
  "codingMeta_eq (newCodingMeta cs n k maxcs f) y"
  by (simp add: codingMeta_eq_def newCodingMeta_def codingMeta_reset_def)

end
