(* ===== verification/Nexo_File.thy ===== *)
theory Nexo_File
  imports Nexo_Data
begin

text \<open>
  Files (\<^verbatim>\<open>src/ds/file.hh\<close>, \<^verbatim>\<open>file.cc\<close>) and file information records
  (\<^verbatim>\<open>file_info.hh\<close>, \<^verbatim>\<open>version_info.hh\<close>): the setters, the copiers and the allocation of the
  chunk, container and corruption arrays.  \<open>gen\<close> is the boost name generator, \<open>mallocOk n\<close> tells
  whether an allocation of \<open>n\<close> bytes succeeds, \<open>junk\<close> is the content of fresh memory.  The maps
  used for deduplication are not part of the record.
\<close>

record staged_info =
  st_size :: nat
  st_codingMeta :: coding_meta
  st_storageClass :: string
  st_mtime :: int

record file_t =
  f_namespaceId :: nat
  f_uuid :: uuid
  f_name :: "string option"
  f_nameLength :: int
  f_size :: nat
  f_version :: int
  f_ctime :: int
  f_atime :: int
  f_mtime :: int
  f_tctime :: int
  f_status :: FileStatus
  f_md5 :: "byte list"
  f_isDeleted :: bool
  f_numStripes :: int
  f_numChunks :: int
  f_containerIds :: "int list"
  f_chunks :: "chunk list"
  f_chunksCorrupted :: "bool list"
  f_codingMeta :: coding_meta
  f_storageClass :: string
  f_staged :: staged_info
  f_offset :: nat
  f_length :: nat
  f_data :: "byte list option"
  f_mmapped :: bool
  f_blockId :: int
  f_stripeId :: int
  f_isFinalStripe :: bool
  f_reqId :: int

record version_info =
  v_version :: int
  v_numChunks :: int
  v_size :: nat
  v_mtime :: int
  v_md5 :: "byte list"
  v_isDeleted :: bool

record file_info =
  i_name :: "string option"
  i_nameLength :: int
  i_size :: nat
  i_ctime :: int
  i_atime :: int
  i_mtime :: int
  i_numChunks :: int
  i_version :: int
  i_numVersions :: int
  i_versions :: "version_info list"
  i_md5 :: "byte list"
  i_namespaceId :: nat
  i_status :: FileStatus
  i_isDeleted :: bool
  i_storageClass :: string

type_synonym namegen = "string \<Rightarrow> uuid"

abbreviation cstr :: "string option \<Rightarrow> string" where
  "cstr p \<equiv> (case p of None \<Rightarrow> [] | Some s \<Rightarrow> s)"

definition file_releaseData :: "file_t \<Rightarrow> file_t" where
  "file_releaseData f = f\<lparr>f_data := None\<rparr>"

definition setName :: "(int \<Rightarrow> bool) \<Rightarrow> string \<Rightarrow> int \<Rightarrow> file_t \<Rightarrow> file_t \<times> bool" where
  "setName mallocOk fn nlen f =
     (if nlen \<le> 0 \<or> nlen > PATH_MAX then (f, False)
      else if \<not> mallocOk (nlen + 1) then (f\<lparr>f_name := None, f_nameLength := 0\<rparr>, False)
      else (f\<lparr>f_nameLength := nlen, f_name := Some (take (nat nlen) fn)\<rparr>, True))"

definition setUUID :: "(string \<Rightarrow> uuid option) \<Rightarrow> string \<Rightarrow> file_t \<Rightarrow> file_t \<times> bool" where
  "setUUID sgen s f = (case sgen s of None \<Rightarrow> (f, False) | Some u \<Rightarrow> (f\<lparr>f_uuid := u\<rparr>, True))"

definition setTimeStamps :: "int \<Rightarrow> int \<Rightarrow> int \<Rightarrow> int \<Rightarrow> file_t \<Rightarrow> file_t" where
  "setTimeStamps ct mt at tct f =
     f\<lparr>f_ctime := ct, f_atime := at, f_mtime := mt, f_tctime := tct\<rparr>"

definition setVersion :: "int \<Rightarrow> file_t \<Rightarrow> file_t" where
  "setVersion ver f = f\<lparr>f_version := ver\<rparr>"

definition setStagedInfo :: "nat \<Rightarrow> coding_meta \<Rightarrow> string \<Rightarrow> int \<Rightarrow> file_t \<Rightarrow> file_t" where
  "setStagedInfo sz cmeta sc ts f =
     f\<lparr>f_staged := (f_staged f)\<lparr>st_size := sz,
         st_codingMeta := codingMeta_copyMeta cmeta False (st_codingMeta (f_staged f)),
         st_storageClass := sc, st_mtime := ts\<rparr>\<rparr>"

definition genUUID :: "namegen \<Rightarrow> file_t \<Rightarrow> file_t" where
  "genUUID gen f = f\<lparr>f_uuid := gen (cstr (f_name f))\<rparr>"

definition copyName :: "namegen \<Rightarrow> (int \<Rightarrow> bool) \<Rightarrow> file_t \<Rightarrow> bool \<Rightarrow> file_t \<Rightarrow> file_t \<times> bool" where
  "copyName gen mallocOk src shadow f =
     (if shadow
      then (genUUID gen (f\<lparr>f_nameLength := f_nameLength src, f_name := f_name src,
                           f_namespaceId := f_namespaceId src\<rparr>), True)
      else let f1 = f\<lparr>f_nameLength := f_nameLength src\<rparr> in
        if \<not> mallocOk (f_nameLength src + 1) then (f1\<lparr>f_name := None\<rparr>, False)
        else (genUUID gen (f1\<lparr>f_name := Some (take (nat (f_nameLength src)) (cstr (f_name src))),
                              f_namespaceId := f_namespaceId src\<rparr>), True))"

definition copyNameFromInfo :: "(int \<Rightarrow> bool) \<Rightarrow> file_info \<Rightarrow> bool \<Rightarrow> file_t \<Rightarrow> file_t \<times> bool" where
  "copyNameFromInfo mallocOk src shadow f =
     (if \<not> shadow \<and> \<not> mallocOk (i_nameLength src + 1) then (f\<lparr>f_name := None\<rparr>, False)
      else (f\<lparr>f_name := (if shadow then i_name src
                          else Some (take (nat (i_nameLength src)) (cstr (i_name src)))),
              f_namespaceId := i_namespaceId src, f_nameLength := i_nameLength src,
              f_version := i_version src\<rparr>, True))"

definition copyNameToInfo :: "(int \<Rightarrow> bool) \<Rightarrow> file_t \<Rightarrow> bool \<Rightarrow> file_info \<Rightarrow> file_info \<times> bool" where
  "copyNameToInfo mallocOk f shadow out =
     (if \<not> shadow \<and> \<not> mallocOk (f_nameLength f + 1) then (out\<lparr>i_name := None\<rparr>, False)
      else (out\<lparr>i_name := (if shadow then f_name f
                           else Some (take (nat (f_nameLength f)) (cstr (f_name f)))),
                i_namespaceId := f_namespaceId f, i_nameLength := f_nameLength f,
                i_version := f_version f\<rparr>, True))"

definition file_copySize :: "file_t \<Rightarrow> file_t \<Rightarrow> file_t" where
  "file_copySize src f = f\<lparr>f_size := f_size src\<rparr>"

definition copyTimeStamps :: "file_t \<Rightarrow> file_t \<Rightarrow> file_t" where
  "copyTimeStamps src f =
     f\<lparr>f_ctime := f_ctime src, f_atime := f_atime src, f_mtime := f_mtime src, f_tctime := f_tctime src\<rparr>"

definition copyFileChecksum :: "file_t \<Rightarrow> file_t \<Rightarrow> file_t" where
  "copyFileChecksum src f = f\<lparr>f_md5 := f_md5 src\<rparr>"

definition copyVersionControlInfo :: "file_t \<Rightarrow> file_t \<Rightarrow> file_t" where
  "copyVersionControlInfo src f = f\<lparr>f_version := f_version src\<rparr>"

definition copyStoragePolicy :: "file_t \<Rightarrow> file_t \<Rightarrow> file_t" where
  "copyStoragePolicy src f =
     f\<lparr>f_storageClass := f_storageClass src,
       f_codingMeta := codingMeta_copyMeta (f_codingMeta src) True (f_codingMeta f)\<rparr>"

text \<open>
  \<^verbatim>\<open>initChunksAndContainerIds\<close>: \<open>newOk\<close> tells whether the array allocations succeed; on
  \<^verbatim>\<open>std::bad_alloc\<close> the arrays are dropped and the chunk count is left alone.
\<close>

definition initChunksAndContainerIds ::
  "(nat \<Rightarrow> int) \<Rightarrow> bool \<Rightarrow> int \<Rightarrow> file_t \<Rightarrow> file_t \<times> bool" where
  "initChunksAndContainerIds junk newOk num0 f =
     (let num = (if num0 = -1 then f_numChunks f else num0)
      in if num < 0 then (f, False)
         else if \<not> newOk
         then (f\<lparr>f_containerIds := [], f_chunks := [], f_chunksCorrupted := []\<rparr>, False)
         else (f\<lparr>f_containerIds := map junk [0..<nat num],
                 f_chunks := replicate (nat num) chunk_reset,
                 f_chunksCorrupted := replicate (nat num) False,
                 f_numChunks := num\<rparr>, True))"

definition copyChunkInfo :: "(nat \<Rightarrow> int) \<Rightarrow> file_t \<Rightarrow> bool \<Rightarrow> file_t \<Rightarrow> file_t" where
  "copyChunkInfo junk src shadow f =
     (let f1 = f\<lparr>f_numChunks := f_numChunks src\<rparr>
      in if shadow
         then f1\<lparr>f_containerIds := f_containerIds src, f_chunks := f_chunks src,
                 f_chunksCorrupted := f_chunksCorrupted src\<rparr>
         else let f2 = fst (initChunksAndContainerIds junk True (f_numChunks f1) f1);
                  n = nat (f_numChunks f1)
              in f2\<lparr>f_containerIds := take n (f_containerIds src),
                    f_chunksCorrupted := take n (f_chunksCorrupted src),
                    f_chunks := map2 (\<lambda>s c. chunk_copyMeta s True c) (take n (f_chunks src)) (f_chunks f2)\<rparr>)"

definition copyStagedInfo :: "file_t \<Rightarrow> file_t \<Rightarrow> file_t" where
  "copyStagedInfo src f = f\<lparr>f_staged := f_staged src\<rparr>"

definition copyOperationDataRange :: "file_t \<Rightarrow> file_t \<Rightarrow> file_t" where
  "copyOperationDataRange src f = f\<lparr>f_offset := f_offset src, f_length := f_length src\<rparr>"

definition copyOperationBenchmarkInfo :: "file_t \<Rightarrow> file_t \<Rightarrow> file_t" where
  "copyOperationBenchmarkInfo src f = f\<lparr>f_blockId := f_blockId src, f_stripeId := f_stripeId src\<rparr>"

definition copyNameAndSize :: "namegen \<Rightarrow> (int \<Rightarrow> bool) \<Rightarrow> file_t \<Rightarrow> file_t \<Rightarrow> file_t" where
  "copyNameAndSize gen mallocOk src f =
     (let f1 = fst (copyName gen mallocOk src False f);
          f2 = copyTimeStamps src (file_copySize src f1)
      in f2\<lparr>f_reqId := f_reqId src, f_md5 := f_md5 src\<rparr>)"

definition copyAllMeta :: "namegen \<Rightarrow> (int \<Rightarrow> bool) \<Rightarrow> (nat \<Rightarrow> int) \<Rightarrow> file_t \<Rightarrow> file_t \<Rightarrow> file_t" where
  "copyAllMeta gen mallocOk junk src f =
     (let f1 = fst (copyName gen mallocOk src False f);
          f2 = file_copySize src f1;
          f3 = copyFileChecksum src f2;
          f4 = copyTimeStamps src f3;
          f5 = copyVersionControlInfo src f4;
          f6 = copyChunkInfo junk src False f5;
          f7 = copyStoragePolicy src f6;
          f8 = f7\<lparr>f_codingMeta := codingMeta_copyMeta (f_codingMeta src) False (f_codingMeta f7)\<rparr>;
          f9 = copyStagedInfo src f8
      in copyOperationDataRange src f9)"

definition resetStagingStoragePolicy :: "file_t \<Rightarrow> file_t" where
  "resetStagingStoragePolicy f =
     f\<lparr>f_staged := (f_staged f)\<lparr>st_storageClass := [], st_codingMeta := codingMeta_reset\<rparr>\<rparr>"

text \<open>
  \<^verbatim>\<open>File::reset\<close>.  Three members keep what they had: \<^verbatim>\<open>isDeleted\<close> has no initialiser at all, the
  coding metadata and the storage class have constructors of their own.
\<close>

definition file_reset :: "file_t \<Rightarrow> file_t" where
  "file_reset f =
     (let f1 = f\<lparr>f_namespaceId := INVALID_NAMESPACE_ID, f_uuid := 0, f_name := None, f_nameLength := 0,
                 f_size := 0, f_version := -1, f_numStripes := 0, f_offset := INVALID_FILE_OFFSET,
                 f_length := INVALID_FILE_OFFSET, f_data := None, f_mmapped := False, f_numChunks := 0,
                 f_containerIds := [], f_chunksCorrupted := [], f_chunks := [],
                 f_ctime := 0, f_atime := 0, f_mtime := 0, f_tctime := 0, f_status := NONE,
                 f_md5 := replicate MD5_DIGEST_LENGTH 0\<rparr>;
          f2 = resetStagingStoragePolicy f1
      in f2\<lparr>f_reqId := -1, f_blockId := -1, f_stripeId := -1, f_isFinalStripe := False,
            f_staged := (f_staged f2)\<lparr>st_size := INVALID_FILE_OFFSET, st_mtime := 0\<rparr>\<rparr>)"

text \<open>A newly constructed file; \<open>d\<close> is the indeterminate value of \<^verbatim>\<open>isDeleted\<close>.\<close>

definition new_file :: "bool \<Rightarrow> file_t" where
  "new_file d = file_reset
     \<lparr>f_namespaceId = 0, f_uuid = 0, f_name = None, f_nameLength = 0, f_size = 0, f_version = 0,
      f_ctime = 0, f_atime = 0, f_mtime = 0, f_tctime = 0, f_status = NONE, f_md5 = [],
      f_isDeleted = d, f_numStripes = 0, f_numChunks = 0, f_containerIds = [], f_chunks = [],
      f_chunksCorrupted = [], f_codingMeta = codingMeta_reset, f_storageClass = [],
      f_staged = \<lparr>st_size = 0, st_codingMeta = codingMeta_reset, st_storageClass = [], st_mtime = 0\<rparr>,
      f_offset = 0, f_length = 0, f_data = None, f_mmapped = False, f_blockId = 0, f_stripeId = 0,
      f_isFinalStripe = False, f_reqId = 0\<rparr>"

definition version_info_reset :: "version_info \<Rightarrow> version_info" where
  "version_info_reset v =
     v\<lparr>v_size := 0, v_mtime := 0, v_md5 := replicate MD5_DIGEST_LENGTH 0, v_isDeleted := False,
       v_numChunks := 0\<rparr>"

definition file_info_reset :: "file_info \<Rightarrow> file_info" where
  "file_info_reset i =
     i\<lparr>i_name := None, i_nameLength := 0, i_size := 0, i_namespaceId := INVALID_NAMESPACE_ID,
       i_ctime := 0, i_atime := 0, i_mtime := 0, i_status := NONE,
       i_md5 := replicate MD5_DIGEST_LENGTH 0, i_numChunks := 0, i_numVersions := 0,
       i_versions := [], i_isDeleted := False\<rparr>"

text \<open>Well-formed files: the three arrays have the length the chunk count says.\<close>

definition file_wf :: "file_t \<Rightarrow> bool" where
  "file_wf f \<longleftrightarrow> 0 \<le> f_numChunks f \<and> length (f_containerIds f) = nat (f_numChunks f)
     \<and> length (f_chunks f) = nat (f_numChunks f) \<and> length (f_chunksCorrupted f) = nat (f_numChunks f)"

definition named_file :: "file_t \<Rightarrow> bool" where
  "named_file f \<longleftrightarrow> (\<exists>s. f_name f = Some s \<and> int (length s) = f_nameLength f)"

lemmas file_defs = copyName_def genUUID_def file_copySize_def copyTimeStamps_def copyFileChecksum_def
  copyVersionControlInfo_def copyChunkInfo_def copyStoragePolicy_def copyStagedInfo_def
  copyOperationDataRange_def initChunksAndContainerIds_def Let_def

subsection \<open>Properties\<close>

lemma new_file_wf: "file_wf (new_file d)"
  by (simp add: new_file_def file_reset_def resetStagingStoragePolicy_def file_wf_def Let_def)

lemma initChunks_wf:
  assumes "initChunksAndContainerIds junk newOk num f = (g, True)"
  shows "file_wf g" and "list_all (\<lambda>c. c = chunk_reset) (f_chunks g)" and "\<not> list_ex id (f_chunksCorrupted g)"
  using assms by (auto simp: initChunksAndContainerIds_def file_wf_def list_all_iff list_ex_iff
      Let_def split: if_splits)

lemma initChunks_fail_iff:
  "snd (initChunksAndContainerIds junk newOk num f) \<longleftrightarrow>
     newOk \<and> 0 \<le> (if num = -1 then f_numChunks f else num)"
  by (auto simp: initChunksAndContainerIds_def Let_def)

lemma map2_copyMeta_reset:
  assumes "length xs = n"
  shows "map2 (\<lambda>s c. chunk_copyMeta s True c) xs (replicate n chunk_reset)
     = map (\<lambda>s. chunk_copyMeta s True chunk_reset) xs"
  using assms by (induction xs arbitrary: n) auto

lemma copyChunkInfo_wf: "file_wf src \<Longrightarrow> file_wf (copyChunkInfo junk src sh f)"
  by (auto simp: file_wf_def copyChunkInfo_def initChunksAndContainerIds_def Let_def)

text \<open>
  \<^verbatim>\<open>copyAllMeta\<close> produces a well-formed file that agrees with its source on the name, the size,
  the checksum, the timestamps, the version, the container of every chunk, the corruption marks, the
  storage class, the coding parameters, the staging record and the operation range; its chunks carry
  the metadata of the source's chunks and none of their data.
\<close>

theorem copyAllMeta_copies_metadata:
  assumes "file_wf src" and "named_file src" and "mallocOk (f_nameLength src + 1)"
  shows "let g = copyAllMeta gen mallocOk junk src f in
     file_wf g \<and> f_name g = f_name src \<and> f_nameLength g = f_nameLength src
     \<and> f_namespaceId g = f_namespaceId src \<and> f_uuid g = gen (cstr (f_name src))
     \<and> f_size g = f_size src \<and> f_md5 g = f_md5 src
     \<and> f_ctime g = f_ctime src \<and> f_atime g = f_atime src \<and> f_mtime g = f_mtime src
     \<and> f_tctime g = f_tctime src \<and> f_version g = f_version src
     \<and> f_containerIds g = f_containerIds src \<and> f_chunksCorrupted g = f_chunksCorrupted src
     \<and> f_chunks g = map (\<lambda>c. chunk_copyMeta c True chunk_reset) (f_chunks src)
     \<and> f_storageClass g = f_storageClass src \<and> f_staged g = f_staged src
     \<and> cm_n (f_codingMeta g) = cm_n (f_codingMeta src) \<and> cm_k (f_codingMeta g) = cm_k (f_codingMeta src)
     \<and> cm_coding (f_codingMeta g) = cm_coding (f_codingMeta src)
     \<and> f_offset g = f_offset src \<and> f_length g = f_length src \<and> f_data g = f_data f"
  using assms
  by (auto simp: copyAllMeta_def file_defs file_wf_def named_file_def codingMeta_copyMeta_def
      map2_copyMeta_reset)

theorem copyAllMeta_copies_metadata_witness:
  "let src = (new_file False)\<lparr>f_name := Some ''ab'', f_nameLength := 2, f_numChunks := 1,
       f_containerIds := [4], f_chunks := [setChunkId 3 chunk_reset], f_chunksCorrupted := [True]\<rparr>
   in file_wf src \<and> named_file src \<and>
      f_containerIds (copyAllMeta (\<lambda>_. 9) (\<lambda>_. True) (\<lambda>_. 0) src (new_file True)) = [4]"
proof -
  let ?src = "(new_file False)\<lparr>f_name := Some ''ab'', f_nameLength := 2, f_numChunks := 1,
       f_containerIds := [4], f_chunks := [setChunkId 3 chunk_reset], f_chunksCorrupted := [True]\<rparr>"
  have wf: "file_wf ?src" and nm: "named_file ?src"
    by (simp_all add: file_wf_def named_file_def)
  show ?thesis
    using wf nm copyAllMeta_copies_metadata
      [OF wf nm, of "\<lambda>_. True" "\<lambda>_. 9" "\<lambda>_. 0" "new_file True"]
    by (simp add: Let_def)
qed

text \<open>A name is accepted exactly when its length is between 1 and \<^verbatim>\<open>PATH_MAX\<close>.\<close>

lemma setName_accepts:
  assumes "\<And>n. mallocOk n"
  shows "snd (setName mallocOk fn nlen f) \<longleftrightarrow> 0 < nlen \<and> nlen \<le> PATH_MAX"
    and "0 < nlen \<Longrightarrow> nlen \<le> PATH_MAX \<Longrightarrow> nlen = int (length fn)
         \<Longrightarrow> named_file (fst (setName mallocOk fn nlen f))"
  using assms by (auto simp: setName_def named_file_def)

text \<open>Copying a name into an info record and back restores it.\<close>

lemma copyName_info_roundtrip:
  assumes "named_file f" and "\<And>n. mallocOk n"
  shows "let i = fst (copyNameToInfo mallocOk f False out);
             g = fst (copyNameFromInfo mallocOk i False h)
         in f_name g = f_name f \<and> f_namespaceId g = f_namespaceId f \<and> f_version g = f_version f"
  using assms by (auto simp: copyNameToInfo_def copyNameFromInfo_def named_file_def Let_def)

end
