(* ===== verification/Ring_Buffer.thy ===== *)
theory Ring_Buffer
  imports Nexo_Prelude
begin

text \<open>
  The blocking ring buffer of \<^verbatim>\<open>src/ds/ring_buffer.hh\<close>, used by the statistics saver as its queue of
  pending records.  The bodies of the critical sections are functions on the buffer; the threads that
  call \<^verbatim>\<open>Insert\<close> and \<^verbatim>\<open>Extract\<close>, with their condition variables, are a step relation over them.  A
  slot of the array is \<open>None\<close> until it is first written.
\<close>

record 'a ring =
  r_buffer :: "(int \<times> 'a) option list"
  r_readIndex :: nat
  r_writeIndex :: nat
  r_count :: int
  r_max :: nat
  r_run :: bool
  r_blockOnEmpty :: bool

definition new_ring :: "int \<Rightarrow> bool \<Rightarrow> 'a ring" where
  "new_ring n block =
     (let sz = nat (if n < 2 then 2 else n)
      in \<lparr>r_buffer = replicate sz None, r_readIndex = 0, r_writeIndex = 0, r_count = 0, r_max = sz,
          r_run = True, r_blockOnEmpty = block\<rparr>)"

definition nextVal :: "'a ring \<Rightarrow> nat \<Rightarrow> nat" where
  "nextVal q x = (if x + 1 \<ge> r_max q then 0 else x + 1)"

text \<open>What \<^verbatim>\<open>Insert\<close> and \<^verbatim>\<open>Extract\<close> do once they hold the mutex and do not (or no longer) wait.\<close>

definition ring_insert :: "int \<times> 'a \<Rightarrow> 'a ring \<Rightarrow> 'a ring" where
  "ring_insert x q =
     q\<lparr>r_buffer := (r_buffer q)[r_writeIndex q := Some x],
       r_writeIndex := nextVal q (r_writeIndex q), r_count := r_count q + 1\<rparr>"

definition ring_extract :: "'a ring \<Rightarrow> (int \<times> 'a) option \<times> 'a ring" where
  "ring_extract q =
     (r_buffer q ! r_readIndex q,
      q\<lparr>r_readIndex := nextVal q (r_readIndex q), r_count := r_count q - 1\<rparr>)"

definition ring_stop :: "'a ring \<Rightarrow> 'a ring" where
  "ring_stop q = q\<lparr>r_run := False\<rparr>"

definition highWaterMark :: "'a ring \<Rightarrow> bool" where
  "highWaterMark q \<longleftrightarrow> r_count q + 1 \<ge> int (r_max q)"

text \<open>
  The threads: producers blocked on \<^verbatim>\<open>cvFull\<close> with the record they want to insert, producers that
  were signalled and have not run yet, and the same for consumers on \<^verbatim>\<open>cvEmpty\<close>.  A signal moves one
  blocked thread to the signalled ones; a signalled thread continues after \<^verbatim>\<open>pthread_cond_wait\<close>
  without testing the count again (the source waits under \<^verbatim>\<open>if\<close>).  \<open>out\<close> lists what was extracted.
\<close>

record 'a rsys =
  s_ring :: "'a ring"
  s_waitFull :: "(int \<times> 'a) list"
  s_wokenFull :: "(int \<times> 'a) list"
  s_waitEmpty :: nat
  s_wokenEmpty :: nat
  s_out :: "(int \<times> 'a) option list"

definition signalFull :: "'a rsys \<Rightarrow> 'a rsys" where
  "signalFull s = (case s_waitFull s of [] \<Rightarrow> s
     | w # ws \<Rightarrow> s\<lparr>s_waitFull := ws, s_wokenFull := s_wokenFull s @ [w]\<rparr>)"

definition signalEmpty :: "'a rsys \<Rightarrow> 'a rsys" where
  "signalEmpty s = (if s_waitEmpty s = 0 then s
     else s\<lparr>s_waitEmpty := s_waitEmpty s - 1, s_wokenEmpty := s_wokenEmpty s + 1\<rparr>)"

definition do_insert :: "int \<times> 'a \<Rightarrow> 'a rsys \<Rightarrow> 'a rsys" where
  "do_insert x s = signalEmpty (s\<lparr>s_ring := ring_insert x (s_ring s)\<rparr>)"

definition do_extract :: "'a rsys \<Rightarrow> 'a rsys" where
  "do_extract s =
     (let (r, q) = ring_extract (s_ring s)
      in signalFull (s\<lparr>s_ring := q, s_out := s_out s @ [r]\<rparr>))"

inductive ring_step :: "'a rsys \<Rightarrow> 'a rsys \<Rightarrow> bool" where
  insert_run: "r_count (s_ring s) \<noteq> int (r_max (s_ring s)) \<Longrightarrow> ring_step s (do_insert x s)"
| insert_wait: "r_count (s_ring s) = int (r_max (s_ring s))
     \<Longrightarrow> ring_step s (s\<lparr>s_waitFull := s_waitFull s @ [x]\<rparr>)"
| insert_resume: "s_wokenFull s = x # xs \<Longrightarrow> ring_step s (do_insert x (s\<lparr>s_wokenFull := xs\<rparr>))"
| extract_run: "r_count (s_ring s) \<noteq> 0 \<Longrightarrow> ring_step s (do_extract s)"
| extract_none: "r_count (s_ring s) = 0 \<Longrightarrow> \<not> r_blockOnEmpty (s_ring s) \<Longrightarrow> ring_step s (signalFull s)"
| extract_wait: "r_count (s_ring s) = 0 \<Longrightarrow> r_blockOnEmpty (s_ring s)
     \<Longrightarrow> ring_step s (s\<lparr>s_waitEmpty := s_waitEmpty s + 1\<rparr>)"
| extract_resume: "s_wokenEmpty s = Suc n \<Longrightarrow> ring_step s (do_extract (s\<lparr>s_wokenEmpty := n\<rparr>))"

text \<open>
  One producer and one consumer: a thread starts a new call only when its previous one has returned.
  A step is labelled with what it inserts.
\<close>

inductive spsc_step :: "'a rsys \<Rightarrow> (int \<times> 'a) list \<Rightarrow> 'a rsys \<Rightarrow> bool" where
  p_run: "s_waitFull s = [] \<Longrightarrow> s_wokenFull s = [] \<Longrightarrow> r_count (s_ring s) \<noteq> int (r_max (s_ring s))
     \<Longrightarrow> spsc_step s [x] (do_insert x s)"
| p_wait: "s_waitFull s = [] \<Longrightarrow> s_wokenFull s = [] \<Longrightarrow> r_count (s_ring s) = int (r_max (s_ring s))
     \<Longrightarrow> spsc_step s [] (s\<lparr>s_waitFull := s_waitFull s @ [x]\<rparr>)"
| p_resume: "s_wokenFull s = x # xs \<Longrightarrow> spsc_step s [x] (do_insert x (s\<lparr>s_wokenFull := xs\<rparr>))"
| c_run: "s_waitEmpty s = 0 \<Longrightarrow> s_wokenEmpty s = 0 \<Longrightarrow> r_count (s_ring s) \<noteq> 0
     \<Longrightarrow> spsc_step s [] (do_extract s)"
| c_none: "s_waitEmpty s = 0 \<Longrightarrow> s_wokenEmpty s = 0 \<Longrightarrow> r_count (s_ring s) = 0
     \<Longrightarrow> \<not> r_blockOnEmpty (s_ring s) \<Longrightarrow> spsc_step s [] (signalFull s)"
| c_wait: "s_waitEmpty s = 0 \<Longrightarrow> s_wokenEmpty s = 0 \<Longrightarrow> r_count (s_ring s) = 0
     \<Longrightarrow> r_blockOnEmpty (s_ring s) \<Longrightarrow> spsc_step s [] (s\<lparr>s_waitEmpty := s_waitEmpty s + 1\<rparr>)"
| c_resume: "s_wokenEmpty s = Suc n \<Longrightarrow> spsc_step s [] (do_extract (s\<lparr>s_wokenEmpty := n\<rparr>))"

definition new_rsys :: "int \<Rightarrow> bool \<Rightarrow> 'a rsys" where
  "new_rsys n block =
     \<lparr>s_ring = new_ring n block, s_waitFull = [], s_wokenFull = [], s_waitEmpty = 0,
      s_wokenEmpty = 0, s_out = []\<rparr>"

inductive spsc_reach :: "int \<Rightarrow> bool \<Rightarrow> (int \<times> 'a) list \<Rightarrow> 'a rsys \<Rightarrow> bool" where
  reach_start: "spsc_reach n b [] (new_rsys n b)"
| reach_step: "spsc_reach n b xs s \<Longrightarrow> spsc_step s ys t \<Longrightarrow> spsc_reach n b (xs @ ys) t"

text \<open>The queue a ring stands for, and its invariant.\<close>

definition ring_items :: "'a ring \<Rightarrow> (int \<times> 'a) option list" where
  "ring_items q = map (\<lambda>i. r_buffer q ! ((r_readIndex q + i) mod r_max q)) [0..<nat (r_count q)]"

definition ring_inv :: "'a ring \<Rightarrow> bool" where
  "ring_inv q \<longleftrightarrow> 2 \<le> r_max q \<and> length (r_buffer q) = r_max q \<and> r_readIndex q < r_max q
     \<and> 0 \<le> r_count q \<and> r_count q \<le> int (r_max q)
     \<and> r_writeIndex q = (r_readIndex q + nat (r_count q)) mod r_max q"

definition spsc_inv :: "'a rsys \<Rightarrow> bool" where
  "spsc_inv s \<longleftrightarrow> ring_inv (s_ring s)
     \<and> (s_wokenFull s \<noteq> [] \<longrightarrow> r_count (s_ring s) < int (r_max (s_ring s)))
     \<and> (s_waitFull s \<noteq> [] \<longrightarrow> r_count (s_ring s) = int (r_max (s_ring s)))
     \<and> length (s_waitFull s @ s_wokenFull s) \<le> 1
     \<and> (0 < s_wokenEmpty s \<longrightarrow> 0 < r_count (s_ring s))
     \<and> (0 < s_waitEmpty s \<longrightarrow> r_count (s_ring s) = 0)
     \<and> s_waitEmpty s + s_wokenEmpty s \<le> 1"

text \<open>\<open>n\<close> extractions in a row.\<close>

primrec drain :: "('q \<Rightarrow> 'y \<times> 'q) \<Rightarrow> nat \<Rightarrow> 'q \<Rightarrow> 'y list" where
  "drain ext 0 q = []"
| "drain ext (Suc n) q = fst (ext q) # drain ext n (snd (ext q))"

subsection \<open>The interface of a bounded queue\<close>

locale bounded_fifo =
  fixes ins :: "'x \<Rightarrow> 'q \<Rightarrow> 'q"
    and ext :: "'q \<Rightarrow> 'y \<times> 'q"
    and mark :: "'x \<Rightarrow> 'y"
    and items :: "'q \<Rightarrow> 'y list"
    and cap :: "'q \<Rightarrow> nat"
    and inv :: "'q \<Rightarrow> bool"
  assumes ins_inv: "inv q \<Longrightarrow> length (items q) < cap q \<Longrightarrow> inv (ins x q)"
    and ins_items: "inv q \<Longrightarrow> length (items q) < cap q \<Longrightarrow> items (ins x q) = items q @ [mark x]"
    and ins_cap: "cap (ins x q) = cap q"
    and ext_inv: "inv q \<Longrightarrow> items q \<noteq> [] \<Longrightarrow> inv (snd (ext q))"
    and ext_items: "inv q \<Longrightarrow> items q \<noteq> [] \<Longrightarrow> items q = fst (ext q) # items (snd (ext q))"
    and ext_cap: "cap (snd (ext q)) = cap q"
begin

lemma fold_ins:
  assumes "inv q" and "length (items q) + length xs \<le> cap q"
  shows "inv (fold ins xs q) \<and> items (fold ins xs q) = items q @ map mark xs \<and> cap (fold ins xs q) = cap q"
  using assms
proof (induction xs arbitrary: q)
  case (Cons x xs)
  then have "length (items q) < cap q" by simp
  with Cons.prems(1) have q': "inv (ins x q)" "items (ins x q) = items q @ [mark x]"
    by (simp_all add: ins_inv ins_items)
  with Cons.prems(2) have "length (items (ins x q)) + length xs \<le> cap (ins x q)"
    by (simp add: ins_cap)
  from Cons.IH [OF q'(1) this] show ?case
    by (simp add: q'(2) ins_cap)
qed simp

lemma drain_items: "inv q \<Longrightarrow> n \<le> length (items q) \<Longrightarrow> drain ext n q = take n (items q)"
proof (induction n arbitrary: q)
  case (Suc n)
  then have ne: "items q \<noteq> []" by auto
  note split = ext_items [OF Suc.prems(1) ne]
  from split have "length (items q) = Suc (length (items (snd (ext q))))"
    by (metis length_Cons)
  with Suc.prems have "n \<le> length (items (snd (ext q)))" by simp
  with Suc.IH ext_inv [OF Suc.prems(1) ne]
  have "drain ext n (snd (ext q)) = take n (items (snd (ext q)))" by simp
  then show ?case using split by (metis drain.simps(2) take_Suc_Cons)
qed simp

lemma fifo_order:
  assumes "inv q" and "items q = []" and "length xs \<le> cap q"
  shows "drain ext (length xs) (fold ins xs q) = map mark xs"
  using fold_ins [of q xs] assms drain_items by simp

end


subsection \<open>The ring implements the queue\<close>

lemma nextVal_mod: "x < r_max q \<Longrightarrow> nextVal q x = (x + 1) mod r_max q"
  by (cases "x + 1 = r_max q") (auto simp: nextVal_def)

lemma mod_shift_neq:
  fixes r i c m :: nat
  assumes "i < c" and "c < m"
  shows "(r + i) mod m \<noteq> (r + c) mod m"
proof
  assume "(r + i) mod m = (r + c) mod m"
  then have "m dvd (r + c) - (r + i)" by (metis mod_eq_dvd_iff_nat add_le_cancel_left assms(1) less_imp_le)
  then have "m dvd c - i" by simp
  with assms show False by (metis dvd_imp_le less_imp_diff_less not_less zero_less_diff)
qed

lemma ring_insert_inv:
  assumes "ring_inv q" and "r_count q < int (r_max q)"
  shows "ring_inv (ring_insert x q)"
  using assms by (auto simp: ring_inv_def ring_insert_def nextVal_mod nat_add_distrib mod_Suc_eq)

lemma ring_insert_items:
  assumes "ring_inv q" and "r_count q < int (r_max q)"
  shows "ring_items (ring_insert x q) = ring_items q @ [Some x]"
proof -
  let ?n = "nat (r_count q)"
  have n: "nat (r_count q + 1) = Suc ?n" and m: "?n < r_max q" "0 < r_max q"
    using assms by (auto simp: ring_inv_def)
  have w: "r_writeIndex q = (r_readIndex q + ?n) mod r_max q" "r_writeIndex q < length (r_buffer q)"
    using assms by (auto simp: ring_inv_def)
  have "(r_buffer q)[r_writeIndex q := Some x] ! ((r_readIndex q + i) mod r_max q)
      = r_buffer q ! ((r_readIndex q + i) mod r_max q)" if "i < ?n" for i
    using mod_shift_neq [OF that m(1)] w by (metis nth_list_update_neq)
  moreover have "(r_buffer q)[r_writeIndex q := Some x] ! ((r_readIndex q + ?n) mod r_max q) = Some x"
    using w by (metis nth_list_update_eq)
  ultimately show ?thesis
    by (simp add: ring_items_def ring_insert_def n)
qed

lemma ring_extract_inv:
  assumes "ring_inv q" and "0 < r_count q"
  shows "ring_inv (snd (ring_extract q))"
proof -
  have "nat (r_count q) = Suc (nat (r_count q - 1))" using assms(2) by simp
  then have "(r_readIndex q + nat (r_count q)) mod r_max q
      = (nextVal q (r_readIndex q) + nat (r_count q - 1)) mod r_max q"
    using assms(1) by (simp add: ring_inv_def nextVal_mod mod_add_left_eq)
  then show ?thesis
    using assms by (auto simp: ring_inv_def ring_extract_def nextVal_mod)
qed

lemma ring_extract_items:
  assumes "ring_inv q" and "0 < r_count q"
  shows "ring_items q = fst (ring_extract q) # ring_items (snd (ring_extract q))"
proof -
  have n: "nat (r_count q) = Suc (nat (r_count q - 1))" using assms(2) by simp
  have r: "r_readIndex q < r_max q" using assms(1) by (simp add: ring_inv_def)
  have "[0..<Suc (nat (r_count q - 1))] = 0 # map Suc [0..<nat (r_count q - 1)]"
    by (simp add: map_Suc_upt upt_conv_Cons del: upt_Suc)
  with r show ?thesis
    by (simp add: ring_items_def ring_extract_def n nextVal_mod mod_add_left_eq comp_def del: upt_Suc)
qed

lemma ring_items_length: "0 \<le> r_count q \<Longrightarrow> length (ring_items q) = nat (r_count q)"
  by (simp add: ring_items_def)

interpretation ringq: bounded_fifo ring_insert ring_extract Some ring_items r_max ring_inv
proof
  fix q :: "'a ring" and x
  assume q: "ring_inv q"
  then have len: "length (ring_items q) = nat (r_count q)" by (simp add: ring_items_length ring_inv_def)
  have room: "r_count q < int (r_max q)" if "length (ring_items q) < r_max q"
    using that len by linarith
  show "length (ring_items q) < r_max q \<Longrightarrow> ring_inv (ring_insert x q)"
    and "length (ring_items q) < r_max q \<Longrightarrow> ring_items (ring_insert x q) = ring_items q @ [Some x]"
    using q room ring_insert_inv ring_insert_items by blast+
  have pos: "0 < r_count q" if "ring_items q \<noteq> []" using that by (simp add: ring_items_def)
  show "ring_items q \<noteq> [] \<Longrightarrow> ring_inv (snd (ring_extract q))"
    and "ring_items q \<noteq> [] \<Longrightarrow> ring_items q = fst (ring_extract q) # ring_items (snd (ring_extract q))"
    using q pos ring_extract_inv ring_extract_items by blast+
qed (simp_all add: ring_insert_def ring_extract_def)

lemma new_ring_inv: "ring_inv (new_ring n b)" "ring_items (new_ring n b) = []"
  "2 \<le> r_max (new_ring n b)"
  by (auto simp: new_ring_def ring_inv_def ring_items_def Let_def)



subsection \<open>Producer and consumer threads\<close>

lemma ring_frame [simp]:
  "r_max (ring_insert x q) = r_max q" "r_count (ring_insert x q) = r_count q + 1"
  "r_max (snd (ring_extract q)) = r_max q" "r_count (snd (ring_extract q)) = r_count q - 1"
  by (simp_all add: ring_insert_def ring_extract_def)

lemma signal_frame [simp]:
  "s_ring (signalFull s) = s_ring s" "s_ring (signalEmpty s) = s_ring s"
  "s_out (signalFull s) = s_out s" "s_out (signalEmpty s) = s_out s"
  "s_waitEmpty (signalFull s) = s_waitEmpty s" "s_wokenEmpty (signalFull s) = s_wokenEmpty s"
  "s_waitFull (signalEmpty s) = s_waitFull s" "s_wokenFull (signalEmpty s) = s_wokenFull s"
  by (auto simp: signalFull_def signalEmpty_def split: list.splits)

lemma do_insert_inv:
  assumes "ring_inv (s_ring s)" and "r_count (s_ring s) < int (r_max (s_ring s))"
    and "s_waitFull s = []" and "s_wokenFull s = []" and "s_waitEmpty s + s_wokenEmpty s \<le> 1"
    and "0 < s_waitEmpty s \<longrightarrow> r_count (s_ring s) = 0"
  shows "spsc_inv (do_insert x s)"
proof -
  have "0 \<le> r_count (s_ring s)" using assms(1) by (simp add: ring_inv_def)
  with assms ring_insert_inv [OF assms(1,2), of x] show ?thesis
    by (auto simp: spsc_inv_def do_insert_def signalEmpty_def split: if_splits)
qed

lemma do_extract_inv:
  assumes "ring_inv (s_ring s)" and "0 < r_count (s_ring s)"
    and "s_waitEmpty s = 0" and "s_wokenEmpty s = 0" and "length (s_waitFull s @ s_wokenFull s) \<le> 1"
    and "s_waitFull s \<noteq> [] \<longrightarrow> r_count (s_ring s) = int (r_max (s_ring s))"
  shows "spsc_inv (do_extract s)"
proof -
  have le: "r_count (s_ring s) \<le> int (r_max (s_ring s))" using assms(1) by (simp add: ring_inv_def)
  obtain r q where e: "ring_extract (s_ring s) = (r, q)" by (cases "ring_extract (s_ring s)")
  have q: "ring_inv q" "r_max q = r_max (s_ring s)" "r_count q = r_count (s_ring s) - 1"
    using ring_extract_inv [OF assms(1,2)] ring_frame(3,4) [of "s_ring s"] e by simp_all
  show ?thesis
    using assms(2-6) le q
    by (auto simp: spsc_inv_def do_extract_def e signalFull_def Let_def split: list.splits if_splits)
qed

lemma spsc_step_inv: "spsc_step s xs t \<Longrightarrow> spsc_inv s \<Longrightarrow> spsc_inv t"
proof (induction rule: spsc_step.induct)
  case (p_run s x)
  then show ?case by (intro do_insert_inv) (auto simp: spsc_inv_def ring_inv_def)
next
  case (p_wait s x)
  then show ?case by (auto simp: spsc_inv_def)
next
  case (p_resume s x xs)
  then have "xs = []" "s_waitFull s = []" by (auto simp: spsc_inv_def)
  with p_resume show ?case by (intro do_insert_inv) (auto simp: spsc_inv_def)
next
  case (c_run s)
  then show ?case by (intro do_extract_inv) (auto simp: spsc_inv_def ring_inv_def)
next
  case (c_none s)
  then have "s_waitFull s = []" by (auto simp: spsc_inv_def ring_inv_def)
  with c_none show ?case by (simp add: signalFull_def)
next
  case (c_wait s)
  then show ?case by (auto simp: spsc_inv_def)
next
  case (c_resume s n)
  then have "n = 0" "s_waitEmpty s = 0" by (auto simp: spsc_inv_def)
  with c_resume show ?case by (intro do_extract_inv) (auto simp: spsc_inv_def)
qed

lemma do_insert_history:
  assumes "ring_inv (s_ring s)" and "r_count (s_ring s) < int (r_max (s_ring s))"
  shows "s_out (do_insert x s) @ ring_items (s_ring (do_insert x s))
     = (s_out s @ ring_items (s_ring s)) @ [Some x]"
  using assms by (simp add: do_insert_def ring_insert_items)

lemma do_extract_history:
  assumes "ring_inv (s_ring s)" and "0 < r_count (s_ring s)"
  shows "s_out (do_extract s) @ ring_items (s_ring (do_extract s)) = s_out s @ ring_items (s_ring s)"
proof -
  obtain r q where e: "ring_extract (s_ring s) = (r, q)" by (cases "ring_extract (s_ring s)")
  with ring_extract_items [OF assms] show ?thesis by (simp add: do_extract_def e)
qed

lemma spsc_step_history:
  "spsc_step s xs t \<Longrightarrow> spsc_inv s \<Longrightarrow>
     s_out t @ ring_items (s_ring t) = (s_out s @ ring_items (s_ring s)) @ map Some xs"
proof (induction rule: spsc_step.induct)
  case (p_run s x)
  then have "ring_inv (s_ring s)" "r_count (s_ring s) < int (r_max (s_ring s))"
    by (auto simp: spsc_inv_def ring_inv_def)
  then show ?case by (simp only: do_insert_history list.map)
next
  case (p_resume s x xs)
  then show ?case
    using do_insert_history [of "s\<lparr>s_wokenFull := xs\<rparr>" x] by (simp add: spsc_inv_def)
next
  case (c_run s)
  then have "ring_inv (s_ring s)" "0 < r_count (s_ring s)" by (auto simp: spsc_inv_def ring_inv_def)
  then show ?case by (simp only: do_extract_history list.map append_Nil2)
next
  case (c_resume s n)
  then show ?case
    using do_extract_history [of "s\<lparr>s_wokenEmpty := n\<rparr>"] by (simp add: spsc_inv_def)
qed simp_all

lemma spsc_reach_inv:
  "spsc_reach n b xs s \<Longrightarrow> spsc_inv s \<and> s_out s @ ring_items (s_ring s) = map Some xs"
proof (induction rule: spsc_reach.induct)
  case (reach_start n b)
  then show ?case by (simp add: new_rsys_def spsc_inv_def new_ring_inv)
next
  case (reach_step n b xs s ys t)
  then show ?case using spsc_step_inv spsc_step_history by (metis map_append)
qed



text \<open>
  With two producers the wait under \<^verbatim>\<open>if\<close> lets the buffer overflow: a state is reachable in which
  the count exceeds the capacity, so a record has been overwritten before it was extracted.
\<close>

theorem ring_buffer_two_producers_overflow:
  "\<exists>s :: string rsys. ring_step\<^sup>*\<^sup>* (new_rsys 2 True) s \<and> r_count (s_ring s) > int (r_max (s_ring s))"
proof -
  let ?s2 = "do_insert (0, ''b'') (do_insert (0, ''a'') (new_rsys 2 True)) :: string rsys"
  let ?s3 = "?s2\<lparr>s_waitFull := s_waitFull ?s2 @ [(0, ''c'')]\<rparr>"
  let ?s5 = "do_insert (0, ''d'') (do_extract ?s3)"
  let ?s6 = "do_insert (0, ''c'') (?s5\<lparr>s_wokenFull := []\<rparr>)"
  note d = do_insert_def do_extract_def signalEmpty_def signalFull_def ring_insert_def ring_extract_def
    nextVal_def new_rsys_def new_ring_def
  have "ring_step (new_rsys 2 True) (do_insert (0, ''a'') (new_rsys 2 True))"
    by (rule insert_run) (simp add: d)
  then have "ring_step\<^sup>*\<^sup>* (new_rsys 2 True) (do_insert (0, ''a'') (new_rsys 2 True))"
    by (rule r_into_rtranclp)
  also have "ring_step (do_insert (0, ''a'') (new_rsys 2 True)) ?s2"
    by (rule insert_run) (simp add: d)
  also have "ring_step ?s2 ?s3" by (rule insert_wait) (simp add: d)
  also have "ring_step ?s3 (do_extract ?s3)" by (rule extract_run) (simp add: d)
  also have "ring_step (do_extract ?s3) ?s5" by (rule insert_run) (simp add: d)
  also have "ring_step ?s5 ?s6" by (rule insert_resume) (simp add: d)
  finally show ?thesis by (intro exI conjI) (assumption, simp add: d)
qed

end
