(* ===== verification/Url_Codec.thy ===== *)
theory Url_Codec
  imports Nexo_Prelude
begin

text \<open>
  URL encoding and decoding of \<^verbatim>\<open>Util\<close> (\<^verbatim>\<open>src/common/util.hh\<close>), and the message direction tests of
  the same class.  The two constant maps are association lists in the order of the source.
\<close>

datatype MessageDirection = PROXY_TO_AGENT | AGENT_TO_PROXY | AGENT_TO_AGENT | UNKNOWN_MSG_DIRECTION

definition isMsgFromProxy :: "MessageDirection \<Rightarrow> bool" where
  "isMsgFromProxy d \<longleftrightarrow> d = PROXY_TO_AGENT"

definition isMsgFromAgent :: "MessageDirection \<Rightarrow> bool" where
  "isMsgFromAgent d \<longleftrightarrow> d = AGENT_TO_AGENT \<or> d = AGENT_TO_PROXY"

definition isMsgToAgent :: "MessageDirection \<Rightarrow> bool" where
  "isMsgToAgent d \<longleftrightarrow> d = AGENT_TO_AGENT \<or> d = PROXY_TO_AGENT"

definition isMsgToProxy :: "MessageDirection \<Rightarrow> bool" where
  "isMsgToProxy d \<longleftrightarrow> d = AGENT_TO_PROXY"

definition urlCharsToEncodeMap :: "(char \<times> string) list" where
  "urlCharsToEncodeMap =
  [(CHR 0x20, ''%20''), (CHR 0x21, ''%21''), (CHR 0x22, ''%22''), (CHR 0x23, ''%23''),
   (CHR 0x24, ''%24''), (CHR 0x25, ''%25''), (CHR 0x26, ''%26''), (CHR 0x27, ''%27''),
   (CHR 0x28, ''%28''), (CHR 0x29, ''%29''), (CHR 0x2A, ''%2A''), (CHR 0x2B, ''%2B''),
   (CHR 0x2C, ''%2C''), (CHR 0x2D, ''%2D''), (CHR 0x2E, ''%2E''), (CHR 0x2F, ''%2F''),
   (CHR 0x3A, ''%3A''), (CHR 0x3B, ''%3B''), (CHR 0x3C, ''%3C''), (CHR 0x3D, ''%3D''),
   (CHR 0x3E, ''%3E''), (CHR 0x3F, ''%3F''), (CHR 0x40, ''%40''), (CHR 0x5B, ''%5B''),
   (CHR 0x5C, ''%5C''), (CHR 0x5D, ''%5D''), (CHR 0x5E, ''%5E''), (CHR 0x5F, ''%5F''),
   (CHR 0x60, ''%60''), (CHR 0x7B, ''%7B''), (CHR 0x7C, ''%7C''), (CHR 0x7D, ''%7D''),
   (CHR 0x7E, ''%7E'')]"

definition urlCharsToDecodeMap :: "(string \<times> char) list" where
  "urlCharsToDecodeMap =
  [(''%20'', CHR 0x20), (''%21'', CHR 0x21), (''%22'', CHR 0x22), (''%23'', CHR 0x23),
   (''%24'', CHR 0x24), (''%25'', CHR 0x25), (''%26'', CHR 0x26), (''%27'', CHR 0x27),
   (''%28'', CHR 0x28), (''%29'', CHR 0x29), (''%2A'', CHR 0x2A), (''%2B'', CHR 0x2B),
   (''%2C'', CHR 0x2C), (''%2D'', CHR 0x2D), (''%2E'', CHR 0x2E), (''%2F'', CHR 0x2F),
   (''%3A'', CHR 0x3A), (''%3B'', CHR 0x3B), (''%3C'', CHR 0x3C), (''%3D'', CHR 0x3D),
   (''%3E'', CHR 0x3E), (''%3F'', CHR 0x3F), (''%40'', CHR 0x40), (''%5B'', CHR 0x5B),
   (''%5C'', CHR 0x5C), (''%5D'', CHR 0x5D), (''%5E'', CHR 0x5E), (''%5F'', CHR 0x5F),
   (''%60'', CHR 0x60), (''%7B'', CHR 0x7B), (''%7C'', CHR 0x7C), (''%7D'', CHR 0x7D),
   (''%7E'', CHR 0x7E)]"

primrec urlEncode :: "string \<Rightarrow> string" where
  "urlEncode [] = []"
| "urlEncode (c # cs) =
     (case map_of urlCharsToEncodeMap c of Some e \<Rightarrow> e | None \<Rightarrow> [c]) @ urlEncode cs"

text \<open>An escape sequence that is not in the table is skipped.\<close>

function urlDecode :: "string \<Rightarrow> string" where
  "urlDecode [] = []"
| "urlDecode (c # cs) =
     (if c = CHR ''%'' \<and> 3 \<le> length (c # cs)
      then (case map_of urlCharsToDecodeMap (take 3 (c # cs)) of Some d \<Rightarrow> [d] | None \<Rightarrow> [])
             @ urlDecode (drop 2 cs)
      else c # urlDecode cs)"
  by pat_completeness auto
termination
  by (relation "measure length") auto

declare urlDecode.simps(2) [simp del]

lemma encode_table_inverse:
  "list_all (\<lambda>(c, e). length e = 3 \<and> hd e = CHR ''%'' \<and> map_of urlCharsToDecodeMap e = Some c)
     urlCharsToEncodeMap"
  by (simp add: urlCharsToEncodeMap_def urlCharsToDecodeMap_def)

lemma encode_table_entry:
  assumes "map_of urlCharsToEncodeMap c = Some e"
  shows "\<exists>a b. e = [CHR ''%'', a, b] \<and> map_of urlCharsToDecodeMap e = Some c"
proof -
  have "(c, e) \<in> set urlCharsToEncodeMap" using assms by (rule map_of_SomeD)
  then have "length e = 3" and "hd e = CHR ''%''" and m: "map_of urlCharsToDecodeMap e = Some c"
    using encode_table_inverse by (auto simp: list_all_iff)
  then obtain a b where "e = [CHR ''%'', a, b]"
    by (auto simp: numeral_3_eq_3 length_Suc_conv)
  with m show ?thesis by auto
qed

lemma percent_encoded: "map_of urlCharsToEncodeMap (CHR ''%'') \<noteq> None"
  by (simp add: urlCharsToEncodeMap_def)

lemma urlDecode_encoded_char:
  "urlDecode ((case map_of urlCharsToEncodeMap c of Some e \<Rightarrow> e | None \<Rightarrow> [c]) @ s) = c # urlDecode s"
proof (cases "map_of urlCharsToEncodeMap c")
  case None
  then have "c \<noteq> CHR ''%''" using percent_encoded by auto
  with None show ?thesis by (simp add: urlDecode.simps(2))
next
  case (Some e)
  then obtain a b where "e = [CHR ''%'', a, b]" and "map_of urlCharsToDecodeMap e = Some c"
    using encode_table_entry by blast
  with Some show ?thesis by (simp add: urlDecode.simps(2) numeral_3_eq_3 numeral_2_eq_2)
qed

text \<open>
  Decoding an encoded string gives the string back, for every string of bytes.
\<close>

theorem urlDecode_urlEncode: "urlDecode (urlEncode s) = s"
  by (induction s) (simp_all add: urlDecode_encoded_char)

text \<open>Every message has one kind of sender and one kind of receiver.\<close>

lemma direction_exclusive:
  "\<not> (isMsgFromProxy d \<and> isMsgFromAgent d)" "\<not> (isMsgToProxy d \<and> isMsgToAgent d)"
  by (simp_all add: isMsgFromProxy_def isMsgFromAgent_def isMsgToProxy_def isMsgToAgent_def)

end
