(* ===== verification/Immutable_Policy.thy ===== *)
theory Immutable_Policy
  imports Nexo_Prelude
begin

text \<open>
  Retention policies (\<^verbatim>\<open>src/ds/immutable_policy.hh\<close>, \<^verbatim>\<open>immutable_policy.cc\<close>): their dates, their
  duration in days and when they are in force.  Times are seconds since the epoch.  The conversion of
  broken-down time back to seconds is done in \<^verbatim>\<open>int\<close>, and so is the product of the duration with the
  length of a day; both are kept at 32 bits here (two's complement).  The duration is stored in a
  \<^verbatim>\<open>short\<close>.  \<open>gmtime_r\<close> of the C library is modelled by the proleptic Gregorian calendar.
  The current time is the argument \<open>now\<close>.  The textual date formats are not modelled.
\<close>

datatype policy_type =
  IMMUTABLE | MODIFICATION_HOLD | DELETION_HOLD | ACCESS_HOLD | UNKNOWN_IMMUTABLE_POLICY

record policy =
  p_type :: policy_type
  p_start :: int
  p_duration :: int
  p_autoRenew :: bool

record tm =
  tm_sec :: int
  tm_min :: int
  tm_hour :: int
  tm_yday :: int
  tm_year :: int

definition TypeString :: "policy_type \<Rightarrow> string" where
  "TypeString t = (case t of IMMUTABLE \<Rightarrow> ''immutable'' | MODIFICATION_HOLD \<Rightarrow> ''modification-hold''
     | DELETION_HOLD \<Rightarrow> ''deletion-hold'' | ACCESS_HOLD \<Rightarrow> ''access-hold''
     | UNKNOWN_IMMUTABLE_POLICY \<Rightarrow> ''unknown'')"

definition knownTypes :: "policy_type list" where
  "knownTypes = [IMMUTABLE, MODIFICATION_HOLD, DELETION_HOLD, ACCESS_HOLD]"

subsection \<open>Calendar of the C library\<close>

definition is_leap :: "int \<Rightarrow> bool" where
  "is_leap y \<longleftrightarrow> y mod 4 = 0 \<and> (y mod 100 \<noteq> 0 \<or> y mod 400 = 0)"

definition year_days :: "int \<Rightarrow> int" where
  "year_days y = (if is_leap y then 366 else 365)"

function year_forward :: "int \<Rightarrow> int \<Rightarrow> int \<times> int" where
  "year_forward y d = (if d < year_days y then (y, d) else year_forward (y + 1) (d - year_days y))"
  by pat_completeness auto
termination
  by (relation "measure (\<lambda>(y, d). nat d)") (auto simp: year_days_def split: if_splits)

function year_back :: "int \<Rightarrow> int \<Rightarrow> int \<times> int" where
  "year_back y d = (if 0 \<le> d then (y, d) else year_back (y - 1) (d + year_days (y - 1)))"
  by pat_completeness auto
termination
  by (relation "measure (\<lambda>(y, d). nat (- d))") (auto simp: year_days_def split: if_splits)

declare year_forward.simps [simp del] year_back.simps [simp del]

definition gmtime :: "int \<Rightarrow> tm option" where
  "gmtime t =
     (let d = t div 86400; r = t mod 86400;
          (y, yd) = (if 0 \<le> d then year_forward 1970 d else year_back 1970 d)
      in if y - 1900 < - (2 ^ 31) \<or> y - 1900 \<ge> 2 ^ 31 then None
         else Some \<lparr>tm_sec = r mod 60, tm_min = r div 60 mod 60, tm_hour = r div 3600,
                    tm_yday = yd, tm_year = y - 1900\<rparr>)"

subsection \<open>Operations of a policy\<close>

definition policy_reset :: policy where
  "policy_reset = \<lparr>p_type = UNKNOWN_IMMUTABLE_POLICY, p_start = 0, p_duration = 0, p_autoRenew = False\<rparr>"

definition setType :: "policy_type \<Rightarrow> policy \<Rightarrow> policy" where
  "setType t p = p\<lparr>p_type := t\<rparr>"

definition setTypeName :: "string \<Rightarrow> policy \<Rightarrow> policy \<times> bool" where
  "setTypeName s p = (case find (\<lambda>t. s = TypeString t) knownTypes of
      Some t \<Rightarrow> (p\<lparr>p_type := t\<rparr>, True) | None \<Rightarrow> (p, False))"

definition convertStartDateToUTC :: "tm \<Rightarrow> int" where
  "convertStartDateToUTC t =
     int32 (tm_sec t + tm_min t * 60 + tm_hour t * 3600 + tm_yday t * 86400
            + (tm_year t - 70) * 31536000 + ((tm_year t - 69) sdiv 4) * 86400
            - ((tm_year t - 1) sdiv 100) * 86400 + ((tm_year t + 299) sdiv 400) * 86400)"

definition setStartDate :: "int \<Rightarrow> policy \<Rightarrow> policy \<times> bool" where
  "setStartDate startDate p =
     (case gmtime startDate of
        None \<Rightarrow> (p, False)
      | Some t \<Rightarrow>
          let newTime = convertStartDateToUTC (t\<lparr>tm_sec := 0, tm_min := 0, tm_hour := 0\<rparr>)
          in if newTime = 0 then (p, False) else (p\<lparr>p_start := newTime\<rparr>, True))"

definition setDuration :: "int \<Rightarrow> policy \<Rightarrow> policy \<times> bool" where
  "setDuration days p =
     (if to_unsigned 16 days = 0 then (p, False)
      else (p\<lparr>p_duration := to_signed 16 (to_unsigned 16 days)\<rparr>, True))"

definition getDuration :: "policy \<Rightarrow> int" where
  "getDuration p = to_unsigned 16 (p_duration p)"

definition setRenewable :: "bool \<Rightarrow> policy \<Rightarrow> policy" where
  "setRenewable r p = p\<lparr>p_autoRenew := r\<rparr>"

definition newPolicy :: "policy_type \<Rightarrow> int \<Rightarrow> int \<Rightarrow> bool \<Rightarrow> policy option" where
  "newPolicy t startDate duration autoRenew =
     (case setStartDate startDate (setType t policy_reset) of
        (p, False) \<Rightarrow> None
      | (p, True) \<Rightarrow> (case setDuration duration p of
            (p', False) \<Rightarrow> None
          | (p', True) \<Rightarrow> Some (setRenewable autoRenew p')))"

definition getEndDate :: "policy \<Rightarrow> int" where
  "getEndDate p = p_start p + int32 (86400 * p_duration p)"

definition isDefined :: "policy \<Rightarrow> bool" where
  "isDefined p \<longleftrightarrow> p_type p \<noteq> UNKNOWN_IMMUTABLE_POLICY \<and> p_start p > 0 \<and> p_duration p > 0"

definition isExpired :: "int \<Rightarrow> policy \<Rightarrow> bool" where
  "isExpired now p \<longleftrightarrow> isDefined p \<and> \<not> p_autoRenew p \<and> now > getEndDate p"

definition isStarted :: "int \<Rightarrow> policy \<Rightarrow> bool" where
  "isStarted now p \<longleftrightarrow> isDefined p \<and> now \<ge> p_start p"

definition isExtension :: "policy \<Rightarrow> policy \<Rightarrow> bool" where
  "isExtension p target \<longleftrightarrow> isDefined p \<and> p_type p = p_type target \<and> getEndDate p > getEndDate target"

text \<open>Number of days from the epoch to the first day of a year, for years from 1970 on.\<close>

definition days_before_year :: "int \<Rightarrow> int" where
  "days_before_year y =
     (y - 1970) * 365 + (y - 1969) div 4 - (y - 1901) div 100 + (y - 1601) div 400"

subsection \<open>The calendar formula\<close>

lemma int_div_step:
  fixes a n :: int
  assumes "0 < n"
  shows "(a + 1) div n = a div n + (if (a + 1) mod n = 0 then 1 else 0)"
proof -
  define q r where "q = a div n" and "r = a mod n"
  have a: "a = q * n + r" and r: "0 \<le> r" "r < n"
    using assms by (simp_all add: q_def r_def)
  show ?thesis
  proof (cases "r + 1 = n")
    case True
    then have "a + 1 = (q + 1) * n" using a by (simp add: algebra_simps)
    with assms show ?thesis by (simp add: q_def [symmetric])
  next
    case False
    then have r1: "r + 1 < n" and e: "a + 1 = (r + 1) + q * n" using a r by simp_all
    have "(a + 1) div n = q" and "(a + 1) mod n = r + 1"
      unfolding e using r r1 assms by (simp_all only: div_mult_self1 mod_mult_self1) simp_all
    with r show ?thesis by (simp add: q_def [symmetric])
  qed
qed

lemma leap_mods:
  fixes y :: int
  shows "(y - 1968) mod 4 = y mod 4" and "(y - 1900) mod 100 = y mod 100" and "(y - 1600) mod 400 = y mod 400"
  using mod_mult_self1 [of "y - 1968" 492 4] mod_mult_self1 [of "y - 1900" 19 100]
    mod_mult_self1 [of "y - 1600" 4 400] by simp_all

lemma dvd_mods:
  fixes y :: int
  shows "y mod 400 = 0 \<Longrightarrow> y mod 100 = 0" and "y mod 100 = 0 \<Longrightarrow> y mod 4 = 0"
  using dvd_trans [of "100::int" 400 y] dvd_trans [of "4::int" 100 y]
  by (simp_all add: mod_eq_0_iff_dvd)

lemma days_before_year_Suc: "days_before_year (y + 1) = days_before_year y + year_days y"
proof -
  define a b c where "a = (y - 1969) div 4" and "b = (y - 1901) div 100" and "c = (y - 1601) div 400"
  define P Q R where "P \<longleftrightarrow> y mod 4 = 0" and "Q \<longleftrightarrow> y mod 100 = 0" and "R \<longleftrightarrow> y mod 400 = 0"
  have 4: "(y + 1 - 1969) div 4 = a + (if P then 1 else 0)"
    using int_div_step [of 4 "y - 1969"] leap_mods(1) [of y] by (simp add: a_def P_def)
  have 100: "(y + 1 - 1901) div 100 = b + (if Q then 1 else 0)"
    using int_div_step [of 100 "y - 1901"] leap_mods(2) [of y] by (simp add: b_def Q_def)
  have 400: "(y + 1 - 1601) div 400 = c + (if R then 1 else 0)"
    using int_div_step [of 400 "y - 1601"] leap_mods(3) [of y] by (simp add: c_def R_def)
  have "R \<longrightarrow> Q" "Q \<longrightarrow> P" using dvd_mods [of y] by (simp_all add: P_def Q_def R_def)
  then show ?thesis
    unfolding days_before_year_def 4 100 400 year_days_def is_leap_def
      a_def [symmetric] b_def [symmetric] c_def [symmetric] P_def [symmetric] Q_def [symmetric]
      R_def [symmetric]
    by (cases P; cases Q; cases R; simp)
qed

lemma days_before_1970: "days_before_year 1970 = 0"
  by (simp add: days_before_year_def)

lemma year_forward_correct:
  assumes "0 \<le> d" and "year_forward y d = (y', d')"
  shows "days_before_year y + d = days_before_year y' + d' \<and> 0 \<le> d' \<and> y \<le> y'"
  using assms
proof (induction y d rule: year_forward.induct)
  case (1 y d)
  show ?case
  proof (cases "d < year_days y")
    case True
    with "1.prems" show ?thesis by (simp add: year_forward.simps [of y d])
  next
    case False
    with "1.prems" have e: "year_forward (y + 1) (d - year_days y) = (y', d')"
      by (simp add: year_forward.simps [of y d])
    from False have "0 \<le> d - year_days y" by simp
    from "1.IH" [OF False this e] show ?thesis by (simp add: days_before_year_Suc)
  qed
qed

lemma days_before_year_lower: "0 \<le> n \<Longrightarrow> 365 * n \<le> days_before_year (1970 + n)"
proof (induction n rule: int_ge_induct)
  case base
  then show ?case by (simp add: days_before_1970)
next
  case (step n)
  have "365 \<le> year_days (1970 + n)" by (simp add: year_days_def)
  with step show ?case
    using days_before_year_Suc [of "1970 + n"] by (simp add: add.assoc)
qed

lemma sdiv_nonneg: "0 \<le> (a::int) \<Longrightarrow> 0 < b \<Longrightarrow> a sdiv b = a div b"
  by (cases "a = 0") (simp_all add: signed_divide_int_def)

lemma convert_midnight:
  assumes "1970 \<le> y" and "t = \<lparr>tm_sec = 0, tm_min = 0, tm_hour = 0, tm_yday = d, tm_year = y - 1900\<rparr>"
  shows "convertStartDateToUTC t = int32 (86400 * (days_before_year y + d))"
proof -
  have "(tm_year t - 69) sdiv 4 = (y - 1969) div 4" "(tm_year t - 1) sdiv 100 = (y - 1901) div 100"
    "(tm_year t + 299) sdiv 400 = (y - 1601) div 400"
    using assms by (simp_all add: sdiv_nonneg)
  with assms(2) show ?thesis
    by (simp add: convertStartDateToUTC_def days_before_year_def algebra_simps)
qed

text \<open>From the first of January 1970 until year 10000 the library conversion succeeds, and the code recovers the day.\<close>

lemma gmtime_midnight:
  assumes "0 \<le> t" and "t < 2 ^ 40"
  shows "\<exists>tm. gmtime t = Some tm
     \<and> convertStartDateToUTC (tm\<lparr>tm_sec := 0, tm_min := 0, tm_hour := 0\<rparr>) = int32 (86400 * (t div 86400))"
proof -
  obtain y d where yd: "year_forward 1970 (t div 86400) = (y, d)" by fastforce
  have "0 \<le> t div 86400" using assms(1) by (simp add: pos_imp_zdiv_nonneg_iff)
  from year_forward_correct [OF this yd] have d: "t div 86400 = days_before_year y + d" "0 \<le> d" "1970 \<le> y"
    by (simp_all add: days_before_1970)
  have "days_before_year y \<le> t div 86400" using d by simp
  moreover have "365 * (y - 1970) \<le> days_before_year y"
    using days_before_year_lower [of "y - 1970"] d(3) by simp
  moreover have "t div 86400 \<le> 2 ^ 40 div 86400" using assms(2) by (intro zdiv_mono1) simp_all
  ultimately have "y < 2 ^ 31" by simp
  with d(3) yd \<open>0 \<le> t div 86400\<close> show ?thesis
    by (simp add: gmtime_def d(1) Let_def convert_midnight [OF d(3)])
qed

subsection \<open>Properties of policies\<close>

lemma midnight_mod: "86400 * (t div 86400) = t - t mod (86400::int)"
  by (simp add: minus_mod_eq_mult_div)

lemma setStartDate_midnight:
  assumes "0 \<le> t" and "t < 2 ^ 40"
  shows "setStartDate t p = (let m = int32 (t - t mod 86400)
     in if m = 0 then (p, False) else (p\<lparr>p_start := m\<rparr>, True))"
  using gmtime_midnight [OF assms] by (auto simp: setStartDate_def midnight_mod Let_def)

lemma setStartDate_below_2038:
  assumes "0 \<le> t" and "t < 2147483648"
  shows "setStartDate t p =
     (if t < 86400 then (p, False) else (p\<lparr>p_start := t - t mod 86400\<rparr>, True))"
proof -
  have m: "0 \<le> t mod 86400" "t mod 86400 < 86400" by simp_all
  have "t mod 86400 \<le> t" using assms(1) by (rule zmod_le_nonneg_dividend)
  with assms m have e: "int32 (t - t mod 86400) = t - t mod 86400" by (intro int32_id) linarith+
  show ?thesis
  proof (cases "t < 86400")
    case True
    with assms(1) have "t mod 86400 = t" by simp
    with True assms show ?thesis by (simp add: setStartDate_midnight)
  next
    case False
    with m have "t - t mod 86400 \<noteq> 0" by linarith
    with False assms e show ?thesis by (simp add: setStartDate_midnight Let_def)
  qed
qed



text \<open>
  From 2038-01-20 to the year 2106 the 32-bit sum of the source wraps around: setting a start
  date leaves a policy that is not defined, so it never counts as started and cannot be stored.
\<close>

theorem setStartDate_wraps_after_2038:
  assumes "2147558400 \<le> t" and "t < 4294967296"
  shows "\<not> isStarted now (fst (setStartDate t p))"
proof -
  have m: "0 \<le> t mod 86400" "t mod 86400 < 86400" by simp_all
  have "86400 * 24856 \<le> 86400 * (t div 86400)"
    using zdiv_mono1 [OF assms(1), of 86400] by simp
  then have lo: "2147558400 \<le> t - t mod 86400" by (simp add: midnight_mod)
  define u where "u = t - t mod 86400"
  have u: "2147558400 \<le> u" "u < 4294967296" using lo assms(2) m by (simp_all add: u_def)
  have "(u + 2147483648) mod 4294967296 = u + 2147483648 - 4294967296"
    using u by (subst mod_pos_geq) (simp_all add: mod_pos_pos_trivial)
  then have neg: "int32 u < 0" using u by (simp add: to_signed_def)
  have "setStartDate t p = (p\<lparr>p_start := int32 u\<rparr>, True)"
    using assms neg by (simp add: setStartDate_midnight Let_def flip: u_def)
  with neg show ?thesis by (simp add: isStarted_def isDefined_def)
qed

theorem setStartDate_wraps_after_2038_witness:
  "(2147558400::int) \<le> 2200000000 \<and> (2200000000::int) < 4294967296 \<and>
   \<not> isStarted 2200000000 (fst (setStartDate 2200000000 policy_reset))"
  using setStartDate_wraps_after_2038 [of 2200000000 2200000000 policy_reset] by simp

text \<open>
  A defined policy of at most 24855 days is in force from its start date for exactly its duration,
  last second included, and for ever when it renews automatically.
\<close>

theorem policy_in_force_exactly:
  assumes "isDefined p" and "p_duration p \<le> 24855"
  shows "isStarted now p \<and> \<not> isExpired now p \<longleftrightarrow>
     p_start p \<le> now \<and> (p_autoRenew p \<or> now \<le> p_start p + 86400 * p_duration p)"
proof -
  have "0 < p_duration p" using assms(1) by (simp add: isDefined_def)
  with assms(2) have "getEndDate p = p_start p + 86400 * p_duration p" by (simp add: getEndDate_def)
  with assms(1) show ?thesis by (auto simp: isStarted_def isExpired_def)
qed

theorem policy_in_force_exactly_witness:
  "let p = \<lparr>p_type = IMMUTABLE, p_start = 86400, p_duration = 30, p_autoRenew = False\<rparr>
   in isDefined p \<and> p_duration p \<le> 24855 \<and> (isStarted 2678400 p \<and> \<not> isExpired 2678400 p)
      \<and> isExpired 2678401 p"
proof -
  let ?p = "\<lparr>p_type = IMMUTABLE, p_start = 86400, p_duration = 30, p_autoRenew = False\<rparr>"
  have h: "isDefined ?p" "p_duration ?p \<le> 24855" by (simp_all add: isDefined_def)
  show ?thesis
    using h policy_in_force_exactly [OF h, of 2678400] policy_in_force_exactly [OF h, of 2678401]
    by (simp add: isStarted_def)
qed

text \<open>
  A policy of more than 24855 days that does not renew is never in force: the product of its
  duration with the length of a day does not fit \<^verbatim>\<open>int\<close> (or the duration does not fit \<^verbatim>\<open>short\<close>), and the
  end date falls before the start date.
\<close>

theorem long_policy_never_in_force:
  assumes "setDuration days q = (p, True)" and "24856 \<le> days" and "days \<le> 65535"
    and "\<not> p_autoRenew p"
  shows "\<not> (isStarted now p \<and> \<not> isExpired now p)"
proof (cases "days \<le> 32767")
  case True
  with assms(1,2) have d: "p_duration p = days"
    by (simp add: setDuration_def to_unsigned_def to_signed_def split: if_splits) auto
  have "(86400 * days + 2147483648) mod 4294967296 = 86400 * days + 2147483648 - 4294967296"
    using assms(2) True by (subst mod_pos_geq) (simp_all add: mod_pos_pos_trivial)
  then have "int32 (86400 * days) < 0" using True by (simp add: to_signed_def)
  then have "getEndDate p < p_start p" by (simp add: getEndDate_def d)
  with assms(4) show ?thesis by (auto simp: isStarted_def isExpired_def)
next
  case False
  have "days mod 65536 = days" using assms(2,3) by simp
  moreover have "(days + 32768) mod 65536 = days + 32768 - 65536"
    using False assms(3) by (subst mod_pos_geq) (simp_all add: mod_pos_pos_trivial)
  ultimately have "p_duration p < 0"
    using assms(1,3) by (simp add: setDuration_def to_unsigned_def to_signed_def split: if_splits) auto
  then show ?thesis by (simp add: isStarted_def isDefined_def)
qed

theorem long_policy_never_in_force_witness:
  "let q = \<lparr>p_type = IMMUTABLE, p_start = 86400, p_duration = 0, p_autoRenew = False\<rparr>;
       p = fst (setDuration 25000 q)
   in setDuration 25000 q = (p, True) \<and> \<not> (isStarted 86400 p \<and> \<not> isExpired 86400 p)"
proof -
  let ?q = "\<lparr>p_type = IMMUTABLE, p_start = 86400, p_duration = 0, p_autoRenew = False\<rparr>"
  have h: "setDuration 25000 ?q = (?q\<lparr>p_duration := 25000\<rparr>, True)"
    by (simp add: setDuration_def to_unsigned_def to_signed_def)
  show ?thesis
    using h long_policy_never_in_force [OF h, of 86400] by (simp add: Let_def)
qed

text \<open>Policy names round trip, and extension is a strict order on policies of one type.\<close>

lemma setTypeName_TypeString:
  "t \<noteq> UNKNOWN_IMMUTABLE_POLICY \<Longrightarrow> setTypeName (TypeString t) p = (setType t p, True)"
  by (cases t) (simp_all add: setTypeName_def knownTypes_def TypeString_def setType_def)

lemma isExtension_trans: "isExtension p q \<Longrightarrow> isExtension q r \<Longrightarrow> isExtension p r"
  by (auto simp: isExtension_def)

lemma isExtension_irrefl: "\<not> isExtension p p"
  by (simp add: isExtension_def)

lemma newPolicy_defined:
  assumes "newPolicy t s d r = Some p" and "t \<noteq> UNKNOWN_IMMUTABLE_POLICY"
    and "0 \<le> s" and "s < 2147483648" and "0 < d" and "d < 32768"
  shows "isDefined p \<and> p_duration p = d \<and> p_autoRenew p = r \<and> p_type p = t \<and> p_start p = s - s mod 86400"
proof -
  have d: "to_unsigned 16 d = d" "to_signed 16 d = d" using assms(5,6)
    by (auto simp: to_unsigned_def intro!: to_signed_id)
  have s: "\<not> s < 86400"
    using assms(1,3,4) by (auto simp: newPolicy_def setStartDate_below_2038)
  then have "0 < s - s mod 86400" using pos_mod_bound [of 86400 s] by linarith
  with assms s d show ?thesis
    by (auto simp: newPolicy_def setStartDate_below_2038 setDuration_def setType_def setRenewable_def
        policy_reset_def isDefined_def)
qed

end
