(* ===== verification/Redis_Interface.thy ===== *)
theory Redis_Interface
  imports Nexo_Prelude "HOL-Library.AList"
begin

text \<open>
  The Redis server behind the metadata store and the policy store.  The server is not part of the
  repository: it is the parameter \<open>R\<close>, a record of the hash commands the code sends, over an abstract
  state.  The locale \<open>redis_server\<close> states the documented behaviour of these commands on keys that
  hold hashes.  \<open>r_fate\<close> says what the network does with the next request: it is answered, it is lost
  before the server sees it, or its answer is lost after the server executed it.  \<open>map_redis\<close> is a
  server over association lists.
\<close>

datatype fate = Replied | RequestLost | ReplyLost

datatype reply = RInteger int | RString string | RStatus string | RNil | RError | RArray "reply list"

record 'db redis =
  r_fate :: "'db \<Rightarrow> fate"
  r_hget :: "'db \<Rightarrow> string \<Rightarrow> string \<Rightarrow> string option"
  r_hset :: "string \<Rightarrow> (string \<times> string) list \<Rightarrow> 'db \<Rightarrow> 'db"
  r_exists :: "'db \<Rightarrow> string \<Rightarrow> bool"
  r_del :: "string \<Rightarrow> 'db \<Rightarrow> 'db"
  r_rename :: "string \<Rightarrow> string \<Rightarrow> 'db \<Rightarrow> 'db"

text \<open>One request: \<open>f\<close> is what the server does with it, \<open>None\<close> is the null reply of the client library.\<close>

definition redis_call :: "'db redis \<Rightarrow> ('db \<Rightarrow> 'db \<times> reply) \<Rightarrow> 'db \<Rightarrow> 'db \<times> reply option" where
  "redis_call R f db = (case r_fate R db of
      Replied \<Rightarrow> (case f db of (db', r) \<Rightarrow> (db', Some r))
    | RequestLost \<Rightarrow> (db, None)
    | ReplyLost \<Rightarrow> (fst (f db), None))"

definition hmget :: "'db redis \<Rightarrow> string \<Rightarrow> string list \<Rightarrow> 'db \<Rightarrow> 'db \<times> reply" where
  "hmget R key fs db = (db, RArray (map (\<lambda>f. case r_hget R db key f of
      Some v \<Rightarrow> RString v | None \<Rightarrow> RNil) fs))"

definition del_key :: "'db redis \<Rightarrow> string \<Rightarrow> 'db \<Rightarrow> 'db \<times> reply" where
  "del_key R key db = (r_del R key db, RInteger (if r_exists R db key then 1 else 0))"

definition rename_key :: "'db redis \<Rightarrow> string \<Rightarrow> string \<Rightarrow> 'db \<Rightarrow> 'db \<times> reply" where
  "rename_key R old new db =
     (if r_exists R db old then (r_rename R old new db, RStatus ''OK'') else (db, RError))"

subsection \<open>Numbers in the store\<close>

text \<open>\<^verbatim>\<open>tonumber\<close> of Lua on decimal integers, and \<^verbatim>\<open>strtoul\<close> in base ten.\<close>

definition tonumber :: "string \<Rightarrow> int option" where
  "tonumber s =
     (if s \<noteq> [] \<and> hd s = CHR ''-''
      then (if tl s \<noteq> [] \<and> list_all is_digit (tl s) then Some (- int (dec_value (tl s))) else None)
      else if s \<noteq> [] \<and> list_all is_digit s then Some (int (dec_value s)) else None)"

definition strtoul :: "string \<Rightarrow> int" where
  "strtoul s =
     (let t = dropWhile (\<lambda>c. c \<in> {CHR '' '', CHR 0x09, CHR 0x0A, CHR 0x0B, CHR 0x0C, CHR 0x0D}) s;
          neg = (t \<noteq> [] \<and> hd t = CHR ''-'');
          u = (if t \<noteq> [] \<and> (hd t = CHR ''-'' \<or> hd t = CHR ''+'') then tl t else t);
          v = int (dec_value (takeWhile is_digit u))
      in if v \<ge> 2 ^ 64 then 2 ^ 64 - 1 else if neg then (- v) mod 2 ^ 64 else v)"

lemma nat_to_string_all_digits: "list_all is_digit (nat_to_string n)"
  by (auto simp: list_all_iff dest: nat_to_string_digits)

lemma nat_to_string_hd: "hd (nat_to_string n) \<in> set (nat_to_string n)"
  by (simp add: hd_in_set)

lemma nat_to_string_hd_digit: "is_digit (hd (nat_to_string n))"
  by (rule nat_to_string_digits [OF nat_to_string_hd])

lemma tonumber_int_to_string [simp]: "tonumber (int_to_string i) = Some i"
proof (cases "i < 0")
  case True
  then show ?thesis
    by (simp add: tonumber_def int_to_string_def nat_to_string_all_digits dec_value_nat_to_string)
next
  case False
  have "hd (nat_to_string (nat i)) \<noteq> CHR ''-''"
    using nat_to_string_hd_digit [of "nat i"] minus_not_digit by metis
  with False show ?thesis
    by (simp add: tonumber_def int_to_string_def nat_to_string_all_digits dec_value_nat_to_string)
qed

lemma strtoul_int_to_string:
  assumes "0 \<le> i" and "i < 2 ^ 64"
  shows "strtoul (int_to_string i) = i"
proof -
  let ?s = "nat_to_string (nat i)"
  have d: "is_digit (hd ?s)" by (rule nat_to_string_hd_digit)
  have n: "hd ?s \<notin> {CHR '' '', CHR 0x09, CHR 0x0A, CHR 0x0B, CHR 0x0C, CHR 0x0D, CHR ''-'', CHR ''+''}"
    using d by (auto simp: is_digit_def)
  have t: "takeWhile is_digit ?s = ?s"
    using nat_to_string_all_digits [of "nat i"] by (simp add: list_all_iff takeWhile_eq_all_conv)
  have w: "dropWhile (\<lambda>c. c \<in> {CHR '' '', CHR 0x09, CHR 0x0A, CHR 0x0B, CHR 0x0C, CHR 0x0D}) ?s = ?s"
    using n by (cases ?s) auto
  show ?thesis
    unfolding strtoul_def int_to_string_def Let_def
    using assms n by (simp add: w t dec_value_nat_to_string del: insert_iff) auto
qed

subsection \<open>The contract of the server\<close>

locale redis_server =
  fixes R :: "'db redis"
  assumes hget_hset: "r_hget R (r_hset R k fvs db) k' f =
      (if k' = k \<and> map_of (rev fvs) f \<noteq> None then map_of (rev fvs) f else r_hget R db k' f)"
    and hget_del: "r_hget R (r_del R k db) k' f = (if k' = k then None else r_hget R db k' f)"
    and hget_exists: "r_hget R db k f = Some v \<Longrightarrow> r_exists R db k"
    and hget_rename: "r_exists R db k \<Longrightarrow> r_hget R (r_rename R k k1 db) k' f =
      (if k' = k1 then r_hget R db k f else if k' = k then None else r_hget R db k' f)"
    and exists_rename: "r_exists R db k \<Longrightarrow> r_exists R (r_rename R k k1 db) k' \<longleftrightarrow>
      k' = k1 \<or> k' \<noteq> k \<and> r_exists R db k'"
begin

lemma hget_hset_other [simp]: "k' \<noteq> k \<Longrightarrow> r_hget R (r_hset R k fvs db) k' f = r_hget R db k' f"
  by (simp add: hget_hset)

lemma hget_rename_key:
  "r_hget R (fst (rename_key R k k1 db)) k' f =
     (if \<not> r_exists R db k then r_hget R db k' f
      else if k' = k1 then r_hget R db k f else if k' = k then None else r_hget R db k' f)"
  by (simp add: rename_key_def hget_rename)

lemma hget_del_key: "r_hget R (fst (del_key R k db)) k' f = (if k' = k then None else r_hget R db k' f)"
  by (simp add: del_key_def hget_del)

end

subsection \<open>A server over association lists\<close>

type_synonym map_db = "(string \<times> (string \<times> string) list) list"

definition map_hash :: "map_db \<Rightarrow> string \<Rightarrow> (string \<times> string) list" where
  "map_hash db k = (case map_of db k of None \<Rightarrow> [] | Some h \<Rightarrow> h)"

definition map_rename :: "string \<Rightarrow> string \<Rightarrow> map_db \<Rightarrow> map_db" where
  "map_rename old new db = (if old = new then db
     else (new, map_hash db old) # AList.delete new (AList.delete old db))"

definition map_redis :: "fate \<Rightarrow> map_db redis" where
  "map_redis fate =
     \<lparr>r_fate = (\<lambda>_. fate),
      r_hget = (\<lambda>db k. map_of (map_hash db k)),
      r_hset = (\<lambda>k fvs db. (k, rev fvs @ map_hash db k) # AList.delete k db),
      r_exists = (\<lambda>db k. map_of db k \<noteq> None),
      r_del = AList.delete,
      r_rename = map_rename\<rparr>"

lemma map_hash_delete: "map_hash (AList.delete k db) k' = (if k' = k then [] else map_hash db k')"
  by (simp add: map_hash_def delete_conv)

lemma map_hash_Cons: "map_hash ((k, h) # db) k' = (if k' = k then h else map_hash db k')"
  by (simp add: map_hash_def)

interpretation map_server: redis_server "map_redis fate"
  by unfold_locales
    (auto simp: map_redis_def map_hash_Cons map_hash_delete map_rename_def map_add_def
      split: option.splits if_splits simp: map_hash_def delete_conv)

end
