(* ===== verification/Policy_Store.thy ===== *)
theory Policy_Store
  imports Redis_Interface Immutable_Policy Nexo_File
begin

text \<open>
  The Redis policy store (\<^verbatim>\<open>src/proxy/immutable/immutable_policy_store_redis.cc\<close>) and its client
  \<^verbatim>\<open>ImmutableManager\<close> (\<^verbatim>\<open>immutable_manager.cc\<close>).  The Lua scripts the source sends with \<^verbatim>\<open>EVAL\<close> are
  functions on the server state; \<open>now\<close> is the current time.  The success flag of an
  \<^verbatim>\<open>ActionResult\<close> is \<open>Success\<close> or \<open>Failed\<close> with the branch that failed; the texts of the messages are not
  modelled.  \<^verbatim>\<open>%i\<close> prints an \<^verbatim>\<open>int\<close>, so times pass through \<open>int32\<close>.  Keys longer than the buffer of
  the source are cut; the properties are about names that fit.
\<close>

datatype policy_error =
  InvalidPolicy | NoPolicyKey | NoConnection | BadReply reply | PolicyNotExists
  | BadStartDate | BadDuration | BadRenew

datatype ActionResult = Success | Failed policy_error

definition success :: "ActionResult \<Rightarrow> bool" where
  "success r \<longleftrightarrow> r = Success"

definition policyFieldStartDate :: string where "policyFieldStartDate = ''s''"
definition policyFieldDuration :: string where "policyFieldDuration = ''d''"
definition policyFieldAutoRenew :: string where "policyFieldAutoRenew = ''r''"

lemmas policy_fields = policyFieldStartDate_def policyFieldDuration_def policyFieldAutoRenew_def

subsection \<open>Keys\<close>

text \<open>\<^verbatim>\<open>%*s\<close>: the text up to its terminator, padded with blanks to the given width.\<close>

definition print_width :: "int \<Rightarrow> string option \<Rightarrow> string" where
  "print_width w p =
     (let s = (case p of None \<Rightarrow> ''(null)'' | Some t \<Rightarrow> takeWhile (\<lambda>c. c \<noteq> CHR 0x00) t);
          pad = replicate (nat (abs w) - length s) (CHR '' '')
      in if w < 0 then s @ pad else pad @ s)"

definition genFileKey :: "nat \<Rightarrow> string option \<Rightarrow> int \<Rightarrow> string" where
  "genFileKey ns name nlen = take (nat PATH_MAX - 1) (nat_to_string ns @ ''_'' @ print_width nlen name)"

definition policyId :: "policy_type \<Rightarrow> string option" where
  "policyId t = (case t of IMMUTABLE \<Rightarrow> Some ''i'' | MODIFICATION_HOLD \<Rightarrow> Some ''m''
     | DELETION_HOLD \<Rightarrow> Some ''d'' | ACCESS_HOLD \<Rightarrow> Some ''r'' | UNKNOWN_IMMUTABLE_POLICY \<Rightarrow> None)"

definition genFilePolicyKey :: "file_t \<Rightarrow> policy_type \<Rightarrow> string option" where
  "genFilePolicyKey f t = (case policyId t of None \<Rightarrow> None
     | Some i \<Rightarrow> Some (take (nat PATH_MAX - 1)
         (''/ip-'' @ i @ ''_'' @ genFileKey (f_namespaceId f) (f_name f) (f_nameLength f))))"

subsection \<open>The scripts\<close>

definition setPolicy_script ::
  "'db redis \<Rightarrow> string \<Rightarrow> string \<Rightarrow> string \<Rightarrow> string \<Rightarrow> string \<Rightarrow> 'db \<Rightarrow> 'db \<times> reply" where
  "setPolicy_script R key argStart argDuration argRenew argNow db =
     (let store = (r_hset R key [(policyFieldStartDate, argStart), (policyFieldDuration, argDuration),
                                 (policyFieldAutoRenew, argRenew)] db, RInteger 0)
      in case (r_hget R db key policyFieldStartDate, r_hget R db key policyFieldDuration) of
           (Some p1, Some p2) \<Rightarrow>
             (case (tonumber p1, tonumber p2, tonumber argNow) of
                (Some st, Some d, Some now) \<Rightarrow>
                  if st + d * 86400 > now then (db, RInteger 2) else store
              | _ \<Rightarrow> (db, RError))
         | _ \<Rightarrow> store)"

definition extendPolicy_script ::
  "'db redis \<Rightarrow> string \<Rightarrow> string \<Rightarrow> string \<Rightarrow> 'db \<Rightarrow> 'db \<times> reply" where
  "extendPolicy_script R key argStart argDuration db =
     (case (r_hget R db key policyFieldStartDate, r_hget R db key policyFieldDuration) of
        (Some p1, Some p2) \<Rightarrow>
          (case (tonumber argStart, tonumber argDuration, tonumber p1, tonumber p2) of
             (Some ns, Some nd, Some os, Some od) \<Rightarrow>
               if ns + nd * 86400 > os + od * 86400
               then (r_hset R key [(policyFieldStartDate, argStart), (policyFieldDuration, argDuration)] db,
                     RInteger 0)
               else (db, RInteger 2)
           | _ \<Rightarrow> (db, RError))
      | _ \<Rightarrow> (db, RInteger 3))"

partial_function (option) renew_window :: "int \<Rightarrow> int \<Rightarrow> int \<Rightarrow> int option" where
  "renew_window now d st =
     (if now \<ge> st + d * 86400 then renew_window now d (st + d * 86400) else Some st)"

text \<open>\<open>None\<close>: the loop of the script does not end.\<close>

definition renewPolicy_script ::
  "'db redis \<Rightarrow> string \<Rightarrow> string \<Rightarrow> string \<Rightarrow> 'db \<Rightarrow> ('db \<times> reply) option" where
  "renewPolicy_script R key argNow argRenew db =
     (case (r_hget R db key policyFieldStartDate, r_hget R db key policyFieldDuration,
            r_hget R db key policyFieldAutoRenew) of
        (Some p1, Some p2, Some p3) \<Rightarrow>
          if tonumber argNow = Some 1
          then Some (r_hset R key [(policyFieldAutoRenew, argRenew)] db, RInteger 0)
          else (case (tonumber p1, tonumber p2, tonumber argNow) of
              (Some st, Some d, Some now) \<Rightarrow>
                (case renew_window now d st of
                   None \<Rightarrow> None
                 | Some st' \<Rightarrow>
                     Some (r_hset R key [(policyFieldStartDate, int_to_string st'),
                                         (policyFieldDuration, int_to_string d),
                                         (policyFieldAutoRenew, argRenew)] db, RInteger 0))
            | _ \<Rightarrow> Some (db, RError))
      | _ \<Rightarrow> Some (db, RInteger 2))"

subsection \<open>Operations of the store\<close>

definition integer_reply :: "reply option \<Rightarrow> ActionResult" where
  "integer_reply r = (case r of None \<Rightarrow> Failed NoConnection
     | Some v \<Rightarrow> if v = RInteger 0 then Success else Failed (BadReply v))"

definition setPolicyOnFile ::
  "'db redis \<Rightarrow> int \<Rightarrow> file_t \<Rightarrow> policy \<Rightarrow> 'db \<Rightarrow> 'db \<times> ActionResult" where
  "setPolicyOnFile R now f p db =
     (if \<not> isStarted now p \<or> isExpired now p then (db, Failed InvalidPolicy)
      else case genFilePolicyKey f (p_type p) of
        None \<Rightarrow> (db, Failed NoPolicyKey)
      | Some key \<Rightarrow>
          (case redis_call R (setPolicy_script R key (int_to_string (int32 (p_start p)))
                   (int_to_string (getDuration p)) (if p_autoRenew p then ''1'' else ''0'')
                   (int_to_string (int32 now))) db of
             (db', r) \<Rightarrow> (db', integer_reply r)))"

text \<open>
  When no key can be made, \<^verbatim>\<open>extendPolicyOnFile\<close> and \<^verbatim>\<open>renewPolicyOnFile\<close> go on with a key of length
  zero.
\<close>

definition extendPolicyOnFile ::
  "'db redis \<Rightarrow> int \<Rightarrow> file_t \<Rightarrow> policy \<Rightarrow> 'db \<Rightarrow> 'db \<times> ActionResult" where
  "extendPolicyOnFile R now f p db =
     (if \<not> isStarted now p \<or> isExpired now p then (db, Failed InvalidPolicy)
      else let key = (case genFilePolicyKey f (p_type p) of None \<Rightarrow> [] | Some k \<Rightarrow> k)
        in case redis_call R (extendPolicy_script R key (int_to_string (int32 (p_start p)))
                   (int_to_string (getDuration p))) db of
             (db', r) \<Rightarrow> (db', integer_reply r))"

definition renewPolicyOnFile ::
  "'db redis \<Rightarrow> int \<Rightarrow> file_t \<Rightarrow> policy_type \<Rightarrow> bool \<Rightarrow> 'db \<Rightarrow> ('db \<times> ActionResult) option" where
  "renewPolicyOnFile R now f t enable db =
     (let key = (case genFilePolicyKey f t of None \<Rightarrow> [] | Some k \<Rightarrow> k)
      in case r_fate R db of
           RequestLost \<Rightarrow> Some (db, Failed NoConnection)
         | fate \<Rightarrow>
             (case renewPolicy_script R key (int_to_string (int32 now)) (if enable then ''1'' else ''0'') db of
                None \<Rightarrow> None
              | Some (db', r) \<Rightarrow>
                  Some (db', integer_reply (if fate = Replied then Some r else None))))"

definition getPolicyOnFile ::
  "'db redis \<Rightarrow> file_t \<Rightarrow> policy_type \<Rightarrow> policy \<Rightarrow> 'db \<Rightarrow> 'db \<times> policy \<times> ActionResult" where
  "getPolicyOnFile R f t p db =
     (case genFilePolicyKey f t of
        None \<Rightarrow> (db, p, Failed NoPolicyKey)
      | Some key \<Rightarrow>
          (case redis_call R (hmget R key [policyFieldStartDate, policyFieldDuration, policyFieldAutoRenew]) db of
             (db', None) \<Rightarrow> (db', p, Failed NoConnection)
           | (db', Some (RArray [e0, e1, e2])) \<Rightarrow>
               if e0 = RNil \<and> e1 = RNil \<and> e2 = RNil then (db', p, Failed PolicyNotExists)
               else (case e0 of
                 RString s \<Rightarrow>
                   (let p1 = fst (setStartDate (to_signed 64 (strtoul s)) p) in
                    case e1 of
                      RString d \<Rightarrow>
                        (let p2 = fst (setDuration (to_unsigned 16 (strtoul d)) p1) in
                         case e2 of
                           RString r \<Rightarrow>
                             (db', setType t (setRenewable (\<not> (r \<noteq> [] \<and> hd r = CHR ''0'')) p2), Success)
                         | _ \<Rightarrow> (db', p2, Failed BadRenew))
                    | _ \<Rightarrow> (db', p1, Failed BadDuration))
               | _ \<Rightarrow> (db', p, Failed BadStartDate))
           | (db', Some r) \<Rightarrow> (db', p, Failed (BadReply r))))"

definition deletePolicyOnFile :: "'db redis \<Rightarrow> file_t \<Rightarrow> policy_type \<Rightarrow> 'db \<Rightarrow> 'db \<times> ActionResult" where
  "deletePolicyOnFile R f t db =
     (case genFilePolicyKey f t of
        None \<Rightarrow> (db, Failed NoPolicyKey)
      | Some key \<Rightarrow>
          (case redis_call R (del_key R key) db of
             (db', None) \<Rightarrow> (db', Failed NoConnection)
           | (db', Some (RInteger i)) \<Rightarrow>
               (db', if i < 0 \<or> i \<ge> 2 then Failed (BadReply (RInteger i)) else Success)
           | (db', Some r) \<Rightarrow> (db', Failed (BadReply r))))"

fun getAll_loop ::
  "'db redis \<Rightarrow> file_t \<Rightarrow> policy_type list \<Rightarrow> policy list \<Rightarrow> 'db \<Rightarrow> 'db \<times> policy list" where
  "getAll_loop R f [] acc db = (db, acc)"
| "getAll_loop R f (t # ts) acc db =
     (case getPolicyOnFile R f t policy_reset db of
        (db', p, r) \<Rightarrow> getAll_loop R f ts (if success r then acc @ [p] else acc) db')"

definition getAllPoliciesOnFile :: "'db redis \<Rightarrow> file_t \<Rightarrow> 'db \<Rightarrow> 'db \<times> policy list" where
  "getAllPoliciesOnFile R f db = getAll_loop R f knownTypes [] db"

fun deleteAll_loop ::
  "'db redis \<Rightarrow> file_t \<Rightarrow> policy_type list \<Rightarrow> ActionResult \<Rightarrow> 'db \<Rightarrow> 'db \<times> ActionResult" where
  "deleteAll_loop R f [] res db = (db, res)"
| "deleteAll_loop R f (t # ts) res db =
     (case deletePolicyOnFile R f t db of
        (db', r) \<Rightarrow> deleteAll_loop R f ts (if success r then res else r) db')"

definition deleteAllPolicies :: "'db redis \<Rightarrow> file_t \<Rightarrow> 'db \<Rightarrow> 'db \<times> ActionResult" where
  "deleteAllPolicies R f db = deleteAll_loop R f knownTypes Success db"

text \<open>
  \<^verbatim>\<open>moveAllPolicies\<close> sends one transaction.  The last reply holds one element per \<^verbatim>\<open>RENAME\<close>; elements of
  type string, error and status all count as done, and so do the others, whose text has length zero
  and is compared with \<^verbatim>\<open>OK\<close> over that length.
\<close>

fun rename_loop ::
  "'db redis \<Rightarrow> file_t \<Rightarrow> file_t \<Rightarrow> policy_type list \<Rightarrow> 'db \<Rightarrow> 'db \<times> reply list" where
  "rename_loop R sf df [] db = (db, [])"
| "rename_loop R sf df (t # ts) db =
     (case rename_key R (case genFilePolicyKey sf t of None \<Rightarrow> [] | Some k \<Rightarrow> k)
             (case genFilePolicyKey df t of None \<Rightarrow> [] | Some k \<Rightarrow> k) db of
        (db1, r) \<Rightarrow> (case rename_loop R sf df ts db1 of (db2, rs) \<Rightarrow> (db2, r # rs)))"

definition moved_reply :: "reply \<Rightarrow> bool" where
  "moved_reply r = (case r of RString _ \<Rightarrow> True | RError \<Rightarrow> True | RStatus _ \<Rightarrow> True
     | _ \<Rightarrow> take 0 '''' = take 0 ''OK'')"

definition moveAllPolicies :: "'db redis \<Rightarrow> file_t \<Rightarrow> file_t \<Rightarrow> 'db \<Rightarrow> 'db \<times> ActionResult" where
  "moveAllPolicies R sf df db =
     (case redis_call R (\<lambda>d. case rename_loop R sf df knownTypes d of (d', rs) \<Rightarrow> (d', RArray rs)) db of
        (db', None) \<Rightarrow> (db', Failed NoConnection)
      | (db', Some (RArray rs)) \<Rightarrow>
          (db', if length rs = length knownTypes \<and> list_all moved_reply rs then Success
                else Failed (BadReply (RArray rs)))
      | (db', Some r) \<Rightarrow> (db', Failed (BadReply r)))"

subsection \<open>ImmutableManager\<close>

text \<open>\<open>nsd\<close> is the namespace of the configuration; every operation fills it into a file without one.\<close>

definition initFileNamespaceId :: "nat \<Rightarrow> file_t \<Rightarrow> file_t \<times> bool" where
  "initFileNamespaceId nsd f =
     (if f_namespaceId f = INVALID_NAMESPACE_ID then (f\<lparr>f_namespaceId := nsd\<rparr>, False) else (f, False))"

abbreviation with_ns :: "nat \<Rightarrow> file_t \<Rightarrow> file_t" where
  "with_ns nsd f \<equiv> fst (initFileNamespaceId nsd f)"

definition mgr_setPolicy ::
  "'db redis \<Rightarrow> nat \<Rightarrow> int \<Rightarrow> file_t \<Rightarrow> policy \<Rightarrow> 'db \<Rightarrow> 'db \<times> file_t \<times> bool" where
  "mgr_setPolicy R nsd now f p db =
     (let f' = with_ns nsd f in case setPolicyOnFile R now f' p db of (db', r) \<Rightarrow> (db', f', success r))"

definition mgr_getPolicy ::
  "'db redis \<Rightarrow> nat \<Rightarrow> file_t \<Rightarrow> policy_type \<Rightarrow> policy \<Rightarrow> 'db \<Rightarrow> 'db \<times> file_t \<times> policy \<times> bool" where
  "mgr_getPolicy R nsd f t p db =
     (let f' = with_ns nsd f in
      case getPolicyOnFile R f' (p_type p) p db of (db', p', r) \<Rightarrow> (db', f', p', success r))"

definition mgr_getAllPolicies ::
  "'db redis \<Rightarrow> nat \<Rightarrow> file_t \<Rightarrow> 'db \<Rightarrow> 'db \<times> file_t \<times> policy list" where
  "mgr_getAllPolicies R nsd f db =
     (let f' = with_ns nsd f in case getAllPoliciesOnFile R f' db of (db', ps) \<Rightarrow> (db', f', ps))"

definition mgr_extendPolicy ::
  "'db redis \<Rightarrow> nat \<Rightarrow> int \<Rightarrow> file_t \<Rightarrow> policy \<Rightarrow> 'db \<Rightarrow> 'db \<times> file_t \<times> bool" where
  "mgr_extendPolicy R nsd now f p db =
     (let f' = with_ns nsd f in case extendPolicyOnFile R now f' p db of (db', r) \<Rightarrow> (db', f', success r))"

definition mgr_renewPolicy ::
  "'db redis \<Rightarrow> nat \<Rightarrow> int \<Rightarrow> file_t \<Rightarrow> policy \<Rightarrow> 'db \<Rightarrow> ('db \<times> file_t \<times> bool) option" where
  "mgr_renewPolicy R nsd now f p db =
     (let f' = with_ns nsd f in
      case renewPolicyOnFile R now f' (p_type p) (p_autoRenew p) db of
        None \<Rightarrow> None | Some (db', r) \<Rightarrow> Some (db', f', success r))"

definition mgr_deleteAllPolicy :: "'db redis \<Rightarrow> nat \<Rightarrow> file_t \<Rightarrow> 'db \<Rightarrow> 'db \<times> file_t \<times> bool" where
  "mgr_deleteAllPolicy R nsd f db =
     (let f' = with_ns nsd f in case deleteAllPolicies R f' db of (db', r) \<Rightarrow> (db', f', success r))"

definition mgr_moveAllPolicy ::
  "'db redis \<Rightarrow> nat \<Rightarrow> file_t \<Rightarrow> file_t \<Rightarrow> 'db \<Rightarrow> 'db \<times> file_t \<times> file_t \<times> bool" where
  "mgr_moveAllPolicy R nsd sf df db =
     (let sf' = with_ns nsd sf; df' = with_ns nsd df in
      case moveAllPolicies R sf' df' db of (db', r) \<Rightarrow> (db', sf', df', success r))"

definition isPolicyValid ::
  "'db redis \<Rightarrow> nat \<Rightarrow> int \<Rightarrow> file_t \<Rightarrow> policy_type \<Rightarrow> 'db \<Rightarrow> 'db \<times> file_t \<times> bool" where
  "isPolicyValid R nsd now f t db =
     (let f' = with_ns nsd f in
      case getPolicyOnFile R f' t policy_reset db of
        (db', p, r) \<Rightarrow> (db', f', success r \<and> \<not> isExpired now p))"

definition isImmutable :: "'db redis \<Rightarrow> nat \<Rightarrow> int \<Rightarrow> file_t \<Rightarrow> 'db \<Rightarrow> 'db \<times> file_t \<times> bool" where
  "isImmutable R nsd now f db = isPolicyValid R nsd now f IMMUTABLE db"

definition isOnDeleteHold :: "'db redis \<Rightarrow> nat \<Rightarrow> int \<Rightarrow> file_t \<Rightarrow> 'db \<Rightarrow> 'db \<times> file_t \<times> bool" where
  "isOnDeleteHold R nsd now f db = isPolicyValid R nsd now f DELETION_HOLD db"

definition isOnModificationHold :: "'db redis \<Rightarrow> nat \<Rightarrow> int \<Rightarrow> file_t \<Rightarrow> 'db \<Rightarrow> 'db \<times> file_t \<times> bool" where
  "isOnModificationHold R nsd now f db = isPolicyValid R nsd now f MODIFICATION_HOLD db"

definition isOnAccessHold :: "'db redis \<Rightarrow> nat \<Rightarrow> int \<Rightarrow> file_t \<Rightarrow> 'db \<Rightarrow> 'db \<times> file_t \<times> bool" where
  "isOnAccessHold R nsd now f db = isPolicyValid R nsd now f ACCESS_HOLD db"

subsection \<open>What the store holds\<close>

text \<open>
  \<open>stored_policy\<close> is the abstraction: the policy of a type recorded for a file.  \<open>store_wf\<close> says that the
  fields under a policy key are written by the operations above: all three or none, a midnight of the
  32-bit range as start date, and a positive duration that fits \<^verbatim>\<open>short\<close>.
\<close>

definition storable :: "policy \<Rightarrow> bool" where
  "storable p \<longleftrightarrow> p_type p \<noteq> UNKNOWN_IMMUTABLE_POLICY \<and> 0 < p_start p \<and> p_start p < 2147483648
     \<and> p_start p mod 86400 = 0 \<and> 0 < p_duration p \<and> p_duration p < 32768"

definition policy_of_key :: "'db redis \<Rightarrow> 'db \<Rightarrow> policy_type \<Rightarrow> string \<Rightarrow> policy option" where
  "policy_of_key R db t key =
     (case (r_hget R db key policyFieldStartDate, r_hget R db key policyFieldDuration,
            r_hget R db key policyFieldAutoRenew) of
        (Some s, Some d, Some r) \<Rightarrow>
          (case (tonumber s, tonumber d) of
             (Some s', Some d') \<Rightarrow>
               Some \<lparr>p_type = t, p_start = s', p_duration = d', p_autoRenew = (r \<noteq> ''0'')\<rparr>
           | _ \<Rightarrow> None)
      | _ \<Rightarrow> None)"

definition stored_policy :: "'db redis \<Rightarrow> 'db \<Rightarrow> file_t \<Rightarrow> policy_type \<Rightarrow> policy option" where
  "stored_policy R db f t =
     (case genFilePolicyKey f t of None \<Rightarrow> None | Some key \<Rightarrow> policy_of_key R db t key)"

definition written_fields :: "string option \<Rightarrow> string option \<Rightarrow> string option \<Rightarrow> bool" where
  "written_fields s d r \<longleftrightarrow> s = None \<and> d = None \<and> r = None \<or>
     (\<exists>s' d'. s = Some (int_to_string s') \<and> d = Some (int_to_string d') \<and> (r = Some ''0'' \<or> r = Some ''1'')
        \<and> 0 < s' \<and> s' < 2147483648 \<and> s' mod 86400 = 0 \<and> 0 < d' \<and> d' < 32768)"

definition store_wf :: "'db redis \<Rightarrow> 'db \<Rightarrow> bool" where
  "store_wf R db \<longleftrightarrow> (\<forall>key. (\<exists>f t. genFilePolicyKey f t = Some key) \<longrightarrow>
     written_fields (r_hget R db key policyFieldStartDate) (r_hget R db key policyFieldDuration)
       (r_hget R db key policyFieldAutoRenew))"

text \<open>Where a policy ends when it does not renew, without the 32-bit product of \<^verbatim>\<open>getEndDate\<close>.\<close>

definition end_time :: "policy \<Rightarrow> int" where
  "end_time p = p_start p + 86400 * p_duration p"

text \<open>A file whose name is given in full and fits a key.\<close>

definition name_ok :: "file_t \<Rightarrow> bool" where
  "name_ok f \<longleftrightarrow> (case f_name f of None \<Rightarrow> False
     | Some n \<Rightarrow> f_nameLength f = int (length n) \<and> CHR 0x00 \<notin> set n \<and> length n \<le> 4000
         \<and> f_namespaceId f < 256)"

definition example_file :: "string \<Rightarrow> file_t" where
  "example_file n = (new_file False)\<lparr>f_namespaceId := 1, f_name := Some n, f_nameLength := int (length n)\<rparr>"

datatype policy_op = PSet file_t policy | PExtend file_t policy | PRenew file_t policy_type bool

definition policy_op_step :: "'db redis \<Rightarrow> int \<Rightarrow> policy_op \<Rightarrow> 'db \<Rightarrow> 'db option" where
  "policy_op_step R now p db = (case p of
      PSet f q \<Rightarrow> Some (fst (setPolicyOnFile R now f q db))
    | PExtend f q \<Rightarrow> Some (fst (extendPolicyOnFile R now f q db))
    | PRenew f t e \<Rightarrow> map_option fst (renewPolicyOnFile R now f t e db))"

fun run_ops :: "('op \<Rightarrow> 'db \<Rightarrow> 'db option) \<Rightarrow> 'op list \<Rightarrow> 'db \<Rightarrow> 'db option" where
  "run_ops step [] db = Some db"
| "run_ops step (x # xs) db = (case step x db of None \<Rightarrow> None | Some db' \<Rightarrow> run_ops step xs db')"

definition policy_run :: "'db redis \<Rightarrow> (int \<times> policy_op) list \<Rightarrow> 'db \<Rightarrow> 'db option" where
  "policy_run R = run_ops (\<lambda>(now, p). policy_op_step R now p)"

fun op_ok :: "policy_op \<Rightarrow> bool" where
  "op_ok (PSet f q) = (isDefined q \<longrightarrow> storable q)"
| "op_ok (PExtend f q) = (isDefined q \<longrightarrow> storable q)"
| "op_ok (PRenew f t e) = (t \<noteq> UNKNOWN_IMMUTABLE_POLICY)"

definition timed_op_ok :: "int \<times> policy_op \<Rightarrow> bool" where
  "timed_op_ok x \<longleftrightarrow> 0 \<le> fst x \<and> fst x < 2147483648 \<and> op_ok (snd x)"

text \<open>
  A store of deadlines: operations that carry a time end, keep the invariant, and never bring a
  deadline forward that lies after their time.
\<close>

locale retention =
  fixes step :: "'op \<Rightarrow> 'db \<Rightarrow> 'db option"
    and ok :: "'op \<Rightarrow> bool"
    and time :: "'op \<Rightarrow> int"
    and wf :: "'db \<Rightarrow> bool"
    and deadline :: "'db \<Rightarrow> int option"
  assumes step_total: "wf db \<Longrightarrow> ok x \<Longrightarrow> \<exists>db'. step x db = Some db' \<and> wf db'"
    and step_deadline: "wf db \<Longrightarrow> ok x \<Longrightarrow> deadline db = Some e \<Longrightarrow> time x < e \<Longrightarrow> step x db = Some db' \<Longrightarrow>
      \<exists>e'. deadline db' = Some e' \<and> e \<le> e'"
begin

lemma run_total: "wf db \<Longrightarrow> list_all ok xs \<Longrightarrow> \<exists>db'. run_ops step xs db = Some db' \<and> wf db'"
proof (induction xs arbitrary: db)
  case (Cons x xs)
  have "ok x" using Cons.prems(2) by simp
  from step_total [OF Cons.prems(1) this] obtain db1 where "step x db = Some db1" "wf db1" by blast
  with Cons show ?case by simp
qed simp

lemma run_deadline:
  assumes "wf db" and "list_all ok xs" and "deadline db = Some e" and "list_all (\<lambda>x. time x < e) xs"
  shows "\<exists>db' e'. run_ops step xs db = Some db' \<and> wf db' \<and> deadline db' = Some e' \<and> e \<le> e'"
proof -
  have "deadline db = Some e0 \<Longrightarrow> e \<le> e0 \<Longrightarrow>
      \<exists>db' e'. run_ops step xs db = Some db' \<and> wf db' \<and> deadline db' = Some e' \<and> e \<le> e'" for e0
    using assms(1,2,4)
  proof (induction xs arbitrary: db e0)
    case (Cons x xs)
    have x: "ok x" "time x < e0" using Cons.prems by auto
    from step_total [OF Cons.prems(3) x(1)] obtain db1 where s: "step x db = Some db1" "wf db1" by blast
    from step_deadline [OF Cons.prems(3) x(1) Cons.prems(1) x(2) s(1)]
    obtain e1 where "deadline db1 = Some e1" "e0 \<le> e1" by blast
    with Cons s show ?case by auto
  qed auto
  with assms(3) show ?thesis by blast
qed

end

subsection \<open>Keys identify the file and the type\<close>

lemma nat_to_string_short: "n < 256 \<Longrightarrow> length (nat_to_string n) \<le> 3"
proof -
  assume "n < 256"
  then have "n div 10 div 10 < 10" by (intro less_mult_imp_div_less) simp
  then show ?thesis
    by (simp add: nat_to_string.simps [of n] nat_to_string.simps [of "n div 10"]
        nat_to_string.simps [of "n div 10 div 10"])
qed

lemma print_width_exact:
  "CHR 0x00 \<notin> set n \<Longrightarrow> print_width (int (length n)) (Some n) = n"
proof -
  assume "CHR 0x00 \<notin> set n"
  then have "takeWhile (\<lambda>c. c \<noteq> CHR 0x00) n = n" by (auto simp: takeWhile_eq_all_conv)
  then show ?thesis by (simp add: print_width_def Let_def del: takeWhile_eq_all_conv)
qed

lemma genFilePolicyKey_name_ok:
  assumes "name_ok f" and "policyId t = Some i"
  shows "genFilePolicyKey f t =
     Some (''/ip-'' @ i @ ''_'' @ nat_to_string (f_namespaceId f) @ ''_'' @ the (f_name f))"
proof -
  obtain n where n: "f_name f = Some n" "f_nameLength f = int (length n)" "CHR 0x00 \<notin> set n"
      "length n \<le> 4000" "f_namespaceId f < 256"
    using assms(1) by (auto simp: name_ok_def split: option.splits)
  have i: "length i = 1" using assms(2) by (auto simp: policyId_def split: policy_type.splits)
  show ?thesis
    using n i nat_to_string_short [OF n(5)] assms(2)
    by (simp add: genFilePolicyKey_def genFileKey_def print_width_exact PATH_MAX_def)
qed

lemma policyId_cases: "policyId t = Some i \<Longrightarrow> policyId t' = Some i \<Longrightarrow> t = t'"
  by (auto simp: policyId_def split: policy_type.splits)

lemma policyId_length: "policyId t = Some i \<Longrightarrow> length i = 1"
  by (auto simp: policyId_def split: policy_type.splits)

lemma genFilePolicyKey_None: "genFilePolicyKey f t = None \<longleftrightarrow> t = UNKNOWN_IMMUTABLE_POLICY"
  by (cases t) (simp_all add: genFilePolicyKey_def policyId_def)

lemma genFilePolicyKey_hd: "genFilePolicyKey f t = Some k \<Longrightarrow> k \<noteq> []"
  by (auto simp: genFilePolicyKey_def PATH_MAX_def split: option.splits)

lemma genFilePolicyKey_inject:
  assumes "name_ok f" and "name_ok g" and "genFilePolicyKey f t = Some k" and "genFilePolicyKey g u = Some k"
  shows "t = u \<and> f_namespaceId f = f_namespaceId g \<and> f_name f = f_name g"
proof -
  obtain i where i: "policyId t = Some i"
    using assms(3) by (cases "policyId t") (auto simp: genFilePolicyKey_def)
  obtain j where j: "policyId u = Some j"
    using assms(4) by (cases "policyId u") (auto simp: genFilePolicyKey_def)
  have len: "length i = length j" using policyId_length [OF i] policyId_length [OF j] by simp
  have eq: "''/ip-'' @ i @ ''_'' @ nat_to_string (f_namespaceId f) @ ''_'' @ the (f_name f) =
        ''/ip-'' @ j @ ''_'' @ nat_to_string (f_namespaceId g) @ ''_'' @ the (f_name g)"
    using assms genFilePolicyKey_name_ok [OF assms(1) i] genFilePolicyKey_name_ok [OF assms(2) j] by simp
  then have ij: "i = j" and
    r: "nat_to_string (f_namespaceId f) @ CHR ''_'' # the (f_name f) =
        nat_to_string (f_namespaceId g) @ CHR ''_'' # the (f_name g)"
    using len by auto
  have no: "CHR ''_'' \<notin> set (nat_to_string n)" for n
    using nat_to_string_digits [of "CHR ''_''" n] underscore_not_digit by blast
  have "nat_to_string (f_namespaceId f) = nat_to_string (f_namespaceId g) \<and> the (f_name f) = the (f_name g)"
    by (rule split_at_separator [OF r no no])
  moreover have "f_name f \<noteq> None" "f_name g \<noteq> None"
    using assms(1,2) by (auto simp: name_ok_def split: option.splits)
  ultimately show ?thesis
    using policyId_cases [OF i] j ij by (auto simp: option.expand)
qed

subsection \<open>The window of a renewed policy\<close>

lemma renew_window_some:
  assumes "0 < d"
  shows "\<exists>st'. renew_window now d st = Some st' \<and> st \<le> st' \<and> now < st' + d * 86400 \<and>
     (st' = st \<or> st' \<le> now) \<and> st' mod 86400 = st mod 86400 \<and> (now < st + d * 86400 \<longrightarrow> st' = st)"
proof (induction "nat (now - st)" arbitrary: st rule: less_induct)
  case less
  show ?case
  proof (cases "now \<ge> st + d * 86400")
    case False
    then show ?thesis by (simp add: renew_window.simps [of now d st])
  next
    case True
    have "nat (now - (st + d * 86400)) < nat (now - st)" using True assms by linarith
    from less [OF this] obtain st' where st': "renew_window now d (st + d * 86400) = Some st'"
        "st + d * 86400 \<le> st'" "now < st' + d * 86400" "st' = st + d * 86400 \<or> st' \<le> now"
        "st' mod 86400 = (st + d * 86400) mod 86400" by blast
    have "renew_window now d st = Some st'" using True st'(1) by (simp add: renew_window.simps [of now d st])
    then show ?thesis using True st' assms by auto
  qed
qed

subsection \<open>The scripts on a well-formed store\<close>

lemma written_fields_cases:
  assumes "written_fields s d r"
  obtains (absent) "s = None" "d = None" "r = None"
  | (present) s' d' r' where "s = Some (int_to_string s')" "d = Some (int_to_string d')"
      "r = Some (if r' then ''1'' else ''0'')" "0 < s'" "s' < 2147483648" "s' mod 86400 = 0" "0 < d'" "d' < 32768"
  using assms unfolding written_fields_def
proof (elim disjE exE conjE)
  assume "s = None" "d = None" "r = None"
  then show ?thesis by (rule absent)
next
  fix s' d'
  assume w: "s = Some (int_to_string s')" "d = Some (int_to_string d')"
      "0 < s'" "s' < 2147483648" "s' mod 86400 = 0" "0 < d'" "d' < 32768" and r: "r = Some ''0''"
  from r have "r = Some (if False then ''1'' else ''0'')" by simp
  from w(1,2) this w(3-) show ?thesis by (rule present)
next
  fix s' d'
  assume w: "s = Some (int_to_string s')" "d = Some (int_to_string d')"
      "0 < s'" "s' < 2147483648" "s' mod 86400 = 0" "0 < d'" "d' < 32768" and r: "r = Some ''1''"
  from r have "r = Some (if True then ''1'' else ''0'')" by simp
  from w(1,2) this w(3-) show ?thesis by (rule present)
qed

lemma renew_flag [simp]: "((if q then ''1'' else ''0'') = ''0'') \<longleftrightarrow> \<not> q"
  by simp

lemma written_fieldsI:
  "0 < s \<Longrightarrow> s < 2147483648 \<Longrightarrow> s mod 86400 = 0 \<Longrightarrow> 0 < d \<Longrightarrow> d < 32768 \<Longrightarrow>
   written_fields (Some (int_to_string s)) (Some (int_to_string d)) (Some (if r then ''1'' else ''0''))"
  unfolding written_fields_def by (rule disjI2, rule exI [of _ s], rule exI [of _ d]) simp

lemma store_wfD:
  assumes "store_wf R db" and "genFilePolicyKey f t = Some key"
  shows "written_fields (r_hget R db key policyFieldStartDate) (r_hget R db key policyFieldDuration)
       (r_hget R db key policyFieldAutoRenew)"
  using assms unfolding store_wf_def by blast

lemma getDuration_storable: "storable p \<Longrightarrow> getDuration p = p_duration p"
  by (simp add: storable_def getDuration_def to_unsigned_def)

lemma storable_written:
  assumes "storable p"
  shows "written_fields (Some (int_to_string (int32 (p_start p))))
     (Some (int_to_string (getDuration p))) (Some (if r then ''1'' else ''0''))"
proof -
  have p: "int32 (p_start p) = p_start p" using assms by (simp add: storable_def)
  show ?thesis
    unfolding p getDuration_storable [OF assms] using assms
    by (intro written_fieldsI) (simp_all add: storable_def)
qed

lemmas storable_written_bool =
  storable_written [of _ True, unfolded if_True] storable_written [of _ False, unfolded if_False]

context redis_server
begin

lemma store_wf_update:
  assumes "store_wf R db"
    and "\<And>k f. k \<noteq> key \<Longrightarrow> r_hget R db' k f = r_hget R db k f"
    and "(\<exists>f t. genFilePolicyKey f t = Some key) \<Longrightarrow>
       written_fields (r_hget R db' key policyFieldStartDate) (r_hget R db' key policyFieldDuration)
       (r_hget R db' key policyFieldAutoRenew)"
  shows "store_wf R db'"
  unfolding store_wf_def
proof (intro allI impI)
  fix k
  assume k: "\<exists>f t. genFilePolicyKey f t = Some k"
  show "written_fields (r_hget R db' k policyFieldStartDate) (r_hget R db' k policyFieldDuration)
       (r_hget R db' k policyFieldAutoRenew)"
  proof (cases "k = key")
    case True
    with assms(3) k show ?thesis by simp
  next
    case False
    then have "r_hget R db' k = r_hget R db k" using assms(2) by (intro ext)
    with assms(1) k show ?thesis unfolding store_wf_def by simp
  qed
qed

lemma setPolicy_script_other:
  "k \<noteq> key \<Longrightarrow> r_hget R (fst (setPolicy_script R key a b c n db)) k f = r_hget R db k f"
  by (auto simp: setPolicy_script_def Let_def split: option.splits)

lemma extendPolicy_script_other:
  "k \<noteq> key \<Longrightarrow> r_hget R (fst (extendPolicy_script R key a b db)) k f = r_hget R db k f"
  by (auto simp: extendPolicy_script_def split: option.splits)

lemma renewPolicy_script_other:
  "renewPolicy_script R key n e db = Some (db', r) \<Longrightarrow> k \<noteq> key \<Longrightarrow> r_hget R db' k f = r_hget R db k f"
  by (auto simp: renewPolicy_script_def split: option.splits if_splits)

lemma setPolicy_script_result:
  obtains "fst (setPolicy_script R key a b c n db) = db"
  | "setPolicy_script R key a b c n db =
      (r_hset R key [(policyFieldStartDate, a), (policyFieldDuration, b), (policyFieldAutoRenew, c)] db, RInteger 0)"
  by (cases "fst (setPolicy_script R key a b c n db) = db")
    (auto simp: setPolicy_script_def Let_def split: option.splits if_splits)

lemma extendPolicy_script_result:
  obtains "fst (extendPolicy_script R key a b db) = db"
  | "extendPolicy_script R key a b db =
      (r_hset R key [(policyFieldStartDate, a), (policyFieldDuration, b)] db, RInteger 0)"
    "r_hget R db key policyFieldStartDate \<noteq> None"
  by (cases "fst (extendPolicy_script R key a b db) = db")
    (auto simp: extendPolicy_script_def split: option.splits if_splits)

lemma hset_three:
  "r_hget R (r_hset R key [(policyFieldStartDate, a), (policyFieldDuration, b), (policyFieldAutoRenew, c)] db) key
     policyFieldStartDate = Some a"
  "r_hget R (r_hset R key [(policyFieldStartDate, a), (policyFieldDuration, b), (policyFieldAutoRenew, c)] db) key
     policyFieldDuration = Some b"
  "r_hget R (r_hset R key [(policyFieldStartDate, a), (policyFieldDuration, b), (policyFieldAutoRenew, c)] db) key
     policyFieldAutoRenew = Some c"
  by (simp_all add: hget_hset policy_fields)

lemma hset_two:
  "r_hget R (r_hset R key [(policyFieldStartDate, a), (policyFieldDuration, b)] db) key policyFieldStartDate = Some a"
  "r_hget R (r_hset R key [(policyFieldStartDate, a), (policyFieldDuration, b)] db) key policyFieldDuration = Some b"
  "r_hget R (r_hset R key [(policyFieldStartDate, a), (policyFieldDuration, b)] db) key policyFieldAutoRenew =
     r_hget R db key policyFieldAutoRenew"
  by (simp_all add: hget_hset policy_fields)

lemma hset_renew:
  "r_hget R (r_hset R key [(policyFieldAutoRenew, c)] db) key policyFieldStartDate = r_hget R db key policyFieldStartDate"
  "r_hget R (r_hset R key [(policyFieldAutoRenew, c)] db) key policyFieldDuration = r_hget R db key policyFieldDuration"
  "r_hget R (r_hset R key [(policyFieldAutoRenew, c)] db) key policyFieldAutoRenew = Some c"
  by (simp_all add: hget_hset policy_fields)

lemma setPolicy_script_wf:
  assumes "store_wf R db" and "written_fields (Some a) (Some b) (Some c)"
  shows "store_wf R (fst (setPolicy_script R key a b c n db))"
  using assms(1) setPolicy_script_other
proof (rule store_wf_update [where key = key])
  assume ex: "\<exists>f t. genFilePolicyKey f t = Some key"
  let ?db = "fst (setPolicy_script R key a b c n db)"
  show "written_fields (r_hget R ?db key policyFieldStartDate) (r_hget R ?db key policyFieldDuration)
       (r_hget R ?db key policyFieldAutoRenew)"
    using assms(2) store_wfD [OF assms(1)] ex
    by (rule_tac setPolicy_script_result [of key a b c n db]) (auto simp: hset_three)
qed

lemma extendPolicy_script_wf:
  assumes "store_wf R db" and "\<And>r. written_fields (Some a) (Some b) (Some (if r then ''1'' else ''0''))"
  shows "store_wf R (fst (extendPolicy_script R key a b db))"
  using assms(1) extendPolicy_script_other
proof (rule store_wf_update [where key = key])
  assume "\<exists>f t. genFilePolicyKey f t = Some key"
  then have w: "written_fields (r_hget R db key policyFieldStartDate) (r_hget R db key policyFieldDuration)
       (r_hget R db key policyFieldAutoRenew)" using store_wfD [OF assms(1)] by blast
  let ?db = "fst (extendPolicy_script R key a b db)"
  show "written_fields (r_hget R ?db key policyFieldStartDate) (r_hget R ?db key policyFieldDuration)
       (r_hget R ?db key policyFieldAutoRenew)"
  proof (rule extendPolicy_script_result [of key a b db])
    assume "?db = db"
    with w show ?thesis by simp
  next
    assume e: "extendPolicy_script R key a b db =
        (r_hset R key [(policyFieldStartDate, a), (policyFieldDuration, b)] db, RInteger 0)"
      and "r_hget R db key policyFieldStartDate \<noteq> None"
    with w show ?thesis
      by (rule_tac written_fields_cases [OF w]) (simp_all only: e fst_conv hset_two assms(2) simp_thms)
  qed
qed

lemma renewPolicy_script_present:
  assumes "r_hget R db key policyFieldStartDate = Some (int_to_string s)"
    and "r_hget R db key policyFieldDuration = Some (int_to_string d)"
    and "r_hget R db key policyFieldAutoRenew = Some r" and "0 < d"
  obtains s' db' where "renewPolicy_script R key (int_to_string now) e db = Some (db', RInteger 0)"
    "r_hget R db' key policyFieldStartDate = Some (int_to_string s')"
    "r_hget R db' key policyFieldDuration = Some (int_to_string d)"
    "r_hget R db' key policyFieldAutoRenew = Some e"
    "s \<le> s'" "s' = s \<or> s' \<le> now" "s' mod 86400 = s mod 86400" "now < s + d * 86400 \<longrightarrow> s' = s"
    "now = 1 \<or> now < s' + d * 86400"
proof (cases "now = 1")
  case True
  then have "renewPolicy_script R key (int_to_string now) e db =
      Some (r_hset R key [(policyFieldAutoRenew, e)] db, RInteger 0)"
    using assms by (simp add: renewPolicy_script_def)
  from this show thesis
    by (rule that [where s' = s]) (use True assms in \<open>simp_all add: hset_renew\<close>)
next
  case False
  obtain s' where w: "renew_window now d s = Some s'" "s \<le> s'" "now < s' + d * 86400"
      "s' = s \<or> s' \<le> now" "s' mod 86400 = s mod 86400" "now < s + d * 86400 \<longrightarrow> s' = s"
    using renew_window_some [OF assms(4), of now s] by blast
  have "renewPolicy_script R key (int_to_string now) e db =
      Some (r_hset R key [(policyFieldStartDate, int_to_string s'), (policyFieldDuration, int_to_string d),
                          (policyFieldAutoRenew, e)] db, RInteger 0)"
    using assms False w(1) by (simp add: renewPolicy_script_def)
  from this show thesis by (rule that [where s' = s']) (use w in \<open>simp_all only: hset_three simp_thms\<close>)
qed

lemma renewPolicy_script_wf:
  assumes "store_wf R db" and "genFilePolicyKey f t = Some key" and "now < 2147483648"
    and "renewPolicy_script R key (int_to_string now) (if e then ''1'' else ''0'') db = Some (db', r)"
  shows "store_wf R db'"
  using store_wfD [OF assms(1,2)]
proof (cases rule: written_fields_cases)
  case absent
  with assms(1,4) show ?thesis by (simp add: renewPolicy_script_def)
next
  case (present s d q)
  from renewPolicy_script_present [OF present(1-3,7), of now "if e then ''1'' else ''0''"]
  obtain s' where s': "r_hget R db' key policyFieldStartDate = Some (int_to_string s')"
    "r_hget R db' key policyFieldDuration = Some (int_to_string d)"
    "r_hget R db' key policyFieldAutoRenew = Some (if e then ''1'' else ''0'')"
    "s \<le> s'" "s' = s \<or> s' \<le> now" "s' mod 86400 = s mod 86400"
    using assms(4) by (metis option.inject prod.inject)
  show ?thesis
  proof (rule store_wf_update [OF assms(1) renewPolicy_script_other [OF assms(4)]])
    show "written_fields (r_hget R db' key policyFieldStartDate) (r_hget R db' key policyFieldDuration)
       (r_hget R db' key policyFieldAutoRenew)"
      unfolding s'(1,2,3) using s' present assms(3) by (intro written_fieldsI) auto
  qed assumption
qed

lemma renewPolicy_script_total:
  assumes "store_wf R db" and "genFilePolicyKey f t = Some key"
  shows "\<exists>db' r. renewPolicy_script R key (int_to_string now) e db = Some (db', r)"
  using store_wfD [OF assms]
proof (cases rule: written_fields_cases)
  case absent
  then show ?thesis by (simp add: renewPolicy_script_def)
next
  case (present s d q)
  from renewPolicy_script_present [OF present(1-3,7), of now e] show ?thesis by metis
qed

lemma redis_call_state: "fst (redis_call R g db) = db \<or> fst (redis_call R g db) = fst (g db)"
  by (simp add: redis_call_def split: fate.split prod.split)

lemma setPolicyOnFile_state:
  "fst (setPolicyOnFile R now f p db) = db \<or> isDefined p \<and> isStarted now p \<and>
     (\<exists>key. genFilePolicyKey f (p_type p) = Some key \<and>
      fst (setPolicyOnFile R now f p db) = fst (setPolicy_script R key (int_to_string (int32 (p_start p)))
         (int_to_string (getDuration p)) (if p_autoRenew p then ''1'' else ''0'')
         (int_to_string (int32 now)) db))"
proof (cases "\<not> isStarted now p \<or> isExpired now p")
  case False
  then have d: "isDefined p" by (simp add: isStarted_def)
  show ?thesis
  proof (cases "genFilePolicyKey f (p_type p)")
    case (Some key)
    then show ?thesis
      using False d redis_call_state [of "setPolicy_script R key (int_to_string (int32 (p_start p)))
         (int_to_string (getDuration p)) (if p_autoRenew p then ''1'' else ''0'') (int_to_string (int32 now))" db]
      by (simp add: setPolicyOnFile_def case_prod_unfold)
  qed (simp add: setPolicyOnFile_def)
qed (simp add: setPolicyOnFile_def)

lemma extendPolicyOnFile_state:
  "fst (extendPolicyOnFile R now f p db) = db \<or> isDefined p \<and>
     (\<exists>key. genFilePolicyKey f (p_type p) = Some key \<and>
      fst (extendPolicyOnFile R now f p db) = fst (extendPolicy_script R key (int_to_string (int32 (p_start p)))
         (int_to_string (getDuration p)) db))"
proof (cases "\<not> isStarted now p \<or> isExpired now p")
  case False
  then have d: "isDefined p" by (simp add: isStarted_def)
  then obtain key where "genFilePolicyKey f (p_type p) = Some key"
    using genFilePolicyKey_None [of f "p_type p"] by (auto simp: isDefined_def)
  then show ?thesis
    using False d redis_call_state [of "extendPolicy_script R key (int_to_string (int32 (p_start p)))
       (int_to_string (getDuration p))" db]
    by (simp add: extendPolicyOnFile_def case_prod_unfold)
qed (simp add: extendPolicyOnFile_def)

lemma renewPolicyOnFile_state:
  assumes "renewPolicyOnFile R now f t e db = Some (db', r)"
  shows "db' = db \<or> (\<exists>r'. renewPolicy_script R (case genFilePolicyKey f t of None \<Rightarrow> [] | Some k \<Rightarrow> k)
     (int_to_string (int32 now)) (if e then ''1'' else ''0'') db = Some (db', r'))"
  using assms by (auto simp: renewPolicyOnFile_def Let_def split: fate.splits option.splits prod.splits)

lemma policy_op_step_total:
  assumes "store_wf R db" and "timed_op_ok (now, x)"
  shows "\<exists>db'. policy_op_step R now x db = Some db' \<and> store_wf R db'"
proof (cases x)
  case (PSet f p)
  have "store_wf R (fst (setPolicyOnFile R now f p db))"
    using setPolicyOnFile_state [of now f p db] assms PSet
    by (auto simp: timed_op_ok_def storable_written_bool intro!: setPolicy_script_wf)
  with PSet show ?thesis by (simp add: policy_op_step_def)
next
  case (PExtend f p)
  have "store_wf R (fst (extendPolicyOnFile R now f p db))"
    using extendPolicyOnFile_state [of now f p db] assms PExtend
    by (auto simp: timed_op_ok_def storable_written intro!: extendPolicy_script_wf)
  with PExtend show ?thesis by (simp add: policy_op_step_def)
next
  case (PRenew f t e)
  with assms obtain key where key: "genFilePolicyKey f t = Some key"
    using genFilePolicyKey_None [of f t] by (auto simp: timed_op_ok_def)
  have now: "int32 now = now" "now < 2147483648" using assms by (simp_all add: timed_op_ok_def)
  let ?e = "if e then ''1'' else ''0''"
  obtain db' r where s: "renewPolicy_script R key (int_to_string now) ?e db = Some (db', r)"
    using renewPolicy_script_total [OF assms(1) key] by blast
  have wf: "store_wf R db'" using renewPolicy_script_wf [OF assms(1) key now(2) s] .
  have "\<exists>d r. renewPolicyOnFile R now f t e db = Some (d, r) \<and> store_wf R d"
    using assms(1) s wf key now by (auto simp: renewPolicyOnFile_def split: fate.split)
  with PRenew show ?thesis by (auto simp: policy_op_step_def)
qed

lemma policy_of_key_other:
  "(\<And>f. r_hget R db' key f = r_hget R db key f) \<Longrightarrow> policy_of_key R db' t key = policy_of_key R db t key"
  by (simp add: policy_of_key_def)

lemma policy_of_keyE:
  assumes "policy_of_key R db t key = Some p"
  obtains s d r where "r_hget R db key policyFieldStartDate = Some s" "r_hget R db key policyFieldDuration = Some d"
    "r_hget R db key policyFieldAutoRenew = Some r" "tonumber s = Some (p_start p)" "tonumber d = Some (p_duration p)"
    "p_type p = t" "p_autoRenew p = (r \<noteq> ''0'')"
  using assms by (auto simp: policy_of_key_def split: option.splits)

lemma setPolicy_script_keeps:
  assumes "policy_of_key R db t key = Some p" and "now < end_time p"
  shows "setPolicy_script R key a b c (int_to_string now) db = (db, RInteger 2)"
  using assms(1)
proof (rule policy_of_keyE)
qed (use assms(2) in \<open>simp add: setPolicy_script_def end_time_def\<close>)

lemma extendPolicy_script_later:
  assumes "policy_of_key R db t key = Some p"
  shows "\<exists>p'. policy_of_key R (fst (extendPolicy_script R key (int_to_string s) (int_to_string d) db)) t key = Some p'
     \<and> end_time p \<le> end_time p'"
proof (rule policy_of_keyE [OF assms])
  fix os od r
  assume f: "r_hget R db key policyFieldStartDate = Some os" "r_hget R db key policyFieldDuration = Some od"
    "r_hget R db key policyFieldAutoRenew = Some r" "tonumber os = Some (p_start p)"
    "tonumber od = Some (p_duration p)"
  show ?thesis
  proof (cases "s + d * 86400 > p_start p + p_duration p * 86400")
    case True
    with f show ?thesis
      by (simp add: extendPolicy_script_def policy_of_key_def hset_two end_time_def)
  next
    case False
    with f assms show ?thesis by (simp add: extendPolicy_script_def)
  qed
qed

lemma renewPolicy_script_keeps:
  assumes "store_wf R db" and "genFilePolicyKey f t = Some key" and "policy_of_key R db t key = Some p"
    and "renewPolicy_script R key (int_to_string now) (if e then ''1'' else ''0'') db = Some (db', r)"
  shows "\<exists>s'. policy_of_key R db' t key = Some (p\<lparr>p_start := s', p_autoRenew := e\<rparr>) \<and> p_start p \<le> s'
    \<and> (s' = p_start p \<or> s' \<le> now) \<and> (now = 1 \<or> now < s' + p_duration p * 86400) \<and> s' mod 86400 = 0
    \<and> (now < end_time p \<longrightarrow> s' = p_start p)"
  using store_wfD [OF assms(1,2)]
proof (cases rule: written_fields_cases)
  case absent
  with assms(3) show ?thesis by (simp add: policy_of_key_def)
next
  case (present s d q)
  have p: "p = \<lparr>p_type = t, p_start = s, p_duration = d, p_autoRenew = q\<rparr>"
    using assms(3) present by (simp add: policy_of_key_def)
  from renewPolicy_script_present [OF present(1-3,7), of now "if e then ''1'' else ''0''"]
  obtain s' db2 where r: "renewPolicy_script R key (int_to_string now) (if e then ''1'' else ''0'') db = Some (db2, RInteger 0)"
    and s': "r_hget R db2 key policyFieldStartDate = Some (int_to_string s')"
    "r_hget R db2 key policyFieldDuration = Some (int_to_string d)"
    "r_hget R db2 key policyFieldAutoRenew = Some (if e then ''1'' else ''0'')"
    "s \<le> s'" "s' = s \<or> s' \<le> now" "s' mod 86400 = s mod 86400" "now < s + d * 86400 \<longrightarrow> s' = s"
    "now = 1 \<or> now < s' + d * 86400" .
  have "db2 = db'" using r assms(4) by simp
  note s' = s' [unfolded this]
  have "policy_of_key R db' t key = Some (p\<lparr>p_start := s', p_autoRenew := e\<rparr>)"
    using s'(1-3) by (simp add: policy_of_key_def p)
  with s' present(6) show ?thesis by (intro exI [of _ s']) (simp add: p end_time_def)
qed

lemma renewPolicy_script_reply:
  assumes "store_wf R db" and "genFilePolicyKey f t = Some key" and "policy_of_key R db t key = Some p"
    and "renewPolicy_script R key (int_to_string now) e db = Some (db', r)"
  shows "r = RInteger 0"
  using store_wfD [OF assms(1,2)]
proof (cases rule: written_fields_cases)
  case absent
  with assms(3) show ?thesis by (simp add: policy_of_key_def)
next
  case (present s d q)
  from renewPolicy_script_present [OF present(1-3,7), of now e]
  obtain db2 where "renewPolicy_script R key (int_to_string now) e db = Some (db2, RInteger 0)" .
  with assms(4) show ?thesis by simp
qed

lemma store_wf_policy:
  assumes "store_wf R db" and "genFilePolicyKey f t = Some key" and "policy_of_key R db t key = Some p"
  shows "86400 \<le> p_start p \<and> p_start p < 2147483648 \<and> p_start p mod 86400 = 0
    \<and> 0 < p_duration p \<and> p_duration p < 32768"
  using store_wfD [OF assms(1,2)]
proof (cases rule: written_fields_cases)
  case absent
  with assms(3) show ?thesis by (simp add: policy_of_key_def)
next
  case (present s d q)
  then have "\<not> s < 86400" by (auto simp: mod_pos_pos_trivial)
  with assms(3) present show ?thesis by (auto simp: policy_of_key_def)
qed

lemma setPolicyOnFile_deadline:
  assumes pk: "policy_of_key R db t key = Some p" and e: "now < end_time p" and now: "int32 now = now"
  shows "policy_of_key R (fst (setPolicyOnFile R now g q db)) t key = Some p"
  using setPolicyOnFile_state [of now g q db]
proof (elim disjE conjE exE)
  fix k
  assume "fst (setPolicyOnFile R now g q db) = fst (setPolicy_script R k (int_to_string (int32 (p_start q)))
     (int_to_string (getDuration q)) (if p_autoRenew q then ''1'' else ''0'') (int_to_string (int32 now)) db)"
  then show ?thesis
    using pk setPolicy_script_keeps [OF pk e] now policy_of_key_other [OF setPolicy_script_other, of key k]
    by (cases "k = key") simp_all
qed (use pk in simp)

lemma extendPolicyOnFile_deadline:
  assumes pk: "policy_of_key R db t key = Some p"
  shows "\<exists>p'. policy_of_key R (fst (extendPolicyOnFile R now g q db)) t key = Some p' \<and> end_time p \<le> end_time p'"
  using extendPolicyOnFile_state [of now g q db]
proof (elim disjE conjE exE)
  fix k
  assume "fst (extendPolicyOnFile R now g q db) = fst (extendPolicy_script R k
     (int_to_string (int32 (p_start q))) (int_to_string (getDuration q)) db)"
  then show ?thesis
    using pk extendPolicy_script_later [OF pk] policy_of_key_other [OF extendPolicy_script_other, of key k]
    by (cases "k = key") simp_all
qed (use pk in simp)

lemma renewPolicyOnFile_deadline:
  assumes wf: "store_wf R db" and key: "genFilePolicyKey f t = Some key"
    and pk: "policy_of_key R db t key = Some p" and e: "now < end_time p" and now: "int32 now = now"
    and r: "renewPolicyOnFile R now g u en db = Some (db', r)" and k: "genFilePolicyKey g u = Some k"
  shows "\<exists>p'. policy_of_key R db' t key = Some p' \<and> end_time p \<le> end_time p'"
  using renewPolicyOnFile_state [OF r]
proof (elim disjE exE)
  fix r'
  assume "renewPolicy_script R (case genFilePolicyKey g u of None \<Rightarrow> [] | Some k \<Rightarrow> k)
     (int_to_string (int32 now)) (if en then ''1'' else ''0'') db = Some (db', r')"
  then have rs: "renewPolicy_script R k (int_to_string now) (if en then ''1'' else ''0'') db = Some (db', r')"
    using k now by simp
  show ?thesis
  proof (cases "k = key")
    case True
    from renewPolicy_script_keeps [OF wf key pk rs [unfolded True]] e
    have "policy_of_key R db' t key = Some (p\<lparr>p_start := p_start p, p_autoRenew := en\<rparr>)" by auto
    then show ?thesis by (simp add: end_time_def)
  next
    case False
    then show ?thesis using policy_of_key_other [OF renewPolicy_script_other [OF rs]] pk by simp
  qed
qed (use pk in simp)

lemma policy_op_step_deadline:
  assumes wf: "store_wf R db" and ok: "timed_op_ok (now, x)" and p: "stored_policy R db f t = Some p"
    and e: "now < end_time p" and s: "policy_op_step R now x db = Some db'"
  shows "\<exists>p'. stored_policy R db' f t = Some p' \<and> end_time p \<le> end_time p'"
proof -
  obtain key where key: "genFilePolicyKey f t = Some key" and pk: "policy_of_key R db t key = Some p"
    using p by (auto simp: stored_policy_def split: option.splits)
  have now: "int32 now = now" using ok by (simp add: timed_op_ok_def)
  have "\<exists>p'. policy_of_key R db' t key = Some p' \<and> end_time p \<le> end_time p'"
  proof (cases x)
    case (PSet g q)
    with setPolicyOnFile_deadline [OF pk e now, of g q] s show ?thesis by (simp add: policy_op_step_def)
  next
    case (PExtend g q)
    with extendPolicyOnFile_deadline [OF pk, of now g q] s show ?thesis by (simp add: policy_op_step_def)
  next
    case (PRenew g u en)
    then obtain r k where r: "renewPolicyOnFile R now g u en db = Some (db', r)" and k: "genFilePolicyKey g u = Some k"
      using s ok genFilePolicyKey_None [of g u] by (auto simp: policy_op_step_def timed_op_ok_def)
    from renewPolicyOnFile_deadline [OF wf key pk e now r k] show ?thesis .
  qed
  then show ?thesis by (simp add: stored_policy_def key)
qed

end

sublocale redis_server \<subseteq> policies: retention "\<lambda>(now, x). policy_op_step R now x" timed_op_ok fst
  "store_wf R" "\<lambda>db. map_option end_time (stored_policy R db f t)" for f t
proof
  fix db x
  assume "store_wf R db" and "timed_op_ok x"
  then show "\<exists>db'. (\<lambda>(now, x). policy_op_step R now x) x db = Some db' \<and> store_wf R db'"
    using policy_op_step_total [of db "fst x" "snd x"] by (simp add: case_prod_unfold)
next
  fix db x e db'
  assume a: "store_wf R db" "timed_op_ok x" "map_option end_time (stored_policy R db f t) = Some e" "fst x < e"
    "(\<lambda>(now, x). policy_op_step R now x) x db = Some db'"
  then obtain p where p: "stored_policy R db f t = Some p" "end_time p = e" by auto
  from policy_op_step_deadline [OF a(1) _ p(1), of "fst x" "snd x" db'] a p
  show "\<exists>e'. map_option end_time (stored_policy R db' f t) = Some e' \<and> e \<le> e'"
    by (auto simp: case_prod_unfold)
qed

context redis_server
begin

lemma policy_run_deadline:
  assumes "store_wf R db" and "list_all timed_op_ok ops" and "stored_policy R db f t = Some p"
    and "list_all (\<lambda>x. fst x < end_time p) ops"
  shows "\<exists>db' p'. policy_run R ops db = Some db' \<and> store_wf R db' \<and> stored_policy R db' f t = Some p'
     \<and> end_time p \<le> end_time p'"
  using policies.run_deadline [OF assms(1,2), of f t "end_time p"] assms(3,4) by (auto simp: policy_run_def)

lemma getPolicyOnFile_stored:
  assumes "store_wf R db" and "genFilePolicyKey f t = Some key" and "r_fate R db = Replied"
  shows "getPolicyOnFile R f t p db = (case stored_policy R db f t of
     None \<Rightarrow> (db, p, Failed PolicyNotExists) | Some q \<Rightarrow> (db, q, Success))"
  using store_wfD [OF assms(1,2)]
proof (cases rule: written_fields_cases)
  case absent
  with assms show ?thesis
    by (simp add: getPolicyOnFile_def redis_call_def hmget_def stored_policy_def policy_of_key_def)
next
  case (present s d q)
  have s: "strtoul (int_to_string s) = s" "to_signed 64 s = s"
    using present by (auto intro!: strtoul_int_to_string to_signed_id)
  have d: "strtoul (int_to_string d) = d" "to_unsigned 16 d = d" "to_signed 16 d = d"
    using present by (auto simp: to_unsigned_def intro!: strtoul_int_to_string to_signed_id)
  have "\<not> s < 86400" using present(4,6) by (auto simp: mod_pos_pos_trivial)
  then have "setStartDate s p = (p\<lparr>p_start := s\<rparr>, True)" for p
    using present by (simp add: setStartDate_below_2038)
  with assms present s d show ?thesis
    by (simp add: getPolicyOnFile_def redis_call_def hmget_def stored_policy_def policy_of_key_def setDuration_def
        setType_def setRenewable_def)
qed

lemma setPolicyOnFile_Success:
  assumes "setPolicyOnFile R now f p db = (db', Success)" and "storable p"
  shows "stored_policy R db' f (p_type p) = Some p"
    and "store_wf R db \<Longrightarrow> store_wf R db'"
    and "genFilePolicyKey g u \<noteq> genFilePolicyKey f (p_type p) \<Longrightarrow> stored_policy R db' g u = stored_policy R db g u"
proof -
  have st: "isStarted now p" "\<not> isExpired now p"
    using assms(1) by (auto simp: setPolicyOnFile_def split: if_splits)
  from assms(2) obtain key where key: "genFilePolicyKey f (p_type p) = Some key"
    using genFilePolicyKey_None [of f "p_type p"] by (auto simp: storable_def)
  let ?args = "setPolicy_script R key (int_to_string (p_start p)) (int_to_string (p_duration p))
      (if p_autoRenew p then ''1'' else ''0'') (int_to_string (int32 now))"
  have p: "int32 (p_start p) = p_start p" using assms(2) by (simp add: storable_def)
  from assms(1) have c: "redis_call R ?args db = (db', Some (RInteger 0))"
    using st key p getDuration_storable [OF assms(2)]
    by (auto simp: setPolicyOnFile_def integer_reply_def split: prod.splits option.splits if_splits)
  then have sc: "?args db = (db', RInteger 0)"
    by (auto simp: redis_call_def split: fate.splits prod.splits)
  then have db': "db' = r_hset R key [(policyFieldStartDate, int_to_string (p_start p)),
      (policyFieldDuration, int_to_string (p_duration p)),
      (policyFieldAutoRenew, if p_autoRenew p then ''1'' else ''0'')] db"
    by (auto simp: setPolicy_script_def Let_def split: option.splits if_splits)
  show "stored_policy R db' f (p_type p) = Some p"
    unfolding stored_policy_def key db' by (simp add: policy_of_key_def hset_three)
  show "store_wf R db \<Longrightarrow> store_wf R db'"
    using setPolicy_script_wf [OF _ storable_written [OF assms(2)], of db] sc
    by (metis fst_conv p getDuration_storable [OF assms(2)])
  show "genFilePolicyKey g u \<noteq> genFilePolicyKey f (p_type p) \<Longrightarrow> stored_policy R db' g u = stored_policy R db g u"
    unfolding key db' by (auto simp: stored_policy_def policy_of_key_def split: option.split)
qed

end

end
