(* ===== verification/Policy_Retention.thy ===== *)
theory Policy_Retention
  imports Policy_Store
begin

text \<open>
  Properties of the policy store and of \<^verbatim>\<open>ImmutableManager\<close>: round trips, retention over sequences of
  operations, renewal, deletion and the move of policies between files.  The server is any one that
  satisfies \<open>redis_server\<close>; the concrete runs use the server over association lists.
\<close>

subsection \<open>Properties of the policy store\<close>

lemma name_ok_example: "CHR 0x00 \<notin> set n \<Longrightarrow> length n \<le> 4000 \<Longrightarrow> name_ok (example_file n)"
  by (simp add: name_ok_def example_file_def)

lemma with_ns_example: "with_ns nsd (example_file n) = example_file n"
  by (simp add: initFileNamespaceId_def example_file_def INVALID_NAMESPACE_ID_def)

lemma store_wf_empty: "store_wf (map_redis fate) []"
  by (simp add: store_wf_def written_fields_def map_redis_def map_hash_def)

lemma example_key: "genFilePolicyKey (example_file ''a'') IMMUTABLE = Some ''/ip-i_1_a''"
proof -
  have "nat_to_string 1 = ''1''" by (simp add: nat_to_string.simps [of 1] digit_char_def) code_simp
  then show ?thesis
    using genFilePolicyKey_name_ok [OF name_ok_example, of "''a''" IMMUTABLE "''i''"]
    by (simp add: policyId_def example_file_def)
qed

lemmas policy_eval = setPolicyOnFile_def extendPolicyOnFile_def isStarted_def isExpired_def isDefined_def getEndDate_def
  example_key redis_call_def setPolicy_script_def extendPolicy_script_def integer_reply_def map_redis_def map_hash_def
  getDuration_def to_unsigned_def

text \<open>
  C17.  What is set is what is read: after a successful \<^verbatim>\<open>setPolicyOnFile\<close> the store returns exactly the
  policy that was set, the store stays well-formed, and every policy of another type or of another
  file is as before.
\<close>

theorem policy_set_then_get:
  assumes "redis_server R" and "store_wf R db" and "storable p"
    and "setPolicyOnFile R now f p db = (db', Success)" and "r_fate R db' = Replied"
  shows "store_wf R db' \<and> getPolicyOnFile R f (p_type p) q db' = (db', p, Success) \<and>
     (\<forall>g u. name_ok f \<and> name_ok g \<and> (u \<noteq> p_type p \<or> f_namespaceId g \<noteq> f_namespaceId f \<or> f_name g \<noteq> f_name f)
        \<longrightarrow> stored_policy R db' g u = stored_policy R db g u)"
proof -
  note set = redis_server.setPolicyOnFile_Success [OF assms(1,4,3)]
  obtain key where key: "genFilePolicyKey f (p_type p) = Some key"
    using assms(3) genFilePolicyKey_None [of f "p_type p"] by (auto simp: storable_def)
  have "getPolicyOnFile R f (p_type p) q db' = (db', p, Success)"
    using redis_server.getPolicyOnFile_stored [OF assms(1) set(2) [OF assms(2)] key assms(5)] set(1) by simp
  moreover have "stored_policy R db' g u = stored_policy R db g u"
    if g: "name_ok f" "name_ok g" "u \<noteq> p_type p \<or> f_namespaceId g \<noteq> f_namespaceId f \<or> f_name g \<noteq> f_name f" for g u
  proof (rule set(3))
    show "genFilePolicyKey g u \<noteq> genFilePolicyKey f (p_type p)"
      using genFilePolicyKey_inject [OF g(1,2) key, of u] g(3) key by fastforce
  qed
  ultimately show ?thesis using set(2) [OF assms(2)] by blast
qed

theorem policy_set_then_get_witness:
  "let R = map_redis Replied; f = example_file ''a'';
       p = \<lparr>p_type = IMMUTABLE, p_start = 86400, p_duration = 30, p_autoRenew = False\<rparr>;
       db' = fst (setPolicyOnFile R 90000 f p [])
   in redis_server R \<and> store_wf R [] \<and> storable p \<and> setPolicyOnFile R 90000 f p [] = (db', Success)
     \<and> r_fate R db' = Replied \<and> getPolicyOnFile R f IMMUTABLE policy_reset db' = (db', p, Success)"
proof -
  let ?R = "map_redis Replied" and ?f = "example_file ''a''"
  let ?p = "\<lparr>p_type = IMMUTABLE, p_start = 86400, p_duration = 30, p_autoRenew = False\<rparr>"
  let ?db = "fst (setPolicyOnFile ?R 90000 ?f ?p [])"
  have h: "redis_server ?R" by (rule map_server.redis_server_axioms)
  have p: "storable ?p" by (simp add: storable_def)
  have s: "snd (setPolicyOnFile ?R 90000 ?f ?p []) = Success" by (simp add: policy_eval)
  then have s': "setPolicyOnFile ?R 90000 ?f ?p [] = (?db, Success)" by (metis prod.collapse)
  have r: "r_fate ?R ?db = Replied" by (simp add: map_redis_def)
  from policy_set_then_get [OF h store_wf_empty p s' r, of policy_reset] show ?thesis
    using h store_wf_empty p s' r by (simp add: Let_def)
qed


lemma example_policy_stored:
  "stored_policy (map_redis Replied) [(''/ip-i_1_a'', [(''s'', ''86400''), (''d'', ''30''), (''r'', ''0'')])]
     (example_file ''a'') IMMUTABLE =
   Some \<lparr>p_type = IMMUTABLE, p_start = 86400, p_duration = 30, p_autoRenew = False\<rparr>"
  by (simp add: stored_policy_def example_key policy_of_key_def map_redis_def map_hash_def policy_fields
      tonumber_def is_digit_def dec_value_def digit_value_def)

lemma int_to_string_86400: "int_to_string 86400 = ''86400''"
  by (simp add: int_to_string_def nat_to_string.simps digit_char_def) code_simp

lemma int_to_string_30: "int_to_string 30 = ''30''"
  by (simp add: int_to_string_def nat_to_string.simps digit_char_def) code_simp

lemma example_store_wf:
  "store_wf (map_redis fate) [(''/ip-i_1_a'', [(''s'', ''86400''), (''d'', ''30''), (''r'', ''0'')])]"
proof -
  have "written_fields (Some ''86400'') (Some ''30'') (Some ''0'')"
    using written_fieldsI [of 86400 30 False] by (simp add: int_to_string_86400 int_to_string_30)
  moreover have "written_fields None None None" by (simp add: written_fields_def)
  ultimately show ?thesis
    by (simp add: store_wf_def map_redis_def map_hash_def policy_fields)
qed




text \<open>
  A file counts as immutable, or on hold, exactly when a policy of that type is stored for it and has
  not expired; that the start date has been reached is not asked.
\<close>

theorem isPolicyValid_iff_stored:
  assumes "redis_server R" and "store_wf R db" and "t \<noteq> UNKNOWN_IMMUTABLE_POLICY" and "r_fate R db = Replied"
  shows "isPolicyValid R nsd now f t db =
     (db, with_ns nsd f, \<exists>p. stored_policy R db (with_ns nsd f) t = Some p \<and> \<not> isExpired now p)"
proof -
  obtain key where key: "genFilePolicyKey (with_ns nsd f) t = Some key"
    using assms(3) genFilePolicyKey_None [of "with_ns nsd f" t] by auto
  show ?thesis
    by (simp add: isPolicyValid_def redis_server.getPolicyOnFile_stored [OF assms(1,2) key assms(4)] success_def
        Let_def split: option.split)
qed

theorem isPolicyValid_iff_stored_witness:
  "let R = map_redis Replied; f = example_file ''a'';
       db = [(''/ip-i_1_a'', [(''s'', ''86400''), (''d'', ''30''), (''r'', ''0'')])]
   in redis_server R \<and> store_wf R db \<and> r_fate R db = Replied \<and>
      snd (snd (isPolicyValid R 1 2678400 f IMMUTABLE db)) \<and> \<not> snd (snd (isPolicyValid R 1 2678401 f IMMUTABLE db))"
proof -
  let ?R = "map_redis Replied"
  let ?db = "[(''/ip-i_1_a'', [(''s'', ''86400''), (''d'', ''30''), (''r'', ''0'')])]"
  have h: "redis_server ?R" by (rule map_server.redis_server_axioms)
  have r: "r_fate ?R ?db = Replied" by (simp add: map_redis_def)
  have t: "IMMUTABLE \<noteq> UNKNOWN_IMMUTABLE_POLICY" by simp
  show ?thesis
    using h r example_store_wf isPolicyValid_iff_stored [OF h example_store_wf t r, of 1 _ "example_file ''a''"]
    by (simp add: Let_def with_ns_example example_policy_stored isExpired_def isDefined_def getEndDate_def)
qed

lemma small_start_date:
  assumes "n \<in> {1, 2, 9, 20}"
  shows "setStartDate (86400 * n) p = (p\<lparr>p_start := 86400 * n\<rparr>, True)"
  using assms by (subst setStartDate_below_2038) auto


text \<open>
  Setting a policy can replace an automatically renewing one.  The script judges the stored policy by
  its first window only: a one-day policy that renews, and protects the file at any later time, gives
  way on day ten to a one-day policy that does not renew, and on day thirty the file is not protected.
\<close>

theorem setPolicy_replaces_renewing_policy:
  "let R = map_redis Replied; f = example_file ''a'';
       db = [(''/ip-i_1_a'', [(''s'', ''86400''), (''d'', ''1''), (''r'', ''1'')])];
       q = \<lparr>p_type = IMMUTABLE, p_start = 777600, p_duration = 1, p_autoRenew = False\<rparr>;
       (db', f', ok) = mgr_setPolicy R 1 800000 f q db
   in snd (snd (isImmutable R 1 2592000 f db)) \<and> ok \<and> \<not> snd (snd (isImmutable R 1 2592000 f db'))"
proof -
  have n: "int_to_string 777600 = ''777600''" "int_to_string 1 = ''1''" "int_to_string 800000 = ''800000''"
    by (simp_all add: int_to_string_def nat_to_string.simps digit_char_def) code_simp+
  show ?thesis
    by (simp add: mgr_setPolicy_def isImmutable_def isPolicyValid_def with_ns_example policy_eval policy_fields n
        tonumber_def is_digit_def dec_value_def digit_value_def success_def getPolicyOnFile_def hmget_def strtoul_def
        to_signed_def small_start_date [of 1, simplified] small_start_date [of 9, simplified]
        setDuration_def setType_def setRenewable_def policy_reset_def)
qed

lemma deletePolicyOnFile_Replied:
  assumes "r_fate R db = Replied" and "genFilePolicyKey f t = Some key"
  shows "deletePolicyOnFile R f t db = (r_del R key db, Success)"
  using assms by (simp add: deletePolicyOnFile_def redis_call_def del_key_def)

lemma deleteAll_loop_hget:
  assumes "redis_server R" and "\<And>db. r_fate R db = Replied" and "UNKNOWN_IMMUTABLE_POLICY \<notin> set ts"
  shows "snd (deleteAll_loop R f ts res db) = res \<and>
     r_hget R (fst (deleteAll_loop R f ts res db)) k x =
       (if \<exists>t \<in> set ts. genFilePolicyKey f t = Some k then None else r_hget R db k x)"
  using assms(3)
proof (induction ts arbitrary: db res)
  case (Cons t ts)
  then obtain key where key: "genFilePolicyKey f t = Some key"
    using genFilePolicyKey_None [of f t] by auto
  from Cons show ?case
    by (auto simp: deletePolicyOnFile_Replied [OF assms(2) key] success_def key redis_server.hget_del [OF assms(1)])
qed simp

lemma set_knownTypes: "t \<in> set knownTypes \<longleftrightarrow> t \<noteq> UNKNOWN_IMMUTABLE_POLICY"
  by (cases t) (simp_all add: knownTypes_def)

text \<open>
  \<^verbatim>\<open>deleteAllPolicies\<close> removes every policy of the file, reports success, and leaves the policies of
  every other file as they were.
\<close>

theorem deleteAllPolicies_exact:
  assumes "redis_server R" and "\<And>db. r_fate R db = Replied"
  shows "\<exists>db'. deleteAllPolicies R f db = (db', Success) \<and> (\<forall>t. stored_policy R db' f t = None) \<and>
     (\<forall>g t. name_ok f \<and> name_ok g \<and> (f_namespaceId g \<noteq> f_namespaceId f \<or> f_name g \<noteq> f_name f) \<longrightarrow>
        stored_policy R db' g t = stored_policy R db g t)"
proof -
  obtain db' r where d: "deleteAllPolicies R f db = (db', r)" by (cases "deleteAllPolicies R f db")
  have u: "UNKNOWN_IMMUTABLE_POLICY \<notin> set knownTypes" by (simp add: set_knownTypes)
  from deleteAll_loop_hget [OF assms u, of f Success db] d
  have r: "r = Success" and h: "\<And>k x. r_hget R db' k x =
      (if \<exists>t \<in> set knownTypes. genFilePolicyKey f t = Some k then None else r_hget R db k x)"
    by (simp_all add: deleteAllPolicies_def)
  have "stored_policy R db' f t = None" for t
    using h genFilePolicyKey_None [of f t] set_knownTypes [of t]
    by (cases "genFilePolicyKey f t") (auto simp: stored_policy_def policy_of_key_def)
  moreover have "stored_policy R db' g t = stored_policy R db g t"
    if g: "name_ok f" "name_ok g" "f_namespaceId g \<noteq> f_namespaceId f \<or> f_name g \<noteq> f_name f" for g t
  proof (cases "genFilePolicyKey g t")
    case (Some k)
    then have "\<not> (\<exists>u \<in> set knownTypes. genFilePolicyKey f u = Some k)"
      using genFilePolicyKey_inject [OF g(1,2)] g(3) by metis
    with h [of k] Some show ?thesis by (simp add: stored_policy_def policy_of_key_def)
  qed (simp add: stored_policy_def)
  ultimately show ?thesis using d r by blast
qed

theorem deleteAllPolicies_exact_witness:
  "redis_server (map_redis Replied) \<and> (\<forall>db. r_fate (map_redis Replied) db = Replied) \<and>
   (\<exists>db'. deleteAllPolicies (map_redis Replied) (example_file ''a'')
       [(''/ip-i_1_a'', [(''s'', ''86400''), (''d'', ''30''), (''r'', ''0'')])] = (db', Success) \<and>
     stored_policy (map_redis Replied) db' (example_file ''a'') IMMUTABLE = None)"
proof -
  have h: "redis_server (map_redis Replied)" by (rule map_server.redis_server_axioms)
  have r: "r_fate (map_redis Replied) db = Replied" for db by (simp add: map_redis_def)
  from deleteAllPolicies_exact [OF h r] h r show ?thesis by blast
qed

lemma rename_loop_Cons:
  assumes "genFilePolicyKey sf t = Some k" and "genFilePolicyKey df t = Some k'"
  shows "rename_loop R sf df (t # ts) db =
     (case rename_key R k k' db of (db1, r) \<Rightarrow>
        (case rename_loop R sf df ts db1 of (db2, rs) \<Rightarrow> (db2, r # rs)))"
  by (simp add: assms)

lemma rename_loop_replies:
  "length (snd (rename_loop R sf df ts db)) = length ts \<and> list_all moved_reply (snd (rename_loop R sf df ts db))"
  by (induction ts arbitrary: db)
    (auto simp: moved_reply_def rename_key_def case_prod_unfold split: reply.split)

lemma rename_loop_hget:
  assumes R: "redis_server R"
    and keys: "\<And>t. t \<in> set ts \<Longrightarrow> genFilePolicyKey sf t = Some (ks t) \<and> genFilePolicyKey df t = Some (kd t)"
    and apart: "\<And>t u. t \<in> set ts \<Longrightarrow> u \<in> set ts \<Longrightarrow> ks t \<noteq> kd u"
    and inj: "\<And>t u. t \<in> set ts \<Longrightarrow> u \<in> set ts \<Longrightarrow> ks t = ks u \<or> kd t = kd u \<Longrightarrow> t = u"
    and "distinct ts"
  shows "(\<forall>t \<in> set ts. r_hget R (fst (rename_loop R sf df ts db)) (ks t) x = None \<and>
        r_hget R (fst (rename_loop R sf df ts db)) (kd t) x =
          (if r_exists R db (ks t) then r_hget R db (ks t) x else r_hget R db (kd t) x)) \<and>
     (\<forall>k. (\<forall>t \<in> set ts. k \<noteq> ks t \<and> k \<noteq> kd t) \<longrightarrow>
        r_hget R (fst (rename_loop R sf df ts db)) k x = r_hget R db k x)"
  using keys apart inj assms(5)
proof (induction ts arbitrary: db)
  case (Cons t ts)
  let ?db1 = "fst (rename_key R (ks t) (kd t) db)"
  have step: "fst (rename_loop R sf df (t # ts) db) = fst (rename_loop R sf df ts ?db1)"
    using Cons.prems(1) [of t] by (simp add: case_prod_unfold)
  have ex: "r_exists R ?db1 (ks u) = r_exists R db (ks u)" if "u \<in> set ts" for u
  proof -
    have "u \<noteq> t" using that Cons.prems(4) by auto
    then have "ks u \<noteq> ks t" "ks u \<noteq> kd t" using that Cons.prems(2,3) by auto
    then show ?thesis by (simp add: rename_key_def redis_server.exists_rename [OF R])
  qed
  have other: "r_hget R ?db1 k x = r_hget R db k x" if "k \<noteq> ks t" "k \<noteq> kd t" for k
    using that by (simp add: redis_server.hget_rename_key [OF R])
  have diff: "ks u \<noteq> ks t \<and> ks u \<noteq> kd t \<and> kd u \<noteq> ks t \<and> kd u \<noteq> kd t" if "u \<in> set ts" for u
    using that Cons.prems(2,3,4) by auto metis+
  have none: "r_hget R ?db1 (ks t) x = None"
    using redis_server.hget_exists [OF R, of db "ks t" x] Cons.prems(2) [of t t]
    by (cases "r_hget R db (ks t) x") (auto simp: redis_server.hget_rename_key [OF R])
  have new: "r_hget R ?db1 (kd t) x = (if r_exists R db (ks t) then r_hget R db (ks t) x else r_hget R db (kd t) x)"
    by (simp add: redis_server.hget_rename_key [OF R])
  note IH = Cons.IH [of ?db1]
  have IH: "(\<forall>u \<in> set ts. r_hget R (fst (rename_loop R sf df ts ?db1)) (ks u) x = None \<and>
        r_hget R (fst (rename_loop R sf df ts ?db1)) (kd u) x =
          (if r_exists R ?db1 (ks u) then r_hget R ?db1 (ks u) x else r_hget R ?db1 (kd u) x)) \<and>
     (\<forall>k. (\<forall>u \<in> set ts. k \<noteq> ks u \<and> k \<noteq> kd u) \<longrightarrow>
        r_hget R (fst (rename_loop R sf df ts ?db1)) k x = r_hget R ?db1 k x)"
    using Cons.prems by (intro IH) auto
  have "\<forall>u \<in> set ts. ks t \<noteq> ks u \<and> ks t \<noteq> kd u" "\<forall>u \<in> set ts. kd t \<noteq> ks u \<and> kd t \<noteq> kd u"
    using diff by metis+
  then have "r_hget R (fst (rename_loop R sf df ts ?db1)) (ks t) x = None"
    "r_hget R (fst (rename_loop R sf df ts ?db1)) (kd t) x =
       (if r_exists R db (ks t) then r_hget R db (ks t) x else r_hget R db (kd t) x)"
    using IH none new by simp_all
  with IH ex other diff show ?case unfolding step by simp
qed simp

text \<open>
  \<^verbatim>\<open>moveAllPolicies\<close> between two different files always reports success.  Every policy of the source
  moves to the destination and leaves the source; for a type the source has no key of, the destination
  keeps the policy it had.
\<close>

theorem moveAllPolicies_exact:
  assumes "redis_server R" and "r_fate R db = Replied" and "name_ok sf" and "name_ok df"
    and "f_namespaceId sf \<noteq> f_namespaceId df \<or> f_name sf \<noteq> f_name df"
  shows "\<exists>db'. moveAllPolicies R sf df db = (db', Success) \<and>
     (\<forall>t \<in> set knownTypes. stored_policy R db' sf t = None \<and> stored_policy R db' df t =
        (if r_exists R db (the (genFilePolicyKey sf t)) then stored_policy R db sf t else stored_policy R db df t))"
proof -
  let ?ks = "\<lambda>t. the (genFilePolicyKey sf t)" and ?kd = "\<lambda>t. the (genFilePolicyKey df t)"
  let ?db = "fst (rename_loop R sf df knownTypes db)"
  have keys: "genFilePolicyKey sf t = Some (?ks t) \<and> genFilePolicyKey df t = Some (?kd t)" if "t \<in> set knownTypes" for t
    using that genFilePolicyKey_None by (auto simp: set_knownTypes)
  have apart: "?ks t \<noteq> ?kd u" if "t \<in> set knownTypes" "u \<in> set knownTypes" for t u
    using genFilePolicyKey_inject [OF assms(3,4)] keys [OF that(1)] keys [OF that(2)] assms(5) by metis
  have inj: "t = u" if "t \<in> set knownTypes" "u \<in> set knownTypes" "?ks t = ?ks u \<or> ?kd t = ?kd u" for t u
    using genFilePolicyKey_inject [OF assms(3,3)] genFilePolicyKey_inject [OF assms(4,4)]
      keys [OF that(1)] keys [OF that(2)] that(3) by metis
  have d: "distinct knownTypes" by (simp add: knownTypes_def)
  have h: "\<forall>t \<in> set knownTypes. r_hget R ?db (?ks t) x = None \<and> r_hget R ?db (?kd t) x =
      (if r_exists R db (?ks t) then r_hget R db (?ks t) x else r_hget R db (?kd t) x)" for x
    by (rule conjunct1 [OF rename_loop_hget [OF assms(1)]]; (rule keys apart inj d)?; assumption?)
  have "moveAllPolicies R sf df db = (?db, Success)"
    using assms(2) rename_loop_replies [of R sf df knownTypes db]
    by (simp add: moveAllPolicies_def redis_call_def case_prod_unfold)
  moreover have "stored_policy R ?db sf t = None \<and> stored_policy R ?db df t =
      (if r_exists R db (?ks t) then stored_policy R db sf t else stored_policy R db df t)"
    if t: "t \<in> set knownTypes" for t
  proof -
    obtain a b where "genFilePolicyKey sf t = Some a" "genFilePolicyKey df t = Some b" using keys [OF t] by metis
    moreover from this h t have "r_hget R ?db a x = None"
      "r_hget R ?db b x = (if r_exists R db a then r_hget R db a x else r_hget R db b x)" for x
      by fastforce+
    ultimately show ?thesis by (simp add: stored_policy_def policy_of_key_def)
  qed
  ultimately show ?thesis by blast
qed

theorem moveAllPolicies_exact_witness:
  "let R = map_redis Replied; sf = example_file ''a''; df = example_file ''b'';
       db = [(''/ip-i_1_a'', [(''s'', ''86400''), (''d'', ''30''), (''r'', ''0'')])]
   in redis_server R \<and> r_fate R db = Replied \<and> name_ok sf \<and> name_ok df \<and> f_name sf \<noteq> f_name df \<and>
      (\<exists>db'. moveAllPolicies R sf df db = (db', Success) \<and> stored_policy R db' sf IMMUTABLE = None \<and>
         stored_policy R db' df IMMUTABLE =
           Some \<lparr>p_type = IMMUTABLE, p_start = 86400, p_duration = 30, p_autoRenew = False\<rparr>)"
proof -
  let ?R = "map_redis Replied" and ?db = "[(''/ip-i_1_a'', [(''s'', ''86400''), (''d'', ''30''), (''r'', ''0'')])]"
  have h: "redis_server ?R" by (rule map_server.redis_server_axioms)
  have r: "r_fate ?R ?db = Replied" by (simp add: map_redis_def)
  have n: "name_ok (example_file ''a'')" "name_ok (example_file ''b'')" by (simp_all add: name_ok_example)
  have d: "f_name (example_file ''a'') \<noteq> f_name (example_file ''b'')" by (simp add: example_file_def)
  have i: "IMMUTABLE \<in> set knownTypes" by (simp add: set_knownTypes)
  have e: "r_exists ?R ?db (the (genFilePolicyKey (example_file ''a'') IMMUTABLE))"
    by (simp add: example_key map_redis_def)
  from moveAllPolicies_exact [OF h r n disjI2 [OF d]] i e example_policy_stored
  show ?thesis using h r n d by (simp add: Let_def) metis
qed

end
