(* ===== verification/Isal_Interface.thy ===== *)
theory Isal_Interface
  imports Nexo_Prelude
begin

unbundle bit_operations_syntax

text \<open>
  The erasure coding library (ISA-L) behind \<^verbatim>\<open>src/common/coding\<close>.  The library is not part of the
  repository: it is the parameter \<open>I\<close>, a record of the functions the code calls, and the locale \<open>isal\<close>
  states their documented behaviour.  Matrices are flat lists, row after row, as in the source.
  \<open>isal256\<close> is an implementation over the field of 256 elements with the polynomial of the library
  (0x11d), with its generator matrix; its inversion checks the candidate that elimination gives.
\<close>

record isal =
  gf_mul :: "byte \<Rightarrow> byte \<Rightarrow> byte"
  gf_gen_rs_matrix :: "nat \<Rightarrow> nat \<Rightarrow> byte list"
  ec_init_tables :: "nat \<Rightarrow> nat \<Rightarrow> byte list \<Rightarrow> byte list"
  ec_encode_data :: "nat \<Rightarrow> nat \<Rightarrow> nat \<Rightarrow> byte list \<Rightarrow> byte list list \<Rightarrow> byte list list"
  gf_invert_matrix :: "byte list \<Rightarrow> nat \<Rightarrow> byte list option"

lemma flat_index: "i < n \<Longrightarrow> j < k \<Longrightarrow> i * k + j < n * k" for i j k n :: nat
proof -
  assume "i < n" "j < k"
  then have "i * k + j < Suc i * k" by simp
  also have "\<dots> \<le> n * k" using \<open>i < n\<close> by (intro mult_le_mono1) simp
  finally show ?thesis .
qed

text \<open>Sum in the field: exclusive or.\<close>

primrec xsum :: "(nat \<Rightarrow> byte) \<Rightarrow> nat \<Rightarrow> byte" where
  "xsum f 0 = 0"
| "xsum f (Suc k) = xsum f k XOR f k"

lemma xsum_cong [cong]: "k = l \<Longrightarrow> (\<And>j. j < l \<Longrightarrow> f j = g j) \<Longrightarrow> xsum f k = xsum g l"
proof -
  assume "k = l" and "\<And>j. j < l \<Longrightarrow> f j = g j"
  moreover have "(\<And>j. j < l \<Longrightarrow> f j = g j) \<Longrightarrow> xsum f l = xsum g l" by (induction l) auto
  ultimately show ?thesis by simp
qed

lemma xsum_zero [simp]: "xsum (\<lambda>j. 0) k = 0"
  by (induction k) auto

lemma xsum_xor: "xsum (\<lambda>j. f j XOR g j) k = xsum f k XOR xsum g k"
  by (induction k) (simp_all add: ac_simps)

lemma xsum_swap: "xsum (\<lambda>i. xsum (f i) k) m = xsum (\<lambda>j. xsum (\<lambda>i. f i j) m) k"
  by (induction m) (simp_all add: xsum_xor)

lemma xsum_add: "xsum f (m + k) = xsum f m XOR xsum (\<lambda>j. f (m + j)) k"
  by (induction k) (simp_all add: ac_simps)

lemma xsum_delta: "i < k \<Longrightarrow> xsum (\<lambda>j. if j = i then f j else 0) k = f i"
proof (induction k)
  case (Suc k)
  have "xsum (\<lambda>j. if j = i then f j else 0) k = 0" if "k = i"
    using that by (simp cong: xsum_cong)
  with Suc show ?case by (cases "i = k") auto
qed simp

subsection \<open>The contract of the library\<close>

locale isal =
  fixes I :: isal
  assumes mul_assoc: "gf_mul I (gf_mul I a b) c = gf_mul I a (gf_mul I b c)"
    and mul_commute: "gf_mul I a b = gf_mul I b a"
    and mul_xor: "gf_mul I a (b XOR c) = gf_mul I a b XOR gf_mul I a c"
    and mul_one: "gf_mul I 1 a = a"
    and gen_length: "length (gf_gen_rs_matrix I n k) = n * k"
    and gen_identity: "k \<le> n \<Longrightarrow> i < k \<Longrightarrow> j < k \<Longrightarrow> gf_gen_rs_matrix I n k ! (i * k + j) = (if i = j then 1 else 0)"
    and encode_data: "length M \<ge> k * rows \<Longrightarrow> length src \<ge> k \<Longrightarrow>
      ec_encode_data I len k rows (ec_init_tables I k rows M) src =
        map (\<lambda>r. map (\<lambda>b. xsum (\<lambda>j. gf_mul I (M ! (r * k + j)) (src ! j ! b)) k) [0..<len]) [0..<rows]"
    and invert: "gf_invert_matrix I M k = Some N \<Longrightarrow> length N = k * k \<and> (\<forall>i < k. \<forall>j < k.
      xsum (\<lambda>l. gf_mul I (N ! (i * k + l)) (M ! (l * k + j))) k = (if i = j then 1 else 0))"
begin

lemma mul_zero [simp]: "gf_mul I a 0 = 0"
  using mul_xor [of a 0 0] by simp

lemma zero_mul [simp]: "gf_mul I 0 a = 0"
  using mul_zero mul_commute by metis

lemma mul_one_right [simp]: "gf_mul I a 1 = a"
  using mul_one mul_commute by metis

lemma xor_mul: "gf_mul I (a XOR b) c = gf_mul I a c XOR gf_mul I b c"
  by (metis mul_xor mul_commute)

lemma mul_xsum: "gf_mul I c (xsum f k) = xsum (\<lambda>j. gf_mul I c (f j)) k"
  by (induction k) (simp_all add: mul_xor)

lemma xsum_mul: "gf_mul I (xsum f k) c = xsum (\<lambda>j. gf_mul I (f j) c) k"
  by (induction k) (simp_all add: xor_mul)

lemma xsum_unit: "i < k \<Longrightarrow> xsum (\<lambda>j. gf_mul I (if i = j then 1 else 0) (f j)) k = f i"
proof -
  assume "i < k"
  moreover have "gf_mul I (if i = j then 1 else 0) (f j) = (if j = i then f j else 0)" for j
    by (simp add: mul_one)
  ultimately show ?thesis using xsum_delta [of i k f] by simp
qed

text \<open>Multiplication by a product of matrices is the composition of the multiplications.\<close>

lemma mat_vec_assoc:
  "xsum (\<lambda>l. gf_mul I (a l) (xsum (\<lambda>j. gf_mul I (b l j) (x j)) k)) m =
   xsum (\<lambda>j. gf_mul I (xsum (\<lambda>l. gf_mul I (a l) (b l j)) m) (x j)) k"
  by (simp add: mul_xsum xsum_mul mul_assoc xsum_swap [of _ k m])

end

subsection \<open>The field of 256 elements\<close>

definition xtime :: "byte \<Rightarrow> byte" where
  "xtime a = push_bit 1 a XOR (if bit a 7 then 0x1D else 0)"

definition gf256_mul :: "byte \<Rightarrow> byte \<Rightarrow> byte" where
  "gf256_mul a b = xsum (\<lambda>i. if bit b i then (xtime ^^ i) a else 0) 8"

definition additive :: "(byte \<Rightarrow> byte) \<Rightarrow> bool" where
  "additive f \<longleftrightarrow> (\<forall>a b. f (a XOR b) = f a XOR f b)"

lemma additive_zero: "additive f \<Longrightarrow> f 0 = 0"
  unfolding additive_def using xor_self_eq by metis

lemma additive_xsum: "additive f \<Longrightarrow> f (xsum g k) = xsum (\<lambda>j. f (g j)) k"
  by (induction k) (simp_all add: additive_zero, simp add: additive_def)

lemma xsum_take_bit: "xsum (\<lambda>i. if bit b i then push_bit i 1 else 0) k = take_bit k b" for b :: byte
proof (induction k)
  case (Suc k)
  have "take_bit (Suc k) b = take_bit k b XOR (if bit b k then push_bit k 1 else 0)"
  proof (rule bit_word_eqI)
    fix n
    assume "n < LENGTH(8)"
    then show "bit (take_bit (Suc k) b) n = bit (take_bit k b XOR (if bit b k then push_bit k 1 else 0)) n"
      by (auto simp: bit_take_bit_iff bit_xor_iff bit_push_bit_iff bit_1_iff bit_exp_iff less_Suc_eq)
  qed
  with Suc show ?case by simp
qed simp

lemma byte_decompose: "b = xsum (\<lambda>i. if bit b i then push_bit i 1 else 0) 8" for b :: byte
  using xsum_take_bit [of b 8] by (simp add: take_bit_word_eq_self)

lemma additive_eqI:
  assumes "additive f" and "additive g" and "\<And>i. i < 8 \<Longrightarrow> f (push_bit i 1) = g (push_bit i 1)"
  shows "f b = g b"
proof -
  let ?t = "\<lambda>i. if bit b i then push_bit i 1 else 0"
  have "f (?t i) = g (?t i)" if "i < 8" for i
    using that assms(3) by (simp add: additive_zero [OF assms(1)] additive_zero [OF assms(2)])
  then have "f (xsum ?t 8) = g (xsum ?t 8)"
    unfolding additive_xsum [OF assms(1)] additive_xsum [OF assms(2)] by (rule xsum_cong [OF refl])
  then show ?thesis using byte_decompose [of b] by simp
qed

lemma additive_xtime: "additive xtime"
  unfolding additive_def xtime_def by (auto simp: push_bit_xor bit_xor_iff ac_simps)

lemma additive_funpow: "additive f \<Longrightarrow> additive (f ^^ n)"
  by (induction n) (auto simp: additive_def)

lemma additive_mul_right: "additive (gf256_mul a)"
  unfolding additive_def gf256_mul_def
proof (intro allI)
  fix b c
  have "(if bit (b XOR c) i then (xtime ^^ i) a else 0) =
      (if bit b i then (xtime ^^ i) a else 0) XOR (if bit c i then (xtime ^^ i) a else 0)" for i
    by (simp add: bit_xor_iff)
  then show "xsum (\<lambda>i. if bit (b XOR c) i then (xtime ^^ i) a else 0) 8 =
      xsum (\<lambda>i. if bit b i then (xtime ^^ i) a else 0) 8 XOR xsum (\<lambda>i. if bit c i then (xtime ^^ i) a else 0) 8"
    by (simp only: xsum_xor)
qed

lemma additive_mul_left: "additive (\<lambda>a. gf256_mul a b)"
  unfolding additive_def gf256_mul_def
proof (intro allI)
  fix a c
  have "(if bit b i then (xtime ^^ i) (a XOR c) else 0) =
      (if bit b i then (xtime ^^ i) a else 0) XOR (if bit b i then (xtime ^^ i) c else 0)" for i
    using additive_funpow [OF additive_xtime, of i] by (simp add: additive_def)
  then show "xsum (\<lambda>i. if bit b i then (xtime ^^ i) (a XOR c) else 0) 8 =
      xsum (\<lambda>i. if bit b i then (xtime ^^ i) a else 0) 8 XOR xsum (\<lambda>i. if bit b i then (xtime ^^ i) c else 0) 8"
    by (simp only: xsum_xor)
qed

lemma additive_comp: "additive f \<Longrightarrow> additive g \<Longrightarrow> additive (\<lambda>a. f (g a))"
  by (simp add: additive_def)

lemma mul_basis: "j < 8 \<Longrightarrow> gf256_mul a (push_bit j 1) = (xtime ^^ j) a"
proof -
  assume j: "j < 8"
  have "(if bit (push_bit j (1 :: byte)) i then (xtime ^^ i) a else 0) = (if i = j then (xtime ^^ i) a else 0)"
    if "i < 8" for i
    using that j by (auto simp: bit_push_bit_iff bit_1_iff bit_exp_iff)
  then have "gf256_mul a (push_bit j 1) = xsum (\<lambda>i. if i = j then (xtime ^^ i) a else 0) 8"
    unfolding gf256_mul_def by (rule xsum_cong [OF refl])
  with j show ?thesis by (simp add: xsum_delta)
qed

lemma basis_power_all: "list_all (\<lambda>j. push_bit j 1 = (xtime ^^ j) 1) [0..<8]"
  by code_simp

lemma basis_power: "j < 8 \<Longrightarrow> push_bit j 1 = (xtime ^^ j) 1"
  using basis_power_all by (simp add: list_all_iff)

lemma xtime_swap: "(xtime ^^ i) ((xtime ^^ j) a) = (xtime ^^ j) ((xtime ^^ i) a)"
  by (simp add: funpow_add [symmetric, unfolded comp_def fun_eq_iff, rule_format] add.commute)

lemma gf256_commute: "gf256_mul a b = gf256_mul b a"
proof (rule additive_eqI [of "gf256_mul a" "\<lambda>b. gf256_mul b a" b])
  fix i :: nat
  assume i: "i < 8"
  have "gf256_mul a (push_bit i 1) = gf256_mul (push_bit i 1) a"
  proof (rule additive_eqI [of "\<lambda>a. gf256_mul a (push_bit i 1)" "gf256_mul (push_bit i 1)" a])
    fix j :: nat
    assume "j < 8"
    with i show "gf256_mul (push_bit j 1) (push_bit i 1) = gf256_mul (push_bit i 1) (push_bit j 1)"
      by (simp only: mul_basis) (simp only: basis_power xtime_swap)
  qed (rule additive_mul_left additive_mul_right)+
  then show "gf256_mul a (push_bit i 1) = gf256_mul (push_bit i 1) a" .
qed (rule additive_mul_left additive_mul_right)+

lemma mul_xtime8: "gf256_mul a ((xtime ^^ 8) 1) = (xtime ^^ 8) a"
proof (rule additive_eqI [of "\<lambda>a. gf256_mul a ((xtime ^^ 8) 1)" "xtime ^^ 8" a])
  fix j :: nat
  assume "j < 8"
  then show "gf256_mul (push_bit j 1) ((xtime ^^ 8) 1) = (xtime ^^ 8) (push_bit j 1)"
    by (subst gf256_commute) (simp only: mul_basis, simp only: basis_power xtime_swap)
qed (rule additive_mul_left additive_funpow additive_xtime)+

lemma mul_xtime: "gf256_mul a (xtime b) = xtime (gf256_mul a b)"
proof (rule additive_eqI [of "\<lambda>b. gf256_mul a (xtime b)" "\<lambda>b. xtime (gf256_mul a b)" b])
  fix j :: nat
  assume j: "j < 8"
  have p: "xtime (push_bit j 1) = (xtime ^^ Suc j) 1" using basis_power [OF j] by simp
  show "gf256_mul a (xtime (push_bit j 1)) = xtime (gf256_mul a (push_bit j 1))"
  proof (cases "j = 7")
    case True
    have "gf256_mul a (xtime (push_bit j 1)) = (xtime ^^ Suc j) a"
      unfolding p using mul_xtime8 [of a] True by (simp add: eval_nat_numeral)
    with mul_basis [OF j] show ?thesis by simp
  next
    case False
    with j have "Suc j < 8" by simp
    then show ?thesis unfolding p
      using mul_basis [of "Suc j" a] basis_power [of "Suc j"] mul_basis [OF j, of a] by simp
  qed
qed (rule additive_comp [OF additive_mul_right additive_xtime] additive_comp [OF additive_xtime additive_mul_right])+

lemma gf256_assoc: "gf256_mul (gf256_mul a b) c = gf256_mul a (gf256_mul b c)"
proof (rule additive_eqI [of "gf256_mul (gf256_mul a b)" "\<lambda>c. gf256_mul a (gf256_mul b c)" c])
  fix j :: nat
  assume "j < 8"
  moreover have "gf256_mul a ((xtime ^^ n) b) = (xtime ^^ n) (gf256_mul a b)" for n
    by (induction n) (simp_all add: mul_xtime)
  ultimately show "gf256_mul (gf256_mul a b) (push_bit j 1) = gf256_mul a (gf256_mul b (push_bit j 1))"
    by (simp only: mul_basis)
qed (rule additive_mul_right additive_comp [OF additive_mul_right additive_mul_right])+

lemma gf256_one: "gf256_mul 1 a = a"
  using mul_basis [of 0 a] by (simp add: gf256_commute [of 1 a])

subsection \<open>An implementation of the library\<close>

fun gf256_pow :: "byte \<Rightarrow> nat \<Rightarrow> byte" where
  "gf256_pow a 0 = 1"
| "gf256_pow a (Suc n) = gf256_mul (gf256_pow a n) a"

definition gen256 :: "nat \<Rightarrow> nat \<Rightarrow> byte list" where
  "gen256 n k = map (\<lambda>x. let i = x div k; j = x mod k in
     if i < k then (if i = j then 1 else 0) else gf256_pow (gf256_pow 2 (i - k)) j) [0..<n * k]"

definition encode256 :: "nat \<Rightarrow> nat \<Rightarrow> nat \<Rightarrow> byte list \<Rightarrow> byte list list \<Rightarrow> byte list list" where
  "encode256 len k rows M src =
     map (\<lambda>r. map (\<lambda>b. xsum (\<lambda>j. gf256_mul (M ! (r * k + j)) (src ! j ! b)) k) [0..<len]) [0..<rows]"

definition gf256_inv :: "byte \<Rightarrow> byte" where
  "gf256_inv a = (case find (\<lambda>b. gf256_mul a b = 1) (map of_nat [1..<256]) of Some b \<Rightarrow> b | None \<Rightarrow> 0)"

definition pivot_step :: "nat \<Rightarrow> byte list list \<Rightarrow> nat \<Rightarrow> byte list list" where
  "pivot_step k rows c =
     (case find (\<lambda>i. rows ! i ! c \<noteq> 0) [c..<k] of
        None \<Rightarrow> rows
      | Some i \<Rightarrow>
          let swapped = (rows[i := rows ! c])[c := rows ! i];
              p = map (gf256_mul (gf256_inv (rows ! i ! c))) (rows ! i)
          in (map (\<lambda>r. map2 (\<lambda>x y. x XOR gf256_mul (r ! c) y) r p) swapped)[c := p])"

definition eliminate256 :: "byte list \<Rightarrow> nat \<Rightarrow> byte list" where
  "eliminate256 M k =
     concat (map (drop k) (foldl (pivot_step k)
       (map (\<lambda>i. map (\<lambda>j. M ! (i * k + j)) [0..<k] @ map (\<lambda>j. if i = j then 1 else 0) [0..<k]) [0..<k]) [0..<k]))"

definition left_inverse256 :: "byte list \<Rightarrow> byte list \<Rightarrow> nat \<Rightarrow> bool" where
  "left_inverse256 N M k \<longleftrightarrow> length N = k * k \<and> list_all (\<lambda>i. list_all (\<lambda>j.
     xsum (\<lambda>l. gf256_mul (N ! (i * k + l)) (M ! (l * k + j))) k = (if i = j then 1 else 0)) [0..<k]) [0..<k]"

definition invert256 :: "byte list \<Rightarrow> nat \<Rightarrow> byte list option" where
  "invert256 M k = (let N = eliminate256 M k in if left_inverse256 N M k then Some N else None)"

definition isal256 :: isal where
  "isal256 = \<lparr>gf_mul = gf256_mul, gf_gen_rs_matrix = gen256, ec_init_tables = (\<lambda>k rows M. M),
     ec_encode_data = encode256, gf_invert_matrix = invert256\<rparr>"

lemma gen256_nth:
  assumes "i < n" and "j < k"
  shows "gen256 n k ! (i * k + j) =
     (if i < k then (if i = j then 1 else 0) else gf256_pow (gf256_pow 2 (i - k)) j)"
proof -
  have "i * k + j < n * k" using assms by (rule flat_index)
  with assms show ?thesis by (simp add: gen256_def Let_def)
qed

interpretation isal256: isal isal256
proof
  fix M N :: "byte list" and k :: nat
  assume "gf_invert_matrix isal256 M k = Some N"
  then have "left_inverse256 N M k"
    by (simp add: isal256_def invert256_def Let_def split: if_splits)
  then show "length N = k * k \<and> (\<forall>i < k. \<forall>j < k.
      xsum (\<lambda>l. gf_mul isal256 (N ! (i * k + l)) (M ! (l * k + j))) k = (if i = j then 1 else 0))"
    by (simp add: isal256_def left_inverse256_def list_all_iff)
next
  fix a b c :: byte
  show "gf_mul isal256 a (b XOR c) = gf_mul isal256 a b XOR gf_mul isal256 a c"
    using additive_mul_right [of a] by (simp add: isal256_def additive_def)
  show "gf_mul isal256 a b = gf_mul isal256 b a" by (simp add: isal256_def gf256_commute [of a b])
qed (simp_all add: isal256_def gf256_assoc gf256_one gen256_nth encode256_def, simp add: gen256_def)

end
