(* ===== verification/RS_Code.thy ===== *)
theory RS_Code
  imports Isal_Interface Nexo_Data
begin

unbundle bit_operations_syntax

text \<open>
  Erasure coding (\<^verbatim>\<open>src/common/coding\<close>): byte buffers (\<^verbatim>\<open>ds/byte_buffer.hh\<close>), coding options, decoding plans
  and the Reed-Solomon code of \<^verbatim>\<open>rs.cc\<close> with its encoding, decoding, repair, and cross-rack repair (CAR).
  \<open>I\<close> is the coding library, \<open>alloc\<close> and \<open>mallocOk\<close> the memory allocation, \<open>junk\<close> the initial content of a
  matrix on the stack.  A buffer pointer is an option; writing \<open>n\<close> bytes keeps the rest of a longer buffer.
\<close>

subsection \<open>Byte buffers\<close>

record byte_buffer =
  bb_data :: "byte list option"
  bb_size :: nat
  bb_aligned :: bool
  bb_copied :: bool

definition bb_reset :: byte_buffer where
  "bb_reset = \<lparr>bb_data = None, bb_size = 0, bb_aligned = False, bb_copied = False\<rparr>"

definition bb_release :: "byte_buffer \<Rightarrow> byte_buffer" where
  "bb_release b = bb_reset"

definition bb_setAligned :: "byte_buffer \<Rightarrow> byte_buffer \<times> bool" where
  "bb_setAligned b = (if bb_data b \<noteq> None then (b, False) else (b\<lparr>bb_aligned := True\<rparr>, True))"

text \<open>\<^verbatim>\<open>setUnaligned\<close> returns no value when it succeeds.\<close>

definition bb_setUnaligned :: "byte_buffer \<Rightarrow> byte_buffer \<times> bool option" where
  "bb_setUnaligned b = (if bb_data b \<noteq> None then (b, Some False) else (b\<lparr>bb_aligned := False\<rparr>, None))"

definition bb_setSize :: "nat \<Rightarrow> byte_buffer \<Rightarrow> byte_buffer \<times> bool" where
  "bb_setSize n b = (if bb_data b \<noteq> None then (b, False) else (b\<lparr>bb_size := n\<rparr>, True))"

definition bb_copySize :: "byte_buffer \<Rightarrow> byte_buffer \<Rightarrow> byte_buffer \<times> bool" where
  "bb_copySize src b = (if bb_data b \<noteq> None then (b, False) else (b\<lparr>bb_size := bb_size src\<rparr>, True))"

definition bb_allocate :: "allocator \<Rightarrow> nat \<Rightarrow> bool \<Rightarrow> byte_buffer \<Rightarrow> byte_buffer \<times> bool" where
  "bb_allocate alloc n aligned b =
     (case alloc (int (n + (if n = 0 then 1 else 0))) of
        None \<Rightarrow> (b, False)
      | Some d \<Rightarrow> ((bb_release b)\<lparr>bb_data := Some d, bb_size := n, bb_aligned := aligned\<rparr>, True))"

definition bb_copyData :: "allocator \<Rightarrow> byte_buffer \<Rightarrow> bool \<Rightarrow> byte_buffer \<Rightarrow> byte_buffer \<times> bool" where
  "bb_copyData alloc src deepCopy b =
     (if bb_data b \<noteq> None then (b, False)
      else let b1 = fst (bb_copySize src b) in
        if deepCopy
        then (case bb_allocate alloc (bb_size src) False (b1\<lparr>bb_aligned := bb_aligned src\<rparr>) of
                (b2, False) \<Rightarrow> (bb_reset, False)
              | (b2, True) \<Rightarrow>
                  (b2\<lparr>bb_data := Some (memcpy (the (bb_data b2)) (case bb_data src of None \<Rightarrow> [] | Some d \<Rightarrow> d)
                        (bb_size src))\<rparr>, True))
        else (b1\<lparr>bb_data := bb_data src, bb_copied := True\<rparr>, True))"

definition bb_move :: "byte_buffer \<Rightarrow> byte_buffer \<Rightarrow> byte_buffer \<times> byte_buffer" where
  "bb_move src b = (src, bb_reset)"

subsection \<open>Coding options\<close>

record coding_options =
  o_n :: nat
  o_k :: nat
  o_useCarRepair :: bool

definition newCodingOptions :: "nat \<Rightarrow> nat \<Rightarrow> bool \<Rightarrow> coding_options" where
  "newCodingOptions cfgK cfgN cfgCar = \<lparr>o_n = cfgN, o_k = cfgK, o_useCarRepair = cfgCar\<rparr>"

definition setRepairUsingCAR :: "coding_options \<Rightarrow> coding_options" where
  "setRepairUsingCAR o' = o'\<lparr>o_useCarRepair := True\<rparr>"

definition setK :: "nat \<Rightarrow> coding_options \<Rightarrow> coding_options \<times> bool" where
  "setK k o' = (if k = 0 then (o', False) else (o'\<lparr>o_k := k\<rparr>, True))"

definition setN :: "nat \<Rightarrow> coding_options \<Rightarrow> coding_options \<times> bool" where
  "setN n o' = (if n = 0 then (o', False) else (o'\<lparr>o_n := n\<rparr>, True))"

definition options_str :: "coding_options \<Rightarrow> bool \<Rightarrow> string" where
  "options_str o' withRuntimeOptions =
     nat_to_string (o_n o') @ ''-'' @ nat_to_string (o_k o')
     @ (if withRuntimeOptions then (if o_useCarRepair o' then ''1'' else ''0'') else [])"

subsection \<open>Decoding plans\<close>

record decoding_plan =
  dp_repairMatrix :: byte_buffer
  dp_inputChunkIds :: "nat list"
  dp_minNumChunks :: nat

definition releaseRepairMatrix :: "decoding_plan \<Rightarrow> decoding_plan" where
  "releaseRepairMatrix p = p\<lparr>dp_repairMatrix := bb_release (dp_repairMatrix p)\<rparr>"

definition releaseInputChunks :: "decoding_plan \<Rightarrow> decoding_plan" where
  "releaseInputChunks p = p\<lparr>dp_inputChunkIds := [], dp_minNumChunks := 0\<rparr>"

definition plan_release :: "decoding_plan \<Rightarrow> decoding_plan" where
  "plan_release p = releaseInputChunks (releaseRepairMatrix p)"

definition newDecodingPlan :: "nat \<Rightarrow> decoding_plan" where
  "newDecodingPlan garbage = \<lparr>dp_repairMatrix = bb_reset, dp_inputChunkIds = [], dp_minNumChunks = garbage\<rparr>"

definition addInputChunkId :: "nat \<Rightarrow> decoding_plan \<Rightarrow> decoding_plan" where
  "addInputChunkId i p = p\<lparr>dp_inputChunkIds := dp_inputChunkIds p @ [i]\<rparr>"

definition setMinNumInputChunks :: "nat \<Rightarrow> decoding_plan \<Rightarrow> decoding_plan \<times> bool" where
  "setMinNumInputChunks num p =
     (if num > length (dp_inputChunkIds p) then (p, False) else (p\<lparr>dp_minNumChunks := num\<rparr>, True))"

definition allocateRepairMatrix :: "allocator \<Rightarrow> nat \<Rightarrow> decoding_plan \<Rightarrow> decoding_plan \<times> bool" where
  "allocateRepairMatrix alloc n p =
     (case bb_allocate alloc n False (dp_repairMatrix p) of (b, ok) \<Rightarrow> (p\<lparr>dp_repairMatrix := b\<rparr>, ok))"

subsection \<open>The Reed-Solomon code\<close>

record rs_code =
  rs_options :: coding_options
  rs_encodeMatrix :: "byte list"
  rs_gftbl :: "byte list"

abbreviation rs_n :: "rs_code \<Rightarrow> nat" where "rs_n c \<equiv> o_n (rs_options c)"
abbreviation rs_k :: "rs_code \<Rightarrow> nat" where "rs_k c \<equiv> o_k (rs_options c)"

text \<open>\<open>None\<close>: the constructor throws.\<close>

definition newRSCode :: "isal \<Rightarrow> coding_options \<Rightarrow> rs_code option" where
  "newRSCode I o' =
     (let n = o_n o'; k = o_k o' in
      if n \<le> 0 \<or> k \<le> 0 \<or> n < k then None
      else let m = gf_gen_rs_matrix I n k
        in Some \<lparr>rs_options = o', rs_encodeMatrix = m,
                 rs_gftbl = ec_init_tables I k (n - k) (drop (k * k) m)\<rparr>)"

definition genCoding :: "isal \<Rightarrow> int \<Rightarrow> coding_options \<Rightarrow> rs_code option" where
  "genCoding I codingScheme o' = (if codingScheme = RS then newRSCode I o' else None)"

definition getNumDataChunks :: "rs_code \<Rightarrow> nat" where "getNumDataChunks c = rs_k c"
definition getNumCodeChunks :: "rs_code \<Rightarrow> nat" where "getNumCodeChunks c = rs_n c - rs_k c"
definition getNumChunks :: "rs_code \<Rightarrow> nat" where "getNumChunks c = rs_n c"
definition getNumChunksPerNode :: "rs_code \<Rightarrow> nat" where "getNumChunksPerNode c = 1"
definition getCodingStateSize :: "rs_code \<Rightarrow> nat" where "getCodingStateSize c = 0"

definition getChunkSize :: "rs_code \<Rightarrow> nat \<Rightarrow> nat" where
  "getChunkSize c dataSize = (dataSize + rs_k c - 1) div rs_k c"

fun encode_alloc :: "allocator \<Rightarrow> nat \<Rightarrow> nat \<Rightarrow> byte list \<Rightarrow> nat list \<Rightarrow> chunk list \<Rightarrow> chunk list option" where
  "encode_alloc alloc k sz data [] stripe = Some stripe"
| "encode_alloc alloc k sz data (i # is) stripe =
     (case allocateData alloc (int32 (int sz)) True (setChunkId (int i) chunk_reset) of
        (c, False) \<Rightarrow> None
      | (c, True) \<Rightarrow>
          encode_alloc alloc k sz data is
            (stripe @ [if i < k then c\<lparr>c_data := Some (memcpy (the (c_data c)) (drop (i * sz) data) sz)\<rparr> else c]))"

definition rs_encode :: "isal \<Rightarrow> allocator \<Rightarrow> rs_code \<Rightarrow> byte list \<Rightarrow> nat \<Rightarrow> chunk list \<times> bool" where
  "rs_encode I alloc c data dataSize =
     (let k = rs_k c; n = rs_n c; chunkSize = getChunkSize c dataSize in
      case encode_alloc alloc k chunkSize data [0..<n] [] of
        None \<Rightarrow> ([], False)
      | Some stripe \<Rightarrow>
          let code = ec_encode_data I chunkSize k (n - k) (rs_gftbl c) (map (\<lambda>d. the (c_data d)) (take k stripe))
          in (take k stripe @ map2 (\<lambda>d bs. d\<lparr>c_data := Some bs\<rparr>) (drop k stripe) code, True))"

definition carRepairFinalize :: "isal \<Rightarrow> byte list list \<Rightarrow> nat \<Rightarrow> byte list" where
  "carRepairFinalize I inputs chunkSize =
     (if length inputs = 1 then take chunkSize (hd inputs)
      else hd (ec_encode_data I chunkSize (length inputs) 1
                 (ec_init_tables I (length inputs) 1 (replicate (length inputs) 1)) inputs))"

text \<open>
  The scan of \<^verbatim>\<open>decode\<close> over the chunk numbers: the rows of the encoding matrix for the input chunks that
  come up in order, and the chunk numbers to repair when the caller names none.
\<close>

fun decode_scan :: "nat \<Rightarrow> byte list \<Rightarrow> bool \<Rightarrow> nat list \<Rightarrow> int list \<Rightarrow> byte list \<times> nat list" where
  "decode_scan k M collect [] ids = ([], [])"
| "decode_scan k M collect (i # is) ids =
     (if ids \<noteq> [] \<and> hd ids = int i
      then (case decode_scan k M collect is (tl ids) of (rows, ts) \<Rightarrow> (take k (drop (i * k) M) @ rows, ts))
      else (case decode_scan k M collect is ids of (rows, ts) \<Rightarrow> (rows, if collect then i # ts else ts)))"

text \<open>
  The matrix that rebuilds the chunks \<open>ts\<close>: rows of the inverted matrix for the leading data chunks, and
  their product with the encoding matrix from the first code chunk on.
\<close>

definition repair_rows :: "isal \<Rightarrow> nat \<Rightarrow> byte list \<Rightarrow> byte list \<Rightarrow> nat list \<Rightarrow> byte list" where
  "repair_rows I k M invm ts =
     concat (map (\<lambda>t. take k (drop (t * k) invm)) (takeWhile (\<lambda>t. t < k) ts)
       @ map (\<lambda>t. map (\<lambda>j. xsum (\<lambda>l. gf_mul I (invm ! (l * k + j)) (M ! (t * k + l))) k) [0..<k])
           (dropWhile (\<lambda>t. t < k) ts))"

definition rs_decode ::
  "isal \<Rightarrow> (nat \<Rightarrow> bool) \<Rightarrow> byte list \<Rightarrow> rs_code \<Rightarrow> chunk list \<Rightarrow> byte list option \<Rightarrow> nat \<Rightarrow> bool \<Rightarrow> nat list
   \<Rightarrow> byte list option \<times> nat \<times> bool" where
  "rs_decode I mallocOk junk c inputChunks decodedData decodedSize isRepair repairTargets =
     (let k = rs_k c; n = rs_n c; car = o_useCarRepair (rs_options c); num = length inputChunks;
          chunkSize = (if inputChunks = [] then 0 else nat (c_size (hd inputChunks)))
      in if num < k \<and> (\<not> isRepair \<or> \<not> car) then (decodedData, decodedSize, False)
      else
        let (rows, missing) = decode_scan k (rs_encodeMatrix c) (isRepair \<and> repairTargets = []) [0..<n]
                                (map c_chunkId inputChunks);
            targets = repairTargets @ missing;
            numDecoded = (if isRepair then length targets else k);
            inputp = map (\<lambda>d. case c_data d of None \<Rightarrow> [] | Some bs \<Rightarrow> bs) (take n inputChunks);
            write = (\<lambda>bss. Some (concat bss @ drop (numDecoded * chunkSize)
                       (case decodedData of None \<Rightarrow> [] | Some old \<Rightarrow> old)))
        in if decodedData = None \<and> \<not> mallocOk (numDecoded * chunkSize)
           then (decodedData, decodedSize, False)
           else if isRepair \<and> numDecoded = 1 \<and> car
           then (write [carRepairFinalize I inputp chunkSize], numDecoded * chunkSize, True)
           else (case gf_invert_matrix I (rows @ drop (length rows) junk) k of
                   None \<Rightarrow> (decodedData, numDecoded * chunkSize, False)
                 | Some invm \<Rightarrow>
                     let final = (if isRepair then repair_rows I k (rs_encodeMatrix c) invm targets else invm)
                     in (write (ec_encode_data I chunkSize k numDecoded (ec_init_tables I k numDecoded final) inputp),
                         numDecoded * chunkSize, True)))"

text \<open>The scan of \<^verbatim>\<open>preDecode\<close>: alive chunks into the plan, failed ones into the list of erasures.\<close>

fun alive_scan :: "nat list \<Rightarrow> nat list \<Rightarrow> decoding_plan \<Rightarrow> decoding_plan \<times> nat list" where
  "alive_scan [] failed p = (p, [])"
| "alive_scan (i # is) failed p =
     (if failed \<noteq> [] \<and> hd failed = i
      then (case alive_scan is (tl failed) p of (p', es) \<Rightarrow> (p', i # es))
      else alive_scan is failed (addInputChunkId i p))"

definition preDecode ::
  "isal \<Rightarrow> allocator \<Rightarrow> byte list \<Rightarrow> rs_code \<Rightarrow> nat list \<Rightarrow> bool \<Rightarrow> decoding_plan \<Rightarrow> decoding_plan \<times> bool" where
  "preDecode I alloc junk c failedChunkIdx isRepair plan =
     (let k = rs_k c; n = rs_n c; M = rs_encodeMatrix c in
      if length failedChunkIdx > n - k then (plan, False)
      else case alive_scan [0..<n] failedChunkIdx (plan_release plan) of (p1, erasures) \<Rightarrow>
        let ids = dp_inputChunkIds p1; p2 = fst (setMinNumInputChunks (getNumDataChunks c) p1) in
        if length ids < k then (plan_release p2, False)
        else if \<not> isRepair then (p2, True)
        else let rows = concat (map (\<lambda>i. take k (drop (i * k) M)) ids) in
          case gf_invert_matrix I (rows @ drop (length rows) junk) k of
            None \<Rightarrow> (plan_release p2, False)
          | Some invm \<Rightarrow>
              (case allocateRepairMatrix alloc (length erasures * k) p2 of
                 (p3, False) \<Rightarrow> (plan_release p3, False)
               | (p3, True) \<Rightarrow>
                   (p3\<lparr>dp_repairMatrix := (dp_repairMatrix p3)\<lparr>bb_data :=
                        Some (memcpy (the (bb_data (dp_repairMatrix p3))) (repair_rows I k M invm erasures)
                                (length erasures * k))\<rparr>\<rparr>, True)))"

text \<open>\<^verbatim>\<open>CodingUtils::encode\<close>: the agents combine chunks with rows of the repair matrix.\<close>

definition utils_encode :: "isal \<Rightarrow> byte list list \<Rightarrow> nat \<Rightarrow> nat \<Rightarrow> byte list \<Rightarrow> byte list list" where
  "utils_encode I data numCodeChunks chunkSize matrix =
     ec_encode_data I chunkSize (length data) numCodeChunks
       (ec_init_tables I (length data) numCodeChunks matrix) data"

definition utils_encode_flat :: "isal \<Rightarrow> byte list \<Rightarrow> nat \<Rightarrow> nat \<Rightarrow> nat \<Rightarrow> byte list \<Rightarrow> byte list" where
  "utils_encode_flat I data numDataChunks numCodeChunks chunkSize matrix =
     concat (ec_encode_data I chunkSize numDataChunks numCodeChunks
       (ec_init_tables I numDataChunks numCodeChunks matrix)
       (map (\<lambda>i. drop (i * chunkSize) data) [0..<numDataChunks]))"

end
