(* ===== verification/RS_Correct.thy ===== *)
theory RS_Correct
  imports RS_Code "HOL-Library.Multiset"
begin

unbundle bit_operations_syntax

text \<open>
  Correctness of the Reed-Solomon code over any coding library that satisfies \<open>isal\<close>: what encoding
  stores, that decoding any sufficient set of chunks gives the data back, that repair rebuilds the lost
  chunks, that cross-rack repair from partial sums gives the same, and what a decoding plan contains.
  \<open>coded\<close> is the reference: the bytes of a chunk as a row of the encoding matrix times the data.
\<close>

definition coded :: "isal \<Rightarrow> byte list \<Rightarrow> nat \<Rightarrow> nat \<Rightarrow> byte list \<Rightarrow> nat \<Rightarrow> byte list" where
  "coded I M k sz data i =
     map (\<lambda>b. xsum (\<lambda>j. gf_mul I (M ! (i * k + j)) (data ! (j * sz + b))) k) [0..<sz]"

definition coded_chunk :: "isal \<Rightarrow> rs_code \<Rightarrow> nat \<Rightarrow> byte list \<Rightarrow> nat \<Rightarrow> chunk" where
  "coded_chunk I c sz data i = (setChunkId (int i) chunk_reset)\<lparr>c_size := int sz, c_freeData := True,
     c_data := Some (coded I (rs_encodeMatrix c) (rs_k c) sz data i)\<rparr>"

text \<open>The matrix \<^verbatim>\<open>decode\<close> inverts: the rows of the input chunks, and what the stack held after them.\<close>

definition input_matrix :: "rs_code \<Rightarrow> byte list \<Rightarrow> nat list \<Rightarrow> byte list" where
  "input_matrix c junk ids =
     (let rows = concat (map (\<lambda>i. take (rs_k c) (drop (i * rs_k c) (rs_encodeMatrix c))) ids)
      in rows @ drop (length rows) junk)"

definition survivors :: "rs_code \<Rightarrow> nat list \<Rightarrow> bool" where
  "survivors c ids \<longleftrightarrow> sorted_wrt (<) ids \<and> set ids \<subseteq> {..<rs_n c} \<and> rs_k c \<le> length ids"

subsection \<open>Flat matrices\<close>

lemma concat_nth:
  "\<forall>r \<in> set rs. length r = k \<Longrightarrow> l < length rs \<Longrightarrow> j < k \<Longrightarrow> concat rs ! (l * k + j) = rs ! l ! j"
proof (induction rs arbitrary: l)
  case (Cons r rs)
  then show ?case by (cases l) (simp_all add: nth_append)
qed simp

lemma length_concat_rows: "\<forall>r \<in> set rs. length r = k \<Longrightarrow> length (concat rs) = length rs * k"
  by (induction rs) simp_all

lemma concat_slices:
  "m * sz \<le> length data \<Longrightarrow> concat (map (\<lambda>r. map (\<lambda>b. data ! (r * sz + b)) [0..<sz]) [0..<m]) = take (m * sz) data"
proof (induction m)
  case (Suc m)
  have "map (\<lambda>b. data ! (m * sz + b)) [0..<sz] = take sz (drop (m * sz) data)"
    using Suc.prems by (intro nth_equalityI) auto
  moreover have "take (Suc m * sz) data = take (m * sz) data @ take sz (drop (m * sz) data)"
    using take_add [of "m * sz" sz data] by (simp add: add.commute)
  ultimately show ?case using Suc by simp
qed simp

lemma take_drop_map_nth:
  "a + n \<le> length xs \<Longrightarrow> take n (drop a xs) = map (\<lambda>b. xs ! (a + b)) [0..<n]"
  by (intro nth_equalityI) auto

subsection \<open>Sums over groups\<close>

definition lsum :: "(nat \<Rightarrow> byte) \<Rightarrow> nat list \<Rightarrow> byte" where
  "lsum f xs = xsum (\<lambda>i. f (xs ! i)) (length xs)"

lemma lsum_Nil [simp]: "lsum f [] = 0"
  by (simp add: lsum_def)

lemma lsum_append: "lsum f (xs @ ys) = lsum f xs XOR lsum f ys"
proof -
  have "xsum (\<lambda>i. f ((xs @ ys) ! i)) (length xs) = xsum (\<lambda>i. f (xs ! i)) (length xs)"
    by (intro xsum_cong refl) (simp add: nth_append)
  then show ?thesis by (simp add: lsum_def xsum_add)
qed

lemma lsum_Cons: "lsum f (x # xs) = f x XOR lsum f xs"
  using lsum_append [of f "[x]" xs] by (simp add: lsum_def)

lemma lsum_upt: "lsum f [0..<k] = xsum f k"
  by (simp add: lsum_def cong: xsum_cong)

lemma lsum_mset: "mset xs = mset ys \<Longrightarrow> lsum f xs = lsum f ys"
proof (induction xs arbitrary: ys)
  case (Cons x xs)
  then have "x \<in> set ys" by (metis list.set_intros(1) set_mset_mset)
  then obtain us vs where ys: "ys = us @ x # vs" by (metis split_list)
  with Cons.prems have "mset xs = mset (us @ vs)" by simp
  from Cons.IH [OF this] show ?case by (simp add: ys lsum_Cons lsum_append ac_simps)
qed simp

lemma xsum_front: "xsum f (Suc k) = f 0 XOR xsum (\<lambda>i. f (Suc i)) k"
  using xsum_add [of f 1 k] by simp

lemma lsum_concat: "lsum f (concat gs) = xsum (\<lambda>q. lsum f (gs ! q)) (length gs)"
proof (induction gs)
  case (Cons g gs)
  then show ?case
    using xsum_front [of "\<lambda>q. lsum f ((g # gs) ! q)" "length gs"] by (simp add: lsum_append)
qed simp

subsection \<open>The code as built by its constructor\<close>

lemma newRSCode_Some:
  assumes "newRSCode I opts = Some c"
  shows "rs_options c = opts \<and> 0 < rs_k c \<and> rs_k c \<le> rs_n c \<and>
     rs_encodeMatrix c = gf_gen_rs_matrix I (rs_n c) (rs_k c) \<and>
     rs_gftbl c = ec_init_tables I (rs_k c) (rs_n c - rs_k c) (drop (rs_k c * rs_k c) (rs_encodeMatrix c))"
  using assms by (auto simp: newRSCode_def Let_def split: if_splits)

lemma getChunkSize_bounds:
  assumes "0 < rs_k c"
  shows "dataSize \<le> rs_k c * getChunkSize c dataSize \<and> rs_k c * getChunkSize c dataSize < dataSize + rs_k c"
proof -
  let ?k = "rs_k c" and ?x = "dataSize + rs_k c - 1"
  have "?x mod ?k < ?k" using assms by simp
  moreover have "?k * (?x div ?k) + ?x mod ?k = ?x" by (rule mult_div_mod_eq)
  ultimately show ?thesis using assms unfolding getChunkSize_def by linarith
qed

lemma encode_alloc_eq:
  assumes "0 < sz" and "sz < 2147483648" and "alloc (int sz) = Some b"
  shows "encode_alloc alloc k sz data is stripe = Some (stripe @ map (\<lambda>i. (setChunkId (int i) chunk_reset)\<lparr>
     c_size := int sz, c_freeData := True,
     c_data := Some (if i < k then memcpy b (drop (i * sz) data) sz else b)\<rparr>) is)"
  using assms
  by (induction "is" arbitrary: stripe)
    (auto simp: allocateData_def setChunkId_def chunk_reset_def chunk_resetMD5_def)

subsection \<open>The scans\<close>

lemma decode_scan_sorted:
  assumes "sorted_wrt (<) is" and "sorted_wrt (<) ids" and "set ids \<subseteq> set is"
  shows "decode_scan k M collect is (map int ids) =
     (concat (map (\<lambda>i. take k (drop (i * k) M)) ids), if collect then filter (\<lambda>i. i \<notin> set ids) is else [])"
  using assms
proof (induction "is" arbitrary: ids)
  case (Cons i "is")
  show ?case
  proof (cases "ids \<noteq> [] \<and> hd ids = i")
    case True
    then obtain ids' where ids: "ids = i # ids'" by (cases ids) auto
    have "set ids' \<subseteq> set is" using Cons.prems unfolding ids by auto
    with Cons ids have IH: "decode_scan k M collect is (map int ids') =
        (concat (map (\<lambda>i. take k (drop (i * k) M)) ids'), if collect then filter (\<lambda>i. i \<notin> set ids') is else [])"
      by simp
    have "filter (\<lambda>x. x \<notin> set ids) is = filter (\<lambda>x. x \<notin> set ids') is"
      using Cons.prems(1) unfolding ids by (intro filter_cong) auto
    with IH ids show ?thesis by simp
  next
    case False
    have "i \<notin> set ids"
    proof
      assume i: "i \<in> set ids"
      then obtain a ids' where ids: "ids = a # ids'" by (cases ids) auto
      with i False Cons.prems have "a < i" "a \<in> set is" by auto
      with Cons.prems(1) show False by auto
    qed
    then have "set ids \<subseteq> set is" using Cons.prems(3) by auto
    with Cons have IH: "decode_scan k M collect is (map int ids) =
        (concat (map (\<lambda>i. take k (drop (i * k) M)) ids), if collect then filter (\<lambda>i. i \<notin> set ids) is else [])"
      by simp
    have nh: "\<not> (map int ids \<noteq> [] \<and> hd (map int ids) = int i)" using False by (cases ids) auto
    show ?thesis unfolding decode_scan.simps if_not_P [OF nh] IH using \<open>i \<notin> set ids\<close> by simp
  qed
qed simp

lemma alive_scan_sorted:
  assumes "sorted_wrt (<) is" and "sorted_wrt (<) failed" and "set failed \<subseteq> set is"
  shows "alive_scan is failed p =
     (p\<lparr>dp_inputChunkIds := dp_inputChunkIds p @ filter (\<lambda>i. i \<notin> set failed) is\<rparr>, failed)"
  using assms
proof (induction "is" arbitrary: failed p)
  case (Cons i "is")
  show ?case
  proof (cases "failed \<noteq> [] \<and> hd failed = i")
    case True
    then obtain fs where fs: "failed = i # fs" by (cases failed) auto
    have "set fs \<subseteq> set is" using Cons.prems unfolding fs by auto
    moreover have "filter (\<lambda>x. x \<notin> set failed) is = filter (\<lambda>x. x \<notin> set fs) is"
      using Cons.prems(1) unfolding fs by (intro filter_cong) auto
    ultimately show ?thesis using Cons fs by simp
  next
    case False
    have "i \<notin> set failed"
    proof
      assume i: "i \<in> set failed"
      then obtain a fs where fs: "failed = a # fs" by (cases failed) auto
      with i False Cons.prems have "a < i" "a \<in> set is" by auto
      with Cons.prems(1) show False by auto
    qed
    moreover from this Cons.prems have "set failed \<subseteq> set is" by auto
    ultimately show ?thesis using Cons False by (auto simp: addInputChunkId_def)
  qed
qed simp

context isal
begin

lemma coded_data_nth:
  assumes "newRSCode I opts = Some c" and "i < rs_k c" and "b < sz"
  shows "coded I (rs_encodeMatrix c) (rs_k c) sz data i ! b = data ! (i * sz + b)"
proof -
  let ?k = "rs_k c"
  have c: "?k \<le> rs_n c" "rs_encodeMatrix c = gf_gen_rs_matrix I (rs_n c) ?k"
    using newRSCode_Some [OF assms(1)] by auto
  have "xsum (\<lambda>j. gf_mul I (rs_encodeMatrix c ! (i * ?k + j)) (data ! (j * sz + b))) ?k
      = xsum (\<lambda>j. gf_mul I (if i = j then 1 else 0) (data ! (j * sz + b))) ?k"
    using c assms(2) by (intro xsum_cong refl) (simp add: gen_identity)
  with assms(2,3) show ?thesis by (simp add: coded_def xsum_unit)
qed

lemma coded_data:
  assumes "newRSCode I opts = Some c" and "i < rs_k c" and "rs_k c * sz \<le> length data"
  shows "coded I (rs_encodeMatrix c) (rs_k c) sz data i = take sz (drop (i * sz) data)"
proof -
  have "i * sz + sz \<le> rs_k c * sz" using assms(2) by (metis Suc_leI add.commute mult_Suc mult_le_mono1)
  then have le: "i * sz + sz \<le> length data" using assms(3) by simp
  show ?thesis unfolding take_drop_map_nth [OF le]
    using coded_data_nth [OF assms(1,2)] by (intro nth_equalityI) (simp_all add: coded_def)
qed

lemma rs_encode_eq:
  assumes "newRSCode I opts = Some c" and "alloc (int sz) = Some b" and "length b = sz"
    and "sz = getChunkSize c dataSize" and "0 < sz" and "sz < 2147483648" and "rs_k c * sz \<le> length data"
  shows "rs_encode I alloc c data dataSize = (map (coded_chunk I c sz data) [0..<rs_n c], True)"
proof -
  let ?k = "rs_k c" and ?n = "rs_n c" and ?M = "rs_encodeMatrix c"
  have c: "0 < ?k" "?k \<le> ?n" "?M = gf_gen_rs_matrix I ?n ?k"
    "rs_gftbl c = ec_init_tables I ?k (?n - ?k) (drop (?k * ?k) ?M)"
    using newRSCode_Some [OF assms(1)] by auto
  let ?raw = "\<lambda>i. (setChunkId (int i) chunk_reset)\<lparr>c_size := int sz, c_freeData := True,
     c_data := Some (if i < ?k then memcpy b (drop (i * sz) data) sz else b)\<rparr>"
  have data: "memcpy b (drop (i * sz) data) sz = coded I ?M ?k sz data i" if "i < ?k" for i
    using coded_data [OF assms(1) that assms(7)] assms(3) by (simp add: memcpy_def)
  have len: "length ?M = ?n * ?k" by (simp add: c(3) gen_length)
  then have len': "?k * (?n - ?k) \<le> length (drop (?k * ?k) ?M)" by (simp add: algebra_simps diff_mult_distrib2)
  let ?src = "map (\<lambda>d. the (c_data d)) (take ?k (map ?raw [0..<?n]))"
  have src: "?src = map (coded I ?M ?k sz data) [0..<?k]"
    using c(2) data by (auto simp: take_map intro!: nth_equalityI)
  have code: "ec_encode_data I sz ?k (?n - ?k) (rs_gftbl c) ?src =
      map (\<lambda>r. coded I ?M ?k sz data (?k + r)) [0..<?n - ?k]"
  proof -
    have "xsum (\<lambda>j. gf_mul I (drop (?k * ?k) ?M ! (r * ?k + j)) (?src ! j ! x)) ?k =
        xsum (\<lambda>j. gf_mul I (?M ! ((?k + r) * ?k + j)) (data ! (j * sz + x))) ?k" if x: "x < sz" and r: "r < ?n - ?k" for r x
    proof (rule xsum_cong [OF refl])
      fix j
      assume j: "j < ?k"
      have "coded I ?M ?k sz data j ! x = data ! (j * sz + x)"
        by (rule coded_data_nth [OF assms(1) j x])
      then show "gf_mul I (drop (?k * ?k) ?M ! (r * ?k + j)) (?src ! j ! x) =
          gf_mul I (?M ! ((?k + r) * ?k + j)) (data ! (j * sz + x))"
        using j len src r c(2) by (simp add: algebra_simps)
    qed
    then show ?thesis
      unfolding c(4) using len' src by (simp add: encode_data coded_def)
  qed
  have stripe: "take ?k (map ?raw [0..<?n]) @ map2 (\<lambda>d bs. d\<lparr>c_data := Some bs\<rparr>) (drop ?k (map ?raw [0..<?n]))
      (map (\<lambda>r. coded I ?M ?k sz data (?k + r)) [0..<?n - ?k]) = map (coded_chunk I c sz data) [0..<?n]" (is "?l = ?r")
  proof (rule nth_equalityI)
    show "length ?l = length ?r" using c(2) by simp
    fix i
    assume "i < length ?l"
    then have "i < ?n" using c(2) by simp
    then show "?l ! i = ?r ! i"
      using c(2) data by (cases "i < ?k") (simp_all add: nth_append coded_chunk_def)
  qed
  have "encode_alloc alloc ?k sz data [0..<?n] [] = Some (map ?raw [0..<?n])"
    using encode_alloc_eq [where alloc = alloc, OF assms(5,6,2), of ?k data "[0..<?n]" "[]"] by simp
  then show ?thesis
    unfolding rs_encode_def Let_def assms(4) [symmetric] by (simp only: option.case code stripe)
qed

lemma solve_data:
  assumes "gf_invert_matrix I D k = Some N"
    and "\<And>l j. l < k \<Longrightarrow> j < k \<Longrightarrow> D ! (l * k + j) = M ! (idx l * k + j)"
    and "\<And>l. l < k \<Longrightarrow> x l = xsum (\<lambda>j. gf_mul I (M ! (idx l * k + j)) (d j)) k" and "i < k"
  shows "xsum (\<lambda>l. gf_mul I (N ! (i * k + l)) (x l)) k = d i"
proof -
  have "xsum (\<lambda>l. gf_mul I (N ! (i * k + l)) (x l)) k =
      xsum (\<lambda>l. gf_mul I (N ! (i * k + l)) (xsum (\<lambda>j. gf_mul I (D ! (l * k + j)) (d j)) k)) k"
    using assms(2,3) by (auto intro!: xsum_cong arg_cong [where f = "gf_mul I _"])
  also have "\<dots> = xsum (\<lambda>j. gf_mul I (xsum (\<lambda>l. gf_mul I (N ! (i * k + l)) (D ! (l * k + j))) k) (d j)) k"
    by (rule mat_vec_assoc)
  also have "\<dots> = xsum (\<lambda>j. gf_mul I (if i = j then 1 else 0) (d j)) k"
    using invert [OF assms(1)] assms(4) by (intro xsum_cong) auto
  finally show ?thesis using xsum_unit [OF assms(4)] by simp
qed

lemma repair_rows_eq:
  assumes "newRSCode I opts = Some c" and "length invm = rs_k c * rs_k c"
  shows "repair_rows I (rs_k c) (rs_encodeMatrix c) invm ts =
     concat (map (\<lambda>t. map (\<lambda>j. xsum (\<lambda>l. gf_mul I (invm ! (l * rs_k c + j)) (rs_encodeMatrix c ! (t * rs_k c + l)))
       (rs_k c)) [0..<rs_k c]) ts)"
proof -
  let ?k = "rs_k c" and ?M = "rs_encodeMatrix c"
  let ?g = "\<lambda>t. map (\<lambda>j. xsum (\<lambda>l. gf_mul I (invm ! (l * ?k + j)) (?M ! (t * ?k + l))) ?k) [0..<?k]"
  have c: "?k \<le> rs_n c" "?M = gf_gen_rs_matrix I (rs_n c) ?k" using newRSCode_Some [OF assms(1)] by auto
  have row: "take ?k (drop (t * ?k) invm) = ?g t" if t: "t < ?k" for t
  proof -
    have "t * ?k + ?k \<le> length invm"
      using t assms(2) by (metis Suc_leI add.commute mult_Suc mult_le_mono1)
    moreover have "xsum (\<lambda>l. gf_mul I (invm ! (l * ?k + j)) (?M ! (t * ?k + l))) ?k = invm ! (t * ?k + j)" for j
    proof -
      have "xsum (\<lambda>l. gf_mul I (invm ! (l * ?k + j)) (?M ! (t * ?k + l))) ?k =
          xsum (\<lambda>l. gf_mul I (if t = l then 1 else 0) (invm ! (l * ?k + j))) ?k"
        using c t by (intro xsum_cong refl) (simp add: gen_identity mul_commute)
      with t show ?thesis by (simp add: xsum_unit)
    qed
    ultimately show ?thesis by (simp add: take_drop_map_nth)
  qed
  have "map (\<lambda>t. take ?k (drop (t * ?k) invm)) (takeWhile (\<lambda>t. t < ?k) ts) = map ?g (takeWhile (\<lambda>t. t < ?k) ts)"
    using row by (intro map_cong refl) (auto dest: set_takeWhileD)
  then show ?thesis
    unfolding repair_rows_def
    by (simp only: map_append [symmetric] takeWhile_dropWhile_id)
qed

lemma input_matrix_nth:
  assumes "newRSCode I opts = Some c" and "survivors c ids" and "l < rs_k c" and "j < rs_k c"
  shows "input_matrix c junk ids ! (l * rs_k c + j) = rs_encodeMatrix c ! (ids ! l * rs_k c + j)"
proof -
  let ?k = "rs_k c" and ?M = "rs_encodeMatrix c"
  let ?rs = "map (\<lambda>i. take ?k (drop (i * ?k) ?M)) ids"
  have M: "length ?M = rs_n c * ?k" using newRSCode_Some [OF assms(1)] gen_length by simp
  have l: "l < length ids" using assms(2,3) by (simp add: survivors_def)
  have row: "i * ?k + ?k \<le> length ?M" if "i \<in> set ids" for i
    using that assms(2) M unfolding survivors_def
    by (metis Suc_leI add.commute lessThan_iff mult_Suc mult_le_mono1 subsetD)
  have r: "\<forall>r \<in> set ?rs. length r = ?k" using row by (auto simp: min_def dest!: row)
  have "l * ?k + j < length (concat ?rs)" using l assms(4) length_concat_rows [OF r] flat_index [of l "length ids" j ?k] by simp
  then have "input_matrix c junk ids ! (l * ?k + j) = concat ?rs ! (l * ?k + j)"
    by (simp add: input_matrix_def Let_def nth_append)
  also have "\<dots> = ?rs ! l ! j" using concat_nth [OF r] l assms(4) by simp
  also have "\<dots> = ?M ! (ids ! l * ?k + j)" using l assms(4) row [of "ids ! l"] by simp
  finally show ?thesis .
qed

lemma decode_scan_survivors:
  assumes "survivors c ids"
  shows "decode_scan (rs_k c) (rs_encodeMatrix c) collect [0..<rs_n c] (map int ids) =
     (concat (map (\<lambda>i. take (rs_k c) (drop (i * rs_k c) (rs_encodeMatrix c))) ids),
      if collect then filter (\<lambda>i. i \<notin> set ids) [0..<rs_n c] else [])"
  using assms by (intro decode_scan_sorted) (auto simp: survivors_def)

lemma coded_chunk_simps [simp]:
  "c_chunkId (coded_chunk I c sz data i) = int i" "c_size (coded_chunk I c sz data i) = int sz"
  "c_data (coded_chunk I c sz data i) = Some (coded I (rs_encodeMatrix c) (rs_k c) sz data i)"
  by (simp_all add: coded_chunk_def setChunkId_def)

lemma survivors_nonempty: "newRSCode I opts = Some c \<Longrightarrow> survivors c ids \<Longrightarrow> ids \<noteq> []"
  using newRSCode_Some by (fastforce simp: survivors_def)

lemma survivors_length: "survivors c ids \<Longrightarrow> length ids \<le> rs_n c"
proof -
  assume s: "survivors c ids"
  then have "distinct ids" by (auto simp: survivors_def strict_sorted_iff)
  then have "length ids = card (set ids)" by (simp add: distinct_card)
  also have "\<dots> \<le> card {..<rs_n c}" using s by (intro card_mono) (auto simp: survivors_def)
  finally show ?thesis by simp
qed

text \<open>What a matrix of the form used by decoding computes from the surviving chunks.\<close>

lemma solve_chunks:
  assumes "newRSCode I opts = Some c" and "survivors c ids"
    and "gf_invert_matrix I (input_matrix c junk ids) (rs_k c) = Some N" and "i < rs_k c" and "b < sz"
  shows "xsum (\<lambda>l. gf_mul I (N ! (i * rs_k c + l))
     (coded I (rs_encodeMatrix c) (rs_k c) sz data (ids ! l) ! b)) (rs_k c) = data ! (i * sz + b)"
  by (rule solve_data [OF assms(3) input_matrix_nth [OF assms(1,2)], where d = "\<lambda>j. data ! (j * sz + b)"])
    (use assms(4,5) in \<open>simp_all add: coded_def\<close>)

lemma solve_target:
  assumes "newRSCode I opts = Some c" and "survivors c ids"
    and "gf_invert_matrix I (input_matrix c junk ids) (rs_k c) = Some N" and "b < sz"
  shows "xsum (\<lambda>l. gf_mul I (xsum (\<lambda>m. gf_mul I (N ! (m * rs_k c + l)) (rs_encodeMatrix c ! (t * rs_k c + m))) (rs_k c))
     (coded I (rs_encodeMatrix c) (rs_k c) sz data (ids ! l) ! b)) (rs_k c)
     = coded I (rs_encodeMatrix c) (rs_k c) sz data t ! b"
proof -
  let ?k = "rs_k c" and ?M = "rs_encodeMatrix c"
  let ?x = "\<lambda>l. coded I ?M ?k sz data (ids ! l) ! b"
  have "xsum (\<lambda>l. gf_mul I (xsum (\<lambda>m. gf_mul I (N ! (m * ?k + l)) (?M ! (t * ?k + m))) ?k) (?x l)) ?k =
      xsum (\<lambda>l. gf_mul I (xsum (\<lambda>m. gf_mul I (?M ! (t * ?k + m)) (N ! (m * ?k + l))) ?k) (?x l)) ?k"
    by (simp add: mul_commute)
  also have "\<dots> = xsum (\<lambda>m. gf_mul I (?M ! (t * ?k + m)) (xsum (\<lambda>l. gf_mul I (N ! (m * ?k + l)) (?x l)) ?k)) ?k"
    by (rule mat_vec_assoc [symmetric])
  also have "\<dots> = xsum (\<lambda>m. gf_mul I (?M ! (t * ?k + m)) (data ! (m * sz + b))) ?k"
    using solve_chunks [OF assms(1-3) _ assms(4)] by (intro xsum_cong refl) simp
  finally show ?thesis using assms(4) by (simp add: coded_def)
qed

lemma rs_decode_unfold:
  assumes "newRSCode I opts = Some c" and "survivors c ids"
    and "gf_invert_matrix I (input_matrix c junk ids) (rs_k c) = Some N"
    and "targets = ts @ (if isRepair \<and> ts = [] then filter (\<lambda>i. i \<notin> set ids) [0..<rs_n c] else [])"
    and "num = (if isRepair then length targets else rs_k c)" and "mallocOk (num * sz)"
    and "\<not> (isRepair \<and> length targets = 1 \<and> o_useCarRepair (rs_options c))"
  shows "rs_decode I mallocOk junk c (map (coded_chunk I c sz data) ids) None dsz isRepair ts =
     (Some (concat (ec_encode_data I sz (rs_k c) num (ec_init_tables I (rs_k c) num
         (if isRepair then repair_rows I (rs_k c) (rs_encodeMatrix c) N targets else N))
        (map (coded I (rs_encodeMatrix c) (rs_k c) sz data) ids))), num * sz, True)"
proof -
  have ids: "ids \<noteq> []" "\<not> length ids < rs_k c" "take (rs_n c) ids = ids"
    using survivors_nonempty [OF assms(1,2)] survivors_length [OF assms(2)] assms(2) by (simp_all add: survivors_def)
  have m: "map c_chunkId (map (coded_chunk I c sz data) ids) = map int ids" by simp
  have scan: "decode_scan (rs_k c) (rs_encodeMatrix c) (isRepair \<and> ts = []) [0..<rs_n c]
      (map c_chunkId (map (coded_chunk I c sz data) ids)) =
     (concat (map (\<lambda>i. take (rs_k c) (drop (i * rs_k c) (rs_encodeMatrix c))) ids),
      if isRepair \<and> ts = [] then filter (\<lambda>i. i \<notin> set ids) [0..<rs_n c] else [])"
    unfolding m by (rule decode_scan_survivors [OF assms(2)])
  have p: "map (\<lambda>d. case c_data d of None \<Rightarrow> [] | Some bs \<Rightarrow> bs) (take (rs_n c) (map (coded_chunk I c sz data) ids)) =
      map (coded I (rs_encodeMatrix c) (rs_k c) sz data) ids"
    using ids(3) by (simp add: take_map)
  have sz: "(if map (coded_chunk I c sz data) ids = [] then 0 else nat (c_size (hd (map (coded_chunk I c sz data) ids)))) = sz"
    using ids(1) by (cases ids) auto
  show ?thesis
    unfolding rs_decode_def Let_def scan p sz prod.case assms(4) [symmetric] assms(5) [symmetric]
    using ids(2) assms(3,6,7) by (auto simp: input_matrix_def Let_def assms(5))
qed

lemma rs_decode_data:
  assumes "newRSCode I opts = Some c" and "survivors c ids"
    and "gf_invert_matrix I (input_matrix c junk ids) (rs_k c) = Some N"
    and "mallocOk (rs_k c * sz)" and "rs_k c * sz \<le> length data"
  shows "rs_decode I mallocOk junk c (map (coded_chunk I c sz data) ids) None dsz False [] =
     (Some (take (rs_k c * sz) data), rs_k c * sz, True)"
proof -
  let ?k = "rs_k c" and ?src = "map (coded I (rs_encodeMatrix c) (rs_k c) sz data) ids"
  have N: "length N = ?k * ?k" using invert [OF assms(3)] by simp
  have src: "?k \<le> length ?src" "\<And>l. l < ?k \<Longrightarrow> ?src ! l = coded I (rs_encodeMatrix c) ?k sz data (ids ! l)"
    using assms(2) by (auto simp: survivors_def)
  have "ec_encode_data I sz ?k ?k (ec_init_tables I ?k ?k N) ?src =
      map (\<lambda>r. map (\<lambda>b. xsum (\<lambda>l. gf_mul I (N ! (r * ?k + l)) (?src ! l ! b)) ?k) [0..<sz]) [0..<?k]"
    using N src(1) by (intro encode_data) simp_all
  also have "\<dots> = map (\<lambda>r. map (\<lambda>b. data ! (r * sz + b)) [0..<sz]) [0..<?k]"
    using solve_chunks [OF assms(1-3)] src(2) by (auto intro!: map_cong)
  finally show ?thesis
    using rs_decode_unfold [OF assms(1-3), of "[]" "[]" False ?k mallocOk sz data dsz] assms(4)
      concat_slices [OF assms(5)] by simp
qed

text \<open>The repair matrix applied to the first \<open>k\<close> of the input chunks gives the targets.\<close>

lemma repair_encode:
  assumes "newRSCode I opts = Some c" and "survivors c ids"
    and "gf_invert_matrix I (input_matrix c junk ids) (rs_k c) = Some N" and "rs_k c \<le> length src"
    and src: "\<And>l. l < rs_k c \<Longrightarrow> src ! l = coded I (rs_encodeMatrix c) (rs_k c) sz data (ids ! l)"
  shows "ec_encode_data I sz (rs_k c) (length targets) (ec_init_tables I (rs_k c) (length targets)
       (repair_rows I (rs_k c) (rs_encodeMatrix c) N targets)) src = map (coded I (rs_encodeMatrix c) (rs_k c) sz data) targets"
    and "length (repair_rows I (rs_k c) (rs_encodeMatrix c) N targets) = length targets * rs_k c"
proof -
  let ?k = "rs_k c" and ?M = "rs_encodeMatrix c"
  let ?g = "\<lambda>t. map (\<lambda>j. xsum (\<lambda>l. gf_mul I (N ! (l * ?k + j)) (?M ! (t * ?k + l))) ?k) [0..<?k]"
  let ?R = "concat (map ?g targets)"
  have N: "length N = ?k * ?k" using invert [OF assms(3)] by simp
  have rows: "\<forall>r \<in> set (map ?g targets). length r = ?k" by auto
  have R: "length ?R = length targets * ?k" using length_concat_rows [OF rows] by simp
  have Rn: "?R ! (i * ?k + j) = xsum (\<lambda>l. gf_mul I (N ! (l * ?k + j)) (?M ! (targets ! i * ?k + l))) ?k"
    if "i < length targets" "j < ?k" for i j
    using concat_nth [OF rows, of i j] that by simp
  have "ec_encode_data I sz ?k (length targets) (ec_init_tables I ?k (length targets) ?R) src =
      map (\<lambda>r. map (\<lambda>b. xsum (\<lambda>l. gf_mul I (?R ! (r * ?k + l)) (src ! l ! b)) ?k) [0..<sz]) [0..<length targets]"
    using R assms(4) by (intro encode_data) (simp_all add: mult.commute)
  also have "\<dots> = map (\<lambda>r. map (\<lambda>b. coded I ?M ?k sz data (targets ! r) ! b) [0..<sz]) [0..<length targets]"
    using solve_target [OF assms(1-3)] src Rn by (auto intro!: map_cong)
  also have "\<dots> = map (coded I ?M ?k sz data) targets"
    by (intro nth_equalityI) (auto simp: coded_def)
  finally show "ec_encode_data I sz (rs_k c) (length targets) (ec_init_tables I (rs_k c) (length targets)
       (repair_rows I (rs_k c) (rs_encodeMatrix c) N targets)) src = map (coded I (rs_encodeMatrix c) (rs_k c) sz data) targets"
    using repair_rows_eq [OF assms(1) N, of targets] by simp
  show "length (repair_rows I (rs_k c) (rs_encodeMatrix c) N targets) = length targets * rs_k c"
    using R repair_rows_eq [OF assms(1) N, of targets] by simp
qed

lemma rs_decode_repair:
  assumes "newRSCode I opts = Some c" and "survivors c ids"
    and "gf_invert_matrix I (input_matrix c junk ids) (rs_k c) = Some N"
    and "targets = (if ts = [] then filter (\<lambda>i. i \<notin> set ids) [0..<rs_n c] else ts)"
    and "mallocOk (length targets * sz)" and "\<not> (length targets = 1 \<and> o_useCarRepair (rs_options c))"
  shows "rs_decode I mallocOk junk c (map (coded_chunk I c sz data) ids) None dsz True ts =
     (Some (concat (map (coded I (rs_encodeMatrix c) (rs_k c) sz data) targets)), length targets * sz, True)"
proof -
  let ?src = "map (coded I (rs_encodeMatrix c) (rs_k c) sz data) ids"
  have src: "rs_k c \<le> length ?src" "\<And>l. l < rs_k c \<Longrightarrow> ?src ! l = coded I (rs_encodeMatrix c) (rs_k c) sz data (ids ! l)"
    using assms(2) by (auto simp: survivors_def)
  show ?thesis
    using rs_decode_unfold [OF assms(1-3), of targets ts True "length targets" mallocOk sz data dsz] assms(4-6)
      repair_encode(1) [OF assms(1-3) src, of targets] by (auto split: if_splits)
qed

text \<open>The partial sum an agent computes over the chunks \<open>g\<close> of its rack with its part of a row \<open>R\<close>.\<close>

lemma utils_encode_nth:
  assumes "b < sz"
  shows "hd (utils_encode I (map x g) 1 sz (map (\<lambda>l. R ! l) g)) ! b = lsum (\<lambda>l. gf_mul I (R ! l) (x l ! b)) g"
proof -
  have "utils_encode I (map x g) 1 sz (map (\<lambda>l. R ! l) g) = [map (\<lambda>b. xsum (\<lambda>j. gf_mul I (map (\<lambda>l. R ! l) g ! j)
      (map x g ! j ! b)) (length g)) [0..<sz]]"
    unfolding utils_encode_def by (subst encode_data) simp_all
  with assms show ?thesis by (simp add: lsum_def cong: xsum_cong)
qed

lemma utils_encode_length: "length (hd (utils_encode I (map x g) 1 sz (map (\<lambda>l. R ! l) g))) = sz"
  unfolding utils_encode_def by (subst encode_data) simp_all

lemma carRepairFinalize_nth:
  assumes "b < sz" and "\<forall>x \<in> set inputs. length x = sz" and "inputs \<noteq> []"
  shows "length (carRepairFinalize I inputs sz) = sz \<and>
     carRepairFinalize I inputs sz ! b = xsum (\<lambda>q. inputs ! q ! b) (length inputs)"
proof (cases "length inputs = 1")
  case True
  then obtain x where "inputs = [x]" by (cases inputs) auto
  with assms show ?thesis by (simp add: carRepairFinalize_def)
next
  case False
  have "ec_encode_data I sz (length inputs) 1 (ec_init_tables I (length inputs) 1 (replicate (length inputs) 1)) inputs =
     [map (\<lambda>b. xsum (\<lambda>j. gf_mul I (replicate (length inputs) 1 ! j) (inputs ! j ! b)) (length inputs)) [0..<sz]]"
    by (subst encode_data) simp_all
  with False assms(1) show ?thesis by (simp add: carRepairFinalize_def mul_one cong: xsum_cong)
qed

lemma car_sum:
  assumes "mset (concat gs) = mset [0..<k]" and "gs \<noteq> []"
    and "\<And>b. b < sz \<Longrightarrow> xsum (\<lambda>l. gf_mul I (R ! l) (x l ! b)) k = y ! b" and "length y = sz" and "0 < sz"
  shows "carRepairFinalize I (map (\<lambda>g. hd (utils_encode I (map x g) 1 sz (map (\<lambda>l. R ! l) g))) gs) sz = y"
    (is "carRepairFinalize I ?ps sz = y")
proof (rule nth_equalityI)
  have ps: "\<forall>p \<in> set ?ps. length p = sz" "?ps \<noteq> []" using assms(2) utils_encode_length by auto
  show "length (carRepairFinalize I ?ps sz) = length y"
    using carRepairFinalize_nth [OF assms(5) ps] assms(4) by simp
  fix b
  assume "b < length (carRepairFinalize I ?ps sz)"
  then have b: "b < sz" using carRepairFinalize_nth [OF assms(5) ps] by simp
  have "carRepairFinalize I ?ps sz ! b = xsum (\<lambda>q. ?ps ! q ! b) (length gs)"
    using carRepairFinalize_nth [OF b ps] by simp
  also have "\<dots> = xsum (\<lambda>q. lsum (\<lambda>l. gf_mul I (R ! l) (x l ! b)) (gs ! q)) (length gs)"
    using utils_encode_nth [OF b] by (intro xsum_cong refl) simp
  also have "\<dots> = lsum (\<lambda>l. gf_mul I (R ! l) (x l ! b)) [0..<k]"
    unfolding lsum_concat [symmetric] by (rule lsum_mset [OF assms(1)])
  finally show "carRepairFinalize I ?ps sz ! b = y ! b" using assms(3) [OF b] by (simp add: lsum_upt)
qed

end

lemma decode_scan_not_collect: "snd (decode_scan k M False is ids) = []"
  by (induction k M False "is" ids rule: decode_scan.induct) (auto simp: case_prod_unfold)

subsection \<open>Plans\<close>

lemma preDecode_scan:
  assumes "sorted_wrt (<) failed" and "set failed \<subseteq> {..<n}"
  shows "alive_scan [0..<n] failed (plan_release plan) =
     (\<lparr>dp_repairMatrix = bb_reset, dp_inputChunkIds = filter (\<lambda>i. i \<notin> set failed) [0..<n], dp_minNumChunks = 0\<rparr>, failed)"
proof -
  have "set failed \<subseteq> set [0..<n]" using assms(2) by auto
  from alive_scan_sorted [OF _ assms(1) this, of "plan_release plan"] show ?thesis
    by (simp add: plan_release_def releaseInputChunks_def releaseRepairMatrix_def bb_release_def)
qed

lemma length_alive:
  assumes "distinct failed" and "set failed \<subseteq> {..<n}"
  shows "length (filter (\<lambda>i. i \<notin> set failed) [0..<n]) = n - length failed"
proof -
  have "length (filter (\<lambda>i. i \<notin> set failed) [0..<n]) = card ({..<n} - set failed)"
    by (subst distinct_card [symmetric]) (auto intro!: arg_cong [where f = card])
  also have "\<dots> = n - length failed"
    using assms by (simp add: card_Diff_subset distinct_card)
  finally show ?thesis .
qed

lemma alive_survivors:
  assumes "sorted_wrt (<) failed" and "set failed \<subseteq> {..<rs_n c}" and "length failed \<le> rs_n c - rs_k c"
    and "rs_k c \<le> rs_n c"
  shows "survivors c (filter (\<lambda>i. i \<notin> set failed) [0..<rs_n c])"
proof -
  have "distinct failed" using assms(1) by (simp add: strict_sorted_iff)
  from length_alive [OF this assms(2)] assms(3,4) show ?thesis
    by (auto simp: survivors_def intro: sorted_wrt_filter)
qed

lemma preDecode_repair:
  assumes "sorted_wrt (<) failed" and "set failed \<subseteq> {..<rs_n c}" and "length failed \<le> rs_n c - rs_k c"
    and "rs_k c \<le> rs_n c" and "alive = filter (\<lambda>i. i \<notin> set failed) [0..<rs_n c]"
    and "gf_invert_matrix I (input_matrix c junk alive) (rs_k c) = Some N"
    and "bb_allocate alloc (length failed * rs_k c) False bb_reset = (b, True)"
  shows "preDecode I alloc junk c failed True plan =
     (\<lparr>dp_repairMatrix = b\<lparr>bb_data := Some (memcpy (the (bb_data b))
          (repair_rows I (rs_k c) (rs_encodeMatrix c) N failed) (length failed * rs_k c))\<rparr>,
       dp_inputChunkIds = alive, dp_minNumChunks = rs_k c\<rparr>, True)"
proof -
  have "distinct failed" using assms(1) by (simp add: strict_sorted_iff)
  from length_alive [OF this assms(2)] assms(3,4) have len: "\<not> length alive < rs_k c" by (simp add: assms(5))
  show ?thesis
    using len assms(3,6,7)
    by (simp add: preDecode_def preDecode_scan [OF assms(1,2)] assms(5) [symmetric] setMinNumInputChunks_def
        getNumDataChunks_def allocateRepairMatrix_def input_matrix_def Let_def)
qed

subsection \<open>Properties of the code\<close>



definition example_code :: "bool \<Rightarrow> rs_code" where
  "example_code car = \<lparr>rs_options = \<lparr>o_n = 3, o_k = 2, o_useCarRepair = car\<rparr>,
     rs_encodeMatrix = [1, 0, 0, 1, 1, 1], rs_gftbl = [1, 1]\<rparr>"

lemma gen256_3_2: "gen256 3 2 = [1, 0, 0, 1, 1, 1]"
  by code_simp

lemma example_code_new: "newRSCode isal256 \<lparr>o_n = 3, o_k = 2, o_useCarRepair = car\<rparr> = Some (example_code car)"
  by (simp add: newRSCode_def example_code_def isal256_def gen256_3_2)

lemma example_invert: "invert256 [0, 1, 1, 1] 2 = Some [1, 1, 1, 0]"
  by code_simp

lemma example_survivors: "survivors (example_code car) [1, 2]"
  by (auto simp: survivors_def example_code_def)

lemma example_input_matrix: "input_matrix (example_code car) [] [1, 2] = [0, 1, 1, 1]"
  by (simp add: input_matrix_def example_code_def)

lemma example_inverts: "gf_invert_matrix isal256 (input_matrix (example_code car) [] [1, 2]) (rs_k (example_code car)) \<noteq> None"
  unfolding example_input_matrix by (simp add: example_code_def isal256_def example_invert)



text \<open>
  The code is systematic and the chunk size is tight: encoding yields \<open>n\<close> chunks numbered in order and
  of equal size, the first \<open>k\<close> of them hold the data in order, they have room for the data, and by less
  than \<open>k\<close> bytes too much.
\<close>

theorem rs_encode_systematic:
  assumes "isal I" and "newRSCode I opts = Some c" and "alloc (int sz) = Some b" and "length b = sz"
    and "sz = getChunkSize c dataSize" and "0 < sz" and "sz < 2147483648" and "rs_k c * sz \<le> length data"
  shows "\<exists>stripe. rs_encode I alloc c data dataSize = (stripe, True) \<and> length stripe = rs_n c \<and>
     (\<forall>i < rs_n c. c_chunkId (stripe ! i) = int i \<and> c_size (stripe ! i) = int sz
        \<and> length (the (c_data (stripe ! i))) = sz) \<and>
     concat (map (\<lambda>d. the (c_data d)) (take (rs_k c) stripe)) = take (rs_k c * sz) data \<and>
     dataSize \<le> rs_k c * sz \<and> rs_k c * sz < dataSize + rs_k c"
proof -
  let ?stripe = "map (coded_chunk I c sz data) [0..<rs_n c]" and ?cd = "coded I (rs_encodeMatrix c) (rs_k c) sz data"
  have new: "0 < rs_k c" "rs_k c \<le> rs_n c" using newRSCode_Some [OF assms(2)] by auto
  then have t: "take (rs_k c) [0..<rs_n c] = [0..<rs_k c]" by simp
  note simps = isal.coded_chunk_simps [OF assms(1)]
  have "concat (map (\<lambda>d. the (c_data d)) (take (rs_k c) ?stripe)) = concat (map ?cd [0..<rs_k c])"
    by (simp add: take_map simps comp_def t)
  also have "map ?cd [0..<rs_k c] = map (\<lambda>r. map (\<lambda>b. data ! (r * sz + b)) [0..<sz]) [0..<rs_k c]"
    using isal.coded_data_nth [OF assms(1,2)] by (auto intro!: nth_equalityI simp: coded_def)
  finally have "concat (map (\<lambda>d. the (c_data d)) (take (rs_k c) ?stripe)) = take (rs_k c * sz) data"
    using concat_slices [OF assms(8)] by simp
  moreover have "dataSize \<le> rs_k c * sz \<and> rs_k c * sz < dataSize + rs_k c"
    using getChunkSize_bounds [of c dataSize] new assms(5) by simp
  moreover have "length (?cd i) = sz" for i by (simp add: coded_def)
  ultimately show ?thesis
    using isal.rs_encode_eq [where alloc = alloc, OF assms]
    by (intro exI [of _ ?stripe]) (simp add: simps)
qed

theorem rs_encode_systematic_witness:
  "isal isal256 \<and> (\<exists>stripe. rs_encode isal256 (\<lambda>n. Some (replicate (nat n) 0)) (example_code False) [5, 7] 2 = (stripe, True) \<and>
     length stripe = 3 \<and> concat (map (\<lambda>d. the (c_data d)) (take 2 stripe)) = [5, 7])"
proof -
  let ?c = "example_code False"
  have c: "1 = getChunkSize ?c 2" "rs_k ?c * 1 \<le> length [5, 7 :: byte]" "rs_k ?c = 2" "rs_n ?c = 3"
    by (simp_all add: getChunkSize_def example_code_def)
  have "\<exists>stripe. rs_encode isal256 (\<lambda>n. Some (replicate (nat n) 0)) ?c [5, 7] 2 = (stripe, True) \<and> length stripe = rs_n ?c \<and>
     (\<forall>i < rs_n ?c. c_chunkId (stripe ! i) = int i \<and> c_size (stripe ! i) = int 1
        \<and> length (the (c_data (stripe ! i))) = 1) \<and>
     concat (map (\<lambda>d. the (c_data d)) (take (rs_k ?c) stripe)) = take (rs_k ?c * 1) [5, 7] \<and>
     2 \<le> rs_k ?c * 1 \<and> rs_k ?c * 1 < 2 + rs_k ?c"
    by (rule rs_encode_systematic [where b = "[0]", OF isal256.isal_axioms example_code_new _ _ c(1) _ _ c(2)]) simp_all
  then show ?thesis using c(3,4) isal256.isal_axioms by auto
qed

text \<open>
  A plan for reading lists exactly the chunks that have not failed, asks for \<open>k\<close> of them, and is
  refused, with the plan unchanged, exactly when more than \<open>n - k\<close> chunks have failed.
\<close>

theorem preDecode_plans_alive_chunks:
  assumes "newRSCode I opts = Some c" and "sorted_wrt (<) failed" and "set failed \<subseteq> {..<rs_n c}"
  shows "preDecode I alloc junk c failed False plan =
     (if length failed \<le> rs_n c - rs_k c
      then (\<lparr>dp_repairMatrix = bb_reset, dp_inputChunkIds = filter (\<lambda>i. i \<notin> set failed) [0..<rs_n c],
             dp_minNumChunks = rs_k c\<rparr>, True)
      else (plan, False))"
proof -
  have "distinct failed" using assms(2) by (simp add: strict_sorted_iff)
  note len = length_alive [OF this assms(3)]
  have "rs_k c \<le> rs_n c" using newRSCode_Some [OF assms(1)] by blast
  then show ?thesis
    by (simp add: preDecode_def preDecode_scan [OF assms(2,3)] setMinNumInputChunks_def getNumDataChunks_def Let_def len) linarith
qed

theorem preDecode_plans_alive_chunks_witness:
  "sorted_wrt (<) [1 :: nat] \<and> dp_inputChunkIds (fst (preDecode isal256 (\<lambda>n. None) [] (example_code False) [1] False
     (newDecodingPlan 9))) = [0, 2]"
proof -
  have s: "set [1 :: nat] \<subseteq> {..<rs_n (example_code False)}" by (simp add: example_code_def)
  show ?thesis
    using preDecode_plans_alive_chunks [OF example_code_new _ s] by (simp add: example_code_def upt_rec)
qed

lemma length_groups: "[] \<notin> set gs \<Longrightarrow> length gs \<le> length (concat gs)"
proof (induction gs)
  case (Cons g gs)
  then show ?case by (cases g) auto
qed simp

lemma rs_decode_car:
  assumes "o_useCarRepair (rs_options c)" and "map c_data ps = map Some bs" and "\<forall>p \<in> set ps. c_size p = int sz"
    and "ps \<noteq> []" and "length ps \<le> rs_n c" and "mallocOk sz"
  shows "rs_decode I mallocOk junk c ps None dsz True [f] = (Some (carRepairFinalize I bs sz), sz, True)"
proof -
  have "map (\<lambda>d. case c_data d of None \<Rightarrow> [] | Some b \<Rightarrow> b) ps = map (case_option [] id) (map c_data ps)"
    by (simp add: comp_def id_def)
  then have bs: "map (\<lambda>d. case c_data d of None \<Rightarrow> [] | Some b \<Rightarrow> b) ps = bs"
    unfolding assms(2) by (simp add: comp_def)
  have "nat (c_size (hd ps)) = sz" using assms(3,4) by simp
  with bs assms show ?thesis
    by (simp add: rs_decode_def Let_def case_prod_unfold decode_scan_not_collect)
qed

text \<open>
  C22.  Cross-rack repair is exact.  Let one chunk of a stripe be lost, take the repair plan for it, group
  the \<open>k\<close> input chunks in any way, and combine each group with its part of the repair matrix.
  Decoding the partial results, one per group, gives the bytes of the lost chunk.
\<close>

theorem car_repair_rebuilds_lost_chunk:
  assumes "isal I" and "newRSCode I opts = Some c" and "o_useCarRepair opts" and "rs_k c < rs_n c" and "f < rs_n c"
    and "alive = filter (\<lambda>i. i \<noteq> f) [0..<rs_n c]"
    and "gf_invert_matrix I (input_matrix c junk alive) (rs_k c) \<noteq> None"
    and "alloc (int (rs_k c)) = Some m" and "length m = rs_k c"
    and "mset (concat gs) = mset [0..<rs_k c]" and "[] \<notin> set gs" and "0 < sz" and "mallocOk sz"
    and "preDecode I alloc junk c [f] True plan0 = (plan, ok)" and "R = the (bb_data (dp_repairMatrix plan))"
    and "chunkData = coded I (rs_encodeMatrix c) (rs_k c) sz data"
    and "map c_data ps =
       map (\<lambda>g. Some (hd (utils_encode I (map (\<lambda>l. chunkData (alive ! l)) g) 1 sz (map (\<lambda>l. R ! l) g)))) gs"
    and "\<forall>p \<in> set ps. c_size p = int sz"
  shows "ok \<and> dp_inputChunkIds plan = alive \<and>
     rs_decode I mallocOk junk c ps None dsz True [f] = (Some (chunkData f), sz, True)"
proof -
  obtain N where N: "gf_invert_matrix I (input_matrix c junk alive) (rs_k c) = Some N" using assms(7) by blast
  have k: "0 < rs_k c" "rs_options c = opts" using newRSCode_Some [OF assms(2)] by auto
  have al: "alive = filter (\<lambda>i. i \<notin> set [f]) [0..<rs_n c]" by (simp add: assms(6))
  have f: "sorted_wrt (<) [f]" "set [f] \<subseteq> {..<rs_n c}" "length [f] \<le> rs_n c - rs_k c" using assms(4,5) by auto
  have surv: "survivors c alive" unfolding al by (rule alive_survivors [OF f]) (use assms(4) in simp)
  have bb: "bb_allocate alloc (length [f] * rs_k c) False bb_reset = (\<lparr>bb_data = Some m, bb_size = rs_k c, bb_aligned = False, bb_copied = False\<rparr>, True)"
    using assms(8) k by (simp add: bb_allocate_def bb_release_def bb_reset_def)
  have Nl: "length N = rs_k c * rs_k c" using isal.invert [OF assms(1) N] by simp
  have rr: "repair_rows I (rs_k c) (rs_encodeMatrix c) N [f] =
      map (\<lambda>j. xsum (\<lambda>l. gf_mul I (N ! (l * rs_k c + j)) (rs_encodeMatrix c ! (f * rs_k c + l))) (rs_k c)) [0..<rs_k c]"
    using isal.repair_rows_eq [OF assms(1,2) Nl, of "[f]"] by simp
  from preDecode_repair [OF f _ al N bb] assms(4,9,14)
  have plan: "ok" "dp_inputChunkIds plan = alive" and R: "R = repair_rows I (rs_k c) (rs_encodeMatrix c) N [f]"
    unfolding assms(15) by (auto simp: memcpy_def rr)
  have sum: "xsum (\<lambda>l. gf_mul I (R ! l) (chunkData (alive ! l) ! b)) (rs_k c) = chunkData f ! b" if "b < sz" for b
    using isal.solve_target [OF assms(1,2) surv N that, of f data] unfolding assms(16) R rr
    by (simp cong: xsum_cong)
  have gs: "gs \<noteq> []" using arg_cong [OF assms(10), of size] k(1) by auto
  have fin: "carRepairFinalize I (map (\<lambda>g. hd (utils_encode I (map (\<lambda>l. chunkData (alive ! l)) g) 1 sz (map (\<lambda>l. R ! l) g))) gs) sz
      = chunkData f"
    by (rule isal.car_sum [OF assms(1) assms(10) gs sum]) (use assms(12) in \<open>simp_all add: assms(16) coded_def\<close>)
  have len: "length ps = length gs" using arg_cong [OF assms(17), of length] by simp
  have "length (concat gs) = rs_k c" using arg_cong [OF assms(10), of size] by simp
  then have "length ps \<le> rs_n c" "ps \<noteq> []" using length_groups [OF assms(11)] len assms(4) gs by auto
  with rs_decode_car [of c ps "map (\<lambda>g. hd (utils_encode I (map (\<lambda>l. chunkData (alive ! l)) g) 1 sz (map (\<lambda>l. R ! l) g))) gs"
      sz mallocOk I junk dsz f] assms(3,13,17,18) gs len k plan fin
  show ?thesis by (auto simp: comp_def)
qed


theorem car_repair_rebuilds_lost_chunk_witness:
  "let c = example_code True; plan = fst (preDecode isal256 (\<lambda>n. Some (replicate (nat n) 0)) [] c [0] True (newDecodingPlan 9));
       R = the (bb_data (dp_repairMatrix plan)); chunkData = coded isal256 (rs_encodeMatrix c) (rs_k c) 1 [5, 7];
       ps = map (\<lambda>g. chunk_reset\<lparr>c_size := 1, c_data :=
              Some (hd (utils_encode isal256 (map (\<lambda>l. chunkData ([1, 2] ! l)) g) 1 1 (map (\<lambda>l. R ! l) g)))\<rparr>) [[1], [0]]
   in isal isal256 \<and> mset (concat [[1], [0]]) = mset [0..<rs_k c] \<and>
      rs_decode isal256 (\<lambda>n. True) [] c ps None 0 True [0] = (Some (chunkData 0), 1, True)"
proof -
  let ?c = "example_code True" and ?alloc = "\<lambda>n. Some (replicate (nat n) 0)"
  have c: "o_useCarRepair \<lparr>o_n = 3, o_k = 2, o_useCarRepair = True\<rparr>" "rs_k ?c < rs_n ?c" "0 < rs_n ?c" "rs_k ?c = 2"
    by (simp_all add: example_code_def)
  have al: "[1, 2] = filter (\<lambda>i. i \<noteq> 0) [0..<rs_n ?c]" by (simp add: example_code_def upt_rec)
  have gs: "mset (concat [[1], [0]]) = mset [0..<rs_k ?c]" "[] \<notin> set [[1], [0 :: nat]]" by (simp_all add: c(4) upt_rec)
  note car = car_repair_rebuilds_lost_chunk [where alloc = ?alloc and mallocOk = "\<lambda>n. True" and sz = 1 and data = "[5, 7]"
      and dsz = 0, OF isal256.isal_axioms example_code_new c(1-3) al example_inverts refl _ gs _ _
      prod.collapse [symmetric] refl refl]
  show ?thesis
    unfolding Let_def using gs isal256.isal_axioms by (intro conjI car [THEN conjunct2, THEN conjunct2]) simp_all
qed

end
