(* ===== verification/Proxy_Coordinator.thy ===== *)
theory Proxy_Coordinator
  imports Nexo_Data "HOL-Library.List_Lexorder" "HOL-Library.Char_ord"
begin

text \<open>
  The coordinator of the proxy (\<^verbatim>\<open>src/proxy/coordinator.cc\<close>): registration and liveness of agents, choice of
  spare containers, and grouping of chunks by agent.  The network is a parameter: \<open>poll\<close> gives the outcome
  of a status request to an agent, \<open>ping\<close> whether it answers a ping, \<open>connectOk\<close> whether a connection can
  be opened.  \<open>ratio\<close> ranks the \<^verbatim>\<open>float\<close> quotient of usage and capacity.  The arrays of an agent record are
  lists of their fixed size; sockets are reduced to whether they are open.  \<open>None\<close> as the result of an
  operation is an exception of \<^verbatim>\<open>std::map::at\<close>.
\<close>

subsection \<open>Addresses\<close>

definition genAddr :: "string \<Rightarrow> nat \<Rightarrow> string" where
  "genAddr ip port = ''tcp://'' @ ip @ '':'' @ nat_to_string port"

text \<open>Position of the last occurrence of a character, \<^verbatim>\<open>find_last_of\<close>.\<close>

definition find_last_of :: "char \<Rightarrow> string \<Rightarrow> nat option" where
  "find_last_of c s = (if c \<in> set s then Some (length s - 1 - length (takeWhile (\<lambda>x. x \<noteq> c) (rev s))) else None)"

definition getAddrIP :: "string \<Rightarrow> string" where
  "getAddrIP addr =
     (let start = (case find_last_of (CHR ''/'') addr of None \<Rightarrow> 0 | Some p \<Rightarrow> p + 1)
      in case find_last_of (CHR '':'') addr of
           None \<Rightarrow> drop start addr
         | Some e \<Rightarrow> if e < start then drop start addr else take (e - start) (drop start addr))"

subsection \<open>State\<close>

definition NUM_MAX_CONTAINER_PER_AGENT :: nat where "NUM_MAX_CONTAINER_PER_AGENT = 16"

record sysinfo =
  si_cpuUsage :: "int list"
  si_memTotal :: nat
  si_memFree :: nat
  si_netIn :: int
  si_netOut :: int
  si_hostType :: nat

record coordinator_event =
  ev_opcode :: Opcode
  ev_agentAddr :: string
  ev_agentHostType :: nat
  ev_cport :: nat
  ev_numContainers :: nat
  ev_containerIds :: "int list"
  ev_containerUsage :: "nat list"
  ev_containerCapacity :: "nat list"
  ev_containerType :: "nat list"
  ev_sysinfo :: sysinfo

record agent_info =
  ai_socket :: bool
  ai_hostType :: nat
  ai_isNear :: bool
  ai_numContainers :: nat
  ai_startingContainerIndex :: nat
  ai_containerIds :: "int list"
  ai_containerUsage :: "nat list"
  ai_containerCapacity :: "nat list"
  ai_containerType :: "nat list"
  ai_utilizationMap :: "(int \<times> nat) list"
  ai_sysinfo :: sysinfo

record coordinator =
  co_containerToAgentMap :: "int \<Rightarrow> string option"
  co_agentStatus :: "string \<Rightarrow> bool option"
  co_agents :: "(string \<times> agent_info) list"
  co_aliveAgents :: "string list"
  co_startingAgentIdx :: nat
  co_lastCheckedTime :: int

definition HOST_TYPE_UNKNOWN :: nat where "HOST_TYPE_UNKNOWN = 7"

definition new_sysinfo :: sysinfo where
  "new_sysinfo = \<lparr>si_cpuUsage = [], si_memTotal = 0, si_memFree = 0, si_netIn = 0, si_netOut = 0,
     si_hostType = HOST_TYPE_UNKNOWN\<rparr>"

definition new_event :: coordinator_event where
  "new_event = \<lparr>ev_opcode = PUT_CHUNK_REQ, ev_agentAddr = [], ev_agentHostType = HOST_TYPE_UNKNOWN, ev_cport = 0,
     ev_numContainers = 0, ev_containerIds = [], ev_containerUsage = [], ev_containerCapacity = [],
     ev_containerType = [], ev_sysinfo = new_sysinfo\<rparr>"

definition new_agent_info :: agent_info where
  "new_agent_info =
     (let n = NUM_MAX_CONTAINER_PER_AGENT in
      \<lparr>ai_socket = False, ai_hostType = HOST_TYPE_UNKNOWN, ai_isNear = False, ai_numContainers = 0,
       ai_startingContainerIndex = 0, ai_containerIds = INVALID_CONTAINER_ID # replicate (n - 1) 0,
       ai_containerUsage = replicate n 0, ai_containerCapacity = replicate n 0, ai_containerType = replicate n 0,
       ai_utilizationMap = [], ai_sysinfo = new_sysinfo\<rparr>)"

definition new_coordinator :: "(int \<Rightarrow> string option) \<Rightarrow> coordinator" where
  "new_coordinator m = \<lparr>co_containerToAgentMap = m, co_agentStatus = (\<lambda>_. None), co_agents = [], co_aliveAgents = [],
     co_startingAgentIdx = 0, co_lastCheckedTime = 0\<rparr>"

text \<open>Ordered containers: \<^verbatim>\<open>std::map\<close> with string keys and \<^verbatim>\<open>std::multimap\<close>.\<close>

definition put_agent :: "string \<Rightarrow> agent_info \<Rightarrow> (string \<times> agent_info) list \<Rightarrow> (string \<times> agent_info) list" where
  "put_agent k v xs =
     (if k \<in> fst ` set xs then map (\<lambda>(k', v'). if k' = k then (k, v) else (k', v')) xs
      else insort_key fst (k, v) xs)"

fun multimap_insert :: "int \<times> nat \<Rightarrow> (int \<times> nat) list \<Rightarrow> (int \<times> nat) list" where
  "multimap_insert x [] = [x]"
| "multimap_insert x (y # ys) = (if fst x < fst y then x # y # ys else y # multimap_insert x ys)"

subsection \<open>Liveness of agents\<close>

definition setAgentAlive :: "string \<Rightarrow> coordinator \<Rightarrow> coordinator" where
  "setAgentAlive ip cs = cs\<lparr>co_aliveAgents := (if ip \<in> set (co_aliveAgents cs) then co_aliveAgents cs
        else insort ip (co_aliveAgents cs)),
     co_agentStatus := (co_agentStatus cs)(ip \<mapsto> True)\<rparr>"

definition setAgentDown :: "string \<Rightarrow> coordinator \<Rightarrow> coordinator \<times> bool" where
  "setAgentDown ip cs =
     (let cs1 = cs\<lparr>co_aliveAgents := filter (\<lambda>a. a \<noteq> ip) (co_aliveAgents cs)\<rparr>
      in case co_agentStatus cs ip of
           None \<Rightarrow> (cs1, False)
         | Some _ \<Rightarrow> (cs1\<lparr>co_agentStatus := (co_agentStatus cs)(ip \<mapsto> False)\<rparr>, True))"

text \<open>An agent that cannot be reached is marked as down and its socket is closed.\<close>

definition lose_agent :: "string \<Rightarrow> agent_info \<Rightarrow> coordinator \<Rightarrow> coordinator" where
  "lose_agent ip info cs =
     (let cs1 = fst (setAgentDown ip cs)
      in cs1\<lparr>co_agents := put_agent ip (info\<lparr>ai_socket := False\<rparr>) (co_agents cs1)\<rparr>)"

definition pingAgents :: "(string \<Rightarrow> bool) \<Rightarrow> coordinator \<Rightarrow> coordinator" where
  "pingAgents ping cs =
     foldl (\<lambda>s (ip, info). if \<not> ai_socket info \<or> ping ip then s else lose_agent ip info s) cs (co_agents cs)"

subsection \<open>Status updates\<close>

datatype sys_result = SysUnreachable | SysNoReply | SysReply sysinfo
datatype poll_result = Unreachable | NoUpdate | Update coordinator_event sys_result

definition update_container :: "coordinator_event \<Rightarrow> nat \<Rightarrow> agent_info \<Rightarrow> agent_info" where
  "update_container ev i info =
     (let num = ev_numContainers ev in
      case find (\<lambda>j. ai_containerIds info ! j = ev_containerIds ev ! i) (rotate i [0..<num]) of
        None \<Rightarrow> info
      | Some j \<Rightarrow> info\<lparr>ai_containerUsage := (ai_containerUsage info)[j := ev_containerUsage ev ! j],
           ai_containerCapacity := (ai_containerCapacity info)[j := ev_containerCapacity ev ! j],
           ai_containerType := (ai_containerType info)[j := ev_containerType ev ! j]\<rparr>)"

definition update_info :: "(nat \<Rightarrow> nat \<Rightarrow> int) \<Rightarrow> coordinator_event \<Rightarrow> agent_info \<Rightarrow> agent_info" where
  "update_info ratio ev info =
     foldl (\<lambda>x i. let x1 = update_container ev i x in
         x1\<lparr>ai_utilizationMap := multimap_insert (ratio (ev_containerUsage ev ! i) (ev_containerCapacity ev ! i), i)
              (ai_utilizationMap x1)\<rparr>)
       (info\<lparr>ai_hostType := ev_agentHostType ev, ai_utilizationMap := []\<rparr>) [0..<ev_numContainers ev]"

definition update_agent ::
  "(nat \<Rightarrow> nat \<Rightarrow> int) \<Rightarrow> (string \<Rightarrow> poll_result) \<Rightarrow> string \<times> agent_info \<Rightarrow> coordinator \<Rightarrow> coordinator" where
  "update_agent ratio poll a cs =
     (case a of (ip, info) \<Rightarrow>
        if \<not> ai_socket info then cs
        else case poll ip of
          Unreachable \<Rightarrow> lose_agent ip info cs
        | NoUpdate \<Rightarrow> cs
        | Update ev sys \<Rightarrow>
            let info1 = update_info ratio ev info in
            (case sys of
               SysUnreachable \<Rightarrow> lose_agent ip info1 cs
             | SysNoReply \<Rightarrow> cs\<lparr>co_agents := put_agent ip info1 (co_agents cs)\<rparr>
             | SysReply si \<Rightarrow>
                 cs\<lparr>co_agents := put_agent ip
                   (if ev_numContainers ev = 0 then info1 else info1\<lparr>ai_sysinfo := si\<rparr>) (co_agents cs)\<rparr>))"

definition updateAgentStatus ::
  "(nat \<Rightarrow> nat \<Rightarrow> int) \<Rightarrow> (string \<Rightarrow> poll_result) \<Rightarrow> coordinator \<Rightarrow> coordinator" where
  "updateAgentStatus ratio poll cs = foldl (\<lambda>s a. update_agent ratio poll a s) cs (co_agents cs)"

text \<open>The cached update done before a liveness check or a search for spare containers.\<close>

definition refresh ::
  "(nat \<Rightarrow> nat \<Rightarrow> int) \<Rightarrow> (string \<Rightarrow> poll_result) \<Rightarrow> int \<Rightarrow> int \<Rightarrow> coordinator \<Rightarrow> coordinator" where
  "refresh ratio poll cacheTime now cs =
     (if co_lastCheckedTime cs + cacheTime < now
      then (updateAgentStatus ratio poll cs)\<lparr>co_lastCheckedTime := now\<rparr> else cs)"

subsection \<open>Liveness of containers\<close>

definition container_alive :: "coordinator \<Rightarrow> int \<Rightarrow> bool option" where
  "container_alive cs cid = (case co_containerToAgentMap cs cid of None \<Rightarrow> None
     | Some addr \<Rightarrow> co_agentStatus cs (getAddrIP addr))"

fun liveness_loop :: "coordinator \<Rightarrow> bool \<Rightarrow> bool \<Rightarrow> int list \<Rightarrow> bool list \<Rightarrow> nat \<times> bool list" where
  "liveness_loop cs checkAll unusedOffline (cid # cids) (st # sts) =
     (let rest = liveness_loop cs checkAll unusedOffline cids sts;
          failed = (if checkAll then (fst rest + 1, False # snd rest) else (1, False # sts))
      in if cid = UNUSED_CONTAINER_ID
         then (if unusedOffline then failed else (fst rest, st # snd rest))
         else case container_alive cs cid of
                None \<Rightarrow> failed
              | Some b \<Rightarrow> (fst rest + (if b then 0 else 1), b # snd rest))"
| "liveness_loop cs checkAll unusedOffline cids sts = (0, sts)"

definition checkContainerLiveness ::
  "(nat \<Rightarrow> nat \<Rightarrow> int) \<Rightarrow> (string \<Rightarrow> poll_result) \<Rightarrow> int \<Rightarrow> int \<Rightarrow> int list \<Rightarrow> bool list \<Rightarrow> bool \<Rightarrow> bool \<Rightarrow> bool
   \<Rightarrow> coordinator \<Rightarrow> coordinator \<times> nat \<times> bool list" where
  "checkContainerLiveness ratio poll cacheTime now containerIds status updateFirst checkAll unusedOffline cs =
     (let cs1 = (if updateFirst then refresh ratio poll cacheTime now cs else cs)
      in (cs1, liveness_loop cs1 checkAll unusedOffline containerIds status))"

definition available :: "bool \<Rightarrow> nat \<Rightarrow> agent_info \<Rightarrow> nat" where
  "available skipFull k info = length (filter (\<lambda>i. \<not> (skipFull \<and>
     ai_containerUsage info ! i + 1 + 2 * k \<ge> ai_containerCapacity info ! i)) [0..<ai_numContainers info])"

fun count_available :: "bool \<Rightarrow> nat \<Rightarrow> coordinator \<Rightarrow> string list \<Rightarrow> nat option" where
  "count_available skipFull k cs [] = Some 0"
| "count_available skipFull k cs (a # as) =
     (case map_of (co_agents cs) a of
        None \<Rightarrow> None
      | Some info \<Rightarrow> map_option (\<lambda>m. available skipFull k info + m) (count_available skipFull k cs as))"

definition getNumAliveContainers ::
  "(nat \<Rightarrow> nat \<Rightarrow> int) \<Rightarrow> (string \<Rightarrow> poll_result) \<Rightarrow> bool \<Rightarrow> nat \<Rightarrow> coordinator \<Rightarrow> coordinator \<times> nat option" where
  "getNumAliveContainers ratio poll skipFull k cs =
     (let cs1 = updateAgentStatus ratio poll cs
      in (cs1, count_available skipFull k cs1 (co_aliveAgents cs1)))"

subsection \<open>Spare containers\<close>

record screening =
  sc_selected :: "int list"
  sc_skipped :: "int list"
  sc_localSelected :: nat
  sc_cidx :: nat
  sc_uit :: "(int \<times> nat) list"
  sc_startIdx :: nat

text \<open>
  The inner loop over the containers of one agent; \<open>left\<close> counts the iterations that remain.  A container
  that is too full is left without moving to the next one.  \<open>low\<close> says that the agent has low priority.
\<close>

fun screen ::
  "DistributionPolicy \<Rightarrow> agent_info \<Rightarrow> int set \<Rightarrow> nat \<Rightarrow> nat \<Rightarrow> int \<Rightarrow> bool \<Rightarrow> nat \<Rightarrow> nat \<Rightarrow> screening \<Rightarrow> screening" where
  "screen policy info used need numSpare l low numToScreen 0 s = s"
| "screen policy info used need numSpare l low numToScreen (Suc left) s =
     (let cidx = sc_cidx s; cid = ai_containerIds info ! cidx;
          go = screen policy info used need numSpare l low numToScreen left
      in if \<not> (length (sc_selected s) < numSpare \<and> int (sc_localSelected s) < l) then s
         else if cid \<in> used
         then go (s\<lparr>sc_cidx := (cidx + 1) mod numToScreen, sc_localSelected := sc_localSelected s + 1\<rparr>)
         else if ai_containerUsage info ! cidx + need > ai_containerCapacity info ! cidx then go s
         else
           let s1 = (if low then s\<lparr>sc_skipped := sc_skipped s @ [cid]\<rparr>
                     else s\<lparr>sc_selected := sc_selected s @ [cid],
                            sc_startIdx := (if policy = RR \<and> sc_localSelected s = 0 \<and> ai_numContainers info > 0
                                            then (cidx + 1) mod ai_numContainers info else sc_startIdx s)\<rparr>);
               s2 = s1\<lparr>sc_localSelected := sc_localSelected s + 1\<rparr>
           in if policy = LU
              then (case tl (sc_uit s2) of
                      [] \<Rightarrow> s2\<lparr>sc_uit := []\<rparr>
                    | (u, c) # rest \<Rightarrow> go (s2\<lparr>sc_uit := (u, c) # rest, sc_cidx := c\<rparr>))
              else go (s2\<lparr>sc_cidx := (cidx + 1) mod numToScreen\<rparr>))"

text \<open>Alive containers of the file, without repetition, and how many of them an agent holds.\<close>

definition used_containers :: "int list \<Rightarrow> bool list \<Rightarrow> int list" where
  "used_containers containerIds status = remdups (map fst (filter snd (zip containerIds status)))"

definition agentContainerCount :: "coordinator \<Rightarrow> int list \<Rightarrow> string \<Rightarrow> nat" where
  "agentContainerCount cs used ip =
     length (filter (\<lambda>c. map_option getAddrIP (co_containerToAgentMap cs c) = Some ip) used)"

definition max_per_agent :: "coding_meta \<Rightarrow> int" where
  "max_per_agent cm = (if cm_f cm > 0 then (cm_n cm - cm_k cm) sdiv cm_f cm else cm_n cm)"

definition screen_agent ::
  "DistributionPolicy \<Rightarrow> int list \<Rightarrow> nat \<Rightarrow> nat \<Rightarrow> int \<Rightarrow> bool \<Rightarrow> int list \<times> int list \<Rightarrow> agent_info \<Rightarrow> screening" where
  "screen_agent policy used need numSpare l low r info =
     (let numToScreen = (if policy = LU then length (ai_utilizationMap info) else ai_numContainers info);
          start = (if policy = LU then snd (hd (ai_utilizationMap info)) else ai_startingContainerIndex info)
      in screen policy info (set used) need numSpare l low numToScreen numToScreen
           \<lparr>sc_selected = fst r, sc_skipped = snd r, sc_localSelected = 0, sc_cidx = start,
            sc_uit = ai_utilizationMap info, sc_startIdx = ai_startingContainerIndex info\<rparr>)"

definition note_start :: "string \<Rightarrow> agent_info \<Rightarrow> screening \<Rightarrow> coordinator \<Rightarrow> coordinator" where
  "note_start a info s cs =
     cs\<lparr>co_agents := put_agent a (info\<lparr>ai_startingContainerIndex := sc_startIdx s\<rparr>) (co_agents cs)\<rparr>"

fun spare_agents ::
  "DistributionPolicy \<Rightarrow> int list \<Rightarrow> nat \<Rightarrow> nat \<Rightarrow> int \<Rightarrow> string list \<Rightarrow> nat \<Rightarrow> int list \<times> int list \<Rightarrow> coordinator
   \<Rightarrow> ((int list \<times> int list) \<times> coordinator) option" where
  "spare_agents policy used need numSpare l [] agentCount r cs = Some (r, cs)"
| "spare_agents policy used need numSpare l (a # as) agentCount r cs =
     (case map_of (co_agents cs) a of
        None \<Rightarrow> None
      | Some info \<Rightarrow>
          let cnt = agentContainerCount cs used a in
          if cnt > 0 \<and> int cnt \<ge> l \<or> policy = LU \<and> ai_utilizationMap info = []
          then spare_agents policy used need numSpare l as agentCount r cs
          else
            let low = (agentCount < co_startingAgentIdx cs \<or> policy = STATIC \<and> \<not> ai_isNear info);
                s = screen_agent policy used need numSpare l low r info;
                cs1 = note_start a info s cs
            in if length (sc_selected s) \<ge> numSpare then Some ((sc_selected s, sc_skipped s), cs1)
               else spare_agents policy used need numSpare l as (agentCount + 1) (sc_selected s, sc_skipped s) cs1)"

definition findSpareContainers ::
  "(nat \<Rightarrow> nat \<Rightarrow> int) \<Rightarrow> (string \<Rightarrow> poll_result) \<Rightarrow> int \<Rightarrow> int \<Rightarrow> DistributionPolicy \<Rightarrow> int list \<Rightarrow> bool list \<Rightarrow> int \<Rightarrow> nat
   \<Rightarrow> coding_meta \<Rightarrow> coordinator \<Rightarrow> (int list \<times> coordinator) option" where
  "findSpareContainers ratio poll cacheTime now policy containerIds status numSpare fsize cm cs =
     (if numSpare \<le> 0 then Some ([], cs)
      else
        let cs1 = refresh ratio poll cacheTime now cs;
            k = nat (cm_k cm); need = (fsize + 2 * k) div k; m = nat numSpare
        in case spare_agents policy (used_containers containerIds status) need m (max_per_agent cm)
                  (co_aliveAgents cs1) 0 ([], []) cs1 of
             None \<Rightarrow> None
           | Some ((sel, skipped), cs2) \<Rightarrow>
               Some (sel @ take (m - length sel) skipped,
                     if policy = RR \<and> co_aliveAgents cs2 \<noteq> []
                     then cs2\<lparr>co_startingAgentIdx := (co_startingAgentIdx cs2 + 1) mod length (co_aliveAgents cs2)\<rparr>
                     else cs2))"

subsection \<open>Groups of chunks\<close>

text \<open>
  \<^verbatim>\<open>chunkGroups\<close> is an array of rows of \<^verbatim>\<open>numContainers + 1\<close> numbers: the size of the group, then its chunk
  indices.
\<close>

record grouping =
  gr_array :: "int list"
  gr_agents :: "(string \<times> nat) list"
  gr_sizes :: "nat list"

definition group_step :: "coordinator \<Rightarrow> nat \<Rightarrow> int list \<Rightarrow> bool list \<Rightarrow> grouping \<Rightarrow> nat \<Rightarrow> grouping" where
  "group_step cs num containerIds status g i =
     (if \<not> status ! i then g
      else case co_containerToAgentMap cs (containerIds ! i) of
        None \<Rightarrow> g
      | Some agent \<Rightarrow>
          let ags = (if map_of (gr_agents g) agent = None then gr_agents g @ [(agent, length (gr_agents g))]
                     else gr_agents g);
              gid = the (map_of ags agent)
          in \<lparr>gr_array = (gr_array g)[gid * (num + 1) + gr_sizes g ! gid + 1 := int i], gr_agents = ags,
              gr_sizes = (gr_sizes g)[gid := gr_sizes g ! gid + 1]\<rparr>)"

definition findChunkGroups ::
  "coordinator \<Rightarrow> int list \<Rightarrow> bool list \<Rightarrow> int list \<Rightarrow> nat \<times> int list" where
  "findChunkGroups cs containerIds status chunkGroups =
     (let num = length containerIds;
          g = foldl (group_step cs num containerIds status)
                \<lparr>gr_array = chunkGroups, gr_agents = [], gr_sizes = replicate num 0\<rparr> [0..<num];
          numGroups = length (gr_agents g)
      in (numGroups, foldl (\<lambda>a i. a[i * (num + 1) := int (gr_sizes g ! i)]) (gr_array g) [0..<numGroups]))"

definition read_group :: "nat \<Rightarrow> int list \<Rightarrow> nat \<Rightarrow> nat list" where
  "read_group num a q = map (\<lambda>x. nat (a ! (q * (num + 1) + 1 + x))) [0..<nat (a ! (q * (num + 1)))]"

subsection \<open>Registration\<close>

text \<open>
  A container that an agent takes over is removed from the record of its former agent; the last container
  of the record is dropped when it is not found before the last position.
\<close>

definition shift_out :: "nat \<Rightarrow> nat \<Rightarrow> 'a list \<Rightarrow> 'a list" where
  "shift_out j num xs = take j xs @ take (num - j - 1) (drop (j + 1) xs) @ drop (num - 1) xs"

definition remove_container :: "int \<Rightarrow> agent_info \<Rightarrow> agent_info" where
  "remove_container cid info =
     (let num = ai_numContainers info;
          info1 = (case find (\<lambda>j. ai_containerIds info ! j = cid \<and> j + 1 < num) [0..<num] of
                     None \<Rightarrow> info
                   | Some j \<Rightarrow>
                       info\<lparr>ai_containerIds := shift_out j num (ai_containerIds info),
                            ai_containerUsage := shift_out j num (ai_containerUsage info),
                            ai_containerCapacity := shift_out j num (ai_containerCapacity info),
                            ai_containerType := shift_out j num (ai_containerType info)\<rparr>)
      in info1\<lparr>ai_numContainers := num - 1\<rparr>)"

definition unmap :: "int list \<Rightarrow> coordinator \<Rightarrow> coordinator" where
  "unmap cids cs = cs\<lparr>co_containerToAgentMap := (\<lambda>c. if c \<in> set cids then None else co_containerToAgentMap cs c)\<rparr>"

definition add_container :: "(nat \<Rightarrow> nat \<Rightarrow> int) \<Rightarrow> coordinator_event \<Rightarrow> nat \<Rightarrow> agent_info \<Rightarrow> agent_info" where
  "add_container ratio ev i info =
     (let m = ai_numContainers info in
      info\<lparr>ai_containerIds := (ai_containerIds info)[m := ev_containerIds ev ! i],
           ai_containerUsage := (ai_containerUsage info)[m := ev_containerUsage ev ! i],
           ai_containerCapacity := (ai_containerCapacity info)[m := ev_containerCapacity ev ! i],
           ai_containerType := (ai_containerType info)[m := ev_containerType ev ! i],
           ai_utilizationMap := multimap_insert (ratio (ev_containerUsage ev ! i) (ev_containerCapacity ev ! i), m)
              (ai_utilizationMap info),
           ai_numContainers := m + 1\<rparr>)"

datatype claim_result = Claimed coordinator | Refused coordinator | ClaimThrows

definition claim_container :: "coordinator_event \<Rightarrow> nat \<Rightarrow> coordinator \<Rightarrow> claim_result" where
  "claim_container ev i cs =
     (let cid = ev_containerIds ev ! i; addr = ev_agentAddr ev; before = take i (ev_containerIds ev) in
      case co_containerToAgentMap cs cid of
        None \<Rightarrow> Claimed (cs\<lparr>co_containerToAgentMap := (co_containerToAgentMap cs)(cid \<mapsto> addr)\<rparr>)
      | Some orig \<Rightarrow>
          let takeOver = (case map_of (co_agents cs) (getAddrIP orig) of
                None \<Rightarrow> Refused (unmap before cs)
              | Some info \<Rightarrow>
                  Claimed (cs\<lparr>co_agents := put_agent (getAddrIP orig) (remove_container cid info) (co_agents cs),
                              co_containerToAgentMap := (co_containerToAgentMap cs)(cid \<mapsto> addr)\<rparr>))
          in if orig = addr then takeOver
             else case co_agentStatus cs (getAddrIP orig) of
                    None \<Rightarrow> ClaimThrows
                  | Some True \<Rightarrow> Refused (unmap before cs)
                  | Some False \<Rightarrow> takeOver)"

fun register_loop ::
  "(nat \<Rightarrow> nat \<Rightarrow> int) \<Rightarrow> coordinator_event \<Rightarrow> nat list \<Rightarrow> agent_info \<Rightarrow> coordinator
   \<Rightarrow> (coordinator \<times> agent_info \<times> bool) option" where
  "register_loop ratio ev [] info cs = Some (cs, info, True)"
| "register_loop ratio ev (i # is) info cs =
     (case claim_container ev i cs of
        ClaimThrows \<Rightarrow> None
      | Refused cs1 \<Rightarrow> Some (cs1, info, False)
      | Claimed cs1 \<Rightarrow> register_loop ratio ev is (add_container ratio ev i info) cs1)"

definition registerAgent ::
  "(nat \<Rightarrow> nat \<Rightarrow> int) \<Rightarrow> (string \<Rightarrow> bool) \<Rightarrow> (string \<Rightarrow> bool) \<Rightarrow> coordinator_event \<Rightarrow> coordinator
   \<Rightarrow> (coordinator \<times> bool) option" where
  "registerAgent ratio connectOk near ev cs =
     (case register_loop ratio ev [0..<ev_numContainers ev] new_agent_info cs of
        None \<Rightarrow> None
      | Some (cs1, info, False) \<Rightarrow> Some (cs1, False)
      | Some (cs1, info, True) \<Rightarrow>
          let ip = getAddrIP (ev_agentAddr ev);
              cs2 = setAgentAlive ip cs1;
              info1 = info\<lparr>ai_socket := connectOk ip, ai_isNear := near ip, ai_hostType := ev_agentHostType ev\<rparr>;
              cs3 = (case map_of (co_agents cs2) ip of
                       None \<Rightarrow> cs2
                     | Some old \<Rightarrow> unmap (take (ai_numContainers old) (ai_containerIds old)) cs2)
          in Some (cs3\<lparr>co_agents := put_agent ip info1 (co_agents cs3)\<rparr>, True))"

text \<open>
  One request to the listening thread.  The check for too many containers sets a flag that the call of
  \<^verbatim>\<open>registerAgent\<close> overwrites.
\<close>

definition handle_request ::
  "(nat \<Rightarrow> nat \<Rightarrow> int) \<Rightarrow> (string \<Rightarrow> bool) \<Rightarrow> (string \<Rightarrow> bool) \<Rightarrow> coordinator_event \<Rightarrow> coordinator
   \<Rightarrow> (coordinator \<times> coordinator_event) option" where
  "handle_request ratio connectOk near ev cs =
     (if ev_opcode ev = REG_AGENT_REQ
      then map_option (\<lambda>(cs', ok). (cs', ev\<lparr>ev_opcode := (if ok then REG_AGENT_REP_SUCCESS else REG_AGENT_REP_FAIL)\<rparr>))
             (registerAgent ratio connectOk near ev cs)
      else Some (cs, ev))"

datatype preset_result = PresetUnreachable | PresetNoReply | PresetReply coordinator_event

fun registerPresetAgents ::
  "(nat \<Rightarrow> nat \<Rightarrow> int) \<Rightarrow> (string \<Rightarrow> bool) \<Rightarrow> (string \<Rightarrow> bool) \<Rightarrow> (string \<Rightarrow> preset_result) \<Rightarrow> string list \<Rightarrow> coordinator
   \<Rightarrow> coordinator option" where
  "registerPresetAgents ratio connectOk near ask [] cs = Some cs"
| "registerPresetAgents ratio connectOk near ask (ip # ips) cs =
     (case ask ip of
        PresetReply ev \<Rightarrow>
          (case registerAgent ratio connectOk near ev cs of
             None \<Rightarrow> None
           | Some (cs1, _) \<Rightarrow> registerPresetAgents ratio connectOk near ask ips cs1)
      | _ \<Rightarrow> registerPresetAgents ratio connectOk near ask ips cs)"

subsection \<open>Reports\<close>

definition getAgentStatus ::
  "(nat \<Rightarrow> nat \<Rightarrow> int) \<Rightarrow> (string \<Rightarrow> poll_result) \<Rightarrow> coordinator \<Rightarrow> coordinator \<times> (string \<times> agent_info) list" where
  "getAgentStatus ratio poll cs =
     (let cs1 = updateAgentStatus ratio poll cs in (cs1, map (\<lambda>(a, info). (getAddrIP a, info)) (co_agents cs1)))"

definition getStorageUsage ::
  "(nat \<Rightarrow> nat \<Rightarrow> int) \<Rightarrow> (string \<Rightarrow> poll_result) \<Rightarrow> nat \<Rightarrow> nat \<Rightarrow> coordinator \<Rightarrow> coordinator \<times> nat \<times> nat" where
  "getStorageUsage ratio poll k n cs =
     (let cs1 = updateAgentStatus ratio poll cs; agents = map snd (co_agents cs1);
          caps = concat (map (\<lambda>a. take (ai_numContainers a) (ai_containerCapacity a)) agents);
          uses = concat (map (\<lambda>a. take (ai_numContainers a) (ai_containerUsage a)) agents);
          numContainers = sum_list (map ai_numContainers agents);
          numAlive = sum_list (map ai_numContainers (filter ai_socket agents));
          minCapacity = foldl min (2 ^ 64 - 1) caps; maxUsage = foldl max 0 uses;
          wrap = (\<lambda>x. x mod 2 ^ 64);
          usage = (if numAlive \<le> n then wrap (maxUsage * k) else wrap (wrap (maxUsage * numContainers) div n * k));
          capacity = (if numAlive \<le> n then wrap (minCapacity * k) else wrap (wrap (minCapacity * numContainers) div n * k))
      in (cs1, usage, if numAlive < k then usage else capacity))"

end
