(* ===== verification/Coordinator_Correct.thy ===== *)
theory Coordinator_Correct
  imports Proxy_Coordinator
begin

text \<open>
  Properties of the proxy coordinator: the consistency of its maps in every reachable state, what the
  liveness check reports, which containers a search for spare ones returns, the partition of chunks into
  groups, and concrete runs in which the search or the registration goes wrong.
\<close>

subsection \<open>Addresses\<close>

lemma find_last_of_split:
  assumes "c \<notin> set t"
  shows "find_last_of c (s @ c # t) = Some (length s)"
proof -
  have "takeWhile (\<lambda>x. x \<noteq> c) (rev t @ c # rev s) = rev t"
    using assms by (subst takeWhile_append2) auto
  then show ?thesis by (simp add: find_last_of_def)
qed

lemma getAddrIP_genAddr:
  assumes "CHR ''/'' \<notin> set ip"
  shows "getAddrIP (genAddr ip port) = ip"
proof -
  let ?p = "nat_to_string port"
  have d: "c \<notin> set ?p" if "\<not> is_digit c" for c using nat_to_string_digits that by blast
  have "find_last_of (CHR ''/'') (''tcp:/'' @ CHR ''/'' # (ip @ '':'' @ ?p)) = Some (length ''tcp:/'')"
    using assms d [of "CHR ''/''"] by (intro find_last_of_split) simp
  moreover have "find_last_of (CHR '':'') ((''tcp://'' @ ip) @ CHR '':'' # ?p) = Some (length (''tcp://'' @ ip))"
    using d [of "CHR '':''"] by (intro find_last_of_split) (simp add: is_digit_def)
  ultimately show ?thesis by (simp add: getAddrIP_def genAddr_def)
qed

subsection \<open>Agent records\<close>

lemma put_agent_keys [simp]: "fst ` set (put_agent k v xs) = insert k (fst ` set xs)"
proof (cases "k \<in> fst ` set xs")
  case True
  have "map fst (map (\<lambda>(a, b). if a = k then (k, v) else (a, b)) xs) = map fst xs"
    by (induction xs) auto
  from arg_cong [OF this, of set] have "fst ` set (put_agent k v xs) = fst ` set xs"
    using True by (simp only: put_agent_def if_P set_map)
  with True show ?thesis by auto
next
  case False
  then show ?thesis by (simp add: put_agent_def set_insort_key)
qed

lemma map_of_replace:
  "map_of (map (\<lambda>(a, b). if a = k then (k, v) else (a, b)) xs) k' =
     (if k' = k \<and> k \<in> fst ` set xs then Some v else map_of xs k')"
proof (induction xs)
  case (Cons x xs)
  then show ?case by (cases x; cases "fst x = k"; cases "k' = k") auto
qed simp

lemma map_of_insort: "k \<notin> fst ` set xs \<Longrightarrow> map_of (insort_key fst (k, v) xs) k' = (if k' = k then Some v else map_of xs k')"
proof (induction xs)
  case (Cons x xs)
  then show ?case by (cases x; cases "k \<le> fst x"; cases "k' = k"; cases "k' = fst x") auto
qed simp

lemma put_agent_map_of: "map_of (put_agent k v xs) k' = (if k' = k then Some v else map_of xs k')"
proof (cases "k \<in> fst ` set xs")
  case True
  then show ?thesis by (simp only: put_agent_def if_P map_of_replace simp_thms)
next
  case False
  then show ?thesis unfolding put_agent_def by (simp only: if_False map_of_insort [OF False])
qed

subsection \<open>The invariant\<close>

definition coord_inv :: "coordinator \<Rightarrow> bool" where
  "coord_inv cs \<longleftrightarrow> set (co_aliveAgents cs) = {ip. co_agentStatus cs ip = Some True} \<and>
     set (co_aliveAgents cs) \<subseteq> fst ` set (co_agents cs) \<and>
     (\<forall>c addr. co_containerToAgentMap cs c = Some addr \<longrightarrow> co_agentStatus cs (getAddrIP addr) \<noteq> None) \<and>
     distinct (co_aliveAgents cs)"

lemma coord_inv_time [simp]: "coord_inv (cs\<lparr>co_lastCheckedTime := x\<rparr>) = coord_inv cs"
  by (simp add: coord_inv_def)

lemma coord_inv_start [simp]: "coord_inv (cs\<lparr>co_startingAgentIdx := x\<rparr>) = coord_inv cs"
  by (simp add: coord_inv_def)

lemma coord_inv_agents:
  "coord_inv cs \<Longrightarrow> fst ` set (co_agents cs) \<subseteq> fst ` set xs \<Longrightarrow> coord_inv (cs\<lparr>co_agents := xs\<rparr>)"
  unfolding coord_inv_def by (simp, metis order_trans)

lemma coord_inv_put: "coord_inv cs \<Longrightarrow> coord_inv (cs\<lparr>co_agents := put_agent k v (co_agents cs)\<rparr>)"
  by (rule coord_inv_agents) auto

lemma coord_inv_new: "coord_inv (new_coordinator (\<lambda>_. None))"
  by (simp add: coord_inv_def new_coordinator_def)

lemma coord_inv_setAgentDown: "coord_inv cs \<Longrightarrow> coord_inv (fst (setAgentDown ip cs))"
  by (auto simp: coord_inv_def setAgentDown_def Let_def split: option.splits if_splits)

lemma coord_inv_lose: "coord_inv cs \<Longrightarrow> coord_inv (lose_agent ip info cs)"
  unfolding lose_agent_def Let_def by (intro coord_inv_put coord_inv_setAgentDown)

lemma coord_inv_foldl:
  "(\<And>s x. coord_inv s \<Longrightarrow> coord_inv (f s x)) \<Longrightarrow> coord_inv cs \<Longrightarrow> coord_inv (foldl f cs xs)"
  by (induction xs arbitrary: cs) auto

lemma coord_inv_ping: "coord_inv cs \<Longrightarrow> coord_inv (pingAgents ping cs)"
  unfolding pingAgents_def by (rule coord_inv_foldl) (auto intro: coord_inv_lose)

lemma coord_inv_update: "coord_inv cs \<Longrightarrow> coord_inv (updateAgentStatus ratio poll cs)"
  unfolding updateAgentStatus_def
proof (rule coord_inv_foldl)
  fix s a
  assume "coord_inv s"
  then show "coord_inv (update_agent ratio poll a s)"
    by (cases a) (auto simp: update_agent_def Let_def intro: coord_inv_lose coord_inv_put
        split: poll_result.split sys_result.split)
qed

lemma coord_inv_refresh: "coord_inv cs \<Longrightarrow> coord_inv (refresh ratio poll cacheTime now cs)"
proof -
  assume "coord_inv cs"
  then have "coord_inv (updateAgentStatus ratio poll cs)" by (rule coord_inv_update)
  with \<open>coord_inv cs\<close> show ?thesis by (simp add: refresh_def)
qed

lemma coord_inv_note: "coord_inv cs \<Longrightarrow> coord_inv (note_start a info s cs)"
  unfolding note_start_def by (rule coord_inv_put)

lemma coord_inv_spare_agents:
  "coord_inv cs \<Longrightarrow> set as \<subseteq> fst ` set (co_agents cs) \<Longrightarrow>
   \<exists>r' cs'. spare_agents policy used need numSpare l as cnt r cs = Some (r', cs') \<and> coord_inv cs'"
proof (induction "as" arbitrary: cnt r cs)
  case (Cons a "as")
  then obtain info where info: "map_of (co_agents cs) a = Some info" by (metis list.set_intros(1) map_of_eq_None_iff not_None_eq subsetD)
  have "coord_inv (note_start a info s cs)" "set as \<subseteq> fst ` set (co_agents (note_start a info s cs))" for s
    using Cons.prems coord_inv_note by (auto simp: note_start_def)
  with Cons info show ?case by (simp add: Let_def)
qed simp

lemma coord_inv_spare:
  assumes "coord_inv cs"
  shows "\<exists>spare cs'. findSpareContainers ratio poll ct now policy cids sts numSpare fsize cm cs = Some (spare, cs') \<and> coord_inv cs'"
proof -
  let ?cs1 = "refresh ratio poll ct now cs"
  have inv: "coord_inv ?cs1" by (rule coord_inv_refresh [OF assms])
  then have "set (co_aliveAgents ?cs1) \<subseteq> fst ` set (co_agents ?cs1)" unfolding coord_inv_def by blast
  from coord_inv_spare_agents [OF inv this, of policy "used_containers cids sts"
      "(fsize + 2 * nat (cm_k cm)) div nat (cm_k cm)" "nat numSpare" "max_per_agent cm" 0 "([], [])"]
  show ?thesis using assms by (auto simp: findSpareContainers_def Let_def)
qed

subsection \<open>Registration\<close>

lemma claim_container_not_throws:
  assumes "\<And>c addr. co_containerToAgentMap cs c = Some addr \<Longrightarrow> addr \<noteq> ev_agentAddr ev \<Longrightarrow>
     co_agentStatus cs (getAddrIP addr) \<noteq> None"
  shows "claim_container ev i cs \<noteq> ClaimThrows"
  by (auto simp: claim_container_def Let_def split: option.splits bool.splits dest: assms)

lemma claim_container_cases:
  assumes "claim_container ev i cs = Claimed cs1 \<or> claim_container ev i cs = Refused cs1"
  shows "co_agentStatus cs1 = co_agentStatus cs \<and> co_aliveAgents cs1 = co_aliveAgents cs \<and>
     fst ` set (co_agents cs) \<subseteq> fst ` set (co_agents cs1)"
  using assms
  by (auto simp: claim_container_def Let_def unmap_def split: option.splits bool.splits if_splits) force+

lemma claim_container_map:
  "claim_container ev i cs = Claimed cs1 \<Longrightarrow>
   co_containerToAgentMap cs1 = (co_containerToAgentMap cs)(ev_containerIds ev ! i \<mapsto> ev_agentAddr ev)"
  "claim_container ev i cs = Refused cs1 \<Longrightarrow>
   co_containerToAgentMap cs1 = (\<lambda>c. if c \<in> set (take i (ev_containerIds ev)) then None else co_containerToAgentMap cs c)"
  by (auto simp: claim_container_def Let_def unmap_def split: option.splits bool.splits if_splits)

text \<open>In the loop, a mapping is an old one or one of a container claimed before.\<close>

definition loop_map_ok :: "coordinator_event \<Rightarrow> nat \<Rightarrow> coordinator \<Rightarrow> bool" where
  "loop_map_ok ev i cs \<longleftrightarrow> (\<forall>c addr. co_containerToAgentMap cs c = Some addr \<longrightarrow>
     co_agentStatus cs (getAddrIP addr) \<noteq> None \<or> addr = ev_agentAddr ev \<and> c \<in> set (take i (ev_containerIds ev)))"

lemma register_loop_inv:
  assumes "loop_map_ok ev i cs" and "n \<le> length (ev_containerIds ev)" and "i \<le> n"
  shows "\<exists>cs' info' ok. register_loop ratio ev [i..<n] info cs = Some (cs', info', ok) \<and>
     co_agentStatus cs' = co_agentStatus cs \<and> co_aliveAgents cs' = co_aliveAgents cs \<and>
     fst ` set (co_agents cs) \<subseteq> fst ` set (co_agents cs') \<and>
     (if ok then loop_map_ok ev n cs' else (\<forall>c addr. co_containerToAgentMap cs' c = Some addr \<longrightarrow>
        co_agentStatus cs' (getAddrIP addr) \<noteq> None))"
  using assms
proof (induction "n - i" arbitrary: i info cs)
  case 0
  then have "n = i" by simp
  with 0 show ?case by auto
next
  case (Suc d)
  then have i: "i < n" "[i..<n] = i # [Suc i..<n]" by (simp_all add: upt_rec)
  have t: "take (Suc i) (ev_containerIds ev) = take i (ev_containerIds ev) @ [ev_containerIds ev ! i]"
    using i Suc.prems(2) by (simp add: take_Suc_conv_app_nth)
  have nt: "claim_container ev i cs \<noteq> ClaimThrows"
    using Suc.prems(1) by (intro claim_container_not_throws) (auto simp: loop_map_ok_def)
  show ?case
  proof (cases "claim_container ev i cs")
    case (Claimed cs1)
    note c = claim_container_cases [OF disjI1 [OF Claimed]] claim_container_map(1) [OF Claimed]
    have "loop_map_ok ev (Suc i) cs1" using Suc.prems(1) c t by (auto simp: loop_map_ok_def split: if_splits)
    have d: "d = n - Suc i" using Suc.hyps(2) by simp
    from Suc.hyps(1) [OF d \<open>loop_map_ok ev (Suc i) cs1\<close> Suc.prems(2), of "add_container ratio ev i info"] i
    obtain cs' info' ok where r: "register_loop ratio ev [Suc i..<n] (add_container ratio ev i info) cs1 = Some (cs', info', ok)"
      "co_agentStatus cs' = co_agentStatus cs1" "co_aliveAgents cs' = co_aliveAgents cs1"
      "fst ` set (co_agents cs1) \<subseteq> fst ` set (co_agents cs')"
      "if ok then loop_map_ok ev n cs' else (\<forall>c addr. co_containerToAgentMap cs' c = Some addr \<longrightarrow>
        co_agentStatus cs' (getAddrIP addr) \<noteq> None)" by auto
    have "fst ` set (co_agents cs) \<subseteq> fst ` set (co_agents cs')" using c(1) r(4) by (meson order_trans)
    then show ?thesis
      using Claimed c(1) i r by (intro exI [of _ cs'] exI [of _ info'] exI [of _ ok]) (cases ok; simp)
  next
    case (Refused cs1)
    note c = claim_container_cases [OF disjI2 [OF Refused]] claim_container_map(2) [OF Refused]
    with Refused i Suc.prems(1) show ?thesis by (auto simp: loop_map_ok_def split: if_splits)
  next
    case ClaimThrows
    with nt show ?thesis by simp
  qed
qed

text \<open>An event names as many containers as it says, not too many, and each once.\<close>

definition event_ok :: "coordinator_event \<Rightarrow> bool" where
  "event_ok ev \<longleftrightarrow> ev_numContainers ev \<le> length (ev_containerIds ev) \<and>
     ev_numContainers ev \<le> NUM_MAX_CONTAINER_PER_AGENT \<and> distinct (ev_containerIds ev)"

lemma coord_inv_registered:
  assumes "coord_inv cs" and "co_agentStatus cs1 = co_agentStatus cs" and "co_aliveAgents cs1 = co_aliveAgents cs"
    and "fst ` set (co_agents cs) \<subseteq> fst ` set (co_agents cs1)" and "loop_map_ok ev n cs1"
    and "ip = getAddrIP (ev_agentAddr ev)"
  shows "coord_inv ((unmap gone (setAgentAlive ip cs1))\<lparr>co_agents := put_agent ip info (co_agents cs1)\<rparr>)"
proof -
  let ?s = "(unmap gone (setAgentAlive ip cs1))\<lparr>co_agents := put_agent ip info (co_agents cs1)\<rparr>"
  have st: "co_agentStatus ?s = (co_agentStatus cs)(ip \<mapsto> True)" "set (co_aliveAgents ?s) = insert ip (set (co_aliveAgents cs))"
    using assms(2,3) by (auto simp: unmap_def setAgentAlive_def set_insort_key)
  have "set (co_aliveAgents cs) \<subseteq> fst ` set (co_agents cs1)"
    using assms(1,4) unfolding coord_inv_def by blast
  then have "set (co_aliveAgents ?s) \<subseteq> fst ` set (co_agents ?s)" unfolding st by auto
  moreover have "set (co_aliveAgents ?s) = {a. co_agentStatus ?s a = Some True}"
    using assms(1) unfolding st coord_inv_def by auto
  moreover have "co_agentStatus ?s (getAddrIP addr) \<noteq> None" if "co_containerToAgentMap ?s c = Some addr" for c addr
  proof -
    have "co_containerToAgentMap cs1 c = Some addr" using that by (simp add: unmap_def setAgentAlive_def split: if_splits)
    with assms(2,5,6) show ?thesis unfolding st loop_map_ok_def by auto
  qed
  moreover have "distinct (co_aliveAgents ?s)"
    using assms(1,3) by (simp add: coord_inv_def unmap_def setAgentAlive_def distinct_insort)
  ultimately show ?thesis unfolding coord_inv_def by blast
qed

lemma unmap_Nil [simp]: "unmap [] cs = cs"
  by (simp add: unmap_def)

lemma unmap_agents [simp]: "co_agents (unmap xs cs) = co_agents cs"
  by (simp add: unmap_def)

lemma setAgentAlive_agents [simp]: "co_agents (setAgentAlive ip cs) = co_agents cs"
  "co_containerToAgentMap (setAgentAlive ip cs) = co_containerToAgentMap cs"
  by (simp_all add: setAgentAlive_def)

lemma coord_inv_register:
  assumes "coord_inv cs" and "event_ok ev"
  shows "\<exists>cs' ok. registerAgent ratio connectOk near ev cs = Some (cs', ok) \<and> coord_inv cs'"
proof -
  have "loop_map_ok ev 0 cs" using assms(1) by (auto simp: coord_inv_def loop_map_ok_def)
  from register_loop_inv [OF this assms(2) [unfolded event_ok_def, THEN conjunct1], of ratio new_agent_info]
  obtain cs1 info ok where loop: "register_loop ratio ev [0..<ev_numContainers ev] new_agent_info cs = Some (cs1, info, ok)"
    "co_agentStatus cs1 = co_agentStatus cs" "co_aliveAgents cs1 = co_aliveAgents cs"
    "fst ` set (co_agents cs) \<subseteq> fst ` set (co_agents cs1)"
    "if ok then loop_map_ok ev (ev_numContainers ev) cs1 else (\<forall>c addr. co_containerToAgentMap cs1 c = Some addr \<longrightarrow>
        co_agentStatus cs1 (getAddrIP addr) \<noteq> None)" by auto
  show ?thesis
  proof (cases ok)
    case True
    have "coord_inv ((unmap gone (setAgentAlive (getAddrIP (ev_agentAddr ev)) cs1))
        \<lparr>co_agents := put_agent (getAddrIP (ev_agentAddr ev)) info' (co_agents cs1)\<rparr>)" for gone info'
      by (rule coord_inv_registered [OF assms(1) loop(2-4)]) (use loop(5) True in auto)
    from this this [where gone = "[]"] True loop(1) show ?thesis
      by (auto simp: registerAgent_def Let_def split: option.splits)
  next
    case False
    then have "coord_inv cs1" using loop(2,3,5) assms(1) subset_trans [OF _ loop(4)] by (simp add: coord_inv_def) metis
    with False loop(1) show ?thesis by (auto simp: registerAgent_def)
  qed
qed


subsection \<open>Agent records and the container map\<close>

text \<open>
  The record of an agent lists, without repetition, containers that the map assigns to the agent; so no
  two agents have the same container.
\<close>

abbreviation held :: "agent_info \<Rightarrow> int list" where
  "held info \<equiv> take (ai_numContainers info) (ai_containerIds info)"

definition record_ok :: "(int \<Rightarrow> string option) \<Rightarrow> string \<times> agent_info \<Rightarrow> bool" where
  "record_ok m a \<longleftrightarrow> ai_numContainers (snd a) \<le> NUM_MAX_CONTAINER_PER_AGENT \<and>
     length (ai_containerIds (snd a)) = NUM_MAX_CONTAINER_PER_AGENT \<and> distinct (held (snd a)) \<and>
     (\<forall>c \<in> set (held (snd a)). map_option getAddrIP (m c) = Some (fst a))"

definition records_ok :: "coordinator \<Rightarrow> bool" where
  "records_ok cs \<longleftrightarrow> (\<forall>a \<in> set (co_agents cs). record_ok (co_containerToAgentMap cs) a)"

lemma set_put_agent: "set (put_agent k v xs) \<subseteq> insert (k, v) {a \<in> set xs. fst a \<noteq> k}"
  by (auto simp: put_agent_def set_insort_key split: if_splits)

lemma records_ok_put:
  assumes "records_ok cs" and "record_ok (co_containerToAgentMap cs) (k, v)"
  shows "records_ok (cs\<lparr>co_agents := put_agent k v (co_agents cs)\<rparr>)"
  using assms set_put_agent [of k v "co_agents cs"] by (auto simp: records_ok_def)

lemma record_ok_same:
  "record_ok m (ip, info) \<Longrightarrow> ai_numContainers info' = ai_numContainers info \<Longrightarrow>
   ai_containerIds info' = ai_containerIds info \<Longrightarrow> record_ok m (ip, info')"
  by (simp add: record_ok_def)

lemma lose_agent_records:
  "records_ok cs \<Longrightarrow> record_ok (co_containerToAgentMap cs) (ip, info) \<Longrightarrow> records_ok (lose_agent ip info cs)"
  unfolding lose_agent_def Let_def
  by (rule records_ok_put; cases "co_agentStatus cs ip")
    (auto simp: records_ok_def setAgentDown_def Let_def record_ok_def)

lemma lose_agent_map [simp]: "co_containerToAgentMap (lose_agent ip info cs) = co_containerToAgentMap cs"
  by (simp add: lose_agent_def setAgentDown_def Let_def split: option.splits)

text \<open>Folds over a snapshot of the records that leave the container map alone.\<close>

lemma records_ok_foldl:
  assumes "\<And>s a. records_ok s \<Longrightarrow> record_ok (co_containerToAgentMap s) a \<Longrightarrow>
      records_ok (f s a) \<and> co_containerToAgentMap (f s a) = co_containerToAgentMap s"
    and "records_ok cs" and "\<forall>a \<in> set xs. record_ok (co_containerToAgentMap cs) a"
  shows "records_ok (foldl f cs xs) \<and> co_containerToAgentMap (foldl f cs xs) = co_containerToAgentMap cs"
  using assms(2,3)
proof (induction xs arbitrary: cs)
  case (Cons x xs)
  from assms(1) [of cs x] Cons.prems have "records_ok (f cs x)" "co_containerToAgentMap (f cs x) = co_containerToAgentMap cs"
    by auto
  with Cons.IH [of "f cs x"] Cons.prems show ?case by simp
qed simp

lemma records_ok_ping: "records_ok cs \<Longrightarrow> records_ok (pingAgents ping cs)"
  unfolding pingAgents_def
  by (rule records_ok_foldl [THEN conjunct1])
    (auto simp: lose_agent_records records_ok_def [of cs])

lemma update_info_ids:
  "ai_containerIds (update_info ratio ev info) = ai_containerIds info \<and>
   ai_numContainers (update_info ratio ev info) = ai_numContainers info"
proof -
  have "ai_containerIds (foldl (\<lambda>x i. let x1 = update_container ev i x in
         x1\<lparr>ai_utilizationMap := multimap_insert (ratio (ev_containerUsage ev ! i) (ev_containerCapacity ev ! i), i)
              (ai_utilizationMap x1)\<rparr>) y is) = ai_containerIds y \<and>
     ai_numContainers (foldl (\<lambda>x i. let x1 = update_container ev i x in
         x1\<lparr>ai_utilizationMap := multimap_insert (ratio (ev_containerUsage ev ! i) (ev_containerCapacity ev ! i), i)
              (ai_utilizationMap x1)\<rparr>) y is) = ai_numContainers y" for y "is"
    by (induction "is" arbitrary: y) (auto simp: Let_def update_container_def split: option.splits)
  then show ?thesis by (simp add: update_info_def)
qed

lemma update_agent_records:
  assumes "records_ok s" and "record_ok (co_containerToAgentMap s) a"
  shows "records_ok (update_agent ratio poll a s) \<and>
     co_containerToAgentMap (update_agent ratio poll a s) = co_containerToAgentMap s"
proof -
  obtain ip info where a: "a = (ip, info)" by (cases a)
  have "record_ok (co_containerToAgentMap s) (ip, update_info ratio ev info)"
    "record_ok (co_containerToAgentMap s) (ip, (update_info ratio ev info)\<lparr>ai_sysinfo := si\<rparr>)" for ev si
    using assms(2) a by (auto intro!: record_ok_same [of _ ip info] simp: update_info_ids)
  with assms a show ?thesis
    by (auto simp: update_agent_def Let_def lose_agent_records records_ok_put
        split: poll_result.split sys_result.split)
qed

lemma records_ok_update: "records_ok cs \<Longrightarrow> records_ok (updateAgentStatus ratio poll cs)"
  unfolding updateAgentStatus_def
  by (rule records_ok_foldl [THEN conjunct1]) (auto simp: update_agent_records records_ok_def [of cs])

lemma records_ok_refresh: "records_ok cs \<Longrightarrow> records_ok (refresh ratio poll ct now cs)"
  using records_ok_update [of cs ratio poll] by (simp add: refresh_def records_ok_def)

lemma spare_agents_ConsE:
  assumes "spare_agents policy used need numSpare l (a # as) cnt r cs = Some (r', cs')"
  obtains (skip) info where "map_of (co_agents cs) a = Some info"
      and "spare_agents policy used need numSpare l as cnt r cs = Some (r', cs')"
  | (stop) info low s where "map_of (co_agents cs) a = Some info" and "s = screen_agent policy used need numSpare l low r info"
      and "r' = (sc_selected s, sc_skipped s)" and "cs' = note_start a info s cs"
  | (go) info low s where "map_of (co_agents cs) a = Some info" and "s = screen_agent policy used need numSpare l low r info"
      and "spare_agents policy used need numSpare l as (cnt + 1) (sc_selected s, sc_skipped s) (note_start a info s cs) = Some (r', cs')"
proof -
  obtain info where info: "map_of (co_agents cs) a = Some info" using assms by (auto split: option.splits)
  define low where "low \<longleftrightarrow> cnt < co_startingAgentIdx cs \<or> policy = STATIC \<and> \<not> ai_isNear info"
  define s where "s = screen_agent policy used need numSpare l low r info"
  show thesis
    using assms skip [OF info] stop [OF info s_def] go [OF info s_def]
    by (simp add: info Let_def low_def [symmetric] s_def [symmetric] split: if_splits)
qed

lemma records_ok_note:
  assumes "records_ok cs" and "map_of (co_agents cs) a = Some info"
  shows "records_ok (note_start a info s cs)"
proof -
  have "record_ok (co_containerToAgentMap cs) (a, info)"
    using assms(1) map_of_SomeD [OF assms(2)] by (auto simp: records_ok_def)
  then show ?thesis
    unfolding note_start_def by (intro records_ok_put assms(1)) (simp add: record_ok_def)
qed

lemma note_start_map [simp]: "co_containerToAgentMap (note_start a info s cs) = co_containerToAgentMap cs"
  by (simp add: note_start_def)

lemma records_ok_spare_agents:
  "spare_agents policy used need numSpare l as cnt r cs = Some (r', cs') \<Longrightarrow> records_ok cs \<Longrightarrow> records_ok cs'"
proof (induction "as" arbitrary: cnt r cs)
  case (Cons a "as")
  from Cons.prems(1) show ?case
    by (cases rule: spare_agents_ConsE) (auto intro: Cons.IH Cons.prems(2) records_ok_note)
qed simp

lemma records_ok_spare:
  assumes "findSpareContainers ratio poll ct now policy cids sts numSpare fsize cm cs = Some (spare, cs')" and "records_ok cs"
  shows "records_ok cs'"
proof -
  have "records_ok (s\<lparr>co_startingAgentIdx := x\<rparr>) = records_ok s" for s x by (simp add: records_ok_def)
  with assms records_ok_spare_agents [OF _ records_ok_refresh [OF assms(2)]] show ?thesis
    by (auto simp: findSpareContainers_def Let_def split: if_splits option.splits prod.splits)
qed

lemma take_shift_out:
  assumes "j < num" and "num \<le> length xs"
  shows "take (num - 1) (shift_out j num xs) = take j xs @ take (num - j - 1) (drop (j + 1) xs)"
    and "length (shift_out j num xs) = length xs"
proof -
  have len: "length (take j xs @ take (num - j - 1) (drop (j + 1) xs)) = num - 1" using assms by simp
  have "shift_out j num xs = (take j xs @ take (num - j - 1) (drop (j + 1) xs)) @ drop (num - 1) xs"
    by (simp add: shift_out_def)
  then show "take (num - 1) (shift_out j num xs) = take j xs @ take (num - j - 1) (drop (j + 1) xs)"
    and "length (shift_out j num xs) = length xs"
    using len assms by (simp_all del: append_assoc)
qed

lemma take_around:
  assumes "j < num" and "num \<le> length xs"
  shows "take num xs = take j xs @ xs ! j # take (num - j - 1) (drop (j + 1) xs)"
proof -
  have "take num xs = take j (take num xs) @ take num xs ! j # drop (Suc j) (take num xs)"
    using assms by (intro id_take_nth_drop) simp
  also have "drop (Suc j) (take num xs) = take (num - j - 1) (drop (j + 1) xs)" by (simp add: drop_take)
  finally show ?thesis using assms by (simp add: min_def)
qed

lemma remove_container_held:
  assumes "distinct (held info)" and "ai_numContainers info \<le> length (ai_containerIds info)"
  shows "set (held (remove_container cid info)) \<subseteq> set (held info) - {cid}" (is ?A)
    and "distinct (held (remove_container cid info))" (is ?B)
    and "length (ai_containerIds (remove_container cid info)) = length (ai_containerIds info)" (is ?C)
    and "ai_numContainers (remove_container cid info) \<le> ai_numContainers info" (is ?D)
proof -
  let ?n = "ai_numContainers info" and ?ids = "ai_containerIds info"
  have "?A \<and> ?B \<and> ?C \<and> ?D"
  proof (cases "find (\<lambda>j. ?ids ! j = cid \<and> j + 1 < ?n) [0..<?n]")
    case (Some j)
    then have j: "?ids ! j = cid" "j < ?n" by (auto simp: find_Some_iff)
    have h: "held (remove_container cid info) = take j ?ids @ take (?n - j - 1) (drop (j + 1) ?ids)"
      using Some take_shift_out(1) [OF j(2) assms(2)] by (simp add: remove_container_def Let_def)
    from take_around [OF j(2) assms(2)] assms(1) j(1) show ?thesis
      unfolding h using Some take_shift_out(2) [OF j(2) assms(2)] by (auto simp: remove_container_def Let_def)
  next
    case None
    have h: "held (remove_container cid info) = butlast (held info)"
      using None assms(2) by (simp add: remove_container_def Let_def butlast_take)
    have "cid \<notin> set (butlast (held info))"
    proof
      assume "cid \<in> set (butlast (held info))"
      then obtain j where "j < ?n - 1" "?ids ! j = cid"
        using assms(2) by (auto simp: in_set_conv_nth nth_butlast)
      with None show False by (auto simp: find_None_iff)
    qed
    then show ?thesis
      unfolding h using None assms(1) by (auto simp: remove_container_def Let_def distinct_butlast dest: in_set_butlastD)
  qed
  then show ?A ?B ?C ?D by blast+
qed

lemma record_ok_map:
  assumes "record_ok m a" and "\<And>c. c \<in> set (held (snd a)) \<Longrightarrow> m' c = m c"
  shows "record_ok m' a"
  using assms by (simp add: record_ok_def)

lemma record_ok_remove:
  assumes "record_ok m (ip, info)"
  shows "record_ok m (ip, remove_container cid info)"
proof -
  have d: "distinct (held info)" and l: "ai_numContainers info \<le> length (ai_containerIds info)"
    using assms by (simp_all add: record_ok_def)
  note rm = remove_container_held [OF d l, of cid]
  show ?thesis using assms rm(1) by (auto simp: record_ok_def rm(2,3) intro: order_trans [OF rm(4)])
qed

text \<open>A claim changes the state to \<open>cs1\<close>; \<open>cid\<close> is then in no record and no record has gained a container.\<close>

lemma claim_container_records:
  assumes "claim_container ev i cs = Claimed cs1" and "records_ok cs"
  shows "records_ok cs1" (is ?R) and "\<forall>a \<in> set (co_agents cs1). ev_containerIds ev ! i \<notin> set (held (snd a)) \<and>
     (\<exists>a' \<in> set (co_agents cs). set (held (snd a)) \<subseteq> set (held (snd a')))" (is ?H)
proof -
  let ?cid = "ev_containerIds ev ! i" and ?m = "co_containerToAgentMap cs"
  have map1: "co_containerToAgentMap cs1 = ?m(?cid \<mapsto> ev_agentAddr ev)" by (rule claim_container_map(1) [OF assms(1)])
  have step: "record_ok (co_containerToAgentMap cs1) a \<and> ?cid \<notin> set (held (snd a)) \<and>
     (\<exists>a' \<in> set (co_agents cs). set (held (snd a)) \<subseteq> set (held (snd a')))" if a: "a \<in> set (co_agents cs1)" for a
  proof (cases "a \<in> set (co_agents cs) \<and> map_option getAddrIP (?m ?cid) \<noteq> Some (fst a)")
    case True
    then have "record_ok ?m a" using assms(2) by (simp add: records_ok_def)
    moreover from this True have "?cid \<notin> set (held (snd a))" by (auto simp: record_ok_def)
    ultimately show ?thesis using True unfolding map1 by (auto intro: record_ok_map)
  next
    case False
    then obtain orig info where o: "?m ?cid = Some orig" "map_of (co_agents cs) (getAddrIP orig) = Some info"
      "a = (getAddrIP orig, remove_container ?cid info)"
      using assms(1) a set_put_agent
      by (fastforce simp: claim_container_def Let_def split: option.splits bool.splits if_splits)
    have i: "(getAddrIP orig, info) \<in> set (co_agents cs)" by (rule map_of_SomeD [OF o(2)])
    then have ok: "record_ok ?m (getAddrIP orig, info)" using assms(2) by (simp add: records_ok_def)
    then have held: "set (held (remove_container ?cid info)) \<subseteq> set (held info) - {?cid}"
      by (intro remove_container_held) (simp_all add: record_ok_def)
    have "record_ok (co_containerToAgentMap cs1) a"
      unfolding o(3) map1 by (rule record_ok_map [OF record_ok_remove [OF ok]]) (use held in auto)
    moreover have "\<exists>a' \<in> set (co_agents cs). set (held (snd a)) \<subseteq> set (held (snd a'))"
      by (rule bexI [OF _ i]) (use held o(3) in auto)
    ultimately show ?thesis using held o(3) by auto
  qed
  then show ?R ?H by (auto simp: records_ok_def)
qed

definition claims_ok :: "coordinator_event \<Rightarrow> nat \<Rightarrow> agent_info \<Rightarrow> coordinator \<Rightarrow> bool" where
  "claims_ok ev i info cs \<longleftrightarrow> records_ok cs \<and> ai_numContainers info = i \<and>
     length (ai_containerIds info) = NUM_MAX_CONTAINER_PER_AGENT \<and> held info = take i (ev_containerIds ev) \<and>
     (\<forall>a \<in> set (co_agents cs). set (held (snd a)) \<inter> set (take i (ev_containerIds ev)) = {}) \<and>
     (\<forall>c \<in> set (take i (ev_containerIds ev)). co_containerToAgentMap cs c = Some (ev_agentAddr ev))"

lemma claims_ok_step:
  assumes "claim_container ev i cs = Claimed cs1" and "claims_ok ev i info cs"
    and "i < length (ev_containerIds ev)" and "i < NUM_MAX_CONTAINER_PER_AGENT"
  shows "claims_ok ev (Suc i) (add_container ratio ev i info) cs1"
proof -
  note c = claim_container_records [OF assms(1)]
  have t: "take (Suc i) (ev_containerIds ev) = take i (ev_containerIds ev) @ [ev_containerIds ev ! i]"
    using assms(3) by (simp add: take_Suc_conv_app_nth)
  have "held (add_container ratio ev i info) = take (Suc i) (ev_containerIds ev)"
    using assms(2,4) by (auto simp: add_container_def Let_def claims_ok_def t take_Suc_conv_app_nth)
  moreover have "records_ok cs" using assms(2) by (simp add: claims_ok_def)
  ultimately show ?thesis
    using assms(2) c claim_container_map(1) [OF assms(1)] unfolding claims_ok_def t
    by (fastforce simp: add_container_def Let_def)
qed

lemma claims_ok_unmap:
  assumes "claims_ok ev i info cs"
  shows "records_ok (unmap (take i (ev_containerIds ev)) cs)"
proof -
  have "record_ok (co_containerToAgentMap (unmap (take i (ev_containerIds ev)) cs)) a" if "a \<in> set (co_agents cs)" for a
  proof (rule record_ok_map)
    show "record_ok (co_containerToAgentMap cs) a" using assms that by (simp add: claims_ok_def records_ok_def)
    have "set (held (snd a)) \<inter> set (take i (ev_containerIds ev)) = {}" using assms that unfolding claims_ok_def by blast
    then show "co_containerToAgentMap (unmap (take i (ev_containerIds ev)) cs) c = co_containerToAgentMap cs c"
      if "c \<in> set (held (snd a))" for c using that by (auto simp: unmap_def)
  qed
  then show ?thesis by (simp add: records_ok_def)
qed

lemma claim_container_refused:
  "claim_container ev i cs = Refused cs1 \<Longrightarrow> cs1 = unmap (take i (ev_containerIds ev)) cs"
  by (auto simp: claim_container_def Let_def split: option.splits bool.splits if_splits)

lemma register_loop_records:
  assumes "register_loop ratio ev [i..<n] info cs = Some (cs', info', ok)" and "claims_ok ev i info cs"
    and "n \<le> length (ev_containerIds ev)" and "n \<le> NUM_MAX_CONTAINER_PER_AGENT" and "i \<le> n"
  shows "records_ok cs' \<and> (ok \<longrightarrow> claims_ok ev n info' cs')"
  using assms
proof (induction "n - i" arbitrary: i info cs)
  case 0
  then show ?case by (auto simp: claims_ok_def)
next
  case (Suc d)
  then have i: "i < n" "d = n - Suc i" and u: "[i..<n] = i # [Suc i..<n]" by (simp_all add: upt_rec)
  show ?case
  proof (cases "claim_container ev i cs")
    case (Claimed cs1)
    with Suc.prems(1) have "register_loop ratio ev [Suc i..<n] (add_container ratio ev i info) cs1 = Some (cs', info', ok)"
      by (simp add: u)
    from Suc.hyps(1) [OF i(2) this claims_ok_step [OF Claimed Suc.prems(2)] Suc.prems(3,4)] Suc.prems(3,4) i show ?thesis
      by simp
  next
    case (Refused cs1)
    with Suc.prems(1) have "cs' = cs1" "\<not> ok" by (simp_all add: u)
    with claims_ok_unmap [OF Suc.prems(2)] claim_container_refused [OF Refused] show ?thesis by simp
  next
    case ClaimThrows
    with Suc.prems(1) show ?thesis by (simp add: u)
  qed
qed

lemma records_ok_replace:
  assumes "claims_ok ev n info cs" and "distinct (ev_containerIds ev)" and "n \<le> NUM_MAX_CONTAINER_PER_AGENT"
    and "ip = getAddrIP (ev_agentAddr ev)" and "\<forall>c \<in> set gone. map_option getAddrIP (co_containerToAgentMap cs c) = Some ip"
    and "set gone \<inter> set (take n (ev_containerIds ev)) = {}"
    and "ai_numContainers info1 = ai_numContainers info" and "ai_containerIds info1 = ai_containerIds info"
  shows "records_ok ((unmap gone (setAgentAlive ip cs))\<lparr>co_agents := put_agent ip info1 (co_agents cs)\<rparr>)"
proof -
  let ?m = "co_containerToAgentMap cs" and ?m' = "\<lambda>c. if c \<in> set gone then None else co_containerToAgentMap cs c"
  have h: "held info1 = take n (ev_containerIds ev)" using assms(1,7,8) by (auto simp: claims_ok_def)
  have new: "record_ok ?m (ip, info1)"
    using assms(1-4,7,8) h by (auto simp: record_ok_def claims_ok_def)
  have "record_ok ?m' a" if "a \<in> set (put_agent ip info1 (co_agents cs))" for a
  proof (cases "a = (ip, info1)")
    case True
    show ?thesis unfolding True by (rule record_ok_map [OF new]) (use assms(6) h in auto)
  next
    case False
    then have a: "a \<in> set (co_agents cs)" "fst a \<noteq> ip" using that set_put_agent by fastforce+
    then have "record_ok ?m a" using assms(1) by (simp add: claims_ok_def records_ok_def)
    then show ?thesis by (rule record_ok_map) (use \<open>record_ok ?m a\<close> a(2) assms(5) in \<open>fastforce simp: record_ok_def\<close>)
  qed
  then show ?thesis by (simp add: records_ok_def unmap_def cong: if_cong)
qed

lemma records_ok_register:
  assumes "registerAgent ratio connectOk near ev cs = Some (cs', ok)" and "records_ok cs" and "event_ok ev"
  shows "records_ok cs'"
proof -
  let ?n = "ev_numContainers ev" and ?ip = "getAddrIP (ev_agentAddr ev)"
  obtain cs1 info ok1 where loop: "register_loop ratio ev [0..<?n] new_agent_info cs = Some (cs1, info, ok1)"
    using assms(1) by (auto simp: registerAgent_def split: option.splits)
  have "claims_ok ev 0 new_agent_info cs"
    using assms(2) by (simp add: claims_ok_def new_agent_info_def NUM_MAX_CONTAINER_PER_AGENT_def Let_def)
  from register_loop_records [OF loop this] assms(3) have r: "records_ok cs1" "ok1 \<longrightarrow> claims_ok ev ?n info cs1"
    by (simp_all add: event_ok_def)
  show ?thesis
  proof (cases ok1)
    case False
    with loop assms(1) r show ?thesis by (simp add: registerAgent_def)
  next
    case True
    with r have cl: "claims_ok ev ?n info cs1" by simp
    have ev: "distinct (ev_containerIds ev)" "?n \<le> NUM_MAX_CONTAINER_PER_AGENT" using assms(3) by (simp_all add: event_ok_def)
    let ?info = "info\<lparr>ai_socket := connectOk ?ip, ai_isNear := near ?ip, ai_hostType := ev_agentHostType ev\<rparr>"
    have rep: "records_ok ((unmap gone (setAgentAlive ?ip cs1))\<lparr>co_agents := put_agent ?ip ?info (co_agents cs1)\<rparr>)"
      if "\<forall>c \<in> set gone. map_option getAddrIP (co_containerToAgentMap cs1 c) = Some ?ip"
        "set gone \<inter> set (take ?n (ev_containerIds ev)) = {}" for gone
      by (rule records_ok_replace [OF cl ev refl that]) simp_all
    show ?thesis
    proof (cases "map_of (co_agents cs1) ?ip")
      case None
      with rep [of "[]"] loop True assms(1) show ?thesis by (simp add: registerAgent_def Let_def)
    next
      case (Some old)
      have "(?ip, old) \<in> set (co_agents cs1)" by (rule map_of_SomeD [OF Some])
      then have "\<forall>c \<in> set (held old). map_option getAddrIP (co_containerToAgentMap cs1 c) = Some ?ip"
        "set (held old) \<inter> set (take ?n (ev_containerIds ev)) = {}"
        using cl by (fastforce simp: claims_ok_def records_ok_def record_ok_def)+
      from rep [OF this] Some loop True assms(1) show ?thesis by (simp add: registerAgent_def Let_def)
    qed
  qed
qed

lemma register_preset_ok:
  assumes "\<forall>ip ev. ask ip = PresetReply ev \<longrightarrow> event_ok ev" and "coord_inv cs \<and> records_ok cs"
  shows "\<exists>cs'. registerPresetAgents ratio connectOk near ask ips cs = Some cs' \<and> coord_inv cs' \<and> records_ok cs'"
  using assms(2)
proof (induction ips arbitrary: cs)
  case (Cons ip ips)
  show ?case
  proof (cases "ask ip")
    case (PresetReply ev)
    then have "event_ok ev" using assms(1) by blast
    from coord_inv_register [OF conjunct1 [OF Cons.prems] this, of ratio connectOk near]
    obtain cs1 ok where r: "registerAgent ratio connectOk near ev cs = Some (cs1, ok)" "coord_inv cs1" by blast
    with records_ok_register [OF r(1) conjunct2 [OF Cons.prems] \<open>event_ok ev\<close>] Cons.IH [of cs1] PresetReply
    show ?thesis by simp
  qed (use Cons in simp_all)
qed simp

subsection \<open>Reachable states\<close>

inductive coord_reachable :: "(nat \<Rightarrow> nat \<Rightarrow> int) \<Rightarrow> coordinator \<Rightarrow> bool" for ratio where
  start: "coord_reachable ratio (new_coordinator (\<lambda>_. None))"
| preset: "coord_reachable ratio cs \<Longrightarrow> \<forall>ip ev. ask ip = PresetReply ev \<longrightarrow> event_ok ev \<Longrightarrow>
    registerPresetAgents ratio connectOk near ask ips cs = Some cs' \<Longrightarrow> coord_reachable ratio cs'"
| request: "coord_reachable ratio cs \<Longrightarrow> event_ok ev \<Longrightarrow> handle_request ratio connectOk near ev cs = Some (cs', rep) \<Longrightarrow>
    coord_reachable ratio cs'"
| ping: "coord_reachable ratio cs \<Longrightarrow> coord_reachable ratio (pingAgents answers cs)"
| liveness: "coord_reachable ratio cs \<Longrightarrow>
    coord_reachable ratio (fst (checkContainerLiveness ratio poll ct now cids sts upd checkAll off cs))"
| alive_containers: "coord_reachable ratio cs \<Longrightarrow> coord_reachable ratio (fst (getNumAliveContainers ratio poll skipFull k cs))"
| spare: "coord_reachable ratio cs \<Longrightarrow>
    findSpareContainers ratio poll ct now policy cids sts numSpare fsize cm cs = Some (spare, cs') \<Longrightarrow> coord_reachable ratio cs'"
| status: "coord_reachable ratio cs \<Longrightarrow> coord_reachable ratio (fst (getAgentStatus ratio poll cs))"
| usage: "coord_reachable ratio cs \<Longrightarrow> coord_reachable ratio (fst (getStorageUsage ratio poll k n cs))"

lemma count_available_Some:
  "set as \<subseteq> fst ` set (co_agents cs) \<Longrightarrow> \<exists>m. count_available skipFull k cs as = Some m"
proof (induction "as")
  case (Cons a "as")
  then obtain info where "map_of (co_agents cs) a = Some info"
    by (metis list.set_intros(1) map_of_eq_None_iff not_None_eq subsetD)
  with Cons show ?case by auto
qed simp

lemma handle_request_ok:
  assumes "coord_inv cs" and "records_ok cs" and "event_ok ev"
  shows "\<exists>cs' rep. handle_request ratio connectOk near ev cs = Some (cs', rep) \<and> coord_inv cs' \<and> records_ok cs'"
proof -
  obtain cs1 ok where r: "registerAgent ratio connectOk near ev cs = Some (cs1, ok)" "coord_inv cs1"
    using coord_inv_register [OF assms(1,3)] by blast
  with records_ok_register [OF r(1) assms(2,3)] assms show ?thesis by (auto simp: handle_request_def)
qed

lemma coord_reachable_ok: "coord_reachable ratio cs \<Longrightarrow> coord_inv cs \<and> records_ok cs"
proof (induction rule: coord_reachable.induct)
  case start
  then show ?case using coord_inv_new by (simp add: records_ok_def new_coordinator_def)
next
  case (preset cs ask connectOk near ips cs')
  then show ?case using register_preset_ok [of ask cs ratio connectOk near ips] by auto
next
  case (request cs ev connectOk near cs' rep)
  then show ?case using handle_request_ok [of cs ev ratio connectOk near] by auto
next
  case (ping cs answers)
  then show ?case by (simp add: coord_inv_ping records_ok_ping)
next
  case (liveness cs poll ct now cids sts upd checkAll off)
  then show ?case by (simp add: checkContainerLiveness_def Let_def coord_inv_refresh records_ok_refresh)
next
  case (alive_containers cs poll skipFull k)
  then show ?case by (simp add: getNumAliveContainers_def Let_def coord_inv_update records_ok_update)
next
  case (spare cs poll ct now policy cids sts numSpare fsize cm spare cs')
  then show ?case
    using coord_inv_spare [of cs ratio poll ct now policy cids sts numSpare fsize cm] records_ok_spare [OF spare(2)] by auto
next
  case (status cs poll)
  then show ?case by (simp add: getAgentStatus_def Let_def coord_inv_update records_ok_update)
next
  case (usage cs poll k n)
  then show ?case by (simp add: getStorageUsage_def Let_def coord_inv_update records_ok_update)
qed

text \<open>An example: one agent registers three containers of capacity 1000.\<close>

definition example_event :: "string \<Rightarrow> nat list \<Rightarrow> int list \<Rightarrow> coordinator_event" where
  "example_event ip us cids = new_event\<lparr>ev_opcode := REG_AGENT_REQ, ev_agentAddr := genAddr ip 57001,
     ev_numContainers := length cids, ev_containerIds := cids, ev_containerUsage := us,
     ev_containerCapacity := replicate (length cids) 1000, ev_containerType := replicate (length cids) 0\<rparr>"

definition example_coord :: "nat list \<Rightarrow> int list \<Rightarrow> coordinator" where
  "example_coord us cids = fst (the (handle_request (\<lambda>u c. 0) (\<lambda>_. True) (\<lambda>_. True) (example_event ''10.0.0.1'' us cids)
     (new_coordinator (\<lambda>_. None))))"

lemma example_reachable:
  assumes "distinct cids" and "length cids \<le> 16"
  shows "coord_reachable (\<lambda>u c. 0) (example_coord us cids)"
proof -
  let ?cs = "new_coordinator (\<lambda>_. None)" and ?ev = "example_event ''10.0.0.1'' us cids"
  have ok: "event_ok ?ev"
    using assms by (simp add: event_ok_def example_event_def NUM_MAX_CONTAINER_PER_AGENT_def)
  from handle_request_ok [OF coord_inv_new _ ok, of "\<lambda>u c. 0" "\<lambda>_. True" "\<lambda>_. True"]
  obtain cs' rep where r: "handle_request (\<lambda>u c. 0) (\<lambda>_. True) (\<lambda>_. True) ?ev ?cs = Some (cs', rep)"
    by (auto simp: records_ok_def new_coordinator_def)
  from coord_reachable.request [OF coord_reachable.start ok r] r show ?thesis by (simp add: example_coord_def)
qed

definition example_info :: "nat list \<Rightarrow> agent_info" where
  "example_info us = new_agent_info\<lparr>ai_socket := True, ai_isNear := True, ai_numContainers := 3,
     ai_containerIds := [1, 2, 3] @ replicate 13 0, ai_containerUsage := us @ replicate 13 0,
     ai_containerCapacity := [1000, 1000, 1000] @ replicate 13 0,
     ai_utilizationMap := [(0, 0), (0, 1), (0, 2)]\<rparr>"

lemma example_state:
  "example_coord [a, b, c] [1, 2, 3] = \<lparr>co_containerToAgentMap = [1 \<mapsto> genAddr ''10.0.0.1'' 57001, 2 \<mapsto> genAddr ''10.0.0.1'' 57001,
       3 \<mapsto> genAddr ''10.0.0.1'' 57001],
     co_agentStatus = [''10.0.0.1'' \<mapsto> True], co_agents = [(''10.0.0.1'', example_info [a, b, c])], co_aliveAgents = [''10.0.0.1''],
     co_startingAgentIdx = 0, co_lastCheckedTime = 0\<rparr>"
proof -
  have ip: "getAddrIP (genAddr ''10.0.0.1'' 57001) = ''10.0.0.1''" by (rule getAddrIP_genAddr) simp
  have u: "[0..<3] = [0, Suc 0, Suc (Suc 0)]" by (simp add: numeral_3_eq_3)
  have r: "replicate 3 x = [x, x, x]" "replicate 15 x = x # x # replicate 13 x" "replicate 16 x = x # x # x # replicate 13 x"
    for x :: 'a by (simp_all add: numeral_eq_Suc)
  show ?thesis
    by (simp add: example_coord_def handle_request_def registerAgent_def example_event_def new_event_def u ip
        claim_container_def new_coordinator_def add_container_def new_agent_info_def NUM_MAX_CONTAINER_PER_AGENT_def
        setAgentAlive_def example_info_def put_agent_def Let_def fun_upd_twist r numeral_3_eq_3 [symmetric])
qed



text \<open>
  A container cannot be claimed when it belongs to another agent that is alive, or when the agent to take
  it from has no record.
\<close>

definition conflict :: "coordinator \<Rightarrow> coordinator_event \<Rightarrow> nat \<Rightarrow> bool" where
  "conflict cs ev i \<longleftrightarrow> (case co_containerToAgentMap cs (ev_containerIds ev ! i) of
       None \<Rightarrow> False
     | Some orig \<Rightarrow> if orig \<noteq> ev_agentAddr ev \<and> co_agentStatus cs (getAddrIP orig) = Some True then True
         else map_of (co_agents cs) (getAddrIP orig) = None)"

lemma claim_container_conflict:
  "claim_container ev i cs = Refused cs1 \<Longrightarrow> conflict cs ev i"
  "claim_container ev i cs = Claimed cs1 \<Longrightarrow> \<not> conflict cs ev i"
  by (auto simp: claim_container_def conflict_def Let_def split: option.splits bool.splits if_splits)

lemma claim_container_later:
  assumes "claim_container ev i cs = Claimed cs1" and "c \<noteq> ev_containerIds ev ! i"
  shows "co_containerToAgentMap cs1 c = co_containerToAgentMap cs c" "co_agentStatus cs1 = co_agentStatus cs"
    "map_of (co_agents cs1) a = None \<longleftrightarrow> map_of (co_agents cs) a = None"
  using assms
  by (auto simp: claim_container_def Let_def put_agent_map_of split: option.splits bool.splits if_splits)

lemma conflict_later:
  assumes "claim_container ev i cs = Claimed cs1" and "ev_containerIds ev ! l \<noteq> ev_containerIds ev ! i"
  shows "conflict cs1 ev l = conflict cs ev l"
  using claim_container_later [OF assms] by (simp add: conflict_def split: option.splits)

lemma register_loop_outcome:
  assumes "register_loop ratio ev [i..<n] info cs = Some (cs', info', ok)" and "distinct (ev_containerIds ev)"
    and "n \<le> length (ev_containerIds ev)"
  shows "if ok then \<forall>j. i \<le> j \<and> j < n \<longrightarrow> \<not> conflict cs ev j
     else \<exists>j. i \<le> j \<and> j < n \<and> conflict cs ev j \<and> (\<forall>l. i \<le> l \<and> l < j \<longrightarrow> \<not> conflict cs ev l) \<and>
        (\<forall>c. co_containerToAgentMap cs' c =
           (if c \<in> set (take j (ev_containerIds ev)) then None else co_containerToAgentMap cs c))"
  using assms
proof (induction "n - i" arbitrary: i info cs)
  case (Suc d)
  let ?ids = "ev_containerIds ev"
  from Suc have i: "i < n" "d = n - Suc i" and u: "[i..<n] = i # [Suc i..<n]" by (simp_all add: upt_rec)
  show ?case
  proof (cases "claim_container ev i cs")
    case (Claimed cs1)
    with Suc.prems(1) have "register_loop ratio ev [Suc i..<n] (add_container ratio ev i info) cs1 = Some (cs', info', ok)"
      by (simp add: u)
    note IH = Suc.hyps(1) [OF i(2) this Suc.prems(2,3)]
    have later: "conflict cs1 ev l = conflict cs ev l" if "i < l" "l < n" for l
      using conflict_later [OF Claimed] that Suc.prems(2,3) by (simp add: nth_eq_iff_index_eq)
    have split_i: "i \<le> l \<longleftrightarrow> l = i \<or> Suc i \<le> l" for l by auto
    note no = claim_container_conflict(2) [OF Claimed]
    show ?thesis
    proof (cases ok)
      case True
      with IH later no show ?thesis unfolding split_i by (auto simp: Suc_le_eq)
    next
      case False
      with IH obtain j where j: "Suc i \<le> j" "j < n" "conflict cs1 ev j" "\<forall>l. Suc i \<le> l \<and> l < j \<longrightarrow> \<not> conflict cs1 ev l"
          "\<forall>c. co_containerToAgentMap cs' c = (if c \<in> set (take j ?ids) then None else co_containerToAgentMap cs1 c)"
        by auto
      have "?ids ! i \<in> set (take j ?ids)" using j(1,2) Suc.prems(3) by (auto simp: in_set_conv_nth intro!: exI [of _ i])
      then have "co_containerToAgentMap cs' c = (if c \<in> set (take j ?ids) then None else co_containerToAgentMap cs c)" for c
        using j(5) claim_container_later(1) [OF Claimed, of c] by auto
      moreover have "\<forall>l. i \<le> l \<and> l < j \<longrightarrow> \<not> conflict cs ev l" using j(2,4) later no unfolding split_i by auto
      ultimately show ?thesis using j(1-3) later [of j] False by (auto intro!: exI [of _ j])
    qed
  next
    case (Refused cs1)
    with Suc.prems(1) have r: "cs' = cs1" "\<not> ok" by (auto simp: u)
    with claim_container_refused [OF Refused] claim_container_conflict(1) [OF Refused] i(1) show ?thesis
      by (auto simp: unmap_def intro!: exI [of _ i])
  next
    case ClaimThrows
    with Suc.prems show ?thesis by (simp add: u)
  qed
qed auto

text \<open>
  What a registration does.  It is refused exactly when some container of the event belongs to another
  agent that is alive, or to an agent without a record.  When it succeeds, the agent is alive, its record lists
  exactly the containers of the event in order, and every one of them is mapped to the address of the agent.
  When it is refused, the containers before the first conflict end up unmapped, whether or not they were
  mapped before the request, and all others keep their agent.
\<close>

theorem register_outcome:
  assumes "coord_reachable ratio cs" and "event_ok ev"
    and "registerAgent ratio connectOk near ev cs = Some (cs', ok)" and "ids = take (ev_numContainers ev) (ev_containerIds ev)"
  shows "if ok
     then (let ip = getAddrIP (ev_agentAddr ev) in ip \<in> set (co_aliveAgents cs') \<and>
        map_option held (map_of (co_agents cs') ip) = Some ids \<and>
        (\<forall>c \<in> set ids. co_containerToAgentMap cs' c = Some (ev_agentAddr ev)) \<and>
        (\<forall>j < ev_numContainers ev. \<not> conflict cs ev j))
     else (\<exists>j < ev_numContainers ev. conflict cs ev j \<and> (\<forall>l < j. \<not> conflict cs ev l) \<and>
        (\<forall>c. co_containerToAgentMap cs' c =
           (if c \<in> set (take j (ev_containerIds ev)) then None else co_containerToAgentMap cs c)))"
proof -
  let ?n = "ev_numContainers ev" and ?ip = "getAddrIP (ev_agentAddr ev)"
  have rec: "records_ok cs" using coord_reachable_ok [OF assms(1)] by simp
  obtain cs1 info ok1 where loop: "register_loop ratio ev [0..<?n] new_agent_info cs = Some (cs1, info, ok1)"
    using assms(3) by (auto simp: registerAgent_def split: option.splits)
  show ?thesis
  proof (cases ok1)
    case False
    then have "ok = False" "cs' = cs1" using loop assms(3) by (simp_all add: registerAgent_def)
    then show ?thesis using register_loop_outcome [OF loop] assms(2) False by (auto simp: event_ok_def)
  next
    case True
    have "claims_ok ev 0 new_agent_info cs"
      using rec by (simp add: claims_ok_def new_agent_info_def NUM_MAX_CONTAINER_PER_AGENT_def Let_def)
    from register_loop_records [OF loop this] True assms(2) have cl: "claims_ok ev ?n info cs1" by (simp add: event_ok_def)
    then have h: "ai_numContainers info = ?n" "take ?n (ai_containerIds info) = ids"
      and m: "\<forall>c \<in> set ids. co_containerToAgentMap cs1 c = Some (ev_agentAddr ev)"
      and d: "\<forall>a \<in> set (co_agents cs1). set (held (snd a)) \<inter> set ids = {}" using assms(4) by (auto simp: claims_ok_def)
    have free: "\<forall>j < ?n. \<not> conflict cs ev j" using register_loop_outcome [OF loop] assms(2) True by (auto simp: event_ok_def)
    have alive: "?ip \<in> set (co_aliveAgents (setAgentAlive ?ip cs1))" by (simp add: setAgentAlive_def set_insort_key)
    show ?thesis
    proof (cases "map_of (co_agents cs1) ?ip")
      case None
      with loop True assms(3) h m alive free show ?thesis
        by (auto simp: registerAgent_def Let_def put_agent_map_of)
    next
      case (Some old)
      with d map_of_SomeD [OF Some] have "set (held old) \<inter> set ids = {}" by fastforce
      with Some loop True assms(3) h m alive free show ?thesis
        by (auto simp: registerAgent_def Let_def put_agent_map_of unmap_def)
    qed
  qed
qed

theorem register_outcome_witness:
  "\<exists>cs'. registerAgent (\<lambda>u c. 0) (\<lambda>_. True) (\<lambda>_. True) (example_event ''10.0.0.2'' [0, 0] [7, 3]) (example_coord [0, 0, 0] [1, 2, 3]) =
      Some (cs', False) \<and> co_containerToAgentMap cs' 7 = None \<and> co_containerToAgentMap cs' 3 = Some (genAddr ''10.0.0.1'' 57001)"
proof -
  let ?ev = "example_event ''10.0.0.2'' [0, 0] [7, 3]" and ?cs = "example_coord [0, 0, 0] [1, 2, 3]"
  have reach: "coord_reachable (\<lambda>u c. 0) ?cs" by (rule example_reachable) simp_all
  have ev: "event_ok ?ev" by (simp add: event_ok_def example_event_def NUM_MAX_CONTAINER_PER_AGENT_def)
  have ne: "genAddr ''10.0.0.1'' 57001 \<noteq> genAddr ''10.0.0.2'' 57001" by (simp add: genAddr_def)
  have "[0..<2] = [0, Suc 0]" by (simp add: numeral_2_eq_2)
  then obtain cs' where r: "registerAgent (\<lambda>u c. 0) (\<lambda>_. True) (\<lambda>_. True) ?ev ?cs = Some (cs', False)"
    using ne by (simp add: registerAgent_def example_event_def new_event_def claim_container_def example_state
        getAddrIP_genAddr Let_def)
  have c: "conflict ?cs ?ev 0 = False"
    by (simp add: conflict_def example_event_def example_state)
  from register_outcome [OF reach ev r refl] obtain j where j: "j < 2" "conflict ?cs ?ev j"
      "\<forall>c. co_containerToAgentMap cs' c = (if c \<in> set (take j [7, 3]) then None else co_containerToAgentMap ?cs c)"
    by (auto simp: example_event_def numeral_2_eq_2)
  then have "j = 1" using c by (cases j) auto
  with j(3) r show ?thesis by (auto simp: example_state)
qed

end
