(* ===== verification/Coordinator_Groups.thy ===== *)
theory Coordinator_Groups
  imports Coordinator_Correct
begin

text \<open>
  What the queries of the proxy coordinator return: the status of containers, the partition of chunks into
  groups, and the containers chosen as spare ones.
\<close>

subsection \<open>Status of containers\<close>

text \<open>
  The liveness check is exact.  When all containers are checked, a container is reported alive exactly
  when the map assigns it to an agent with status alive, entries of unused containers keep their status
  unless they count as offline, and the number returned is the number of failed containers.
\<close>

theorem liveness_check_exact:
  assumes "length cids = length sts"
  shows "liveness_loop cs True unusedOffline cids sts =
    (length (filter (\<lambda>c. if c = UNUSED_CONTAINER_ID then unusedOffline else container_alive cs c \<noteq> Some True) cids),
     map2 (\<lambda>c st. if c = UNUSED_CONTAINER_ID then st \<and> \<not> unusedOffline else container_alive cs c = Some True) cids sts)"
  using assms
  by (induction cids sts rule: list_induct2) (auto simp: Let_def split: option.splits)

theorem liveness_check_exact_witness:
  "liveness_loop (example_coord [0, 0, 0] [1, 2, 3]) True True [2, 7, UNUSED_CONTAINER_ID] [False, True, True] = (2, [True, False, False])"
proof -
  have "container_alive (example_coord [0, 0, 0] [1, 2, 3]) 2 = Some True" "container_alive (example_coord [0, 0, 0] [1, 2, 3]) 7 = None"
    by (simp_all add: container_alive_def example_state getAddrIP_genAddr)
  then show ?thesis
    using liveness_check_exact [of "[2, 7, UNUSED_CONTAINER_ID]" "[False, True, True]" "example_coord [0, 0, 0] [1, 2, 3]" True]
    by (simp add: UNUSED_CONTAINER_ID_def)
qed

subsection \<open>Groups of chunks\<close>

text \<open>The agent of a chunk that is alive, and the chunks before \<open>i\<close> of an agent.\<close>

definition chunk_agent :: "coordinator \<Rightarrow> int list \<Rightarrow> bool list \<Rightarrow> nat \<Rightarrow> string option" where
  "chunk_agent cs cids sts x = (if sts ! x then co_containerToAgentMap cs (cids ! x) else None)"

lemma chunk_agent_Some:
  "chunk_agent cs cids sts x = Some a \<longleftrightarrow> sts ! x \<and> co_containerToAgentMap cs (cids ! x) = Some a"
  by (simp add: chunk_agent_def)

abbreviation chunks_of :: "coordinator \<Rightarrow> int list \<Rightarrow> bool list \<Rightarrow> nat \<Rightarrow> string \<Rightarrow> nat list" where
  "chunks_of cs cids sts i a \<equiv> filter (\<lambda>x. chunk_agent cs cids sts x = Some a) [0..<i]"

definition groups_ok :: "coordinator \<Rightarrow> int list \<Rightarrow> bool list \<Rightarrow> nat \<Rightarrow> nat \<Rightarrow> string list \<Rightarrow> grouping \<Rightarrow> bool" where
  "groups_ok cs cids sts num i ags g \<longleftrightarrow> gr_agents g = zip ags [0..<length ags] \<and> distinct ags \<and> length ags \<le> num \<and>
     length (gr_sizes g) = num \<and> length (gr_array g) = num * (num + 1) \<and>
     (\<forall>q < num. gr_sizes g ! q = (if q < length ags then length (chunks_of cs cids sts i (ags ! q)) else 0)) \<and>
     (\<forall>q < length ags. \<forall>x < length (chunks_of cs cids sts i (ags ! q)).
        gr_array g ! (q * (num + 1) + x + 1) = int (chunks_of cs cids sts i (ags ! q) ! x))"

lemma chunks_of_length: "length (chunks_of cs cids sts i a) \<le> i"
  using length_filter_le [of "\<lambda>x. chunk_agent cs cids sts x = Some a" "[0..<i]"] by simp

lemma map_of_zip_upt:
  "distinct ags \<Longrightarrow> q < length ags \<Longrightarrow> map_of (zip ags [0..<length ags]) (ags ! q) = Some q"
  by (subst map_of_zip_nth) simp_all

lemma row_index:
  assumes "q * (n + 1) + x + 1 = q' * (n + 1) + x' + 1" and "x < (n :: nat)" and "x' < n"
  shows "q = q' \<and> x = x'"
proof -
  have "(x + q * (n + 1)) div (n + 1) = q" "(x' + q' * (n + 1)) div (n + 1) = q'"
    using assms(2,3) div_mult_self1 [of "n + 1" x q] div_mult_self1 [of "n + 1" x' q'] by simp_all
  moreover have "x + q * (n + 1) = x' + q' * (n + 1)" using assms(1) by simp
  ultimately have "q = q'" by metis
  with assms(1) show ?thesis by simp
qed

lemma row_bound:
  assumes "q < n" and "x < (n :: nat)"
  shows "q * (n + 1) + x + 1 < n * (n + 1)"
proof -
  have "q * (n + 1) + x + 1 < (q + 1) * (n + 1)" using assms(2) by simp
  also have "\<dots> \<le> n * (n + 1)" using assms(1) by (intro mult_right_mono) simp_all
  finally show ?thesis .
qed

lemma groups_ok_extend:
  assumes "groups_ok cs cids sts num i ags g" and "a \<notin> set ags" and "length ags < num" and "chunks_of cs cids sts i a = []"
  shows "groups_ok cs cids sts num i (ags @ [a]) (g\<lparr>gr_agents := gr_agents g @ [(a, length (gr_agents g))]\<rparr>)"
  using assms by (auto simp: groups_ok_def nth_append less_Suc_eq)

lemma groups_ok_add:
  assumes "groups_ok cs cids sts num i ags g" and "q < length ags" and "chunk_agent cs cids sts i = Some (ags ! q)" and "i < num"
  shows "groups_ok cs cids sts num (Suc i) ags
     (g\<lparr>gr_array := (gr_array g)[q * (num + 1) + gr_sizes g ! q + 1 := int i],
        gr_sizes := (gr_sizes g)[q := gr_sizes g ! q + 1]\<rparr>)" (is "groups_ok _ _ _ _ _ _ ?g")
proof -
  let ?c = "chunks_of cs cids sts"
  have q: "q < num" using assms(1,2) by (simp add: groups_ok_def)
  have dist: "distinct ags" using assms(1) by (simp add: groups_ok_def)
  have suc: "?c (Suc i) (ags ! r) = (if r = q then ?c i (ags ! r) @ [i] else ?c i (ags ! r))" if "r < length ags" for r
    using assms(2,3) dist that by (auto simp: nth_eq_iff_index_eq)
  have size: "gr_sizes g ! r = length (?c i (ags ! r))" if "r < length ags" for r
    using assms(1) that by (simp add: groups_ok_def)
  have arr: "gr_array ?g ! (r * (num + 1) + x + 1) = int (?c (Suc i) (ags ! r) ! x)"
    if r: "r < length ags" and x: "x < length (?c (Suc i) (ags ! r))" for r x
  proof (cases "r = q \<and> x = length (?c i (ags ! q))")
    case True
    have "length (?c i (ags ! q)) < num" using chunks_of_length [of cs cids sts "ags ! q" i] assms(4) by linarith
    with row_bound [OF q this] True assms(1) size [OF assms(2)] suc [OF r] show ?thesis by (simp add: groups_ok_def)
  next
    case False
    then have old: "x < length (?c i (ags ! r))" using x suc [OF r] by (auto split: if_splits)
    have "x < num" "length (?c i (ags ! q)) < num"
      using old chunks_of_length [of cs cids sts "ags ! r" i] chunks_of_length [of cs cids sts "ags ! q" i] assms(4) by linarith+
    then have "r * (num + 1) + x + 1 \<noteq> q * (num + 1) + gr_sizes g ! q + 1"
      using row_index [of r num x q "gr_sizes g ! q"] False size [OF assms(2)] by auto
    moreover have "gr_array g ! (r * (num + 1) + x + 1) = int (?c i (ags ! r) ! x)"
      using assms(1) r old unfolding groups_ok_def by blast
    moreover have "?c (Suc i) (ags ! r) ! x = ?c i (ags ! r) ! x" unfolding suc [OF r] using old by (auto simp: nth_append)
    ultimately show ?thesis by (simp del: add_Suc_right upt_Suc)
  qed
  have "gr_sizes ?g ! r = (if r < length ags then length (?c (Suc i) (ags ! r)) else 0)" if "r < num" for r
    using that assms(1,2) suc [of r] by (auto simp: groups_ok_def nth_list_update)
  with arr assms(1) show ?thesis by (auto simp: groups_ok_def)
qed

abbreviation agents_before :: "coordinator \<Rightarrow> int list \<Rightarrow> bool list \<Rightarrow> nat \<Rightarrow> string set" where
  "agents_before cs cids sts i \<equiv> {a. \<exists>x < i. chunk_agent cs cids sts x = Some a}"

lemma agents_before_Suc:
  "agents_before cs cids sts (Suc i) = (case chunk_agent cs cids sts i of None \<Rightarrow> agents_before cs cids sts i
     | Some a \<Rightarrow> insert a (agents_before cs cids sts i))"
  by (auto simp: less_Suc_eq split: option.splits)

lemma group_step_ok:
  assumes ok: "groups_ok cs cids sts num i ags g" and ags: "set ags = agents_before cs cids sts i" "length ags \<le> i" and i: "i < num"
  shows "\<exists>ags'. groups_ok cs cids sts num (Suc i) ags' (group_step cs num cids sts g i) \<and>
     set ags' = agents_before cs cids sts (Suc i) \<and> length ags' \<le> Suc i"
proof (cases "chunk_agent cs cids sts i")
  case None
  then have "group_step cs num cids sts g i = g"
    by (auto simp: group_step_def chunk_agent_def split: option.splits if_splits)
  moreover have "groups_ok cs cids sts num (Suc i) ags g" using ok None by (simp add: groups_ok_def)
  ultimately show ?thesis using ags None unfolding agents_before_Suc by (intro exI [of _ ags]) simp
next
  case (Some a)
  then have a: "sts ! i" "co_containerToAgentMap cs (cids ! i) = Some a" by (auto simp: chunk_agent_def split: if_splits)
  have gr: "gr_agents g = zip ags [0..<length ags]" "distinct ags" using ok by (simp_all add: groups_ok_def)
  show ?thesis
  proof (cases "a \<in> set ags")
    case True
    then obtain q where q: "q < length ags" "ags ! q = a" by (auto simp: in_set_conv_nth)
    with gr have "map_of (gr_agents g) a = Some q" using map_of_zip_upt by metis
    with a have "group_step cs num cids sts g i =
      g\<lparr>gr_array := (gr_array g)[q * (num + 1) + gr_sizes g ! q + 1 := int i], gr_sizes := (gr_sizes g)[q := gr_sizes g ! q + 1]\<rparr>"
      by (simp add: group_step_def)
    with groups_ok_add [OF ok q(1) _ i] q(2) Some have "groups_ok cs cids sts num (Suc i) ags (group_step cs num cids sts g i)" by simp
    with ags True Some show ?thesis unfolding agents_before_Suc by (intro exI [of _ ags]) auto
  next
    case False
    let ?g = "g\<lparr>gr_agents := gr_agents g @ [(a, length (gr_agents g))]\<rparr>"
    have none: "map_of (gr_agents g) a = None" using False gr by simp
    have "chunks_of cs cids sts i a = []" using False ags(1) by (auto simp: filter_empty_conv)
    then have ok': "groups_ok cs cids sts num i (ags @ [a]) ?g" using groups_ok_extend [OF ok False] ags(2) i by simp
    have "length (gr_agents g) = length ags" using gr by simp
    then have "group_step cs num cids sts g i =
      ?g\<lparr>gr_array := (gr_array ?g)[length ags * (num + 1) + gr_sizes ?g ! length ags + 1 := int i],
         gr_sizes := (gr_sizes ?g)[length ags := gr_sizes ?g ! length ags + 1]\<rparr>"
      using a none by (simp add: group_step_def Let_def map_add_def)
    with groups_ok_add [OF ok', of "length ags", OF _ _ i] Some
    have "groups_ok cs cids sts num (Suc i) (ags @ [a]) (group_step cs num cids sts g i)" by simp
    with ags Some show ?thesis unfolding agents_before_Suc by (intro exI [of _ "ags @ [a]"]) auto
  qed
qed

lemma group_fold_ok:
  assumes "length arr = num * (num + 1)" and "i \<le> num"
  shows "\<exists>ags. groups_ok cs cids sts num i ags
      (foldl (group_step cs num cids sts) \<lparr>gr_array = arr, gr_agents = [], gr_sizes = replicate num 0\<rparr> [0..<i]) \<and>
     set ags = agents_before cs cids sts i \<and> length ags \<le> i"
  using assms(2)
proof (induction i)
  case 0
  show ?case using assms(1) by (intro exI [of _ "[]"]) (simp add: groups_ok_def)
next
  case (Suc i)
  then show ?case using group_step_ok [of cs cids sts num i] by auto
qed

text \<open>The sizes written into the first column leave the other columns alone.\<close>

lemma size_fold:
  assumes "n \<le> num" and "length arr = num * (num + 1)"
  shows "length (foldl (\<lambda>a i. a[i * (num + 1) := f i]) arr [0..<n]) = num * (num + 1)"
    and "q < num \<Longrightarrow> x < num \<Longrightarrow> foldl (\<lambda>a i. a[i * (num + 1) := f i]) arr [0..<n] ! (q * (num + 1) + x + 1) =
       arr ! (q * (num + 1) + x + 1)"
    and "q < n \<Longrightarrow> foldl (\<lambda>a i. a[i * (num + 1) := f i]) arr [0..<n] ! (q * (num + 1)) = f q"
  using assms
proof (induction n)
  case (Suc n)
  case 1
  then show ?case using Suc by simp
next
  case (Suc n)
  case 2
  have "n * (num + 1) \<noteq> q * (num + 1) + x + 1"
  proof
    assume eq: "n * (num + 1) = q * (num + 1) + x + 1"
    have "(q * (num + 1) + x + 1) mod (num + 1) = x + 1" using 2 by (metis add.assoc add_less_cancel_right mod_less mod_mult_self3)
    with eq show False by (metis Suc_eq_plus1 mod_mult_self2_is_0 nat.distinct(1))
  qed
  with 2 Suc show ?case by simp
next
  case (Suc n)
  case 3
  have "n * (num + 1) < num * (num + 1)" using 3 by (intro mult_strict_right_mono) simp_all
  moreover have "n + n * num = q + q * num \<longleftrightarrow> n = q" using mult_cancel2 [of n "num + 1" q] by simp
  ultimately show ?case using 3 Suc by (cases "q = n") (auto simp: nth_list_update)
qed simp_all

text \<open>
  C27.  The groups are the partition of the alive chunks by agent: there is one group per agent that holds
  an alive chunk, and the row of its group in the array lists exactly the indices of the alive chunks
  whose container is mapped to that agent, in ascending order.
\<close>

theorem chunk_groups_partition:
  assumes "findChunkGroups cs cids sts arr = (numGroups, rows)" and "length arr = length cids * (length cids + 1)"
  shows "\<exists>agents. length agents = numGroups \<and> distinct agents \<and>
     set agents = {a. \<exists>x < length cids. sts ! x \<and> co_containerToAgentMap cs (cids ! x) = Some a} \<and>
     (\<forall>q < numGroups. read_group (length cids) rows q =
        filter (\<lambda>x. sts ! x \<and> co_containerToAgentMap cs (cids ! x) = Some (agents ! q)) [0..<length cids])"
proof -
  let ?num = "length cids" and ?c = "chunks_of cs cids sts (length cids)"
  define g where "g = foldl (group_step cs ?num cids sts) \<lparr>gr_array = arr, gr_agents = [], gr_sizes = replicate ?num 0\<rparr> [0..<?num]"
  obtain ags where ok: "groups_ok cs cids sts ?num ?num ags g" and ags: "set ags = agents_before cs cids sts ?num"
    using group_fold_ok [OF assms(2), of ?num cs cids sts] by (auto simp: g_def)
  have n: "numGroups = length ags" "rows = foldl (\<lambda>a i. a[i * (?num + 1) := int (gr_sizes g ! i)]) (gr_array g) [0..<length ags]"
    using assms(1) ok by (auto simp: findChunkGroups_def Let_def g_def [symmetric] groups_ok_def)
  have len: "length ags \<le> ?num" "length (gr_array g) = ?num * (?num + 1)" using ok by (simp_all add: groups_ok_def)
  note rows = size_fold [OF len, where f = "\<lambda>i. int (gr_sizes g ! i)", folded n(2)]
  have "read_group ?num rows q = ?c (ags ! q)" if q: "q < numGroups" for q
  proof -
    have size: "gr_sizes g ! q = length (?c (ags ! q))" and qn: "q < ?num" "q < length ags"
      using ok q n(1) len by (simp_all add: groups_ok_def)
    have "rows ! (q * (?num + 1) + 1 + x) = int (?c (ags ! q) ! x)" if x: "x < length (?c (ags ! q))" for x
    proof -
      have "x < ?num" using x chunks_of_length [of cs cids sts "ags ! q" ?num] by linarith
      from rows(2) [OF qn(1) this] have "rows ! (q * (?num + 1) + x + 1) = gr_array g ! (q * (?num + 1) + x + 1)" .
      moreover have "gr_array g ! (q * (?num + 1) + x + 1) = int (?c (ags ! q) ! x)"
        using ok qn(2) x unfolding groups_ok_def by blast
      ultimately show ?thesis by (simp add: add_ac)
    qed
    with rows(3) [OF qn(2)] size show ?thesis unfolding read_group_def by (intro nth_equalityI) simp_all
  qed
  moreover have "distinct ags" using ok by (simp add: groups_ok_def)
  ultimately show ?thesis using ags n(1) by (intro exI [of _ ags]) (auto simp: chunk_agent_Some)
qed

theorem chunk_groups_partition_witness:
  "\<exists>numGroups rows agents. findChunkGroups (example_coord [0, 0, 0] [1, 2, 3]) [3, 9, 1] [True, True, True] (replicate 12 0) = (numGroups, rows) \<and>
     set agents = {genAddr ''10.0.0.1'' 57001} \<and> length agents = numGroups \<and> (\<forall>q < numGroups. read_group 3 rows q = [0, 2])"
proof -
  let ?cs = "example_coord [0, 0, 0] [1, 2, 3]" and ?a = "genAddr ''10.0.0.1'' 57001"
  obtain n rows where r: "findChunkGroups ?cs [3, 9, 1] [True, True, True] (replicate 12 0) = (n, rows)" by fastforce
  have ex: "(\<exists>x < 3. P x) \<longleftrightarrow> P 0 \<or> P (Suc 0) \<or> P 2" for P by (auto simp: less_Suc_eq numeral_3_eq_3 numeral_2_eq_2)
  have u: "[0..<3] = [0, Suc 0, 2]" by (simp add: numeral_3_eq_3 numeral_2_eq_2)
  have len: "length [3, 9, 1 :: int] = 3" by simp
  from chunk_groups_partition [OF r, unfolded len]
  obtain agents where ag: "length agents = n"
      and S: "set agents = {a. \<exists>x < 3. [True, True, True] ! x \<and> co_containerToAgentMap ?cs ([3, 9, 1] ! x) = Some a}"
      and rd: "\<forall>q < n. read_group 3 rows q = filter (\<lambda>x. [True, True, True] ! x \<and>
         co_containerToAgentMap ?cs ([3, 9, 1] ! x) = Some (agents ! q)) [0..<3]"
    by auto
  have S: "set agents = {?a}" unfolding S ex by (auto simp: example_state)
  have "agents ! q = ?a" if "q < n" for q using ag S that nth_mem by fastforce
  with rd have "\<forall>q < n. read_group 3 rows q = [0, 2]" by (simp add: u example_state)
  with r ag S show ?thesis by blast
qed

end
