(* ===== verification/Coordinator_Spare.thy ===== *)
theory Coordinator_Spare
  imports Coordinator_Groups
begin

text \<open>
  The search for spare containers: its results are sound for the static and the round-robin policy, and
  concrete runs show where the search by utilisation, the per-agent limit and the screening of full
  containers go wrong.
\<close>

subsection \<open>Screening the containers of one agent\<close>

abbreviation fits :: "int set \<Rightarrow> nat \<Rightarrow> agent_info \<Rightarrow> nat \<Rightarrow> bool" where
  "fits used need info j \<equiv> ai_containerIds info ! j \<notin> used \<and>
     ai_containerUsage info ! j + need \<le> ai_containerCapacity info ! j"

text \<open>
  Screening visits the positions from \<open>st\<close> on in cyclic order; it adds the containers at some of the
  offsets \<open>xs\<close>, which have space and are not in use.
\<close>

definition screened ::
  "agent_info \<Rightarrow> int set \<Rightarrow> nat \<Rightarrow> nat \<Rightarrow> bool \<Rightarrow> nat \<Rightarrow> nat \<Rightarrow> nat set \<Rightarrow> nat list \<Rightarrow> screening \<Rightarrow> screening \<Rightarrow> bool" where
  "screened info used need numSpare low num st R xs s s' \<longleftrightarrow> sorted_wrt (<) xs \<and> set xs \<subseteq> R \<and>
     (\<forall>x \<in> set xs. fits used need info ((st + x) mod num)) \<and>
     sc_selected s' = sc_selected s @ (if low then [] else map (\<lambda>x. ai_containerIds info ! ((st + x) mod num)) xs) \<and>
     sc_skipped s' = sc_skipped s @ (if low then map (\<lambda>x. ai_containerIds info ! ((st + x) mod num)) xs else []) \<and>
     length (sc_selected s') \<le> max numSpare (length (sc_selected s)) \<and>
     (sc_startIdx s' = sc_startIdx s \<or> sc_startIdx s' < ai_numContainers info)"

lemma screened_refl: "screened info used need numSpare low num st R [] s s"
  by (simp add: screened_def)

lemma screened_move:
  "screened info used need numSpare low num st R xs s s' \<Longrightarrow> R \<subseteq> R' \<Longrightarrow> sc_selected s0 = sc_selected s \<Longrightarrow>
   sc_skipped s0 = sc_skipped s \<Longrightarrow> sc_startIdx s0 = sc_startIdx s \<Longrightarrow> screened info used need numSpare low num st R' xs s0 s'"
  by (auto simp: screened_def)

lemma screened_take:
  assumes "screened info used need numSpare low num st {Suc m..<Suc m + left} xs s1 s'"
    and "fits used need info ((st + m) mod num)" and "length (sc_selected s) < numSpare"
    and "c = ai_containerIds info ! ((st + m) mod num)"
    and "sc_selected s1 = (if low then sc_selected s else sc_selected s @ [c])"
    and "sc_skipped s1 = (if low then sc_skipped s @ [c] else sc_skipped s)"
    and "sc_startIdx s1 = sc_startIdx s \<or> sc_startIdx s1 < ai_numContainers info"
  shows "screened info used need numSpare low num st {m..<m + Suc left} (m # xs) s s'"
  using assms by (cases low) (auto simp: screened_def)

lemma screen_sound:
  assumes "policy \<noteq> LU" and "sc_cidx s = (st + m) mod num" and "m + left \<le> num"
  shows "\<exists>xs. screened info used need numSpare low num st {m..<m + left} xs s
     (screen policy info used need numSpare l low num left s)"
  using assms(2,3)
proof (induction left arbitrary: s m)
  case (Suc left)
  let ?scr = "screen policy info used need numSpare l low num" and ?j = "(st + m) mod num"
  have next_idx: "Suc ?j mod num = (st + Suc m) mod num" by (simp add: mod_Suc_eq)
  show ?case
  proof (cases "length (sc_selected s) < numSpare \<and> int (sc_localSelected s) < l")
    case False
    then have "?scr (Suc left) s = s" by (simp add: Let_def)
    then show ?thesis using screened_refl by metis
  next
    case go: True
    consider (used) "ai_containerIds info ! ?j \<in> used" | (full) "ai_containerIds info ! ?j \<notin> used" "\<not> fits used need info ?j"
      | (take) "fits used need info ?j" by blast
    then show ?thesis
    proof cases
      case used
      let ?s = "s\<lparr>sc_cidx := (st + Suc m) mod num, sc_localSelected := sc_localSelected s + 1\<rparr>"
      have eq: "?scr (Suc left) s = ?scr left ?s"
        using go used Suc.prems(1) next_idx by (simp add: Let_def)
      from Suc.IH [of ?s "Suc m"] Suc.prems(2)
      obtain xs where r: "screened info used need numSpare low num st {Suc m..<Suc m + left} xs ?s (?scr left ?s)" by auto
      have "screened info used need numSpare low num st {m..<m + Suc left} xs s (?scr (Suc left) s)"
        unfolding eq by (rule screened_move [OF r]) auto
      then show ?thesis by (rule exI)
    next
      case full
      have eq: "?scr (Suc left) s = ?scr left s" using go full Suc.prems(1) by (simp add: Let_def)
      from Suc.IH [of s m] Suc.prems
      obtain xs where r: "screened info used need numSpare low num st {m..<m + left} xs s (?scr left s)" by auto
      have "screened info used need numSpare low num st {m..<m + Suc left} xs s (?scr (Suc left) s)"
        unfolding eq by (rule screened_move [OF r]) auto
      then show ?thesis by (rule exI)
    next
      case take
      let ?c = "ai_containerIds info ! ?j"
      define s1 where "s1 = (if low then s\<lparr>sc_skipped := sc_skipped s @ [?c]\<rparr>
         else s\<lparr>sc_selected := sc_selected s @ [?c], sc_startIdx := (if policy = RR \<and> sc_localSelected s = 0 \<and> ai_numContainers info > 0
            then Suc ?j mod ai_numContainers info else sc_startIdx s)\<rparr>)"
      let ?s = "s1\<lparr>sc_localSelected := sc_localSelected s + 1, sc_cidx := (st + Suc m) mod num\<rparr>"
      have eq: "?scr (Suc left) s = ?scr left ?s"
        using go take Suc.prems(1) next_idx assms(1) by (simp add: Let_def s1_def)
      from Suc.IH [of ?s "Suc m"] Suc.prems(2)
      obtain xs where r: "screened info used need numSpare low num st {Suc m..<Suc m + left} xs ?s (?scr left ?s)" by auto
      have "screened info used need numSpare low num st {m..<m + Suc left} (m # xs) s (?scr (Suc left) s)"
        unfolding eq by (rule screened_take [OF r take]) (use go in \<open>auto simp: s1_def\<close>)
      then show ?thesis by (rule exI)
    qed
  qed
qed (simp, metis screened_refl)

text \<open>The position at which the search starts is one of the agent's containers.\<close>

definition start_ok :: "agent_info \<Rightarrow> bool" where
  "start_ok info \<longleftrightarrow> ai_startingContainerIndex info < ai_numContainers info \<or> ai_numContainers info = 0"

definition usable :: "int set \<Rightarrow> nat \<Rightarrow> agent_info \<Rightarrow> int set" where
  "usable used need info = {ai_containerIds info ! j | j. j < ai_numContainers info \<and> fits used need info j}"

lemma usable_held: "ai_numContainers info \<le> length (ai_containerIds info) \<Longrightarrow> usable used need info \<subseteq> set (held info)"
  by (auto simp: usable_def in_set_conv_nth) (metis nth_take)

lemma inj_rotate: "inj_on (\<lambda>x. (st + x) mod n) {0..<n :: nat}"
proof (rule linorder_inj_onI)
  fix x y assume xy: "x < y" "x \<in> {0..<n}" "y \<in> {0..<n}"
  have "\<not> n dvd y - x" using xy by (auto dest: dvd_imp_le)
  then show "(st + x) mod n \<noteq> (st + y) mod n" using xy mod_eq_dvd_iff_nat [of "st + x" "st + y" n] by auto
qed auto

lemma screen_agent_sound:
  assumes "policy \<noteq> LU" and "s = screen_agent policy used need numSpare l low r info" and "start_ok info"
    and "distinct (held info)" and "ai_numContainers info \<le> length (ai_containerIds info)"
  shows "\<exists>new. distinct new \<and> set new \<subseteq> usable (set used) need info \<and>
     sc_selected s = fst r @ (if low then [] else new) \<and> sc_skipped s = snd r @ (if low then new else []) \<and>
     length (sc_selected s) \<le> max numSpare (length (fst r))"
proof -
  let ?n = "ai_numContainers info" and ?st = "ai_startingContainerIndex info" and ?ids = "ai_containerIds info"
  define s0 where "s0 = \<lparr>sc_selected = fst r, sc_skipped = snd r, sc_localSelected = 0, sc_cidx = ?st,
     sc_uit = ai_utilizationMap info, sc_startIdx = ?st\<rparr>"
  have s: "s = screen policy info (set used) need numSpare l low ?n ?n s0"
    using assms(1,2) by (simp add: screen_agent_def s0_def Let_def)
  have "sc_cidx s0 = (?st + 0) mod ?n" using assms(3) by (auto simp: start_ok_def s0_def)
  from screen_sound [OF assms(1) this, of ?n info "set used" need numSpare low l]
  obtain xs where xs: "screened info (set used) need numSpare low ?n ?st {0..<?n} xs s0 s" unfolding s by auto
  have s0: "sc_selected s0 = fst r" "sc_skipped s0 = snd r" by (simp_all add: s0_def)
  let ?new = "map (\<lambda>x. ?ids ! ((?st + x) mod ?n)) xs"
  have pos: "(?st + x) mod ?n < ?n" if "x \<in> set xs" for x using xs that by (auto simp: screened_def intro!: mod_less_divisor)
  have ids: "inj_on (\<lambda>j. ?ids ! j) {0..<?n}"
    using assms(4,5) by (auto simp: inj_on_def distinct_conv_nth) (metis nth_take)
  have "inj_on (\<lambda>x. ?ids ! ((?st + x) mod ?n)) (set xs)"
    using inj_on_subset [OF inj_rotate [of ?st ?n], of "set xs"] xs pos
    by (intro comp_inj_on [of "\<lambda>x. (?st + x) mod ?n" _ "\<lambda>j. ?ids ! j", unfolded comp_def] inj_on_subset [OF ids])
      (auto simp: screened_def)
  moreover have "distinct xs" using xs by (simp add: screened_def strict_sorted_iff)
  ultimately have "distinct ?new" by (simp add: distinct_map)
  moreover have "set ?new \<subseteq> usable (set used) need info" using xs pos by (auto simp: screened_def usable_def)
  ultimately show ?thesis using xs s0 by (intro exI [of _ ?new]) (auto simp: screened_def)
qed

subsection \<open>Searching all agents\<close>

definition spare_ok :: "coordinator \<Rightarrow> int list \<Rightarrow> nat \<Rightarrow> nat \<Rightarrow> string set \<Rightarrow> int list \<times> int list \<Rightarrow> bool" where
  "spare_ok cs used need numSpare ips r \<longleftrightarrow> distinct (fst r @ snd r) \<and> length (fst r) \<le> numSpare \<and>
     (\<forall>c \<in> set (fst r @ snd r). \<exists>ip \<in> ips. \<exists>info. map_of (co_agents cs) ip = Some info \<and> c \<in> usable (set used) need info)"

lemma usable_agent:
  assumes "records_ok cs" and "map_of (co_agents cs) ip = Some info" and "c \<in> usable used need info"
  shows "map_option getAddrIP (co_containerToAgentMap cs c) = Some ip"
proof -
  have ok: "record_ok (co_containerToAgentMap cs) (ip, info)"
    using assms(1) map_of_SomeD [OF assms(2)] by (auto simp: records_ok_def)
  then have "c \<in> set (held info)" using assms(3) usable_held [of info used need] by (auto simp: record_ok_def)
  with ok show ?thesis by (auto simp: record_ok_def)
qed

lemma spare_ok_screen:
  assumes "spare_ok cs used need numSpare ips r" and "records_ok cs" and "map_of (co_agents cs) a = Some info" and "a \<notin> ips"
    and "start_ok info" and "policy \<noteq> LU" and "s = screen_agent policy used need numSpare l low r info"
  shows "spare_ok cs used need numSpare (insert a ips) (sc_selected s, sc_skipped s)"
proof -
  have "record_ok (co_containerToAgentMap cs) (a, info)"
    using assms(2) map_of_SomeD [OF assms(3)] by (auto simp: records_ok_def)
  then obtain new where new: "distinct new" "set new \<subseteq> usable (set used) need info"
    "sc_selected s = fst r @ (if low then [] else new)" "sc_skipped s = snd r @ (if low then new else [])"
    "length (sc_selected s) \<le> max numSpare (length (fst r))"
    using screen_agent_sound [OF assms(6,7,5)] by (auto simp: record_ok_def)
  have disj: "c \<notin> set (fst r @ snd r)" if "c \<in> set new" for c
  proof
    assume "c \<in> set (fst r @ snd r)"
    then obtain ip info' where "ip \<in> ips" "map_of (co_agents cs) ip = Some info'" "c \<in> usable (set used) need info'"
      using assms(1) unfolding spare_ok_def by blast
    with usable_agent [OF assms(2) this(2,3)] usable_agent [OF assms(2,3), of c "set used" need] new(2) that assms(4)
    show False by auto
  qed
  have "distinct (sc_selected s @ sc_skipped s)"
    using assms(1) new(1,3,4) disj by (cases low) (auto simp: spare_ok_def)
  moreover have "length (sc_selected s) \<le> numSpare" using assms(1) new(5) by (simp add: spare_ok_def)
  moreover have "\<exists>ip \<in> insert a ips. \<exists>info. map_of (co_agents cs) ip = Some info \<and> c \<in> usable (set used) need info"
    if "c \<in> set (sc_selected s @ sc_skipped s)" for c
  proof (cases "c \<in> set new")
    case True
    with new(2) assms(3) show ?thesis by blast
  next
    case False
    with that new(3,4) have "c \<in> set (fst r @ snd r)" by (cases low) auto
    with assms(1) show ?thesis unfolding spare_ok_def by blast
  qed
  ultimately show ?thesis by (simp add: spare_ok_def)
qed

lemma note_start_other: "b \<noteq> a \<Longrightarrow> map_of (co_agents (note_start a info s cs)) b = map_of (co_agents cs) b"
  by (simp add: note_start_def put_agent_map_of)

lemma spare_ok_mono: "spare_ok cs used need numSpare ips r \<Longrightarrow> ips \<subseteq> ips' \<Longrightarrow> spare_ok cs used need numSpare ips' r"
  unfolding spare_ok_def by blast

lemma spare_agents_sound:
  assumes "spare_agents policy used need numSpare l as cnt r cs = Some (r', cs')" and "policy \<noteq> LU" and "records_ok cs0"
    and "\<forall>a \<in> set as. map_of (co_agents cs) a = map_of (co_agents cs0) a" and "distinct as" and "set as \<inter> ips = {}"
    and "\<forall>a \<in> set as. \<forall>info. map_of (co_agents cs0) a = Some info \<longrightarrow> start_ok info"
    and "spare_ok cs0 used need numSpare ips r"
  shows "spare_ok cs0 used need numSpare (ips \<union> set as) r'"
  using assms(1,4-8)
proof (induction "as" arbitrary: cnt r cs ips)
  case (Cons a "as")
  have screened: "spare_ok cs0 used need numSpare (insert a ips) (sc_selected s, sc_skipped s)"
    if "map_of (co_agents cs) a = Some info" "s = screen_agent policy used need numSpare l low r info" for info low s
    by (rule spare_ok_screen [OF Cons.prems(6) assms(3) _ _ _ assms(2) that(2)]) (use Cons.prems that(1) in auto)
  from Cons.prems(1) show ?case
  proof (cases rule: spare_agents_ConsE)
    case (skip info)
    have "spare_ok cs0 used need numSpare (ips \<union> set as) r'"
      by (rule Cons.IH [OF skip(2)]) (use Cons.prems in auto)
    then show ?thesis by (rule spare_ok_mono) auto
  next
    case (stop info low s)
    with screened [OF stop(1,2)] show ?thesis by (auto intro: spare_ok_mono)
  next
    case (go info low s)
    have eq: "\<forall>b \<in> set as. map_of (co_agents (note_start a info s cs)) b = map_of (co_agents cs0) b"
      using Cons.prems(2,3) note_start_other by (metis distinct.simps(2) list.set_intros(2))
    have "spare_ok cs0 used need numSpare (insert a ips \<union> set as) r'"
      by (rule Cons.IH [OF go(3) eq _ _ _ screened [OF go(1,2)]]) (use Cons.prems(3-5) in auto)
    then show ?thesis by simp
  qed
qed auto


subsection \<open>Concrete searches\<close>

text \<open>The agent of the example holds containers 1, 2 and 3 of capacity 1000; chunks of 2 data chunks each.\<close>

definition example_search :: "DistributionPolicy \<Rightarrow> nat list \<Rightarrow> int list \<Rightarrow> int \<Rightarrow> int \<Rightarrow> int list option" where
  "example_search policy usage used f numSpare =
     map_option fst (findSpareContainers (\<lambda>u c. 0) (\<lambda>_. NoUpdate) 0 0 policy used (replicate (length used) True) numSpare 10
       (newCodingMeta 0 4 2 0 f) (example_coord usage [1, 2, 3]))"

lemma example_search_eq:
  assumes "0 < numSpare" and "policy = LU \<or> policy = RR \<or> policy = STATIC"
    and "cnt = length (filter (\<lambda>c. c \<in> {1, 2, 3}) (remdups used))" and "l = max_per_agent (newCodingMeta 0 4 2 0 f)"
    and "int cnt < l \<or> cnt = 0"
  shows "example_search policy [a, b, c] used f numSpare =
    (let s = screen_agent policy (remdups used) 7 (nat numSpare) l False ([], []) (example_info [a, b, c])
     in Some (sc_selected s @ take (nat numSpare - length (sc_selected s)) (sc_skipped s)))"
proof -
  let ?cs = "example_coord [a, b, c] [1, 2, 3]"
  have used: "used_containers used (replicate (length used) True) = remdups used"
    by (simp add: used_containers_def zip_replicate2 comp_def filter_map)
  have "agentContainerCount ?cs us ''10.0.0.1'' = length (filter (\<lambda>c. c \<in> {1, 2, 3}) us)" for us
    unfolding agentContainerCount_def by (intro arg_cong [where f = length] filter_cong) (auto simp: example_state getAddrIP_genAddr)
  with assms used show ?thesis
    by (auto simp: example_search_def findSpareContainers_def refresh_def example_state newCodingMeta_def example_info_def
        Let_def new_agent_info_def)
qed

lemma example_limits: "max_per_agent (newCodingMeta 0 4 2 0 0) = 4" "max_per_agent (newCodingMeta 0 4 2 0 1) = 2"
  by (simp_all add: max_per_agent_def newCodingMeta_def)

lemma example_screens:
  "sc_selected (screen_agent STATIC [1] 7 2 4 False ([], []) (example_info [0, 0, 0])) = [2, 3]"
  "sc_selected (screen_agent LU [1] 7 2 4 False ([], []) (example_info [0, 0, 0])) = [2, 2]"
  "sc_selected (screen_agent STATIC [] 7 (Suc 0) 4 False ([], []) (example_info [1000, 0, 0])) = []"
  "sc_skipped (screen_agent STATIC [] 7 (Suc 0) 4 False ([], []) (example_info [1000, 0, 0])) = []"
  "sc_selected (screen_agent STATIC [3] 7 2 2 False ([], []) (example_info [0, 0, 0])) = [1, 2]"
  by code_simp+


text \<open>
  The search by least utilisation can return one container twice: when the least used container of
  an agent already holds a chunk of the file, the next container is selected and then, as first in the
  order of utilisation after it, selected again.
\<close>

theorem least_used_selects_twice:
  "coord_reachable (\<lambda>u c. 0) (example_coord [0, 0, 0] [1, 2, 3]) \<and> example_search LU [0, 0, 0] [1] 0 2 = Some [2, 2]"
proof
  show "coord_reachable (\<lambda>u c. 0) (example_coord [0, 0, 0] [1, 2, 3])" by (rule example_reachable) simp_all
  show "example_search LU [0, 0, 0] [1] 0 2 = Some [2, 2]"
    using example_search_eq [of 2 LU 1 "[1]" 4 0 0 0 0] by (simp add: example_limits example_screens Let_def)
qed

text \<open>
  Two more faults of the search.  A full container at the position where the search starts hides the
  empty containers of the same agent, and the limit of containers per agent is exceeded when a container of
  the file comes late in the record of the agent: with a limit of two, the agent that already holds one
  chunk receives two more.
\<close>

theorem spare_search_full_and_limit:
  "coord_reachable (\<lambda>u c. 0) (example_coord [1000, 0, 0] [1, 2, 3]) \<and> example_search STATIC [1000, 0, 0] [] 0 1 = Some [] \<and>
   max_per_agent (newCodingMeta 0 4 2 0 1) = 2 \<and> example_search STATIC [0, 0, 0] [3] 1 2 = Some [1, 2]"
proof (intro conjI)
  show "coord_reachable (\<lambda>u c. 0) (example_coord [1000, 0, 0] [1, 2, 3])" by (rule example_reachable) simp_all
  show "example_search STATIC [1000, 0, 0] [] 0 1 = Some []"
    using example_search_eq [of 1 STATIC 0 "[]" 4 0 1000 0 0] by (simp add: example_limits example_screens Let_def)
  show "max_per_agent (newCodingMeta 0 4 2 0 1) = 2" by (rule example_limits)
  show "example_search STATIC [0, 0, 0] [3] 1 2 = Some [1, 2]"
    using example_search_eq [of 2 STATIC 1 "[3]" 2 1 0 0 0] by (simp add: example_limits example_screens Let_def)
qed

end
