(* ===== verification/Fs_Container.thy ===== *)
theory Fs_Container
  imports Nexo_Data "HOL-Library.AList"
begin

text \<open>
  Containers of an agent (\<^verbatim>\<open>src/agent/container/container.cc\<close>) that keep chunks as files of a directory
  (\<^verbatim>\<open>src/agent/container/fs.cc\<close>).  The files below the directory are an association list from paths to
  content and modification time.  What the operating system and the configuration decide during an operation
  is the record \<open>storage_env\<close>: the clock, whether a file can be opened for writing, how many bytes a
  write can store, whether a rename is permitted, the block size for copies and whether checksums are verified.
  Reading a file that exists succeeds and memory is available.  Locks on files and log messages have no counterpart.
\<close>

subsection \<open>Files\<close>

record fs_file =
  ff_data :: "byte list"
  ff_mtime :: int

type_synonym fs_files = "(string \<times> fs_file) list"

record storage_env =
  se_now :: int
  se_verify :: bool
  se_md5 :: md5_fun
  se_uts :: "uuid \<Rightarrow> string"
  se_openW :: "string \<Rightarrow> bool"
  se_room :: "string \<Rightarrow> nat"
  se_rename :: "string \<Rightarrow> string \<Rightarrow> bool"
  se_copyBlock :: nat

definition fs_rename :: "storage_env \<Rightarrow> string \<Rightarrow> string \<Rightarrow> fs_files \<Rightarrow> fs_files \<times> bool" where
  "fs_rename env a b fs = (case map_of fs a of
       None \<Rightarrow> (fs, False)
     | Some f \<Rightarrow> if se_rename env a b then (AList.update b f (AList.delete a fs), True) else (fs, False))"

text \<open>Writing to a file that was opened (and truncated) stores as many bytes as there is room for.\<close>

definition fs_write :: "storage_env \<Rightarrow> string \<Rightarrow> byte list \<Rightarrow> fs_files \<Rightarrow> fs_files \<times> nat" where
  "fs_write env p bs fs =
     (let n = min (length bs) (se_room env p) in (AList.update p \<lparr>ff_data = take n bs, ff_mtime = se_now env\<rparr> fs, n))"

subsection \<open>The container\<close>

record fs_container =
  fc_id :: int
  fc_capacity :: nat
  fc_usage :: nat
  fc_dir :: string
  fc_files :: fs_files

definition isOldChunks :: "string \<Rightarrow> bool" where
  "isOldChunks fpath \<longleftrightarrow> CHR ''.'' \<in> set (takeWhile (\<lambda>c. c \<noteq> CHR ''/'') (rev fpath))"

definition getTotalSize :: "fs_container \<Rightarrow> nat" where
  "getTotalSize c = sum_list (map (\<lambda>(p, f). length (ff_data f)) (filter (\<lambda>(p, f). \<not> isOldChunks p) (fc_files c)))"

definition updateUsage :: "fs_container \<Rightarrow> fs_container" where
  "updateUsage c = c\<lparr>fc_usage := getTotalSize c\<rparr>"

definition getUsage :: "bool \<Rightarrow> fs_container \<Rightarrow> fs_container \<times> nat" where
  "getUsage updateNow c = (let c1 = (if updateNow then updateUsage c else c) in (c1, fc_usage c1))"

definition getUsageAndCapacity :: "bool \<Rightarrow> fs_container \<Rightarrow> fs_container \<times> nat \<times> nat" where
  "getUsageAndCapacity updateNow c = (let c1 = (if updateNow then updateUsage c else c) in (c1, fc_usage c1, fc_capacity c1))"

definition newFsContainer :: "int \<Rightarrow> string \<Rightarrow> nat \<Rightarrow> fs_files \<Rightarrow> fs_container" where
  "newFsContainer cid dir capacity fs =
     updateUsage \<lparr>fc_id = cid, fc_capacity = capacity, fc_usage = 0, fc_dir = dir, fc_files = fs\<rparr>"

definition getChunkPath :: "storage_env \<Rightarrow> chunk \<Rightarrow> fs_container \<Rightarrow> string option" where
  "getChunkPath env ch c =
     (let p = fc_dir c @ ''/'' @ getChunkName (se_uts env) ch in if int (length p) < PATH_MAX then Some p else None)"

definition getOldChunkPath :: "string \<Rightarrow> string \<Rightarrow> string" where
  "getOldChunkPath fpath ctime = fpath @ ''.'' @ ctime"

subsection \<open>Reading\<close>

definition readChunkFile :: "string \<Rightarrow> chunk \<Rightarrow> fs_container \<Rightarrow> chunk \<times> bool" where
  "readChunkFile fpath ch c = (case map_of (fc_files c) fpath of
       None \<Rightarrow> (ch, False)
     | Some f \<Rightarrow> (ch\<lparr>c_size := int32 (int (length (ff_data f))), c_data := Some (ff_data f)\<rparr>, True))"

definition getChunkInternal :: "storage_env \<Rightarrow> chunk \<Rightarrow> bool \<Rightarrow> fs_container \<Rightarrow> chunk \<times> bool" where
  "getChunkInternal env ch skipVerification c = (case getChunkPath env ch c of
       None \<Rightarrow> (ch, False)
     | Some fpath \<Rightarrow> (case readChunkFile fpath ch c of
           (ch1, False) \<Rightarrow> (ch1, False)
         | (ch1, True) \<Rightarrow> (ch1, skipVerification \<or> \<not> se_verify env \<or> verifyMD5 (se_md5 env) ch1)))"

definition fs_getChunk :: "storage_env \<Rightarrow> chunk \<Rightarrow> bool \<Rightarrow> fs_container \<Rightarrow> chunk \<times> bool" where
  "fs_getChunk env ch skipVerification c = (case getChunkPath env ch c of
       None \<Rightarrow> (ch, False)
     | Some _ \<Rightarrow> getChunkInternal env ch skipVerification c)"

text \<open>Reading a chunk back to compute its checksum: whether this succeeds, and the chunk that was read.\<close>

definition readBack :: "storage_env \<Rightarrow> chunk \<Rightarrow> fs_container \<Rightarrow> chunk \<times> bool" where
  "readBack env ch c =
     (let (rd, got) = getChunkInternal env (chunk_copyMeta ch True chunk_reset) False c
      in (fst (computeMD5 (se_md5 env) rd), got \<or> \<not> se_verify env))"

definition fs_hasChunk :: "storage_env \<Rightarrow> chunk \<Rightarrow> fs_container \<Rightarrow> bool" where
  "fs_hasChunk env ch c = (case getChunkPath env ch c of
       None \<Rightarrow> False
     | Some fpath \<Rightarrow>
         let checksumPassed = (\<not> se_verify env \<or> snd (fs_getChunk env (chunk_copyMeta ch True chunk_reset) False c))
         in (case map_of (fc_files c) fpath of
               None \<Rightarrow> False
             | Some f \<Rightarrow> c_size ch = int (length (ff_data f)) \<and> checksumPassed))"

definition fs_verifyChunk :: "storage_env \<Rightarrow> chunk \<Rightarrow> fs_container \<Rightarrow> bool" where
  "fs_verifyChunk env ch c = (case getChunkPath env ch c of
       None \<Rightarrow> False
     | Some _ \<Rightarrow>
         let (rd, got) = getChunkInternal env (chunk_copyMeta ch True chunk_reset) False c
         in got \<and> (se_verify env \<or> verifyMD5 (se_md5 env) rd))"

subsection \<open>Writing\<close>

text \<open>A chunk file that exists is first renamed; the time of day becomes its version.\<close>

definition backupChunk :: "storage_env \<Rightarrow> string \<Rightarrow> chunk \<Rightarrow> fs_files \<Rightarrow> fs_files \<times> chunk \<times> bool" where
  "backupChunk env fpath ch fs =
     (if map_of fs fpath = None then (fs, ch\<lparr>c_chunkVersion := []\<rparr>, True)
      else let ch1 = ch\<lparr>c_chunkVersion := take (CHUNK_VERSION_MAX_LEN - 1) (int_to_string (se_now env))\<rparr>;
               (fs1, ok) = fs_rename env fpath (getOldChunkPath fpath (c_chunkVersion ch1)) fs
           in (fs1, ch1, ok))"

definition fs_putChunk :: "storage_env \<Rightarrow> chunk \<Rightarrow> fs_container \<Rightarrow> fs_container \<times> chunk \<times> bool" where
  "fs_putChunk env ch c = (case getChunkPath env ch c of
       None \<Rightarrow> (c, ch, False)
     | Some fpath \<Rightarrow> (case backupChunk env fpath ch (fc_files c) of
           (fs1, ch1, False) \<Rightarrow> (c\<lparr>fc_files := fs1\<rparr>, ch1, False)
         | (fs1, ch1, True) \<Rightarrow>
             if \<not> se_openW env fpath then (c\<lparr>fc_files := fs1\<rparr>, ch1, False)
             else
               let (fs2, written) = fs_write env fpath (chunk_bytes ch1) fs1; c2 = c\<lparr>fc_files := fs2\<rparr>;
                   (rd, readOk) = readBack env ch1 c2
               in if int written = c_size ch1 \<and> readOk then (c2, copyMD5 rd ch1, True) else (c2, ch1, False)))"

definition fs_deleteChunk :: "storage_env \<Rightarrow> chunk \<Rightarrow> fs_container \<Rightarrow> fs_container \<times> bool" where
  "fs_deleteChunk env ch c = (case getChunkPath env ch c of
       None \<Rightarrow> (c, False)
     | Some fpath \<Rightarrow> (c\<lparr>fc_files := AList.delete fpath (fc_files c)\<rparr>, True))"

text \<open>
  The copy goes block by block: the number counted as copied leaves out the block whose write fell short.
  The destination is opened, and thereby truncated, even when the source does not exist.
\<close>

definition copied :: "nat \<Rightarrow> nat \<Rightarrow> nat \<Rightarrow> nat \<times> nat" where
  "copied block len room =
     (if block = 0 then (0, 0)
      else let n = min len room in (n, if n = len then n else block * (n div block)))"

definition fs_copyChunk :: "storage_env \<Rightarrow> chunk \<Rightarrow> chunk \<Rightarrow> fs_container \<Rightarrow> fs_container \<times> chunk \<times> bool" where
  "fs_copyChunk env src dst c = (case (getChunkPath env src c, getChunkPath env dst c) of
       (Some sfpath, Some dfpath) \<Rightarrow>
         let srcOpen = (map_of (fc_files c) sfpath \<noteq> None);
             fs1 = (if se_openW env dfpath then AList.update dfpath \<lparr>ff_data = [], ff_mtime = se_now env\<rparr> (fc_files c) else fc_files c)
         in if \<not> srcOpen \<or> \<not> se_openW env dfpath then (c\<lparr>fc_files := fs1\<rparr>, dst, False)
            else
              let bs = ff_data (the (map_of fs1 sfpath));
                  (n, cnt) = copied (se_copyBlock env) (length bs) (se_room env dfpath); sz = int32 (int cnt);
                  c2 = c\<lparr>fc_files := AList.update dfpath \<lparr>ff_data = take n bs, ff_mtime = se_now env\<rparr> fs1\<rparr>;
                  (rd, readOk) = readBack env dst c2
              in if sz = c_size src \<and> readOk then (c2, copyMD5 rd (dst\<lparr>c_size := sz\<rparr>), True)
                 else (fst (fs_deleteChunk env dst c2), dst, False)
     | _ \<Rightarrow> (c, dst, False))"

definition fs_moveChunk :: "storage_env \<Rightarrow> chunk \<Rightarrow> chunk \<Rightarrow> fs_container \<Rightarrow> fs_container \<times> chunk \<times> bool" where
  "fs_moveChunk env src dst c = (case (getChunkPath env src c, getChunkPath env dst c) of
       (Some sfpath, Some dfpath) \<Rightarrow> (case map_of (fc_files c) sfpath of
           None \<Rightarrow> (c, dst, False)
         | Some f \<Rightarrow>
             let (fs1, ok) = fs_rename env sfpath dfpath (fc_files c); c1 = c\<lparr>fc_files := fs1\<rparr>;
                 (rd, readOk) = readBack env dst c1
             in if ok \<and> readOk then (c1, copyMD5 rd (dst\<lparr>c_size := int32 (int (length (ff_data f)))\<rparr>), True)
                else (c1\<lparr>fc_files := fst (fs_rename env dfpath sfpath fs1)\<rparr>, dst, False))
     | _ \<Rightarrow> (c, dst, False))"

definition fs_revertChunk :: "storage_env \<Rightarrow> chunk \<Rightarrow> fs_container \<Rightarrow> fs_container \<times> bool" where
  "fs_revertChunk env ch c = (case getChunkPath env ch c of
       None \<Rightarrow> (c, False)
     | Some fpath \<Rightarrow>
         let ofpath = getOldChunkPath fpath (c_chunkVersion ch); tfpath = getOldChunkPath fpath ''0'';
             fs1 = fst (fs_rename env fpath tfpath (fc_files c));
             (fs2, okay) = fs_rename env ofpath fpath fs1;
             fs3 = (if okay then AList.delete tfpath fs2 else fst (fs_rename env tfpath fpath fs2))
         in (c\<lparr>fc_files := fs3\<rparr>, okay))"

text \<open>
  One pass of the thread that removes old versions: files with a dot in their name whose modification time
  is more than ten minutes ago.  A renamed file keeps its modification time.
\<close>

definition cleanUpOldChunks :: "int \<Rightarrow> fs_container \<Rightarrow> fs_container" where
  "cleanUpOldChunks now c =
     c\<lparr>fc_files := filter (\<lambda>(p, f). \<not> (isOldChunks p \<and> ff_mtime f + 600 \<le> now)) (fc_files c)\<rparr>"

end
