(* ===== verification/Fs_Correct.thy ===== *)
theory Fs_Correct
  imports Fs_Container
begin

text \<open>
  The contract of a container, as the container manager relies on it, and its proof for the file system
  container: writing a chunk makes exactly its bytes readable under its name and leaves other chunks alone,
  deletion removes exactly the chunk.  Also the version kept for a revert, and the thread that removes old
  versions.
\<close>

subsection \<open>The contract\<close>

text \<open>
  \<open>stored c ch\<close> are the bytes held under the name of \<open>ch\<close>, and \<open>same\<close> says that two chunks have
  the same name.
\<close>

locale chunk_container =
  fixes put :: "chunk \<Rightarrow> 'c \<Rightarrow> 'c \<times> chunk \<times> bool"
    and get :: "chunk \<Rightarrow> bool \<Rightarrow> 'c \<Rightarrow> chunk \<times> bool"
    and del :: "chunk \<Rightarrow> 'c \<Rightarrow> 'c \<times> bool"
    and stored :: "'c \<Rightarrow> chunk \<Rightarrow> byte list option"
    and same :: "chunk \<Rightarrow> chunk \<Rightarrow> bool"
  assumes put_ok: "put ch c = (c', ch', True) \<Longrightarrow> stored c' d = (if same d ch then Some (chunk_bytes ch) else stored c d)"
    and put_fail: "put ch c = (c', ch', False) \<Longrightarrow> \<not> same d ch \<Longrightarrow> stored c' d = stored c d"
    and put_chunk: "put ch c = (c', ch', ok) \<Longrightarrow> same ch' ch \<and> chunk_bytes ch' = chunk_bytes ch"
    and get_ok: "get ch skip c = (ch', True) \<Longrightarrow> \<exists>bs. stored c ch = Some bs \<and> c_data ch' = Some bs \<and> same ch' ch"
    and get_any: "stored c ch = Some bs \<Longrightarrow> snd (get ch True c)"
    and get_cong: "stored c ch = Some bs \<Longrightarrow> stored c' ch = Some bs \<Longrightarrow> get ch skip c = get ch skip c'"
    and put_get: "put ch c = (c', ch', True) \<Longrightarrow> c_size ch < 2147483648 \<Longrightarrow> snd (get ch' skip c')"
    and del_ok: "del ch c = (c', ok) \<Longrightarrow> stored c' d = (if same d ch then None else stored c d)"
    and same_equiv: "same d d" "same d e \<Longrightarrow> same e d" "same d e \<Longrightarrow> same e h \<Longrightarrow> same d h"
    and stored_same: "same d e \<Longrightarrow> stored c d = stored c e"

subsection \<open>Paths\<close>

definition fs_stored :: "storage_env \<Rightarrow> fs_container \<Rightarrow> chunk \<Rightarrow> byte list option" where
  "fs_stored env c ch = (case getChunkPath env ch c of None \<Rightarrow> None
     | Some p \<Rightarrow> map_option ff_data (map_of (fc_files c) p))"

definition same_name :: "storage_env \<Rightarrow> chunk \<Rightarrow> chunk \<Rightarrow> bool" where
  "same_name env ch d \<longleftrightarrow> getChunkName (se_uts env) ch = getChunkName (se_uts env) d"

text \<open>The textual form of a UUID has neither a dot nor a slash.\<close>

locale fs_env =
  fixes env :: storage_env
  assumes uts: "CHR ''.'' \<notin> set (se_uts env u)" "CHR ''/'' \<notin> set (se_uts env u)"

lemma getChunkPath_files [simp]: "getChunkPath env ch (c\<lparr>fc_files := fs\<rparr>) = getChunkPath env ch c"
  by (simp add: getChunkPath_def)

lemma getChunkPath_Some:
  "getChunkPath env ch c = Some p \<longleftrightarrow> p = fc_dir c @ ''/'' @ getChunkName (se_uts env) ch \<and> int (length p) < PATH_MAX"
  by (auto simp: getChunkPath_def Let_def)

lemma getChunkPath_same: "same_name env ch d \<Longrightarrow> getChunkPath env ch c = getChunkPath env d c"
  by (simp add: getChunkPath_def same_name_def)

lemma getChunkPath_inj:
  "getChunkPath env ch c = Some p \<Longrightarrow> getChunkPath env d c = Some p \<Longrightarrow> same_name env ch d"
  by (simp add: getChunkPath_Some same_name_def)

lemma takeWhile_sep: "x \<notin> set a \<Longrightarrow> takeWhile (\<lambda>c. c \<noteq> x) (a @ b) = a @ takeWhile (\<lambda>c. c \<noteq> x) b"
  by (induction a) auto

lemma name_chars: "x \<in> set (getChunkName uts ch) \<Longrightarrow> x \<in> set (uts (c_fuuid ch)) \<or> is_digit x \<or> x = CHR ''-'' \<or> x = CHR ''_''"
  by (auto simp: getChunkName_def dest: nat_to_string_digits int_to_string_chars)

context fs_env
begin

lemma name_no_dot: "CHR ''.'' \<notin> set (getChunkName (se_uts env) ch)"
  using name_chars [of "CHR ''.''"] uts by auto

lemma name_no_slash: "CHR ''/'' \<notin> set (getChunkName (se_uts env) ch)"
  using name_chars [of "CHR ''/''"] uts by auto

lemma old_path_no_chunk: "getChunkPath env d c = Some p \<Longrightarrow> getChunkPath env ch c = Some q \<Longrightarrow> p \<noteq> getOldChunkPath q v"
  using name_no_dot [of d] by (auto simp: getChunkPath_Some getOldChunkPath_def)

lemma isOld_chunk_path: "getChunkPath env ch c = Some p \<Longrightarrow> \<not> isOldChunks p"
  using name_no_dot [of ch] name_no_slash [of ch]
  by (auto simp: getChunkPath_Some isOldChunks_def takeWhile_sep)

end

lemma isOld_old_path:
  assumes "CHR ''/'' \<notin> set v"
  shows "isOldChunks (getOldChunkPath p v)"
  using assms by (simp add: isOldChunks_def getOldChunkPath_def takeWhile_sep)

lemma map_of_rename:
  assumes "fs_rename env a b fs = (fs', True)"
  shows "map_of fs' = (\<lambda>p. if p = b then map_of fs a else if p = a then None else map_of fs p) \<and> map_of fs a \<noteq> None"
proof -
  have *: "map_of (AList.update b f (AList.delete a fs)) = ((map_of fs)(a := None))(b \<mapsto> f)" for f
    by (simp add: update_conv' delete_conv')
  show ?thesis
    using assms by (auto simp: fs_rename_def * split: option.splits if_splits)
qed

lemma rename_missing: "map_of fs a = None \<Longrightarrow> fs_rename env a b fs = (fs, False)"
  by (simp add: fs_rename_def)

lemma rename_fail: "fs_rename env a b fs = (fs', False) \<Longrightarrow> fs' = fs"
  by (auto simp: fs_rename_def split: option.splits if_splits)

lemma fs_stored_same: "same_name env d e \<Longrightarrow> fs_stored env c d = fs_stored env c e"
  by (simp add: fs_stored_def getChunkPath_same)

lemma fs_stored_files:
  assumes "\<And>p. getChunkPath env d c = Some p \<Longrightarrow> map_of fs p = map_of (fc_files c) p"
  shows "fs_stored env (c\<lparr>fc_files := fs\<rparr>) d = fs_stored env c d"
  using assms by (auto simp: fs_stored_def split: option.splits)

subsection \<open>Writing a chunk\<close>

lemma backup_chunk:
  "backupChunk env p ch fs = (fs1, ch1, ok) \<Longrightarrow>
   same_name env ch1 ch \<and> c_data ch1 = c_data ch \<and> c_size ch1 = c_size ch \<and> c_md5 ch1 = c_md5 ch"
  by (auto simp: backupChunk_def Let_def same_name_def getChunkName_def split: if_splits prod.splits)

lemma chunk_bytes_cong: "c_data ch1 = c_data ch \<Longrightarrow> c_size ch1 = c_size ch \<Longrightarrow> chunk_bytes ch1 = chunk_bytes ch"
  by (simp add: chunk_bytes_def)

text \<open>The file operations of a write touch only the path of the chunk and of its old version.\<close>

lemma backup_files:
  assumes "backupChunk env p ch fs = (fs1, ch1, ok)" and "q \<noteq> p" and "\<And>v. q \<noteq> getOldChunkPath p v"
  shows "map_of fs1 q = map_of fs q"
proof (cases "map_of fs p")
  case None
  then show ?thesis using assms(1) by (simp add: backupChunk_def)
next
  case (Some f)
  then obtain v where r: "fs_rename env p (getOldChunkPath p v) fs = (fs1, ok)"
    using assms(1) by (auto simp: backupChunk_def Let_def split: prod.splits)
  show ?thesis
  proof (cases ok)
    case True
    with map_of_rename [of env p "getOldChunkPath p v" fs fs1] r assms(2,3) show ?thesis by simp
  next
    case False
    with r rename_fail [of env p "getOldChunkPath p v" fs fs1] show ?thesis by simp
  qed
qed

lemma map_of_write: "fs_write env p bs fs = (fs', n) \<Longrightarrow>
    n = min (length bs) (se_room env p) \<and> map_of fs' = (map_of fs)(p \<mapsto> \<lparr>ff_data = take n bs, ff_mtime = se_now env\<rparr>)"
  by (auto simp: fs_write_def Let_def update_conv')

text \<open>The possible outcomes of a write.\<close>

lemma fs_putChunk_cases:
  assumes "fs_putChunk env ch c = (c', ch', ok)"
  obtains (toolong) "getChunkPath env ch c = None" and "c' = c" and "ch' = ch" and "\<not> ok"
  | (nowrite) p fs1 ok1 where "getChunkPath env ch c = Some p" and "backupChunk env p ch (fc_files c) = (fs1, ch', ok1)"
      and "c' = c\<lparr>fc_files := fs1\<rparr>" and "\<not> ok"
  | (written) p fs1 ch1 n rd r where "getChunkPath env ch c = Some p" and "backupChunk env p ch (fc_files c) = (fs1, ch1, True)"
      and "n = min (length (chunk_bytes ch)) (se_room env p)"
      and "c' = c\<lparr>fc_files := AList.update p \<lparr>ff_data = take n (chunk_bytes ch), ff_mtime = se_now env\<rparr> fs1\<rparr>"
      and "readBack env ch1 c' = (rd, r)" and "ok \<longleftrightarrow> int n = c_size ch \<and> r" and "ch' = (if ok then copyMD5 rd ch1 else ch1)"
proof (cases "getChunkPath env ch c")
  case None
  with assms show thesis by (intro toolong) (simp_all add: fs_putChunk_def)
next
  case (Some p)
  obtain fs1 ch1 ok1 where b: "backupChunk env p ch (fc_files c) = (fs1, ch1, ok1)" by (cases "backupChunk env p ch (fc_files c)")
  note same = backup_chunk [OF b]
  show thesis
  proof (cases "ok1 \<and> se_openW env p")
    case False
    with assms Some b show thesis by (intro nowrite [OF Some, of fs1 ok1]) (auto simp: fs_putChunk_def split: bool.splits)
  next
    case True
    define n where "n = min (length (chunk_bytes ch)) (se_room env p)"
    define c2 where "c2 = c\<lparr>fc_files := AList.update p \<lparr>ff_data = take n (chunk_bytes ch), ff_mtime = se_now env\<rparr> fs1\<rparr>"
    obtain rd r where rd: "readBack env ch1 c2 = (rd, r)" by (cases "readBack env ch1 c2")
    have bytes: "chunk_bytes ch1 = chunk_bytes ch" using same chunk_bytes_cong by blast
    have "fs_putChunk env ch c = (if int n = c_size ch \<and> r then (c2, copyMD5 rd ch1, True) else (c2, ch1, False))"
      using Some b True same bytes rd
      by (simp add: fs_putChunk_def fs_write_def Let_def n_def [symmetric] c2_def [symmetric])
    with assms have "c' = c2" "ok \<longleftrightarrow> int n = c_size ch \<and> r" "ch' = (if ok then copyMD5 rd ch1 else ch1)"
      by (auto split: if_splits)
    with Some b True rd n_def c2_def show thesis by (intro written [of p fs1 ch1 n rd r]) simp_all
  qed
qed

lemma getChunk_eq:
  "getChunkPath env ch c = Some p \<Longrightarrow> map_of (fc_files c) p = Some f \<Longrightarrow>
   rd = ch\<lparr>c_size := int32 (int (length (ff_data f))), c_data := Some (ff_data f)\<rparr> \<Longrightarrow>
   fs_getChunk env ch skip c = (rd, skip \<or> \<not> se_verify env \<or> verifyMD5 (se_md5 env) rd) \<and>
   getChunkInternal env ch skip c = (rd, skip \<or> \<not> se_verify env \<or> verifyMD5 (se_md5 env) rd)"
  by (simp add: fs_getChunk_def getChunkInternal_def readChunkFile_def)

lemma getChunk_True:
  assumes "fs_getChunk env ch skip c = (ch', True)"
  obtains p f where "getChunkPath env ch c = Some p" and "map_of (fc_files c) p = Some f"
    and "ch' = ch\<lparr>c_size := int32 (int (length (ff_data f))), c_data := Some (ff_data f)\<rparr>"
  using assms
  by (auto simp: fs_getChunk_def getChunkInternal_def readChunkFile_def split: option.splits prod.splits bool.splits)

lemma take_chunk_bytes: "int n = c_size ch \<Longrightarrow> take n (chunk_bytes ch) = chunk_bytes ch"
proof -
  assume "int n = c_size ch"
  then have "n = nat (c_size ch)" by simp
  then show ?thesis by (simp add: chunk_bytes_def)
qed

context fs_env
begin

lemma put_other:
  assumes "fs_putChunk env ch c = (c', ch', ok)" and "\<not> same_name env d ch"
  shows "fs_stored env c' d = fs_stored env c d"
  using assms(1)
proof (cases rule: fs_putChunk_cases)
  case (nowrite p fs1 ok1)
  show ?thesis unfolding nowrite(3)
  proof (rule fs_stored_files)
    fix q assume q: "getChunkPath env d c = Some q"
    then have "q \<noteq> p" "q \<noteq> getOldChunkPath p v" for v
      using nowrite(1) assms(2) getChunkPath_inj old_path_no_chunk by blast+
    then show "map_of fs1 q = map_of (fc_files c) q" by (rule backup_files [OF nowrite(2)])
  qed
next
  case (written p fs1 ch1 n rd r)
  show ?thesis unfolding written(4)
  proof (rule fs_stored_files)
    fix q assume q: "getChunkPath env d c = Some q"
    then have "q \<noteq> p" "q \<noteq> getOldChunkPath p v" for v
      using written(1) assms(2) getChunkPath_inj old_path_no_chunk by blast+
    with backup_files [OF written(2)] show
      "map_of (AList.update p \<lparr>ff_data = take n (chunk_bytes ch), ff_mtime = se_now env\<rparr> fs1) q = map_of (fc_files c) q"
      by (simp add: update_conv')
  qed
qed simp

lemma put_same_name:
  assumes "fs_putChunk env ch c = (c', ch', True)" and "same_name env d ch"
  shows "fs_stored env c' d = Some (chunk_bytes ch)"
  using assms(1)
proof (cases rule: fs_putChunk_cases)
  case (written p fs1 ch1 n rd r)
  then have "getChunkPath env d c' = Some p" using getChunkPath_same [OF assms(2)] by simp
  with written show ?thesis by (simp add: fs_stored_def update_conv' take_chunk_bytes)
qed simp_all

lemma put_result:
  assumes "fs_putChunk env ch c = (c', ch', ok)"
  shows "same_name env ch' ch \<and> c_data ch' = c_data ch \<and> c_size ch' = c_size ch"
  using assms
proof (cases rule: fs_putChunk_cases)
  case toolong
  then show ?thesis by (simp add: same_name_def)
next
  case (nowrite p fs1 ok1)
  then show ?thesis using backup_chunk by blast
next
  case (written p fs1 ch1 n rd r)
  with backup_chunk [OF written(2)] show ?thesis
    by (simp add: same_name_def copyMD5_def getChunkName_def)
qed

lemma delete_stored:
  assumes "fs_deleteChunk env ch c = (c', ok)"
  shows "fs_stored env c' d = (if same_name env d ch then None else fs_stored env c d)"
proof (cases "getChunkPath env ch c")
  case None
  with assms have "c' = c" by (simp add: fs_deleteChunk_def)
  with None show ?thesis using getChunkPath_same [of env d ch c] by (auto simp: fs_stored_def)
next
  case (Some p)
  with assms have c': "c' = c\<lparr>fc_files := AList.delete p (fc_files c)\<rparr>" by (simp add: fs_deleteChunk_def)
  show ?thesis
  proof (cases "same_name env d ch")
    case True
    with getChunkPath_same [OF True, of c] Some c' show ?thesis by (simp add: fs_stored_def delete_conv')
  next
    case False
    have "fs_stored env c' d = fs_stored env c d" unfolding c'
      by (rule fs_stored_files) (use False Some getChunkPath_inj in \<open>auto simp: delete_conv'\<close>)
    with False show ?thesis by simp
  qed
qed

end

lemma readBack_eq:
  assumes "getChunkPath env ch c = Some p" and "map_of (fc_files c) p = Some f"
    and "rd = (chunk_copyMeta ch True chunk_reset)\<lparr>c_size := int32 (int (length (ff_data f))), c_data := Some (ff_data f)\<rparr>"
  shows "readBack env ch c = (fst (computeMD5 (se_md5 env) rd), \<not> se_verify env \<or> verifyMD5 (se_md5 env) rd)"
proof -
  have "getChunkPath env (chunk_copyMeta ch True chunk_reset) c = Some p" using assms(1) by (simp add: getChunkPath_def)
  from getChunk_eq [OF this assms(2,3), of False] show ?thesis by (auto simp: readBack_def)
qed

lemma fs_put_get:
  assumes "fs_putChunk env ch c = (c', ch', True)" and "c_size ch < 2147483648"
  shows "(\<exists>got. fs_getChunk env ch' skip c' = (got, True) \<and> c_data got = Some (chunk_bytes ch) \<and> c_size got = c_size ch) \<and>
     (0 < c_size ch \<longrightarrow> c_md5 ch' = se_md5 env (chunk_bytes ch))"
  using assms(1)
proof (cases rule: fs_putChunk_cases)
  case (written p fs1 ch1 n rd r)
  let ?b = "chunk_bytes ch" and ?f = "\<lparr>ff_data = chunk_bytes ch, ff_mtime = se_now env\<rparr>"
  note ch1 = backup_chunk [OF written(2)]
  have n: "int n = c_size ch" using written(6) by simp
  then have len: "int (length ?b) = c_size ch" using written(3) by (simp add: chunk_bytes_def)
  have path: "getChunkPath env ch1 c' = Some p" using getChunkPath_same [of env ch1 ch c] ch1 written(1,4) by simp
  have fl: "map_of (fc_files c') p = Some ?f" using written(4) n by (simp add: update_conv' take_chunk_bytes)
  define rd0 where "rd0 = (chunk_copyMeta ch1 True chunk_reset)\<lparr>c_size := int32 (int (length ?b)), c_data := Some ?b\<rparr>"
  have bytes: "chunk_bytes rd0 = ?b" "c_size rd0 = c_size ch" using len assms(2) by (simp_all add: rd0_def chunk_bytes_def)
  have "readBack env ch1 c' = (fst (computeMD5 (se_md5 env) rd0), \<not> se_verify env \<or> verifyMD5 (se_md5 env) rd0)"
    by (rule readBack_eq [OF path fl]) (simp add: rd0_def)
  with written have rd: "rd = fst (computeMD5 (se_md5 env) rd0)" and v: "\<not> se_verify env \<or> verifyMD5 (se_md5 env) rd0" by auto
  have md5: "c_md5 ch' = (if 0 < c_size ch then se_md5 env ?b else c_md5 ch)"
    using written(7) rd bytes ch1 by (simp add: copyMD5_def computeMD5_def rd0_def)
  have path': "getChunkPath env ch' c' = Some p"
    using path getChunkPath_same [of env ch' ch1 c'] written(7) by (simp add: copyMD5_def same_name_def getChunkName_def)
  define got where "got = ch'\<lparr>c_size := int32 (int (length (ff_data ?f))), c_data := Some (ff_data ?f)\<rparr>"
  have gb: "chunk_bytes got = ?b" using len assms(2) by (simp add: got_def chunk_bytes_def)
  have "verifyMD5 (se_md5 env) got" if "se_verify env"
  proof (cases "0 < c_size ch")
    case True
    then show ?thesis using md5 gb by (simp add: verifyMD5_def got_def)
  next
    case False
    then show ?thesis using md5 gb v that bytes ch1 by (simp add: verifyMD5_def got_def rd0_def)
  qed
  with getChunk_eq [OF path' fl got_def, of skip] have "fs_getChunk env ch' skip c' = (got, True)" by auto
  moreover have "c_data got = Some ?b" "c_size got = c_size ch" using len assms(2) by (simp_all add: got_def)
  ultimately show ?thesis using md5 by auto
qed simp_all

sublocale fs_env \<subseteq> fs: chunk_container "fs_putChunk env" "fs_getChunk env" "fs_deleteChunk env" "fs_stored env" "same_name env"
proof (unfold_locales, goal_cases)
  case (1 ch c c' ch' d)
  then show ?case using put_other put_same_name by simp
next
  case (2 ch c c' ch' d)
  then show ?case using put_other by blast
next
  case (3 ch c c' ch' ok)
  then show ?case using put_result chunk_bytes_cong by blast
next
  case (4 ch skip c ch')
  then show ?case by (rule getChunk_True) (simp add: fs_stored_def same_name_def getChunkName_def)
next
  case (5 c ch bs)
  then show ?case using getChunk_eq [of env ch c] by (auto simp: fs_stored_def split: option.splits)
next
  case (6 c ch bs c' skip)
  then show ?case
    by (auto simp: fs_stored_def fs_getChunk_def getChunkInternal_def readChunkFile_def split: option.splits)
next
  case (7 ch c c' ch' skip)
  then show ?case using fs_put_get [of env ch c c' ch' skip] by auto
next
  case (8 ch c c' ok d)
  then show ?case by (rule delete_stored)
next
  case (12 d e c)
  then show ?case by (rule fs_stored_same)
qed (simp_all add: same_name_def)

text \<open>
  C29.  Write, then read.  When the file system container reports that a chunk was written, reading the
  chunk returns success and exactly its bytes and size, with or without verification of checksums, the
  checksum returned is that of the bytes, and every chunk with another name is stored as before.
\<close>

theorem fs_put_then_get:
  assumes "fs_env env" and "fs_putChunk env ch c = (c', ch', True)" and "c_size ch < 2147483648"
  shows "(\<exists>got. fs_getChunk env ch' skip c' = (got, True) \<and> c_data got = Some (chunk_bytes ch) \<and> c_size got = c_size ch) \<and>
     (0 < c_size ch \<longrightarrow> c_md5 ch' = se_md5 env (chunk_bytes ch)) \<and>
     (\<forall>d. \<not> same_name env d ch \<longrightarrow> fs_stored env c' d = fs_stored env c d)"
  using fs_put_get [OF assms(2,3), of skip] fs_env.put_other [OF assms(1,2)] by blast

subsection \<open>Going back to the previous version\<close>

lemma version_not_zero:
  assumes "0 < now"
  shows "take (CHUNK_VERSION_MAX_LEN - 1) (int_to_string now) \<noteq> ''0''"
proof
  assume eq: "take (CHUNK_VERSION_MAX_LEN - 1) (int_to_string now) = ''0''"
  then have "int_to_string now = ''0''"
    by (cases "int_to_string now"; cases "tl (int_to_string now)") (auto simp: CHUNK_VERSION_MAX_LEN_def)
  moreover have "int_to_string 0 = ''0''" by code_simp
  ultimately show False using assms by (metis int_to_string_inject less_irrefl)
qed

lemma fs_rename_ok:
  assumes "se_rename env a b" and "map_of fs a = Some f"
  shows "\<exists>fs'. fs_rename env a b fs = (fs', True) \<and> map_of fs' = (\<lambda>p. if p = b then Some f else if p = a then None else map_of fs p)"
proof -
  obtain fs' where r: "fs_rename env a b fs = (fs', True)" using assms by (simp add: fs_rename_def)
  from map_of_rename [OF r] r assms(2) show ?thesis by auto
qed

lemma fs_revert_files:
  assumes "getChunkPath env ch c = Some p" and "\<And>a b. se_rename env a b" and "ov = getOldChunkPath p (c_chunkVersion ch)"
    and "t = getOldChunkPath p ''0''" and "ov \<noteq> t" and "map_of (fc_files c) p = Some new" and "map_of (fc_files c) ov = Some old"
  shows "\<exists>fs. fs_revertChunk env ch c = (c\<lparr>fc_files := fs\<rparr>, True) \<and>
     map_of fs = (\<lambda>q. if q = p then Some old else if q = ov \<or> q = t then None else map_of (fc_files c) q)"
proof -
  have ne: "ov \<noteq> p" "t \<noteq> p" by (simp_all add: assms(3,4) getOldChunkPath_def)
  obtain fs1 where r1: "fs_rename env p t (fc_files c) = (fs1, True)"
      "map_of fs1 = (\<lambda>q. if q = t then Some new else if q = p then None else map_of (fc_files c) q)"
    using fs_rename_ok [of env p t "fc_files c", OF assms(2,6)] by blast
  then have "map_of fs1 ov = Some old" using assms(5,7) ne by simp
  from fs_rename_ok [of env ov p fs1, OF assms(2) this]
  obtain fs2 where r2: "fs_rename env ov p fs1 = (fs2, True)" "map_of fs2 = (\<lambda>q. if q = p then Some old else if q = ov then None else map_of fs1 q)"
    by blast
  have "fs_revertChunk env ch c = (c\<lparr>fc_files := AList.delete t fs2\<rparr>, True)"
    using assms(1,3,4) r1(1) r2(1) by (simp add: fs_revertChunk_def Let_def)
  moreover have "map_of (AList.delete t fs2) = (\<lambda>q. if q = p then Some old else if q = ov \<or> q = t then None else map_of (fc_files c) q)"
    using ne r1(2) r2(2) by (auto simp: delete_conv')
  ultimately show ?thesis by blast
qed

text \<open>What a write over an existing chunk leaves in the files.\<close>

lemma fs_put_over:
  assumes "fs_putChunk env ch c = (c', ch', True)" and "getChunkPath env ch c = Some p" and "map_of (fc_files c) p = Some old"
  shows "\<exists>new. c_chunkVersion ch' = take (CHUNK_VERSION_MAX_LEN - 1) (int_to_string (se_now env)) \<and> fc_dir c' = fc_dir c \<and>
     map_of (fc_files c') = (\<lambda>q. if q = p then Some new else if q = getOldChunkPath p (c_chunkVersion ch') then Some old
        else map_of (fc_files c) q)"
  using assms(1)
proof (cases rule: fs_putChunk_cases)
  case (written p' fs1 ch1 n rd r)
  have p': "p' = p" using written(1) assms(2) by simp
  let ?ver = "take (CHUNK_VERSION_MAX_LEN - 1) (int_to_string (se_now env))"
  have b: "ch1 = ch\<lparr>c_chunkVersion := ?ver\<rparr>" "fs_rename env p (getOldChunkPath p ?ver) (fc_files c) = (fs1, True)"
    using written(2) assms(3) p' by (auto simp: backupChunk_def Let_def split: prod.splits)
  have v: "c_chunkVersion ch' = ?ver" using written(7) b(1) by (simp add: copyMD5_def)
  have "map_of fs1 = (\<lambda>q. if q = getOldChunkPath p ?ver then Some old else if q = p then None else map_of (fc_files c) q)"
    using map_of_rename [OF b(2)] assms(3) by (simp cong: if_cong)
  with written(4) p' v show ?thesis by (auto simp: update_conv' fun_eq_iff)
qed simp_all

text \<open>
  C18.  A write can be undone.  After a chunk was written over an earlier version, reverting to the version
  noted in the chunk succeeds, when renames are permitted, and every chunk of the container is stored as it
  was before the write.
\<close>

theorem fs_put_then_revert:
  assumes "fs_env env" and "fs_putChunk env ch c = (c', ch', True)" and "fs_stored env c ch \<noteq> None" and "0 < se_now env"
    and "\<And>a b. se_rename env a b"
  shows "\<exists>c''. fs_revertChunk env ch' c' = (c'', True) \<and> (\<forall>d. fs_stored env c'' d = fs_stored env c d)"
proof -
  obtain p old where p: "getChunkPath env ch c = Some p" "map_of (fc_files c) p = Some old"
    using assms(3) by (auto simp: fs_stored_def split: option.splits)
  obtain new where put: "c_chunkVersion ch' = take (CHUNK_VERSION_MAX_LEN - 1) (int_to_string (se_now env))" "fc_dir c' = fc_dir c"
      "map_of (fc_files c') = (\<lambda>q. if q = p then Some new else if q = getOldChunkPath p (c_chunkVersion ch') then Some old
        else map_of (fc_files c) q)"
    using fs_put_over [OF assms(2) p] by (elim exE conjE) (rule that)
  let ?o = "getOldChunkPath p (c_chunkVersion ch')" and ?t = "getOldChunkPath p ''0''"
  have path: "getChunkPath env ch' c' = Some p"
    using fs_env.put_result [OF assms(1,2)] p(1) put(2) by (simp add: getChunkPath_def same_name_def)
  have ne: "?o \<noteq> ?t" "?o \<noteq> p" using version_not_zero [OF assms(4)] put(1) by (simp_all add: getOldChunkPath_def)
  obtain fs where rev: "fs_revertChunk env ch' c' = (c'\<lparr>fc_files := fs\<rparr>, True)"
      "map_of fs = (\<lambda>q. if q = p then Some old else if q = ?o \<or> q = ?t then None else map_of (fc_files c') q)"
    using fs_revert_files [OF path assms(5) refl refl ne(1), of new old] put(3) ne(2) by auto
  have "fs_stored env (c'\<lparr>fc_files := fs\<rparr>) d = fs_stored env c d" for d
  proof (cases "getChunkPath env d c")
    case (Some q)
    have "q \<noteq> ?o" "q \<noteq> ?t" using fs_env.old_path_no_chunk [OF assms(1) Some p(1)] by blast+
    then have "map_of fs q = map_of (fc_files c) q" unfolding rev(2) put(3) using p(2) by simp
    with Some put(2) show ?thesis by (simp add: fs_stored_def getChunkPath_def Let_def split: if_splits)
  qed (use put(2) in \<open>simp add: fs_stored_def getChunkPath_def Let_def\<close>)
  with rev(1) show ?thesis by blast
qed

subsection \<open>Removal of old versions\<close>

lemma cleanUp_files:
  "fc_files (cleanUpOldChunks now c) = filter (\<lambda>(p, f). \<not> (isOldChunks p \<and> ff_mtime f + 600 \<le> now)) (fc_files c)"
  by (simp add: cleanUpOldChunks_def)

lemma map_of_filter_key: "(\<And>f. Q (p, f)) \<Longrightarrow> map_of (filter Q xs) p = map_of xs p"
  by (induction xs) auto

lemma map_of_filter_gone: "(\<And>f. (p, f) \<in> set xs \<Longrightarrow> \<not> Q (p, f)) \<Longrightarrow> map_of (filter Q xs) p = None"
  by (auto simp: map_of_eq_None_iff)

text \<open>
  C33.  The thread that removes old versions does no harm to current chunks: whenever it runs, every chunk
  is stored as before and the usage counted for the container, which leaves out old versions, is the same.
\<close>

theorem fs_clean_up_keeps_chunks:
  assumes "fs_env env"
  shows "fs_stored env (cleanUpOldChunks now c) d = fs_stored env c d \<and> getTotalSize (cleanUpOldChunks now c) = getTotalSize c"
proof
  show "fs_stored env (cleanUpOldChunks now c) d = fs_stored env c d"
    unfolding cleanUpOldChunks_def
    by (rule fs_stored_files, rule map_of_filter_key) (use fs_env.isOld_chunk_path [OF assms] in auto)
  let ?keep = "\<lambda>(p, f). \<not> (isOldChunks p \<and> ff_mtime f + 600 \<le> now)"
  have eq: "filter (\<lambda>(p, f). \<not> isOldChunks p) (filter ?keep fs) = filter (\<lambda>(p, f). \<not> isOldChunks p) fs" for fs
    by (induction fs) auto
  show "getTotalSize (cleanUpOldChunks now c) = getTotalSize c" unfolding getTotalSize_def cleanUp_files eq ..
qed

text \<open>
  The ten minutes during which an old version is kept count from the time the old version was
  written, not from the time it was replaced: when a chunk that is ten minutes old is overwritten, a clean-up
  in the same second removes the version just saved, and the write cannot be reverted.
\<close>

theorem fs_old_version_lost:
  assumes "fs_env env" and "fs_putChunk env ch c = (c', ch', True)" and "getChunkPath env ch c = Some p"
    and "map_of (fc_files c) p = Some old" and "ff_mtime old + 600 \<le> se_now env" and "0 < se_now env"
    and "distinct (map fst (fc_files c))"
  shows "snd (fs_revertChunk env ch' (cleanUpOldChunks (se_now env) c')) = False"
proof -
  let ?v = "take (CHUNK_VERSION_MAX_LEN - 1) (int_to_string (se_now env))" and ?c = "cleanUpOldChunks (se_now env) c'"
  obtain new where put: "c_chunkVersion ch' = ?v" "fc_dir c' = fc_dir c"
      "map_of (fc_files c') = (\<lambda>q. if q = p then Some new else if q = getOldChunkPath p (c_chunkVersion ch') then Some old
        else map_of (fc_files c) q)"
    using fs_put_over [OF assms(2-4)] by (elim exE conjE) (rule that)
  let ?o = "getOldChunkPath p ?v" and ?t = "getOldChunkPath p ''0''"
  have path: "getChunkPath env ch' ?c = Some p"
    using fs_env.put_result [OF assms(1,2)] assms(3) put(2) by (simp add: getChunkPath_def same_name_def cleanUpOldChunks_def)
  have "CHR ''/'' \<notin> set ?v" using int_to_string_chars [of "CHR ''/''"] by (auto dest!: in_set_takeD)
  then have isold: "isOldChunks ?o" by (rule isOld_old_path)
  have ne: "?o \<noteq> p" "?o \<noteq> ?t" using version_not_zero [OF assms(6)] by (simp_all add: getOldChunkPath_def)
  have dist: "distinct (map fst (fc_files c'))"
    using assms(2,7)
    by (cases rule: fs_putChunk_cases [where ok = True])
      (auto simp: backupChunk_def fs_rename_def Let_def distinct_update distinct_delete split: if_splits option.splits prod.splits)
  have "map_of (fc_files ?c) ?o = None"
    unfolding cleanUp_files
  proof (rule map_of_filter_gone)
    fix f assume "(?o, f) \<in> set (fc_files c')"
    then have "map_of (fc_files c') ?o = Some f" using dist by simp
    with put ne assms(5) isold show "\<not> (case (?o, f) of (p, f) \<Rightarrow> \<not> (isOldChunks p \<and> ff_mtime f + 600 \<le> se_now env))" by simp
  qed
  then have "map_of (fst (fs_rename env p ?t (fc_files ?c))) ?o = None"
    using map_of_rename [of env p ?t "fc_files ?c"] rename_fail [of env p ?t "fc_files ?c"] ne
    by (cases "fs_rename env p ?t (fc_files ?c)"; cases "snd (fs_rename env p ?t (fc_files ?c))") auto
  from rename_missing [OF this, of env p] show ?thesis using path put(1) by (simp add: fs_revertChunk_def Let_def)
qed

subsection \<open>A concrete container\<close>

definition example_env :: "int \<Rightarrow> storage_env" where
  "example_env now = \<lparr>se_now = now, se_verify = True, se_md5 = (\<lambda>bs. [of_nat (length bs)]), se_uts = (\<lambda>u. nat_to_string (unat u)),
     se_openW = (\<lambda>p. True), se_room = (\<lambda>p. 100), se_rename = (\<lambda>a b. True), se_copyBlock = 4\<rparr>"

interpretation example_fs: fs_env "example_env now"
  using nat_to_string_digits by unfold_locales (auto simp: example_env_def dest: nat_to_string_digits)

definition example_chunk :: "byte list \<Rightarrow> chunk" where
  "example_chunk bs = (setId 1 7 0 chunk_reset)\<lparr>c_data := Some bs, c_size := int (length bs), c_md5 := [of_nat (length bs)]\<rparr>"

definition example_container :: fs_container where
  "example_container = fst (fs_putChunk (example_env 100) (example_chunk [5, 6]) (newFsContainer 3 ''/data'' 1000 []))"

lemma example_put:
  "\<exists>c' ch'. fs_putChunk (example_env 100) (example_chunk [5, 6]) (newFsContainer 3 ''/data'' 1000 []) = (c', ch', True)"
  "\<exists>c' ch'. fs_putChunk (example_env 700) (example_chunk [7, 8, 9]) example_container = (c', ch', True)"
proof -
  have "snd (snd (fs_putChunk (example_env 100) (example_chunk [5, 6]) (newFsContainer 3 ''/data'' 1000 [])))"
    "snd (snd (fs_putChunk (example_env 700) (example_chunk [7, 8, 9]) example_container))"
    by code_simp+
  then show "\<exists>c' ch'. fs_putChunk (example_env 100) (example_chunk [5, 6]) (newFsContainer 3 ''/data'' 1000 []) = (c', ch', True)"
    and "\<exists>c' ch'. fs_putChunk (example_env 700) (example_chunk [7, 8, 9]) example_container = (c', ch', True)"
    by (metis prod.collapse)+
qed

lemma example_stored: "fs_stored (example_env 700) example_container (example_chunk [7, 8, 9]) = Some [5, 6]"
  by code_simp

theorem fs_put_then_get_witness:
  "\<exists>c' ch' got. fs_putChunk (example_env 100) (example_chunk [5, 6]) (newFsContainer 3 ''/data'' 1000 []) = (c', ch', True) \<and>
     fs_getChunk (example_env 100) ch' False c' = (got, True) \<and> c_data got = Some [5, 6]"
proof -
  obtain c' ch' where put: "fs_putChunk (example_env 100) (example_chunk [5, 6]) (newFsContainer 3 ''/data'' 1000 []) = (c', ch', True)"
    using example_put(1) by blast
  have "c_size (example_chunk [5, 6]) < 2147483648" "chunk_bytes (example_chunk [5, 6]) = [5, 6]"
    by (simp_all add: example_chunk_def chunk_bytes_def)
  with fs_put_then_get [OF example_fs.fs_env_axioms put, of False] put show ?thesis by auto
qed

theorem fs_put_then_revert_witness:
  "\<exists>c' ch' c''. fs_putChunk (example_env 700) (example_chunk [7, 8, 9]) example_container = (c', ch', True) \<and>
     fs_revertChunk (example_env 700) ch' c' = (c'', True) \<and> fs_stored (example_env 700) c'' (example_chunk [7, 8, 9]) = Some [5, 6]"
proof -
  obtain c' ch' where put: "fs_putChunk (example_env 700) (example_chunk [7, 8, 9]) example_container = (c', ch', True)"
    using example_put(2) by blast
  have "fs_stored (example_env 700) example_container (example_chunk [7, 8, 9]) \<noteq> None" "0 < se_now (example_env 700)"
    "se_rename (example_env 700) a b" for a b using example_stored by (simp_all add: example_env_def)
  from fs_put_then_revert [OF example_fs.fs_env_axioms put this] put example_stored show ?thesis by metis
qed

theorem fs_clean_up_keeps_chunks_witness:
  "fs_env (example_env 700) \<and>
   fs_stored (example_env 700) (cleanUpOldChunks 700 example_container) (example_chunk [7, 8, 9]) = Some [5, 6]"
  using fs_clean_up_keeps_chunks [OF example_fs.fs_env_axioms [of 700], of 700 example_container "example_chunk [7, 8, 9]"]
    example_fs.fs_env_axioms example_stored by simp

theorem fs_old_version_lost_witness:
  "\<exists>c' ch'. fs_putChunk (example_env 700) (example_chunk [7, 8, 9]) example_container = (c', ch', True) \<and>
     snd (fs_revertChunk (example_env 700) ch' (cleanUpOldChunks 700 c')) = False"
proof -
  obtain c' ch' where put: "fs_putChunk (example_env 700) (example_chunk [7, 8, 9]) example_container = (c', ch', True)"
    using example_put(2) by blast
  have "Option.bind (getChunkPath (example_env 700) (example_chunk [7, 8, 9]) example_container)
      (\<lambda>p. map_option ff_mtime (map_of (fc_files example_container) p)) = Some 100"
    and dist: "distinct (map fst (fc_files example_container))"
    by code_simp+
  then obtain p old where p: "getChunkPath (example_env 700) (example_chunk [7, 8, 9]) example_container = Some p"
      "map_of (fc_files example_container) p = Some old" "ff_mtime old = 100" by (auto simp: bind_eq_Some_conv)
  from fs_old_version_lost [OF example_fs.fs_env_axioms put p(1,2) _ _ dist] p(3) put show ?thesis
    by (simp add: example_env_def)
qed

end
