(* ===== verification/Container_Manager.thy ===== *)
theory Container_Manager
  imports Fs_Correct RS_Code
begin

text \<open>
  The container manager of an agent (\<^verbatim>\<open>src/agent/container_manager.cc\<close>): requests for several chunks, each
  with the container that holds it.  The virtual methods of \<^verbatim>\<open>Container\<close> are the record \<open>container_ops\<close>, so
  the definitions hold for every kind of container; \<open>fs_ops\<close> are the methods of the file system container.
  A lookup of a container that does not exist raises an exception in the code, which every loop catches.
  The signals to the threads that refresh the usage have no counterpart here.
\<close>

subsection \<open>Containers\<close>

record 'c container_ops =
  k_putChunk :: "chunk \<Rightarrow> 'c \<Rightarrow> 'c \<times> chunk \<times> bool"
  k_getChunk :: "chunk \<Rightarrow> bool \<Rightarrow> 'c \<Rightarrow> chunk \<times> bool"
  k_deleteChunk :: "chunk \<Rightarrow> 'c \<Rightarrow> 'c \<times> bool"
  k_copyChunk :: "chunk \<Rightarrow> chunk \<Rightarrow> 'c \<Rightarrow> 'c \<times> chunk \<times> bool"
  k_moveChunk :: "chunk \<Rightarrow> chunk \<Rightarrow> 'c \<Rightarrow> 'c \<times> chunk \<times> bool"
  k_hasChunk :: "chunk \<Rightarrow> 'c \<Rightarrow> bool"
  k_revertChunk :: "chunk \<Rightarrow> 'c \<Rightarrow> 'c \<times> bool"
  k_verifyChunk :: "chunk \<Rightarrow> 'c \<Rightarrow> bool"

definition fs_ops :: "storage_env \<Rightarrow> fs_container container_ops" where
  "fs_ops env = \<lparr>k_putChunk = fs_putChunk env, k_getChunk = fs_getChunk env, k_deleteChunk = fs_deleteChunk env,
     k_copyChunk = fs_copyChunk env, k_moveChunk = fs_moveChunk env, k_hasChunk = fs_hasChunk env,
     k_revertChunk = fs_revertChunk env, k_verifyChunk = fs_verifyChunk env\<rparr>"

type_synonym 'c containers = "int \<Rightarrow> 'c option"

text \<open>The constructor terminates the program when two containers have the same id.\<close>

definition newContainerManager :: "(int \<times> 'c) list \<Rightarrow> 'c containers option" where
  "newContainerManager cs = (if distinct (map fst cs) then Some (map_of cs) else None)"

definition getContainerUsage :: "fs_container list \<Rightarrow> (nat \<times> nat) list" where
  "getContainerUsage cs = map (\<lambda>c. (fc_usage c, fc_capacity c)) cs"

definition getContainerIds :: "fs_container list \<Rightarrow> int list" where
  "getContainerIds cs = map fc_id cs"

subsection \<open>Writing\<close>

text \<open>
  The result of the loop: the containers, the chunks, the number of chunks written and whether all were.
\<close>

fun put_loop ::
  "'c container_ops \<Rightarrow> bool \<Rightarrow> md5_fun \<Rightarrow> int list \<Rightarrow> chunk list \<Rightarrow> 'c containers \<Rightarrow> 'c containers \<times> chunk list \<times> nat \<times> bool" where
  "put_loop K verify md5 (cid # cids) (ch # chs) m =
     (if verify \<and> \<not> verifyMD5 md5 ch then (m, ch # chs, 0, False)
      else case m cid of
        None \<Rightarrow> (m, ch # chs, 0, False)
      | Some c \<Rightarrow> (case k_putChunk K ch c of
            (c', ch', False) \<Rightarrow> (m(cid \<mapsto> c'), ch' # chs, 0, False)
          | (c', ch', True) \<Rightarrow>
              let (m', chs', n, ok) = put_loop K verify md5 cids chs (m(cid \<mapsto> c')) in (m', ch' # chs', n + 1, ok)))"
| "put_loop K verify md5 cids chs m = (m, chs, 0, True)"

definition delete_in :: "'c container_ops \<Rightarrow> chunk \<Rightarrow> int \<Rightarrow> 'c containers \<Rightarrow> 'c containers" where
  "delete_in K ch cid m = (case m cid of None \<Rightarrow> m | Some c \<Rightarrow> m(cid \<mapsto> fst (k_deleteChunk K ch c)))"

text \<open>After a failure at position \<open>n\<close> the code deletes chunk \<open>n\<close>, not chunk \<open>j\<close>, from container \<open>j\<close>.\<close>

definition putChunks ::
  "'c container_ops \<Rightarrow> bool \<Rightarrow> md5_fun \<Rightarrow> int list \<Rightarrow> chunk list \<Rightarrow> 'c containers \<Rightarrow> 'c containers \<times> chunk list \<times> bool" where
  "putChunks K verify md5 cids chs m =
     (case put_loop K verify md5 cids chs m of
        (m', chs', n, True) \<Rightarrow> (m', chs', True)
      | (m', chs', n, False) \<Rightarrow> (foldl (\<lambda>m j. delete_in K (chs' ! n) (cids ! j) m) m' [0..<n], chs', False))"

subsection \<open>Reading and deleting\<close>

fun getChunks :: "'c container_ops \<Rightarrow> int list \<Rightarrow> chunk list \<Rightarrow> 'c containers \<Rightarrow> chunk list \<times> bool" where
  "getChunks K (cid # cids) (ch # chs) m =
     (case m cid of
        None \<Rightarrow> (ch # chs, False)
      | Some c \<Rightarrow> (case k_getChunk K ch False c of
            (ch', False) \<Rightarrow> (ch' # chs, False)
          | (ch', True) \<Rightarrow> let (r, ok) = getChunks K cids chs m in (ch' # r, ok)))"
| "getChunks K cids chs m = (chs, True)"

fun deleteChunks :: "'c container_ops \<Rightarrow> int list \<Rightarrow> chunk list \<Rightarrow> 'c containers \<Rightarrow> 'c containers \<times> bool" where
  "deleteChunks K (cid # cids) (ch # chs) m = deleteChunks K cids chs (delete_in K ch cid m)"
| "deleteChunks K cids chs m = (m, True)"

subsection \<open>Copying and moving\<close>

text \<open>\<open>dn\<close> are the chunks done so far, which are undone when a container is missing.\<close>

fun copy_loop ::
  "'c container_ops \<Rightarrow> (int \<times> chunk) list \<Rightarrow> int list \<Rightarrow> chunk list \<Rightarrow> chunk list \<Rightarrow> bool \<Rightarrow> 'c containers
   \<Rightarrow> 'c containers \<times> chunk list \<times> bool" where
  "copy_loop K dn (cid # cids) (s # ss) (d # ds) ret m =
     (case m cid of
        None \<Rightarrow> (foldl (\<lambda>m (cj, dj). delete_in K dj cj m) m dn, d # ds, False)
      | Some c \<Rightarrow>
          let (c', d', ok) = k_copyChunk K s d c;
              (m', ds', r) = copy_loop K (dn @ [(cid, d')]) cids ss ds (ok \<and> ret) (m(cid \<mapsto> c'))
          in (m', d' # ds', r))"
| "copy_loop K dn cids ss ds ret m = (m, ds, ret)"

definition copyChunks ::
  "'c container_ops \<Rightarrow> int list \<Rightarrow> chunk list \<Rightarrow> chunk list \<Rightarrow> 'c containers \<Rightarrow> 'c containers \<times> chunk list \<times> bool" where
  "copyChunks K cids srcs dsts m = copy_loop K [] cids srcs dsts True m"

definition move_in :: "'c container_ops \<Rightarrow> chunk \<Rightarrow> chunk \<Rightarrow> int \<Rightarrow> 'c containers \<Rightarrow> 'c containers" where
  "move_in K s d cid m = (case m cid of None \<Rightarrow> m | Some c \<Rightarrow> m(cid \<mapsto> fst (k_moveChunk K s d c)))"

fun move_loop ::
  "'c container_ops \<Rightarrow> (int \<times> chunk \<times> chunk) list \<Rightarrow> int list \<Rightarrow> chunk list \<Rightarrow> chunk list \<Rightarrow> bool \<Rightarrow> 'c containers
   \<Rightarrow> 'c containers \<times> chunk list \<times> bool" where
  "move_loop K dn (cid # cids) (s # ss) (d # ds) ret m =
     (case m cid of
        None \<Rightarrow> (foldl (\<lambda>m (cj, sj, dj). move_in K dj sj cj m) m dn, d # ds, False)
      | Some c \<Rightarrow>
          let (c', d', ok) = k_moveChunk K s d c;
              (m', ds', r) = move_loop K (dn @ [(cid, s, d')]) cids ss ds (ok \<and> ret) (m(cid \<mapsto> c'))
          in (m', d' # ds', r))"
| "move_loop K dn cids ss ds ret m = (m, ds, ret)"

definition moveChunks ::
  "'c container_ops \<Rightarrow> int list \<Rightarrow> chunk list \<Rightarrow> chunk list \<Rightarrow> 'c containers \<Rightarrow> 'c containers \<times> chunk list \<times> bool" where
  "moveChunks K cids srcs dsts m = move_loop K [] cids srcs dsts True m"

subsection \<open>Checking\<close>

text \<open>A container that does not exist counts as one that has the chunk.\<close>

fun hasChunks :: "'c container_ops \<Rightarrow> int list \<Rightarrow> chunk list \<Rightarrow> 'c containers \<Rightarrow> bool" where
  "hasChunks K (cid # cids) (ch # chs) m =
     (case m cid of
        None \<Rightarrow> hasChunks K cids chs m
      | Some c \<Rightarrow> k_hasChunk K ch c \<and> hasChunks K cids chs m)"
| "hasChunks K cids chs m = True"

text \<open>
  The corrupted chunks are moved to the front of the array; their number is the result, or -1 when a
  container does not exist.
\<close>

fun verify_loop :: "'c container_ops \<Rightarrow> int list \<Rightarrow> 'c containers \<Rightarrow> nat list \<Rightarrow> nat \<Rightarrow> chunk list \<Rightarrow> chunk list \<times> int" where
  "verify_loop K cids m [] num chs = (chs, int num)"
| "verify_loop K cids m (i # is) num chs =
     (case m (cids ! i) of
        None \<Rightarrow> (chs, -1)
      | Some c \<Rightarrow>
          if k_verifyChunk K (chs ! i) c then verify_loop K cids m is num chs
          else verify_loop K cids m is (num + 1)
                 (if i = num then chs else chs[num := chs ! i, i := chunk_release (chs ! i)]))"

definition verifyChunks :: "'c container_ops \<Rightarrow> int list \<Rightarrow> chunk list \<Rightarrow> 'c containers \<Rightarrow> chunk list \<times> int" where
  "verifyChunks K cids chs m = verify_loop K cids m [0..<length chs] 0 chs"

fun revertChunks :: "'c container_ops \<Rightarrow> int list \<Rightarrow> chunk list \<Rightarrow> 'c containers \<Rightarrow> 'c containers \<times> bool" where
  "revertChunks K (cid # cids) (ch # chs) m =
     (case m cid of
        None \<Rightarrow> revertChunks K cids chs m
      | Some c \<Rightarrow> (case k_revertChunk K ch c of
            (c', False) \<Rightarrow> (m(cid \<mapsto> c'), False)
          | (c', True) \<Rightarrow> revertChunks K cids chs (m(cid \<mapsto> c'))))"
| "revertChunks K cids chs m = (m, True)"

subsection \<open>Encoding\<close>

text \<open>The chunks read for a partial encoding, without checking their checksums.\<close>

fun raw_chunks :: "'c container_ops \<Rightarrow> int list \<Rightarrow> chunk list \<Rightarrow> 'c containers \<Rightarrow> chunk list option" where
  "raw_chunks K (cid # cids) (ch # chs) m =
     (case m cid of
        None \<Rightarrow> None
      | Some c \<Rightarrow>
          let raw = (setId (c_namespaceId ch) (c_fuuid ch) (c_chunkId ch) chunk_reset)\<lparr>c_fileVersion := c_fileVersion ch\<rparr>
          in (case k_getChunk K raw True c of
                (r, False) \<Rightarrow> None
              | (r, True) \<Rightarrow> map_option (\<lambda>rs. r # rs) (raw_chunks K cids chs m)))"
| "raw_chunks K cids chs m = Some []"

definition getEncodedChunks ::
  "isal \<Rightarrow> (nat \<Rightarrow> bool) \<Rightarrow> 'c container_ops \<Rightarrow> int list \<Rightarrow> chunk list \<Rightarrow> byte list \<Rightarrow> 'c containers \<Rightarrow> chunk" where
  "getEncodedChunks I mallocOk K cids chs matrix m =
     (case raw_chunks K cids chs m of
        Some (r # rs) \<Rightarrow>
          if mallocOk (nat (c_size r))
          then chunk_reset\<lparr>c_size := c_size r, c_freeData := False,
                 c_data := Some (hd (utils_encode I (map (\<lambda>x. the (c_data x)) (r # rs)) 1 (nat (c_size r)) matrix))\<rparr>
          else chunk_reset
      | _ \<Rightarrow> chunk_reset)"

end
