(* ===== verification/Container_Correct.thy ===== *)
theory Container_Correct
  imports Container_Manager
begin

text \<open>
  Requests for several chunks, proved from the contract of a container: what a successful write stores, what
  remains after a failed one, and that the chunks are read back.
\<close>

definition in_container :: "('c \<Rightarrow> chunk \<Rightarrow> byte list option) \<Rightarrow> 'c containers \<Rightarrow> int \<Rightarrow> chunk \<Rightarrow> byte list option" where
  "in_container stored m cid ch = Option.bind (m cid) (\<lambda>c. stored c ch)"

text \<open>No two of the chunks have the same name in the same container.\<close>

definition apart :: "(chunk \<Rightarrow> chunk \<Rightarrow> bool) \<Rightarrow> int list \<Rightarrow> chunk list \<Rightarrow> bool" where
  "apart same cids chs \<longleftrightarrow> (\<forall>i j. i < j \<longrightarrow> j < length chs \<longrightarrow> cids ! i = cids ! j \<longrightarrow> \<not> same (chs ! i) (chs ! j))"

lemma apart_Cons:
  "apart same (cid # cids) (ch # chs) \<longleftrightarrow>
   (\<forall>j < length chs. cid = cids ! j \<longrightarrow> \<not> same ch (chs ! j)) \<and> apart same cids chs"
proof
  assume a: "apart same (cid # cids) (ch # chs)"
  have "cid = cids ! j \<Longrightarrow> \<not> same ch (chs ! j)" if "j < length chs" for j
    using a [unfolded apart_def, rule_format, of 0 "Suc j"] that by simp
  moreover have "apart same cids chs"
    unfolding apart_def using a [unfolded apart_def] by (metis Suc_less_eq length_Cons nth_Cons_Suc)
  ultimately show "(\<forall>j < length chs. cid = cids ! j \<longrightarrow> \<not> same ch (chs ! j)) \<and> apart same cids chs" by blast
next
  assume a: "(\<forall>j < length chs. cid = cids ! j \<longrightarrow> \<not> same ch (chs ! j)) \<and> apart same cids chs"
  show "apart same (cid # cids) (ch # chs)" unfolding apart_def
  proof (intro allI impI)
    fix i j assume "i < j" "j < length (ch # chs)" "(cid # cids) ! i = (cid # cids) ! j"
    with a show "\<not> same ((ch # chs) ! i) ((ch # chs) ! j)"
      by (cases i; cases j) (auto simp: apart_def)
  qed
qed

locale managed = chunk_container "k_putChunk K" "k_getChunk K" "k_deleteChunk K" stored same
  for K :: "'c container_ops" and stored :: "'c \<Rightarrow> chunk \<Rightarrow> byte list option" and same :: "chunk \<Rightarrow> chunk \<Rightarrow> bool"
begin

lemma delete_in_stored:
  "in_container stored (delete_in K ch cid m) cid' d =
     (if cid' = cid \<and> same d ch then None else in_container stored m cid' d)"
proof (cases "m cid")
  case (Some c)
  obtain c' ok where d: "k_deleteChunk K ch c = (c', ok)" by (cases "k_deleteChunk K ch c")
  show ?thesis using Some del_ok [OF d, of d] d by (simp add: delete_in_def in_container_def)
qed (simp add: delete_in_def in_container_def)

lemma undo_other:
  "\<not> same d ch \<Longrightarrow> in_container stored (foldl (\<lambda>m j. delete_in K ch (cids ! j) m) m js) cid d = in_container stored m cid d"
  by (induction js arbitrary: m) (simp_all add: delete_in_stored)

lemma put_step:
  assumes "m cid = Some c" and "k_putChunk K ch c = (c', ch', ok)"
  shows "cid' = cid \<longrightarrow> \<not> same d ch \<Longrightarrow> in_container stored (m(cid \<mapsto> c')) cid' d = in_container stored m cid' d"
    and "ok \<Longrightarrow> in_container stored (m(cid \<mapsto> c')) cid ch = Some (chunk_bytes ch)"
  using assms put_ok [of ch c c' ch' d] put_ok [of ch c c' ch' ch] put_fail [of ch c c' ch' d] same_equiv(1)
  by (cases ok; auto simp: in_container_def)+

text \<open>The outcomes of the loop that writes chunks.\<close>

definition put_post :: "int list \<Rightarrow> chunk list \<Rightarrow> 'c containers \<Rightarrow> 'c containers \<Rightarrow> chunk list \<Rightarrow> nat \<Rightarrow> bool \<Rightarrow> bool" where
  "put_post cids chs m m' chs' n ok \<longleftrightarrow> (if ok then n = length chs else n < length chs) \<and> length chs' = length chs \<and>
     (\<forall>i < length chs. same (chs' ! i) (chs ! i)) \<and>
     (\<forall>cid d. (\<forall>i \<le> n. i < length chs \<longrightarrow> cid = cids ! i \<longrightarrow> \<not> same d (chs ! i)) \<longrightarrow>
        in_container stored m' cid d = in_container stored m cid d) \<and>
     (apart same cids chs \<longrightarrow> (\<forall>i < n. in_container stored m' (cids ! i) (chs ! i) = Some (chunk_bytes (chs ! i)) \<and>
        (c_size (chs ! i) < 2147483648 \<longrightarrow> (\<exists>c. m' (cids ! i) = Some c \<and> snd (k_getChunk K (chs' ! i) False c)))))"

lemma put_post_stop:
  assumes "m' = m \<or> (\<exists>c c' ch' ok. m cid = Some c \<and> k_putChunk K ch c = (c', ch', ok) \<and> m' = m(cid \<mapsto> c'))" and "same ch' ch"
  shows "put_post (cid # cids) (ch # chs) m m' (ch' # chs) 0 False"
proof -
  have "in_container stored m' cid' d = in_container stored m cid' d" if "cid' = cid \<longrightarrow> \<not> same d ch" for cid' d
    using assms(1) put_step(1) that by blast
  then show ?thesis
    using assms(2) same_equiv(1) by (auto simp: put_post_def nth_Cons split: nat.splits)
qed

lemma put_post_go:
  assumes "m cid = Some c" and "k_putChunk K ch c = (c', ch', True)" and "length cids = length chs"
    and "put_post cids chs (m(cid \<mapsto> c')) m' chs' n ok"
  shows "put_post (cid # cids) (ch # chs) m m' (ch' # chs') (Suc n) ok"
proof -
  let ?m = "m(cid \<mapsto> c')" and ?sz = "\<lambda>x. c_size x < 2147483648"
  note step = put_step [where m = m, OF assms(1,2)]
  have len: "if ok then n = length chs else n < length chs" "length chs' = length chs"
    and tl: "\<forall>i < length chs. same (chs' ! i) (chs ! i)" using assms(4) unfolding put_post_def by blast+
  have same: "same ch' ch" using put_chunk [OF assms(2)] by blast
  have other: "in_container stored m' cid' d = in_container stored ?m cid' d"
    if "\<forall>i \<le> n. i < length chs \<longrightarrow> cid' = cids ! i \<longrightarrow> \<not> same d (chs ! i)" for cid' d
    using assms(4) that unfolding put_post_def by blast
  have frame: "in_container stored m' cid' d = in_container stored m cid' d"
    if c: "\<forall>i \<le> Suc n. i < length (ch # chs) \<longrightarrow> cid' = (cid # cids) ! i \<longrightarrow> \<not> same d ((ch # chs) ! i)" for cid' d
  proof -
    have "cid' = cid \<longrightarrow> \<not> same d ch" using c [rule_format, of 0] by simp
    moreover have "\<forall>i \<le> n. i < length chs \<longrightarrow> cid' = cids ! i \<longrightarrow> \<not> same d (chs ! i)"
      using c by (metis Suc_le_mono Suc_less_eq length_Cons nth_Cons_Suc)
    ultimately show ?thesis using other [of cid' d] step(1) [of cid' d] by simp
  qed
  have first: "in_container stored m' cid ch = Some (chunk_bytes ch) \<and>
      (?sz ch \<longrightarrow> (\<exists>c. m' cid = Some c \<and> snd (k_getChunk K ch' False c)))" if ap: "apart same (cid # cids) (ch # chs)"
  proof -
    have st: "in_container stored m' cid ch = Some (chunk_bytes ch)"
      using other [of cid ch] step(2) ap by (simp add: apart_Cons)
    then obtain c2 where c2: "m' cid = Some c2" "stored c2 ch = Some (chunk_bytes ch)"
      by (auto simp: in_container_def bind_eq_Some_conv)
    have "stored c' ch = Some (chunk_bytes ch)" using put_ok [OF assms(2), of ch] same_equiv(1) by simp
    then have "k_getChunk K ch' False c2 = k_getChunk K ch' False c'"
      using get_cong [of c2 ch' "chunk_bytes ch" c' False] c2(2) stored_same [OF same] by simp
    with put_get [OF assms(2), of False] st c2(1) show ?thesis by auto
  qed
  have rest: "in_container stored m' (cids ! i) (chs ! i) = Some (chunk_bytes (chs ! i)) \<and>
      (?sz (chs ! i) \<longrightarrow> (\<exists>c. m' (cids ! i) = Some c \<and> snd (k_getChunk K (chs' ! i) False c)))"
    if "apart same (cid # cids) (ch # chs)" "i < n" for i
    using assms(4) that unfolding put_post_def apart_Cons by blast
  show ?thesis
    unfolding put_post_def using len tl same frame first rest by (auto simp: nth_Cons split: nat.splits)
qed

lemma put_loop_post:
  "put_loop K verify md5 cids chs m = (m', chs', n, ok) \<Longrightarrow> length cids = length chs \<Longrightarrow> put_post cids chs m m' chs' n ok"
proof (induction chs arbitrary: cids m m' chs' n ok)
  case Nil
  then show ?case by (auto simp: put_post_def)
next
  case (Cons ch chs)
  then obtain cid cids' where cids: "cids = cid # cids'" "length cids' = length chs" by (cases cids) auto
  show ?case
  proof (cases "(verify \<and> \<not> verifyMD5 md5 ch) \<or> m cid = None")
    case True
    with Cons.prems(1) cids have "m' = m \<and> chs' = ch # chs \<and> n = 0 \<and> \<not> ok" by (auto split: if_splits)
    then show ?thesis using put_post_stop [of m' m] same_equiv(1) unfolding cids(1) by auto
  next
    case False
    then obtain c where c: "m cid = Some c" by auto
    obtain c' ch' okp where put: "k_putChunk K ch c = (c', ch', okp)" by (cases "k_putChunk K ch c")
    show ?thesis
    proof (cases okp)
      case True
      obtain m1 chs1 n1 ok1 where loop: "put_loop K verify md5 cids' chs (m(cid \<mapsto> c')) = (m1, chs1, n1, ok1)"
        by (cases "put_loop K verify md5 cids' chs (m(cid \<mapsto> c'))")
      with Cons.prems(1) cids False c put True have "m' = m1 \<and> chs' = ch' # chs1 \<and> n = Suc n1 \<and> ok = ok1" by auto
      with put_post_go [where m = m, OF c put [unfolded True [THEN eqTrueI]] cids(2) Cons.IH [OF loop cids(2)]] True
      show ?thesis unfolding cids(1) by simp
    next
      case fail: False
      with Cons.prems(1) cids False c put have r: "m' = m(cid \<mapsto> c')" "chs' = ch' # chs" "n = 0" "ok = False" by auto
      have "same ch' ch" using put_chunk [OF put] by blast
      moreover have "m' = m \<or> (\<exists>c c' ch' ok. m cid = Some c \<and> k_putChunk K ch c = (c', ch', ok) \<and> m' = m(cid \<mapsto> c'))"
        using c put r(1) by blast
      ultimately show ?thesis unfolding cids(1) r(2-4) by (intro put_post_stop)
    qed
  qed
qed

lemma putChunks_True:
  assumes "putChunks K verify md5 cids chs m = (m', chs', True)" and "length cids = length chs"
  shows "put_post cids chs m m' chs' (length chs) True"
proof -
  obtain m1 chs1 n ok where loop: "put_loop K verify md5 cids chs m = (m1, chs1, n, ok)"
    by (cases "put_loop K verify md5 cids chs m")
  then have "ok" "m1 = m'" "chs1 = chs'" using assms(1) by (auto simp: putChunks_def split: bool.splits)
  with put_loop_post [OF loop assms(2)] show ?thesis by (simp add: put_post_def)
qed

lemma putChunks_stores:
  assumes "putChunks K verify md5 cids chs m = (m', chs', True)" and "length cids = length chs" and "apart same cids chs"
  shows "(\<forall>i < length chs. in_container stored m' (cids ! i) (chs ! i) = Some (chunk_bytes (chs ! i))) \<and>
     (\<forall>cid d. (\<forall>i < length chs. cid = cids ! i \<longrightarrow> \<not> same d (chs ! i)) \<longrightarrow>
        in_container stored m' cid d = in_container stored m cid d)"
  using putChunks_True [OF assms(1,2)] assms(3) unfolding put_post_def by auto

lemma putChunks_False:
  assumes loop: "put_loop K verify md5 cids chs m = (m1, chs1, n, False)" and "length cids = length chs" and "apart same cids chs"
  shows "\<exists>m'. putChunks K verify md5 cids chs m = (m', chs1, False) \<and> n < length chs \<and>
     (\<forall>j < n. \<not> same (chs ! j) (chs ! n) \<longrightarrow> in_container stored m' (cids ! j) (chs ! j) = Some (chunk_bytes (chs ! j)))"
proof -
  let ?m = "foldl (\<lambda>m j. delete_in K (chs1 ! n) (cids ! j) m) m1 [0..<n]"
  note post = put_loop_post [OF loop assms(2)]
  have n: "n < length chs" "same (chs1 ! n) (chs ! n)" using post by (auto simp: put_post_def)
  have "in_container stored ?m (cids ! j) (chs ! j) = Some (chunk_bytes (chs ! j))"
    if j: "j < n" "\<not> same (chs ! j) (chs ! n)" for j
  proof -
    have "\<not> same (chs ! j) (chs1 ! n)" using j(2) n(2) same_equiv(3) by blast
    then show ?thesis using post assms(3) j(1) by (simp add: undo_other put_post_def)
  qed
  with n(1) loop show ?thesis by (auto simp: putChunks_def)
qed

text \<open>Reading returns what is stored, and succeeds when each chunk can be read.\<close>

lemma getChunks_True:
  "getChunks K cids chs m = (chs', True) \<Longrightarrow> length cids = length chs \<Longrightarrow>
   length chs' = length chs \<and>
   (\<forall>i < length chs. \<exists>bs. in_container stored m (cids ! i) (chs ! i) = Some bs \<and> c_data (chs' ! i) = Some bs)"
proof (induction chs arbitrary: cids chs')
  case (Cons ch chs)
  then obtain cid cids' where cids: "cids = cid # cids'" "length cids' = length chs" by (cases cids) auto
  with Cons.prems(1) obtain c ch' r where c: "m cid = Some c" "k_getChunk K ch False c = (ch', True)"
      "getChunks K cids' chs m = (r, True)" "chs' = ch' # r"
    by (auto split: option.splits prod.splits bool.splits)
  with get_ok [OF c(2)] Cons.IH [OF c(3) cids(2)] show ?case
    by (auto simp: cids(1) in_container_def nth_Cons split: nat.splits)
qed auto

lemma getChunks_succeeds:
  "length cids = length chs \<Longrightarrow> (\<forall>i < length chs. \<exists>c. m (cids ! i) = Some c \<and> snd (k_getChunk K (chs ! i) False c)) \<Longrightarrow>
   snd (getChunks K cids chs m)"
proof (induction chs arbitrary: cids)
  case (Cons ch chs)
  then obtain cid cids' where cids: "cids = cid # cids'" "length cids' = length chs" by (cases cids) auto
  from Cons.prems(2) [rule_format, of 0] obtain c where c: "m cid = Some c" "snd (k_getChunk K ch False c)" unfolding cids(1) by auto
  have "snd (getChunks K cids' chs m)"
    by (rule Cons.IH [OF cids(2)]) (use Cons.prems(2) in \<open>auto simp: cids(1)\<close>)
  with c show ?case by (auto simp: cids(1) split: prod.splits)
qed auto

text \<open>Write several chunks, then read them.\<close>

lemma put_then_get:
  assumes "putChunks K verify md5 cids chs m = (m', chs', True)" and "length cids = length chs" and "apart same cids chs"
    and "\<forall>ch \<in> set chs. c_size ch < 2147483648"
  shows "\<exists>got. getChunks K cids chs' m' = (got, True) \<and> map c_data got = map (\<lambda>ch. Some (chunk_bytes ch)) chs"
proof -
  note post = putChunks_True [OF assms(1,2), unfolded put_post_def]
  have len: "length chs' = length chs" using post by blast
  obtain got ok where g: "getChunks K cids chs' m' = (got, ok)" by (cases "getChunks K cids chs' m'")
  have "\<forall>i < length chs'. \<exists>c. m' (cids ! i) = Some c \<and> snd (k_getChunk K (chs' ! i) False c)"
    using post assms(3,4) len by auto
  from getChunks_succeeds [OF _ this] assms(2) len g have ok by simp
  with g have g: "getChunks K cids chs' m' = (got, True)" by simp
  from getChunks_True [OF g] assms(2) len
  have r: "length got = length chs" "\<forall>i < length chs. \<exists>bs. in_container stored m' (cids ! i) (chs' ! i) = Some bs \<and> c_data (got ! i) = Some bs"
    by simp_all
  have "c_data (got ! i) = Some (chunk_bytes (chs ! i))" if "i < length chs" for i
  proof -
    have "same (chs' ! i) (chs ! i)" using post that by blast
    then have "in_container stored m' (cids ! i) (chs' ! i) = in_container stored m' (cids ! i) (chs ! i)"
      using stored_same by (auto simp: in_container_def)
    with r(2) that post assms(3) show ?thesis by fastforce
  qed
  with g r(1) show ?thesis by (auto intro: nth_equalityI)
qed

end

sublocale fs_env \<subseteq> manager: managed "fs_ops env" "fs_stored env" "same_name env"
  unfolding managed_def fs_ops_def using fs.chunk_container_axioms by simp

context fs_env
begin

lemmas fs_put_then_get_chunks = manager.put_then_get
lemmas fs_putChunks_stores = manager.putChunks_stores
lemmas fs_putChunks_False = manager.putChunks_False

end

text \<open>
  C12.  Writing several chunks, each to its container, and reading them back: when the container manager
  reports success, every chunk is read with exactly its bytes, and every chunk of any container with another
  name is stored as before.
\<close>

theorem put_chunks_then_get:
  assumes "fs_env env" and "putChunks (fs_ops env) verify md5 cids chs m = (m', chs', True)" and "length cids = length chs"
    and "apart (same_name env) cids chs" and "\<forall>ch \<in> set chs. c_size ch < 2147483648"
  shows "(\<exists>got. getChunks (fs_ops env) cids chs' m' = (got, True) \<and> map c_data got = map (\<lambda>ch. Some (chunk_bytes ch)) chs) \<and>
     (\<forall>cid d. (\<forall>i < length chs. cid = cids ! i \<longrightarrow> \<not> same_name env d (chs ! i)) \<longrightarrow>
        in_container (fs_stored env) m' cid d = in_container (fs_stored env) m cid d)"
  using fs_env.fs_put_then_get_chunks [OF assms(1,2,3,4,5)] fs_env.fs_putChunks_stores [OF assms(1,2,3,4)] by blast

text \<open>
  C35.  A failed request is not undone.  When the container manager reports that writing several chunks
  failed at some chunk, the chunks with other names written before it are still stored: the loop that should
  delete them deletes the name of the failed chunk instead.
\<close>

theorem failed_put_keeps_chunks:
  assumes "fs_env env" and "put_loop (fs_ops env) verify md5 cids chs m = (m1, chs1, n, False)" and "length cids = length chs"
    and "apart (same_name env) cids chs"
  shows "\<exists>m'. putChunks (fs_ops env) verify md5 cids chs m = (m', chs1, False) \<and> n < length chs \<and>
     (\<forall>j < n. \<not> same_name env (chs ! j) (chs ! n) \<longrightarrow>
        in_container (fs_stored env) m' (cids ! j) (chs ! j) = Some (chunk_bytes (chs ! j)))"
  by (rule fs_env.fs_putChunks_False [OF assms])

subsection \<open>A concrete manager\<close>

definition example_other :: chunk where
  "example_other = (example_chunk [1, 2, 3])\<lparr>c_chunkId := 1\<rparr>"

definition example_containers :: "fs_container containers" where
  "example_containers = [3 \<mapsto> newFsContainer 3 ''/data'' 1000 [], 4 \<mapsto> newFsContainer 4 ''/more'' 1000 []]"

abbreviation example_loop :: "int list \<Rightarrow> fs_container containers \<times> chunk list \<times> nat \<times> bool" where
  "example_loop cids \<equiv> put_loop (fs_ops (example_env 100)) True (\<lambda>bs. [of_nat (length bs)]) cids
     [example_chunk [5, 6], example_other] example_containers"

abbreviation example_request :: "int list \<Rightarrow> fs_container containers \<times> chunk list \<times> bool" where
  "example_request cids \<equiv> putChunks (fs_ops (example_env 100)) True (\<lambda>bs. [of_nat (length bs)]) cids
     [example_chunk [5, 6], example_other] example_containers"

lemma example_put_other:
  "\<exists>c' ch'. fs_putChunk (example_env 100) example_other (newFsContainer 4 ''/more'' 1000 []) = (c', ch', True)"
proof -
  have "snd (snd (fs_putChunk (example_env 100) example_other (newFsContainer 4 ''/more'' 1000 [])))" by code_simp
  then show ?thesis by (metis prod.collapse)
qed

lemma example_md5:
  "verifyMD5 (\<lambda>bs. [of_nat (length bs)]) (example_chunk [5, 6])" "verifyMD5 (\<lambda>bs. [of_nat (length bs)]) example_other"
  by code_simp+

lemma example_loop_result:
  "\<exists>m' chs'. example_loop [3, 4] = (m', chs', 2, True)" "\<exists>m' chs'. example_loop [3, 9] = (m', chs', 1, False)"
  using example_put(1) example_put_other by (auto simp: example_md5 example_containers_def fs_ops_def)

lemma example_names_differ: "\<not> same_name (example_env 100) (example_chunk [5, 6]) example_other"
  by code_simp

lemma example_apart: "apart (same_name (example_env 100)) [3, cid] [example_chunk [5, 6], example_other]"
  using example_names_differ by (auto simp: apart_def less_Suc_eq)

lemma example_bytes:
  "chunk_bytes (example_chunk [5, 6]) = [5, 6]" "chunk_bytes example_other = [1, 2, 3]"
  "c_size (example_chunk [5, 6]) = 2" "c_size example_other = 3"
  by (simp_all add: example_chunk_def example_other_def chunk_bytes_def)

theorem put_chunks_then_get_witness:
  "\<exists>m' chs' got. example_request [3, 4] = (m', chs', True) \<and>
     getChunks (fs_ops (example_env 100)) [3, 4] chs' m' = (got, True) \<and> map c_data got = [Some [5, 6], Some [1, 2, 3]]"
proof -
  obtain m' chs' where put: "example_request [3, 4] = (m', chs', True)"
    using example_loop_result(1) by (auto simp: putChunks_def)
  from put_chunks_then_get [OF example_fs.fs_env_axioms put _ example_apart] put show ?thesis by (simp add: example_bytes)
qed

theorem failed_put_keeps_chunks_witness:
  "\<exists>m' chs'. example_request [3, 9] = (m', chs', False) \<and>
     in_container (fs_stored (example_env 100)) m' 3 (example_chunk [5, 6]) = Some [5, 6]"
proof -
  obtain m1 chs1 where loop: "example_loop [3, 9] = (m1, chs1, 1, False)"
    using example_loop_result(2) by blast
  from failed_put_keeps_chunks [OF example_fs.fs_env_axioms loop _ example_apart]
  show ?thesis using example_names_differ by (auto simp: example_bytes)
qed

end
