(* ===== verification/Chunk_Message.thy ===== *)
theory Chunk_Message
  imports Nexo_Data "HOL-Library.Monad_Syntax"
begin

text \<open>
  Chunk events (\<^verbatim>\<open>src/ds/chunk_event.hh\<close>) and their message format (\<^verbatim>\<open>src/common/io.cc\<close>).  A message
  is a list of frames; each frame is sent with a flag that says whether another one follows.  Numbers are
  sent in the representation of the machine, which is little endian with 4-byte \<^verbatim>\<open>int\<close> and 8-byte
  \<^verbatim>\<open>long\<close>.  The receiver casts the buffer of a frame: missing bytes of a frame that is too short are read as
  nothing here.  The time points of an event are the seconds and nanoseconds that are transmitted.
\<close>

subsection \<open>Bytes\<close>

type_synonym frame = "byte list"

definition le_bytes :: "nat \<Rightarrow> nat \<Rightarrow> byte list" where
  "le_bytes w n = map (\<lambda>j. word_of_nat (n div 256 ^ j)) [0..<w]"

fun le_value :: "byte list \<Rightarrow> nat" where
  "le_value [] = 0"
| "le_value (b # bs) = unat b + 256 * le_value bs"

definition int_bytes :: "int \<Rightarrow> byte list" where "int_bytes i = le_bytes 4 (nat (to_unsigned 32 i))"
definition long_bytes :: "int \<Rightarrow> byte list" where "long_bytes i = le_bytes 8 (nat (to_unsigned 64 i))"

definition bytes_int :: "byte list \<Rightarrow> int" where "bytes_int bs = to_signed 32 (int (le_value (take 4 bs)))"
definition bytes_long :: "byte list \<Rightarrow> int" where "bytes_long bs = to_signed 64 (int (le_value (take 8 bs)))"

definition char_byte :: "char \<Rightarrow> byte" where "char_byte c = word_of_nat (of_char c)"
definition byte_char :: "byte \<Rightarrow> char" where "byte_char b = char_of (unat b)"

definition ints_bytes :: "int list \<Rightarrow> byte list" where "ints_bytes is = concat (map int_bytes is)"

definition bytes_ints :: "nat \<Rightarrow> byte list \<Rightarrow> int list" where
  "bytes_ints n bs = map (\<lambda>i. bytes_int (drop (4 * i) bs)) [0..<n]"

subsection \<open>Opcodes\<close>

definition opcode_list :: "Opcode list" where
  "opcode_list = [PUT_CHUNK_REQ, GET_CHUNK_REQ, DEL_CHUNK_REQ, CPY_CHUNK_REQ, ENC_CHUNK_REQ,
     PUT_CHUNK_REP_SUCCESS, GET_CHUNK_REP_SUCCESS, DEL_CHUNK_REP_SUCCESS, CPY_CHUNK_REP_SUCCESS, ENC_CHUNK_REP_SUCCESS,
     PUT_CHUNK_REP_FAIL, GET_CHUNK_REP_FAIL, DEL_CHUNK_REP_FAIL, CPY_CHUNK_REP_FAIL, ENC_CHUNK_REP_FAIL,
     REG_AGENT_REQ, REG_AGENT_REP_SUCCESS, REG_AGENT_REP_FAIL, UPD_AGENT_REQ, UPD_AGENT_REP, SYN_PING, ACK_PING,
     RPR_CHUNK_REQ, RPR_CHUNK_REP_SUCCESS, RPR_CHUNK_REP_FAIL, CHK_CHUNK_REQ, CHK_CHUNK_REP_SUCCESS, CHK_CHUNK_REP_FAIL,
     MOV_CHUNK_REQ, MOV_CHUNK_REP_SUCCESS, MOV_CHUNK_REP_FAIL, RVT_CHUNK_REQ, RVT_CHUNK_REP_SUCCESS, RVT_CHUNK_REP_FAIL,
     GET_SYSINFO_REQ, GET_SYSINFO_REP, VRF_CHUNK_REQ, VRF_CHUNK_REP_SUCCESS, VRF_CHUNK_REP_FAIL, UNKNOWN_OP]"

definition opcode_number :: "Opcode \<Rightarrow> nat" where
  "opcode_number oc = length (takeWhile (\<lambda>x. x \<noteq> oc) opcode_list)"

definition number_opcode :: "nat \<Rightarrow> Opcode" where
  "number_opcode n = (if n < length opcode_list then opcode_list ! n else UNKNOWN_OP)"

definition isFromProxy :: "Opcode \<Rightarrow> bool" where
  "isFromProxy oc \<longleftrightarrow> oc \<in> {PUT_CHUNK_REQ, GET_CHUNK_REQ, DEL_CHUNK_REQ, CPY_CHUNK_REQ, ENC_CHUNK_REQ, REG_AGENT_REQ,
     UPD_AGENT_REQ, SYN_PING, RPR_CHUNK_REQ, CHK_CHUNK_REQ, MOV_CHUNK_REQ, VRF_CHUNK_REQ}"

definition isFromAgent :: "Opcode \<Rightarrow> bool" where "isFromAgent oc \<longleftrightarrow> \<not> isFromProxy oc"

definition hasData :: "Opcode \<Rightarrow> bool" where
  "hasData oc \<longleftrightarrow> oc \<notin> {PUT_CHUNK_REP_FAIL, GET_CHUNK_REP_FAIL, DEL_CHUNK_REP_FAIL, DEL_CHUNK_REP_SUCCESS,
     ENC_CHUNK_REP_FAIL, CHK_CHUNK_REP_FAIL, VRF_CHUNK_REP_FAIL}"

definition hasContainerIds :: "Opcode \<Rightarrow> bool" where
  "hasContainerIds oc \<longleftrightarrow> oc \<notin> {ENC_CHUNK_REP_SUCCESS, ENC_CHUNK_REP_FAIL, VRF_CHUNK_REP_SUCCESS, VRF_CHUNK_REP_FAIL} \<and> hasData oc"

definition hasChunkData :: "Opcode \<Rightarrow> bool" where
  "hasChunkData oc \<longleftrightarrow> oc \<in> {PUT_CHUNK_REQ, GET_CHUNK_REP_SUCCESS, ENC_CHUNK_REP_SUCCESS} \<and> hasData oc"

definition needsCoding :: "Opcode \<Rightarrow> bool" where "needsCoding oc \<longleftrightarrow> oc \<in> {ENC_CHUNK_REQ, RPR_CHUNK_REQ}"
definition hasRepairChunkInfo :: "Opcode \<Rightarrow> bool" where "hasRepairChunkInfo oc \<longleftrightarrow> oc = RPR_CHUNK_REQ"

definition getNumChunkFactor :: "Opcode \<Rightarrow> nat" where
  "getNumChunkFactor oc = (if oc = CPY_CHUNK_REQ \<or> oc = MOV_CHUNK_REQ then 2 else 1)"

subsection \<open>Events\<close>

type_synonym time_val = "int \<times> int"

record chunk_event =
  e_id :: nat
  e_opcode :: Opcode
  e_numChunks :: int
  e_containerIds :: "int list"
  e_chunks :: "chunk list"
  e_codingMeta :: coding_meta
  e_repairUsingCAR :: bool
  e_numChunkGroups :: int
  e_numInputChunks :: int
  e_chunkGroupMap :: "int list"
  e_containerGroupMap :: "int list"
  e_agents :: string
  e_p2aStart :: time_val
  e_p2aEnd :: time_val
  e_agentStart :: time_val
  e_agentEnd :: time_val
  e_a2pStart :: time_val

definition event_reset :: chunk_event where
  "event_reset = \<lparr>e_id = 0, e_opcode = UNKNOWN_OP, e_numChunks = 0, e_containerIds = [], e_chunks = [],
     e_codingMeta = codingMeta_reset, e_repairUsingCAR = False, e_numChunkGroups = 0, e_numInputChunks = 0,
     e_chunkGroupMap = [], e_containerGroupMap = [], e_agents = [], e_p2aStart = (0, 0), e_p2aEnd = (0, 0),
     e_agentStart = (0, 0), e_agentEnd = (0, 0), e_a2pStart = (0, 0)\<rparr>"

subsection \<open>Sending\<close>

definition time_frames :: "chunk_event \<Rightarrow> (frame \<times> bool) list" where
  "time_frames ev =
     (let ts = (if isFromProxy (e_opcode ev) then [e_p2aStart ev] else [e_p2aEnd ev, e_agentStart ev, e_agentEnd ev, e_a2pStart ev]);
          fs = concat (map (\<lambda>(s, ns). [long_bytes s, long_bytes ns]) ts)
      in map (\<lambda>f. (f, True)) (butlast fs) @ [(last fs, hasData (e_opcode ev))])"

text \<open>The flag of the last frame of a chunk is \<open>goOn\<close>.\<close>

definition chunk_frames :: "Opcode \<Rightarrow> bool \<Rightarrow> chunk \<Rightarrow> (frame \<times> bool) list" where
  "chunk_frames oc goOn ch =
     (let vl = min (length (c_chunkVersion ch) mod 256) (CHUNK_VERSION_MAX_LEN - 1) in
      [([word_of_nat (c_namespaceId ch)], True), (le_bytes 16 (unat (c_fuuid ch)), True), (int_bytes (c_chunkId ch), True),
       (int_bytes (c_fileVersion ch), True), ([word_of_nat vl], True)] @
      (if vl > 0 then [(map char_byte (take vl (c_chunkVersion ch)), True)] else []) @
      [(take MD5_DIGEST_LENGTH (c_md5 ch), True), (int_bytes (c_size ch), hasChunkData oc \<or> goOn)] @
      (if hasChunkData oc then [(chunk_bytes ch, goOn)] else []))"

fun chunks_frames :: "Opcode \<Rightarrow> chunk list \<Rightarrow> (frame \<times> bool) list" where
  "chunks_frames oc [] = []"
| "chunks_frames oc (ch # chs) = chunk_frames oc (needsCoding oc \<or> chs \<noteq> []) ch @ chunks_frames oc chs"

definition coding_frames :: "chunk_event \<Rightarrow> (frame \<times> bool) list" where
  "coding_frames ev =
     (let cm = e_codingMeta ev; n = cm_codingStateSize cm in
      [(int_bytes n, n > 0)] @
      (if n > 0 then [(take (nat n) (the (cm_codingState cm)), hasRepairChunkInfo (e_opcode ev))] else []))"

definition repair_frames :: "chunk_event \<Rightarrow> (frame \<times> bool) list" where
  "repair_frames ev =
     [([word_of_int (cm_coding (e_codingMeta ev))], True), (int_bytes (e_numChunkGroups ev), True),
      (int_bytes (e_numInputChunks ev), True),
      (ints_bytes (take (nat (e_numChunkGroups ev + e_numInputChunks ev)) (e_chunkGroupMap ev)), True),
      (ints_bytes (take (nat (e_numInputChunks ev)) (e_containerGroupMap ev)), True),
      (map char_byte (e_agents ev), True), ([if e_repairUsingCAR ev then 1 else 0], False)]"

definition sendChunkEventMessage :: "chunk_event \<Rightarrow> (frame \<times> bool) list" where
  "sendChunkEventMessage ev =
     (let oc = e_opcode ev; n = nat (e_numChunks ev) in
      [(le_bytes 4 (e_id ev), True), (le_bytes 2 (opcode_number oc), True)] @ time_frames ev @
      (if \<not> hasData oc then []
       else [(int_bytes (e_numChunks ev), e_numChunks ev > 0)] @
            (if hasContainerIds oc then [(ints_bytes (take n (e_containerIds ev)), True)] else []) @
            chunks_frames oc (take (n * getNumChunkFactor oc) (e_chunks ev)) @
            (if needsCoding oc then coding_frames ev @ (if hasRepairChunkInfo oc then repair_frames ev else []) else [])))"

subsection \<open>Receiving\<close>

text \<open>
  A receiver reads the frames of one message.  It gives up, returning 0, when the last frame read was not
  followed by another one and a field is missing: the result is \<open>None\<close>.  A negative number of
  container ids raises an exception, which is \<open>None\<close> as well.
\<close>

definition frames_size :: "frame list \<Rightarrow> nat" where "frames_size fs = sum_list (map length fs)"

definition next_frame :: "frame list \<Rightarrow> (frame \<times> frame list) option" where
  "next_frame fs = (case fs of [] \<Rightarrow> None | f # r \<Rightarrow> Some (f, r))"

definition get_int :: "frame list \<Rightarrow> (int \<times> frame list) option" where
  "get_int fs = map_option (\<lambda>(f, r). (bytes_int f, r)) (next_frame fs)"

definition get_time :: "frame list \<Rightarrow> (time_val \<times> frame list) option" where
  "get_time fs = do {
     (s, fs) \<leftarrow> next_frame fs;
     (ns, fs) \<leftarrow> next_frame fs;
     Some ((bytes_long s, bytes_long ns), fs) }"

definition get_chunk :: "Opcode \<Rightarrow> frame list \<Rightarrow> (chunk \<times> frame list) option" where
  "get_chunk oc fs = do {
     (ns, fs) \<leftarrow> next_frame fs;
     (uu, fs) \<leftarrow> next_frame fs;
     (cid, fs) \<leftarrow> get_int fs;
     (fv, fs) \<leftarrow> get_int fs;
     (vlf, fs) \<leftarrow> next_frame fs;
     (ver, fs) \<leftarrow> (let vl = min (unat (hd vlf)) (CHUNK_VERSION_MAX_LEN - 1)
                    in if vl > 0 then map_option (\<lambda>(f, r). (map byte_char (take vl f), r)) (next_frame fs) else Some ([], fs));
     (md5, fs) \<leftarrow> next_frame fs;
     (sz, fs) \<leftarrow> get_int fs;
     (dat, fs) \<leftarrow> (if hasChunkData oc then map_option (\<lambda>(f, r). (Some (take (nat sz) f), r)) (next_frame fs) else Some (None, fs));
     Some (chunk_reset\<lparr>c_namespaceId := unat (hd ns), c_fuuid := word_of_nat (le_value (take 16 uu)), c_chunkId := cid,
       c_fileVersion := fv, c_chunkVersion := ver, c_md5 := take MD5_DIGEST_LENGTH md5, c_size := sz, c_data := dat,
       c_freeData := True\<rparr>, fs) }"

fun get_chunks :: "Opcode \<Rightarrow> nat \<Rightarrow> frame list \<Rightarrow> (chunk list \<times> frame list) option" where
  "get_chunks oc 0 fs = Some ([], fs)"
| "get_chunks oc (Suc n) fs = do {
     (ch, fs) \<leftarrow> get_chunk oc fs;
     (chs, fs) \<leftarrow> get_chunks oc n fs;
     Some (ch # chs, fs) }"

definition get_times :: "chunk_event \<Rightarrow> frame list \<Rightarrow> (chunk_event \<times> frame list) option" where
  "get_times ev fs =
     (if isFromProxy (e_opcode ev)
      then do { (t, fs) \<leftarrow> get_time fs; Some (ev\<lparr>e_p2aStart := t\<rparr>, fs) }
      else do {
        (t1, fs) \<leftarrow> get_time fs;
        (t2, fs) \<leftarrow> get_time fs;
        (t3, fs) \<leftarrow> get_time fs;
        (t4, fs) \<leftarrow> get_time fs;
        Some (ev\<lparr>e_p2aEnd := t1, e_agentStart := t2, e_agentEnd := t3, e_a2pStart := t4\<rparr>, fs) })"

definition get_coding :: "chunk_event \<Rightarrow> frame list \<Rightarrow> (chunk_event \<times> frame list) option" where
  "get_coding ev fs = do {
     (n, fs) \<leftarrow> get_int fs;
     (st, fs) \<leftarrow> (if n > 0 then map_option (\<lambda>(f, r). (Some (take (nat n) f), r)) (next_frame fs) else Some (cm_codingState (e_codingMeta ev), fs));
     Some (ev\<lparr>e_codingMeta := (e_codingMeta ev)\<lparr>cm_codingStateSize := n, cm_codingState := st\<rparr>\<rparr>, fs) }"

definition get_repair :: "chunk_event \<Rightarrow> frame list \<Rightarrow> (chunk_event \<times> frame list) option" where
  "get_repair ev fs = do {
     (cod, fs) \<leftarrow> next_frame fs;
     (g, fs) \<leftarrow> get_int fs;
     (i, fs) \<leftarrow> get_int fs;
     (gm, fs) \<leftarrow> next_frame fs;
     (cm, fs) \<leftarrow> next_frame fs;
     (ag, fs) \<leftarrow> next_frame fs;
     (car, fs) \<leftarrow> next_frame fs;
     Some (ev\<lparr>e_codingMeta := (e_codingMeta ev)\<lparr>cm_coding := uint (hd cod)\<rparr>, e_numChunkGroups := g, e_numInputChunks := i,
       e_chunkGroupMap := bytes_ints (nat (g + i)) gm, e_containerGroupMap := bytes_ints (nat i) cm,
       e_agents := e_agents ev @ map byte_char ag, e_repairUsingCAR := (hd car \<noteq> 0)\<rparr>, fs) }"

definition get_data :: "chunk_event \<Rightarrow> frame list \<Rightarrow> (chunk_event \<times> frame list) option" where
  "get_data ev fs = do {
     (n, fs) \<leftarrow> get_int fs;
     (cids, fs) \<leftarrow> (if hasContainerIds (e_opcode ev)
                    then (if n < 0 then None else map_option (\<lambda>(f, r). (bytes_ints (nat n) f, r)) (next_frame fs))
                    else Some (e_containerIds ev, fs));
     (chs, fs) \<leftarrow> get_chunks (e_opcode ev) (nat n * getNumChunkFactor (e_opcode ev)) fs;
     Some (ev\<lparr>e_numChunks := n, e_containerIds := cids, e_chunks := if n > 0 then chs else e_chunks ev\<rparr>, fs) }"

definition get_event :: "chunk_event \<Rightarrow> frame list \<Rightarrow> (chunk_event \<times> frame list) option" where
  "get_event ev fs = do {
     (idf, fs) \<leftarrow> next_frame fs;
     (ocf, fs) \<leftarrow> next_frame fs;
     (ev, fs) \<leftarrow> get_times (ev\<lparr>e_id := le_value (take 4 idf), e_opcode := number_opcode (le_value (take 2 ocf))\<rparr>) fs;
     if \<not> hasData (e_opcode ev) then Some (ev, fs)
     else do {
       (ev, fs) \<leftarrow> get_data ev fs;
       (ev, fs) \<leftarrow> (if needsCoding (e_opcode ev) then get_coding ev fs else Some (ev, fs));
       if hasRepairChunkInfo (e_opcode ev) then get_repair ev fs else Some (ev, fs) } }"

definition getChunkEventMessage :: "frame list \<Rightarrow> chunk_event \<Rightarrow> (chunk_event \<times> nat) option" where
  "getChunkEventMessage fs ev = map_option (\<lambda>(ev', r). (ev', frames_size fs - frames_size r)) (get_event ev fs)"

subsection \<open>Requests to an agent\<close>

text \<open>
  The frames sent up to the first one that is not followed by another are a message.  A socket for requests
  takes one message and then expects the reply: sending frames after the end of a message raises an
  exception, as a failure to connect does.  The network delivers the message to the other side, which may
  change its state and answers with a message, or there is no answer in time.  The event for the reply is empty.
\<close>

fun message_of :: "(frame \<times> bool) list \<Rightarrow> frame list" where
  "message_of [] = []"
| "message_of ((f, goOn) # r) = f # (if goOn then message_of r else [])"

definition single_message :: "(frame \<times> bool) list \<Rightarrow> bool" where
  "single_message fs \<longleftrightarrow> fs \<noteq> [] \<and> list_all snd (butlast fs) \<and> \<not> snd (last fs)"

datatype request_result = RequestOk chunk_event | RequestNotSent | RequestNoReply

type_synonym 'w network = "string \<Rightarrow> frame list \<Rightarrow> 'w \<Rightarrow> 'w \<times> frame list option"

definition sendChunkRequestToAgent ::
  "(string \<Rightarrow> bool) \<Rightarrow> 'w network \<Rightarrow> string \<Rightarrow> chunk_event \<Rightarrow> 'w \<Rightarrow> 'w \<times> request_result" where
  "sendChunkRequestToAgent connectOk network address request w =
     (if \<not> connectOk address \<or> \<not> single_message (sendChunkEventMessage request) then (w, RequestNotSent)
      else let (w', answer) = network address (message_of (sendChunkEventMessage request)) w in
        case answer of
          None \<Rightarrow> (w', RequestNoReply)
        | Some fs \<Rightarrow> (case getChunkEventMessage fs event_reset of
              None \<Rightarrow> (w', RequestNoReply)
            | Some (ev, bytes) \<Rightarrow> (w', if bytes = 0 then RequestNoReply else RequestOk ev)))"

end
