(* ===== verification/Message_Correct.thy ===== *)
theory Message_Correct
  imports Chunk_Message
begin

text \<open>
  The message format is faithful: what a well-formed chunk event sends is one message, and the other side
  reads exactly the fields the operation transmits.
\<close>

subsection \<open>Numbers and strings\<close>

lemma le_bytes_0 [simp]: "le_bytes 0 n = []"
  by (simp add: le_bytes_def)

lemma le_bytes_Suc: "le_bytes (Suc w) n = word_of_nat n # le_bytes w (n div 256)"
  by (simp add: le_bytes_def upt_rec [of 0] map_Suc_upt [symmetric] div_mult2_eq del: upt_Suc)

lemma length_le_bytes [simp]: "length (le_bytes w n) = w"
  by (simp add: le_bytes_def)

lemma le_value_bytes: "le_value (le_bytes w n) = n mod 256 ^ w"
proof (induction w arbitrary: n)
  case (Suc w)
  have "unat (word_of_nat n :: byte) = n mod 256" by (simp add: unat_of_nat)
  then show ?case using Suc [of "n div 256"] by (simp add: le_bytes_Suc mod_mult2_eq)
qed simp

lemma to_signed_unsigned: "0 < w \<Longrightarrow> to_signed w (to_unsigned w x) = to_signed w x"
  by (simp add: to_signed_def to_unsigned_def mod_add_left_eq)

lemma int_bytes_length [simp]: "length (int_bytes i) = 4" "length (long_bytes i) = 8"
  by (simp_all add: int_bytes_def long_bytes_def)

lemma bytes_int_bytes: "bytes_int (int_bytes i @ r) = int32 i"
proof -
  have "int (nat (to_unsigned 32 i) mod 256 ^ 4) = to_unsigned 32 i"
    by (simp add: to_unsigned_def zmod_int)
  then show ?thesis using to_signed_unsigned [of 32 i] by (simp add: bytes_int_def int_bytes_def le_value_bytes)
qed

lemma bytes_int_bytes0: "bytes_int (int_bytes i) = int32 i"
  using bytes_int_bytes [of i "[]"] by simp

lemma bytes_long_bytes: "bytes_long (long_bytes i) = to_signed 64 i"
proof -
  have "int (nat (to_unsigned 64 i) mod 256 ^ 8) = to_unsigned 64 i"
    by (simp add: to_unsigned_def zmod_int)
  then show ?thesis using to_signed_unsigned [of 64 i] by (simp add: bytes_long_def long_bytes_def le_value_bytes)
qed

lemma drop_ints_bytes: "i < length is \<Longrightarrow> \<exists>r. drop (4 * i) (ints_bytes is) = int_bytes (is ! i) @ r"
proof (induction "is" arbitrary: i)
  case (Cons x xs)
  then show ?case by (cases i) (auto simp: ints_bytes_def)
qed simp

lemma bytes_ints_bytes: "length is = n \<Longrightarrow> bytes_ints n (ints_bytes is) = map int32 is"
  unfolding bytes_ints_def by (rule nth_equalityI) (use drop_ints_bytes bytes_int_bytes in \<open>fastforce+\<close>)

lemma byte_char_byte [simp]: "byte_char (char_byte c) = c"
  by (simp add: byte_char_def char_byte_def unat_of_nat of_char_of)

lemma map_byte_char_byte [simp]: "map byte_char (map char_byte s) = s"
  by (simp add: comp_def)

lemma number_opcode_number: "number_opcode (opcode_number oc) = oc"
  by (cases oc) (simp_all add: opcode_number_def number_opcode_def opcode_list_def)

lemma opcode_number_bound: "opcode_number oc < 65536"
  using length_takeWhile_le [of "\<lambda>x. x \<noteq> oc" opcode_list] by (simp add: opcode_number_def opcode_list_def)

subsection \<open>Well-formed events\<close>

definition is_int :: "int \<Rightarrow> bool" where "is_int x \<longleftrightarrow> - 2147483648 \<le> x \<and> x < 2147483648"

definition is_time :: "time_val \<Rightarrow> bool" where
  "is_time t \<longleftrightarrow> - (2 ^ 63) \<le> fst t \<and> fst t < 2 ^ 63 \<and> - (2 ^ 63) \<le> snd t \<and> snd t < 2 ^ 63"

definition chunk_sendable :: "Opcode \<Rightarrow> chunk \<Rightarrow> bool" where
  "chunk_sendable oc ch \<longleftrightarrow> c_namespaceId ch < 256 \<and> is_int (c_chunkId ch) \<and> is_int (c_fileVersion ch) \<and>
     length (c_chunkVersion ch) < CHUNK_VERSION_MAX_LEN \<and> length (c_md5 ch) = MD5_DIGEST_LENGTH \<and> is_int (c_size ch) \<and>
     (hasChunkData oc \<longrightarrow> 0 \<le> c_size ch \<and> length (chunk_bytes ch) = nat (c_size ch))"

definition coding_sendable :: "chunk_event \<Rightarrow> bool" where
  "coding_sendable ev \<longleftrightarrow> is_int (cm_codingStateSize (e_codingMeta ev)) \<and>
     (0 < cm_codingStateSize (e_codingMeta ev) \<longrightarrow>
        map_option length (cm_codingState (e_codingMeta ev)) = Some (nat (cm_codingStateSize (e_codingMeta ev))))"

definition repair_sendable :: "chunk_event \<Rightarrow> bool" where
  "repair_sendable ev \<longleftrightarrow> 0 < cm_codingStateSize (e_codingMeta ev) \<and> 0 \<le> cm_coding (e_codingMeta ev) \<and> cm_coding (e_codingMeta ev) < 256 \<and>
     0 \<le> e_numChunkGroups ev \<and> is_int (e_numChunkGroups ev) \<and> 0 \<le> e_numInputChunks ev \<and> is_int (e_numInputChunks ev) \<and>
     length (e_chunkGroupMap ev) = nat (e_numChunkGroups ev + e_numInputChunks ev) \<and> list_all is_int (e_chunkGroupMap ev) \<and>
     length (e_containerGroupMap ev) = nat (e_numInputChunks ev) \<and> list_all is_int (e_containerGroupMap ev)"

text \<open>A message about no chunks can only be sent when the operation has no container ids.\<close>

definition event_sendable :: "chunk_event \<Rightarrow> bool" where
  "event_sendable ev \<longleftrightarrow> e_id ev < 2 ^ 32 \<and>
     list_all is_time [e_p2aStart ev, e_p2aEnd ev, e_agentStart ev, e_agentEnd ev, e_a2pStart ev] \<and>
     (hasData (e_opcode ev) \<longrightarrow> 0 \<le> e_numChunks ev \<and> is_int (e_numChunks ev) \<and>
        length (e_chunks ev) = nat (e_numChunks ev) * getNumChunkFactor (e_opcode ev) \<and>
        list_all (chunk_sendable (e_opcode ev)) (e_chunks ev)) \<and>
     (hasContainerIds (e_opcode ev) \<longrightarrow> 0 < e_numChunks ev \<and> length (e_containerIds ev) = nat (e_numChunks ev) \<and>
        list_all is_int (e_containerIds ev)) \<and>
     (needsCoding (e_opcode ev) \<longrightarrow> coding_sendable ev) \<and> (hasRepairChunkInfo (e_opcode ev) \<longrightarrow> repair_sendable ev)"

subsection \<open>What is received\<close>

definition received_chunk :: "Opcode \<Rightarrow> chunk \<Rightarrow> chunk" where
  "received_chunk oc ch = ch\<lparr>c_data := if hasChunkData oc then Some (chunk_bytes ch) else None, c_freeData := True\<rparr>"

definition received_times :: "chunk_event \<Rightarrow> chunk_event \<Rightarrow> chunk_event" where
  "received_times ev ev0 =
     (if isFromProxy (e_opcode ev) then ev0\<lparr>e_p2aStart := e_p2aStart ev\<rparr>
      else ev0\<lparr>e_p2aEnd := e_p2aEnd ev, e_agentStart := e_agentStart ev, e_agentEnd := e_agentEnd ev, e_a2pStart := e_a2pStart ev\<rparr>)"

definition received_data :: "chunk_event \<Rightarrow> chunk_event \<Rightarrow> chunk_event" where
  "received_data ev ev0 = ev0\<lparr>e_numChunks := e_numChunks ev,
     e_containerIds := if hasContainerIds (e_opcode ev) then e_containerIds ev else e_containerIds ev0,
     e_chunks := if 0 < e_numChunks ev then map (received_chunk (e_opcode ev)) (e_chunks ev) else e_chunks ev0\<rparr>"

definition received_coding :: "chunk_event \<Rightarrow> chunk_event \<Rightarrow> chunk_event" where
  "received_coding ev ev0 = ev0\<lparr>e_codingMeta := (e_codingMeta ev0)\<lparr>cm_codingStateSize := cm_codingStateSize (e_codingMeta ev),
     cm_codingState := if 0 < cm_codingStateSize (e_codingMeta ev) then cm_codingState (e_codingMeta ev)
       else cm_codingState (e_codingMeta ev0)\<rparr>\<rparr>"

definition received_repair :: "chunk_event \<Rightarrow> chunk_event \<Rightarrow> chunk_event" where
  "received_repair ev ev0 = ev0\<lparr>e_codingMeta := (e_codingMeta ev0)\<lparr>cm_coding := cm_coding (e_codingMeta ev)\<rparr>,
     e_numChunkGroups := e_numChunkGroups ev, e_numInputChunks := e_numInputChunks ev, e_chunkGroupMap := e_chunkGroupMap ev,
     e_containerGroupMap := e_containerGroupMap ev, e_agents := e_agents ev0 @ e_agents ev, e_repairUsingCAR := e_repairUsingCAR ev\<rparr>"

definition received :: "chunk_event \<Rightarrow> chunk_event \<Rightarrow> chunk_event" where
  "received ev ev0 =
     (let oc = e_opcode ev; ev1 = received_times ev (ev0\<lparr>e_id := e_id ev, e_opcode := oc\<rparr>);
          ev2 = (if hasData oc then received_data ev ev1 else ev1);
          ev3 = (if needsCoding oc then received_coding ev ev2 else ev2)
      in if hasRepairChunkInfo oc then received_repair ev ev3 else ev3)"

subsection \<open>Fields\<close>

lemma next_frame_Cons [simp]: "next_frame (f # r) = Some (f, r)"
  by (simp add: next_frame_def)

lemma get_int_Cons [simp]: "is_int i \<Longrightarrow> get_int (int_bytes i # r) = Some (i, r)"
  by (simp add: get_int_def bytes_int_bytes0 is_int_def)

lemma get_time_Cons [simp]: "is_time t \<Longrightarrow> get_time (long_bytes (fst t) # long_bytes (snd t) # r) = Some (t, r)"
  using to_signed_id [of 64 "fst t"] to_signed_id [of 64 "snd t"]
  by (simp add: get_time_def bytes_long_bytes is_time_def)

lemma map_int32_id: "list_all is_int is \<Longrightarrow> map int32 is = is"
  by (induction "is") (auto simp: is_int_def)

lemma bytes_ints_id: "length is = n \<Longrightarrow> list_all is_int is \<Longrightarrow> bytes_ints n (ints_bytes is) = is"
  by (simp add: bytes_ints_bytes map_int32_id)

lemma get_chunk_frames:
  assumes "chunk_sendable oc ch"
  shows "get_chunk oc (map fst (chunk_frames oc g ch) @ r) = Some (received_chunk oc ch, r)"
proof -
  let ?l = "length (c_chunkVersion ch)"
  note wf = assms [unfolded chunk_sendable_def]
  have vl: "min (?l mod 256) (CHUNK_VERSION_MAX_LEN - 1) = ?l" and rl: "unat (word_of_nat ?l :: byte) = ?l" "?l \<le> 127"
    using wf by (simp_all add: CHUNK_VERSION_MAX_LEN_def unat_of_nat)
  have ns: "unat (word_of_nat (c_namespaceId ch) :: byte) = c_namespaceId ch" using wf by (simp add: unat_of_nat)
  have uu: "word_of_nat (le_value (le_bytes 16 (unat (c_fuuid ch)))) = c_fuuid ch"
  proof -
    have "unat (c_fuuid ch) < 2 ^ 128" by (rule unsigned_less [THEN order.strict_trans2]) simp
    then show ?thesis by (simp add: le_value_bytes)
  qed
  have dat: "hasChunkData oc \<longrightarrow> take (nat (c_size ch)) (chunk_bytes ch) = chunk_bytes ch" by (simp add: chunk_bytes_def)
  have rc: "chunk_reset\<lparr>c_namespaceId := c_namespaceId ch, c_fuuid := c_fuuid ch, c_chunkId := c_chunkId ch,
       c_fileVersion := c_fileVersion ch, c_chunkVersion := c_chunkVersion ch, c_md5 := c_md5 ch, c_size := c_size ch, c_data := d,
       c_freeData := True\<rparr> = ch\<lparr>c_data := d, c_freeData := True\<rparr>" for d
    by (cases ch) (simp add: chunk_reset_def chunk_resetMD5_def)
  have fr: "map fst (chunk_frames oc g ch) = [[word_of_nat (c_namespaceId ch)], le_bytes 16 (unat (c_fuuid ch)), int_bytes (c_chunkId ch),
       int_bytes (c_fileVersion ch), [word_of_nat ?l]] @ (if ?l > 0 then [map char_byte (c_chunkVersion ch)] else []) @
       [c_md5 ch, int_bytes (c_size ch)] @ (if hasChunkData oc then [chunk_bytes ch] else [])"
    using wf unfolding chunk_frames_def vl Let_def by simp
  show ?thesis
    using wf dat unfolding get_chunk_def fr
    by (simp add: rl ns uu rc received_chunk_def CHUNK_VERSION_MAX_LEN_def comp_def)
qed

lemma get_chunks_frames:
  "list_all (chunk_sendable oc) chs \<Longrightarrow>
   get_chunks oc (length chs) (map fst (chunks_frames oc chs) @ r) = Some (map (received_chunk oc) chs, r)"
  by (induction chs) (simp_all add: get_chunk_frames)

subsection \<open>Groups of fields\<close>

lemma get_times_frames:
  assumes "list_all is_time [e_p2aStart ev, e_p2aEnd ev, e_agentStart ev, e_agentEnd ev, e_a2pStart ev]" and "e_opcode ev0 = e_opcode ev"
  shows "get_times ev0 (map fst (time_frames ev) @ r) = Some (received_times ev ev0, r)"
  using assms by (simp add: get_times_def time_frames_def received_times_def Let_def case_prod_unfold)

lemma get_data_frames:
  assumes "event_sendable ev" and "hasData (e_opcode ev)" and "e_opcode ev0 = e_opcode ev"
  shows "get_data ev0 (int_bytes (e_numChunks ev) # (if hasContainerIds (e_opcode ev) then [ints_bytes (e_containerIds ev)] else []) @
     map fst (chunks_frames (e_opcode ev) (e_chunks ev)) @ r) = Some (received_data ev ev0, r)"
proof -
  have wf: "is_int (e_numChunks ev)" "nat (e_numChunks ev) * getNumChunkFactor (e_opcode ev) = length (e_chunks ev)"
    "list_all (chunk_sendable (e_opcode ev)) (e_chunks ev)" and n: "0 \<le> e_numChunks ev"
    and cids: "hasContainerIds (e_opcode ev) \<Longrightarrow> bytes_ints (nat (e_numChunks ev)) (ints_bytes (e_containerIds ev)) = e_containerIds ev"
    using assms(1,2) by (simp_all add: event_sendable_def bytes_ints_id)
  show ?thesis using n cids assms(3) by (simp add: get_data_def wf get_chunks_frames received_data_def)
qed

lemma get_coding_frames:
  assumes "coding_sendable ev"
  shows "get_coding ev0 (map fst (coding_frames ev) @ r) = Some (received_coding ev ev0, r)"
  using assms by (auto simp: coding_sendable_def get_coding_def coding_frames_def received_coding_def Let_def)

lemma get_repair_frames:
  assumes "repair_sendable ev"
  shows "get_repair ev0 (map fst (repair_frames ev) @ r) = Some (received_repair ev ev0, r)"
proof -
  have c: "uint (word_of_int (cm_coding (e_codingMeta ev)) :: byte) = cm_coding (e_codingMeta ev)"
    using assms by (simp add: repair_sendable_def uint_word_of_int)
  note wf = assms [unfolded repair_sendable_def]
  have m: "bytes_ints (nat (e_numChunkGroups ev + e_numInputChunks ev)) (ints_bytes (e_chunkGroupMap ev)) = e_chunkGroupMap ev"
    "bytes_ints (nat (e_numInputChunks ev)) (ints_bytes (e_containerGroupMap ev)) = e_containerGroupMap ev"
    using wf by (simp_all add: bytes_ints_id)
  show ?thesis using wf by (simp add: get_repair_def repair_frames_def c m received_repair_def comp_def)
qed

subsection \<open>Events\<close>

lemma received_times_opcode [simp]: "e_opcode (received_times ev ev0) = e_opcode ev0"
  by (simp add: received_times_def)

lemma received_data_opcode [simp]: "e_opcode (received_data ev ev0) = e_opcode ev0"
  by (simp add: received_data_def)

lemma received_coding_opcode [simp]: "e_opcode (received_coding ev ev0) = e_opcode ev0"
  by (simp add: received_coding_def)

lemma coding_has_data: "needsCoding oc \<Longrightarrow> hasData oc" "hasRepairChunkInfo oc \<Longrightarrow> needsCoding oc" "hasContainerIds oc \<Longrightarrow> hasData oc"
  by (auto simp: needsCoding_def hasRepairChunkInfo_def hasContainerIds_def hasData_def)

lemma get_event_frames:
  assumes "event_sendable ev"
  shows "get_event ev0 (map fst (sendChunkEventMessage ev)) = Some (received ev ev0, [])"
proof -
  let ?oc = "e_opcode ev" and ?ev = "ev0\<lparr>e_id := e_id ev, e_opcode := e_opcode ev\<rparr>"
  have head: "le_value (le_bytes 4 (e_id ev)) = e_id ev" "number_opcode (le_value (le_bytes 2 (opcode_number ?oc))) = ?oc"
    using assms opcode_number_bound [of ?oc] by (simp_all add: event_sendable_def le_value_bytes number_opcode_number)
  have times: "get_times ?ev (map fst (time_frames ev) @ r) = Some (received_times ev ?ev, r)" for r
    using assms by (intro get_times_frames) (simp_all add: event_sendable_def)
  show ?thesis
  proof (cases "hasData ?oc")
    case False
    with coding_has_data [of ?oc] times [of "[]"] show ?thesis
      by (auto simp: get_event_def sendChunkEventMessage_def head received_def Let_def)
  next
    case True
    have all: "take (nat (e_numChunks ev) * getNumChunkFactor ?oc) (e_chunks ev) = e_chunks ev"
      "hasContainerIds ?oc \<Longrightarrow> take (nat (e_numChunks ev)) (e_containerIds ev) = e_containerIds ev"
      using assms True by (simp_all add: event_sendable_def)
    define tail where "tail = (if needsCoding ?oc then coding_frames ev @ (if hasRepairChunkInfo ?oc then repair_frames ev else []) else [])"
    have "map fst (sendChunkEventMessage ev) = le_bytes 4 (e_id ev) # le_bytes 2 (opcode_number ?oc) # map fst (time_frames ev) @
        int_bytes (e_numChunks ev) # (if hasContainerIds ?oc then [ints_bytes (e_containerIds ev)] else []) @
        map fst (chunks_frames ?oc (e_chunks ev)) @ map fst tail"
      using True all by (simp add: sendChunkEventMessage_def tail_def Let_def)
    moreover have "get_data (received_times ev ?ev) (int_bytes (e_numChunks ev) # (if hasContainerIds ?oc then [ints_bytes (e_containerIds ev)] else []) @
        map fst (chunks_frames ?oc (e_chunks ev)) @ map fst tail) = Some (received_data ev (received_times ev ?ev), map fst tail)"
      using assms True by (intro get_data_frames) simp_all
    moreover have "(if needsCoding ?oc then get_coding e (map fst tail) else Some (e, map fst tail)) =
        Some (if needsCoding ?oc then received_coding ev e else e, if hasRepairChunkInfo ?oc then map fst (repair_frames ev) else [])" for e
      using get_coding_frames [of ev e] assms coding_has_data(2) [of ?oc] by (auto simp: tail_def event_sendable_def)
    moreover have "hasRepairChunkInfo ?oc \<Longrightarrow> get_repair e (map fst (repair_frames ev)) = Some (received_repair ev e, [])" for e
      using get_repair_frames [of ev e "[]"] assms by (simp add: event_sendable_def)
    ultimately show ?thesis using True times
      by (auto simp: get_event_def head received_def Let_def)
  qed
qed

subsection \<open>Ends of messages\<close>

text \<open>Every frame but the last is followed by another one, the last as \<open>goOn\<close> says.\<close>

definition ends :: "bool \<Rightarrow> (frame \<times> bool) list \<Rightarrow> bool" where
  "ends goOn fs \<longleftrightarrow> fs \<noteq> [] \<and> list_all snd (butlast fs) \<and> snd (last fs) = goOn"

lemma ends_append [intro]: "ends True xs \<Longrightarrow> ends g ys \<Longrightarrow> ends g (xs @ ys)"
  by (cases xs rule: rev_cases) (auto simp: ends_def butlast_append)

lemma ends_Cons [simp]: "ends g ((f, h) # r) \<longleftrightarrow> (if r = [] then h = g else h \<and> ends g r)"
  by (simp add: ends_def)

lemma ends_Nil [simp]: "\<not> ends g []"
  by (simp add: ends_def)

lemma message_of_all: "ends False fs \<Longrightarrow> message_of fs = map fst fs"
  by (induction fs rule: message_of.induct) (auto split: if_splits)

lemma ends_times: "ends (hasData (e_opcode ev)) (time_frames ev)"
  by (simp add: time_frames_def Let_def case_prod_unfold)

lemma ends_chunk: "ends g (chunk_frames oc g ch)"
  by (simp add: chunk_frames_def Let_def)

lemma ends_chunks: "chs \<noteq> [] \<Longrightarrow> ends (needsCoding oc) (chunks_frames oc chs)"
proof (induction chs)
  case (Cons ch chs)
  then show ?case using ends_chunk [of "needsCoding oc" oc ch] ends_chunk [of True oc ch]
    by (cases "chs = []") auto
qed simp

lemma ends_coding: "(hasRepairChunkInfo (e_opcode ev) \<longrightarrow> 0 < cm_codingStateSize (e_codingMeta ev)) \<Longrightarrow>
  ends (hasRepairChunkInfo (e_opcode ev)) (coding_frames ev)"
  by (auto simp: coding_frames_def Let_def)

lemma ends_repair: "ends False (repair_frames ev)"
  by (simp add: repair_frames_def)

lemma ends_event:
  assumes "event_sendable ev"
  shows "ends False (sendChunkEventMessage ev)"
proof (cases "hasData (e_opcode ev)")
  case False
  then show ?thesis using ends_times [of ev] by (auto simp: sendChunkEventMessage_def Let_def)
next
  case True
  let ?oc = "e_opcode ev"
  have all: "take (nat (e_numChunks ev) * getNumChunkFactor ?oc) (e_chunks ev) = e_chunks ev" and n: "0 \<le> e_numChunks ev"
    and len: "length (e_chunks ev) = nat (e_numChunks ev) * getNumChunkFactor ?oc" using assms True by (simp_all add: event_sendable_def)
  define tail where "tail = (if needsCoding ?oc then coding_frames ev @ (if hasRepairChunkInfo ?oc then repair_frames ev else []) else [])"
  have tail: "if needsCoding ?oc then ends False tail else tail = []"
    using ends_coding [of ev] ends_repair [of ev] assms coding_has_data(2) [of ?oc]
    by (auto simp: tail_def event_sendable_def repair_sendable_def)
  define body where "body = chunks_frames ?oc (e_chunks ev) @ tail"
  have body: "if e_numChunks ev = 0 then body = [] else ends False body"
  proof (cases "e_numChunks ev = 0")
    case True
    then have "\<not> hasContainerIds ?oc" using assms by (auto simp: event_sendable_def)
    then have "\<not> needsCoding ?oc" using \<open>hasData ?oc\<close> by (auto simp: hasContainerIds_def needsCoding_def)
    with True len tail show ?thesis by (simp add: body_def)
  next
    case False
    then have "e_chunks ev \<noteq> []" using len n by (auto simp: getNumChunkFactor_def split: if_splits)
    from ends_chunks [OF this, of ?oc] tail have "ends False body" by (cases "needsCoding ?oc") (auto simp: body_def)
    with False show ?thesis by simp
  qed
  have data: "ends False ((int_bytes (e_numChunks ev), e_numChunks ev > 0) #
      (if hasContainerIds ?oc then [(ints_bytes (take (nat (e_numChunks ev)) (e_containerIds ev)), True)] else []) @ body)"
    using body n assms by (auto simp: event_sendable_def split: if_splits)
  have "sendChunkEventMessage ev = (le_bytes 4 (e_id ev), True) # (le_bytes 2 (opcode_number ?oc), True) # time_frames ev @
      (int_bytes (e_numChunks ev), e_numChunks ev > 0) #
      (if hasContainerIds ?oc then [(ints_bytes (take (nat (e_numChunks ev)) (e_containerIds ev)), True)] else []) @ body"
    using True all by (simp add: sendChunkEventMessage_def body_def tail_def Let_def)
  with ends_append [OF ends_times [of ev, unfolded True [THEN eqTrueI]] data] show ?thesis by (simp split: if_splits)
qed

lemma single_message_ends: "single_message fs \<longleftrightarrow> ends False fs"
  by (simp add: single_message_def ends_def)

text \<open>
  C10.  Messages between proxy and agents are faithful.  What is sent for a well-formed chunk event is one
  message, and the receiver succeeds with the number of bytes sent and exactly the fields the operation
  transmits: identifier, operation, times, container ids, chunks with their bytes where the operation
  carries data, coding state and repair plan; all other fields keep their value.
\<close>

theorem chunk_event_roundtrip:
  assumes "event_sendable ev"
  shows "single_message (sendChunkEventMessage ev) \<and>
     getChunkEventMessage (message_of (sendChunkEventMessage ev)) ev0 =
       Some (received ev ev0, frames_size (map fst (sendChunkEventMessage ev)))"
  using ends_event [OF assms] get_event_frames [OF assms, of ev0]
  by (simp add: single_message_ends message_of_all getChunkEventMessage_def frames_size_def)

lemma message_of_append: "ends True xs \<Longrightarrow> message_of (xs @ ys) = map fst xs @ message_of ys"
proof (induction xs)
  case (Cons x xs)
  obtain f g where x: "x = (f, g)" by (cases x)
  with Cons show ?case by (cases "xs = []") auto
qed simp


subsection \<open>A concrete event\<close>

definition example_msg :: "Opcode \<Rightarrow> chunk_event" where
  "example_msg oc = event_reset\<lparr>e_id := 7, e_opcode := oc, e_numChunks := 1, e_containerIds := [3],
     e_chunks := [(setId 1 9 2 chunk_reset)\<lparr>c_data := Some [4, 5], c_size := 2\<rparr>]\<rparr>"

theorem chunk_event_roundtrip_witness:
  "\<exists>got n. getChunkEventMessage (message_of (sendChunkEventMessage (example_msg PUT_CHUNK_REQ))) event_reset = Some (got, n) \<and>
     e_opcode got = PUT_CHUNK_REQ \<and> e_containerIds got = [3] \<and> map c_data (e_chunks got) = [Some [4, 5]]"
proof -
  have "event_sendable (example_msg PUT_CHUNK_REQ)"
    by (simp add: event_sendable_def example_msg_def event_reset_def is_time_def is_int_def chunk_sendable_def setId_def
        chunk_reset_def chunk_resetMD5_def chunk_bytes_def hasData_def hasContainerIds_def needsCoding_def
        hasRepairChunkInfo_def getNumChunkFactor_def INVALID_CHUNK_ID_def CHUNK_VERSION_MAX_LEN_def)
  from chunk_event_roundtrip [OF this, of event_reset] show ?thesis
    by (simp add: received_def received_times_def received_data_def received_chunk_def example_msg_def event_reset_def Let_def
        hasData_def hasContainerIds_def needsCoding_def hasRepairChunkInfo_def hasChunkData_def chunk_bytes_def)
qed


end
