(* ===== verification/Agent.thy ===== *)
theory Agent
  imports Container_Manager Chunk_Message
begin

text \<open>
  The agent (\<^verbatim>\<open>src/agent/agent.cc\<close>): it receives a chunk event, works on its containers and replies.
  A worker handles one event at a time; the work on the containers for one event is one step here.  For the
  repair of chunks an agent sends requests to agents, possibly itself, which are the addresses of a
  cluster; requests that the code sends from several threads are answered in their order.
  Memory for chunks is available.  A message that ends too early is not answered here (the code goes on with the
  part it has read).
\<close>

subsection \<open>State\<close>

record 'c agent =
  a_containers :: "'c containers"
  a_eventCount :: "32 word"
  a_trafficIn :: "64 word"
  a_trafficOut :: "64 word"
  a_chunkIn :: "64 word"
  a_chunkOut :: "64 word"
  a_opsOk :: "64 word"
  a_opsFail :: "64 word"

text \<open>
  The methods of the containers, the configuration, the digest, the finite field library, which agents
  can be connected to, and the times noted in replies.
\<close>

record 'c agent_env =
  ag_ops :: "'c container_ops"
  ag_verify :: bool
  ag_md5 :: md5_fun
  ag_isal :: isal
  ag_malloc :: "nat \<Rightarrow> bool"
  ag_connect :: "string \<Rightarrow> bool"
  ag_received :: time_val
  ag_started :: time_val
  ag_done :: time_val
  ag_replied :: time_val

definition newAgent :: "'c containers \<Rightarrow> 'c agent" where
  "newAgent cs = \<lparr>a_containers = cs, a_eventCount = 0, a_trafficIn = 0, a_trafficOut = 0, a_chunkIn = 0, a_chunkOut = 0,
     a_opsOk = 0, a_opsFail = 0\<rparr>"

definition addIngressTraffic :: "nat \<Rightarrow> 'c agent \<Rightarrow> 'c agent" where
  "addIngressTraffic n ag = ag\<lparr>a_trafficIn := a_trafficIn ag + of_nat n\<rparr>"

definition addEgressTraffic :: "nat \<Rightarrow> 'c agent \<Rightarrow> 'c agent" where
  "addEgressTraffic n ag = ag\<lparr>a_trafficOut := a_trafficOut ag + of_nat n\<rparr>"

definition addIngressChunkTraffic :: "int \<Rightarrow> 'c agent \<Rightarrow> 'c agent" where
  "addIngressChunkTraffic n ag = ag\<lparr>a_chunkIn := a_chunkIn ag + of_int n\<rparr>"

definition addEgressChunkTraffic :: "int \<Rightarrow> 'c agent \<Rightarrow> 'c agent" where
  "addEgressChunkTraffic n ag = ag\<lparr>a_chunkOut := a_chunkOut ag + of_int n\<rparr>"

definition incrementOp :: "bool \<Rightarrow> 'c agent \<Rightarrow> 'c agent" where
  "incrementOp success ag =
     (if success then ag\<lparr>a_opsOk := a_opsOk ag + 1\<rparr> else ag\<lparr>a_opsFail := a_opsFail ag + 1\<rparr>)"

subsection \<open>Requests on the containers of the agent\<close>

definition event_cids :: "chunk_event \<Rightarrow> int list" where "event_cids ev = take (nat (e_numChunks ev)) (e_containerIds ev)"
definition event_srcs :: "chunk_event \<Rightarrow> chunk list" where "event_srcs ev = take (nat (e_numChunks ev)) (e_chunks ev)"

definition event_dsts :: "chunk_event \<Rightarrow> chunk list" where
  "event_dsts ev = take (nat (e_numChunks ev)) (drop (nat (e_numChunks ev)) (e_chunks ev))"

definition total_size :: "chunk list \<Rightarrow> int" where "total_size chs = sum_list (map c_size chs)"

definition handle_put :: "'c agent_env \<Rightarrow> chunk_event \<Rightarrow> 'c agent \<Rightarrow> 'c agent \<times> chunk_event" where
  "handle_put E ev ag =
     (let (m, chs, ok) = putChunks (ag_ops E) (ag_verify E) (ag_md5 E) (event_cids ev) (event_srcs ev) (a_containers ag)
      in (addIngressChunkTraffic (total_size chs) (incrementOp ok (ag\<lparr>a_containers := m\<rparr>)),
          ev\<lparr>e_chunks := chs, e_opcode := if ok then PUT_CHUNK_REP_SUCCESS else PUT_CHUNK_REP_FAIL\<rparr>))"

definition handle_get :: "'c agent_env \<Rightarrow> chunk_event \<Rightarrow> 'c agent \<Rightarrow> 'c agent \<times> chunk_event" where
  "handle_get E ev ag =
     (let (chs, ok) = getChunks (ag_ops E) (event_cids ev) (event_srcs ev) (a_containers ag)
      in (incrementOp ok (if ok then addEgressChunkTraffic (total_size chs) ag else ag),
          ev\<lparr>e_chunks := chs, e_opcode := if ok then GET_CHUNK_REP_SUCCESS else GET_CHUNK_REP_FAIL\<rparr>))"

definition handle_delete :: "'c agent_env \<Rightarrow> chunk_event \<Rightarrow> 'c agent \<Rightarrow> 'c agent \<times> chunk_event" where
  "handle_delete E ev ag =
     (let (m, ok) = deleteChunks (ag_ops E) (event_cids ev) (event_srcs ev) (a_containers ag)
      in (incrementOp ok (ag\<lparr>a_containers := m\<rparr>),
          ev\<lparr>e_opcode := if ok then DEL_CHUNK_REP_SUCCESS else DEL_CHUNK_REP_FAIL\<rparr>))"

text \<open>The metadata of the first destination chunk is copied to every source chunk for the reply.\<close>

definition forward_meta :: "chunk list \<Rightarrow> chunk list \<Rightarrow> chunk list" where
  "forward_meta srcs dsts = map (chunk_copyMeta (hd dsts) True) srcs @ dsts"

definition handle_copy :: "'c agent_env \<Rightarrow> chunk_event \<Rightarrow> 'c agent \<Rightarrow> 'c agent \<times> chunk_event" where
  "handle_copy E ev ag =
     (let (m, dsts, ok) = copyChunks (ag_ops E) (event_cids ev) (event_srcs ev) (event_dsts ev) (a_containers ag)
      in (incrementOp ok (ag\<lparr>a_containers := m\<rparr>),
          ev\<lparr>e_chunks := forward_meta (event_srcs ev) dsts,
             e_opcode := if ok then CPY_CHUNK_REP_SUCCESS else CPY_CHUNK_REP_FAIL\<rparr>))"

definition handle_move :: "'c agent_env \<Rightarrow> chunk_event \<Rightarrow> 'c agent \<Rightarrow> 'c agent \<times> chunk_event" where
  "handle_move E ev ag =
     (let (m, dsts, ok) = moveChunks (ag_ops E) (event_cids ev) (event_srcs ev) (event_dsts ev) (a_containers ag)
      in (incrementOp ok (ag\<lparr>a_containers := m\<rparr>),
          ev\<lparr>e_chunks := forward_meta (event_srcs ev) dsts,
             e_opcode := if ok then MOV_CHUNK_REP_SUCCESS else MOV_CHUNK_REP_FAIL\<rparr>))"

definition handle_encode :: "'c agent_env \<Rightarrow> chunk_event \<Rightarrow> 'c agent \<Rightarrow> 'c agent \<times> chunk_event" where
  "handle_encode E ev ag =
     (let ch = getEncodedChunks (ag_isal E) (ag_malloc E) (ag_ops E) (event_cids ev) (event_srcs ev)
                 (case cm_codingState (e_codingMeta ev) of None \<Rightarrow> [] | Some m \<Rightarrow> m) (a_containers ag)
      in if c_size ch > 0
         then (incrementOp True ag, ev\<lparr>e_opcode := ENC_CHUNK_REP_SUCCESS, e_numChunks := 1, e_chunks := [ch\<lparr>c_freeData := True\<rparr>],
                 e_containerIds := [], e_codingMeta := codingMeta_reset\<rparr>)
         else (incrementOp False ag, ev\<lparr>e_opcode := ENC_CHUNK_REP_FAIL\<rparr>))"

definition handle_check :: "'c agent_env \<Rightarrow> chunk_event \<Rightarrow> 'c agent \<Rightarrow> 'c agent \<times> chunk_event" where
  "handle_check E ev ag =
     (ag, ev\<lparr>e_opcode := if hasChunks (ag_ops E) (event_cids ev) (event_srcs ev) (a_containers ag)
               then CHK_CHUNK_REP_SUCCESS else CHK_CHUNK_REP_FAIL\<rparr>)"

definition handle_revert :: "'c agent_env \<Rightarrow> chunk_event \<Rightarrow> 'c agent \<Rightarrow> 'c agent \<times> chunk_event" where
  "handle_revert E ev ag =
     (let (m, ok) = revertChunks (ag_ops E) (event_cids ev) (event_srcs ev) (a_containers ag)
      in (incrementOp ok (ag\<lparr>a_containers := m\<rparr>),
          ev\<lparr>e_opcode := if ok then RVT_CHUNK_REP_SUCCESS else RVT_CHUNK_REP_FAIL\<rparr>))"

definition handle_verify :: "'c agent_env \<Rightarrow> chunk_event \<Rightarrow> 'c agent \<Rightarrow> 'c agent \<times> chunk_event" where
  "handle_verify E ev ag =
     (let (chs, num) = verifyChunks (ag_ops E) (event_cids ev) (event_srcs ev) (a_containers ag)
      in (incrementOp (num \<ge> 0) ag,
          if num \<ge> 0 then ev\<lparr>e_chunks := chs, e_numChunks := num, e_opcode := VRF_CHUNK_REP_SUCCESS\<rparr>
          else ev\<lparr>e_chunks := chs, e_opcode := VRF_CHUNK_REP_FAIL\<rparr>))"

text \<open>All operations but the repair; an operation that is no request is returned as it is.\<close>

definition handle_local :: "'c agent_env \<Rightarrow> chunk_event \<Rightarrow> 'c agent \<Rightarrow> 'c agent \<times> chunk_event" where
  "handle_local E ev ag = (case e_opcode ev of
       PUT_CHUNK_REQ \<Rightarrow> handle_put E ev ag
     | GET_CHUNK_REQ \<Rightarrow> handle_get E ev ag
     | DEL_CHUNK_REQ \<Rightarrow> handle_delete E ev ag
     | CPY_CHUNK_REQ \<Rightarrow> handle_copy E ev ag
     | ENC_CHUNK_REQ \<Rightarrow> handle_encode E ev ag
     | CHK_CHUNK_REQ \<Rightarrow> handle_check E ev ag
     | MOV_CHUNK_REQ \<Rightarrow> handle_move E ev ag
     | RVT_CHUNK_REQ \<Rightarrow> handle_revert E ev ag
     | VRF_CHUNK_REQ \<Rightarrow> handle_verify E ev ag
     | _ \<Rightarrow> (ag, ev))"

subsection \<open>Replies\<close>

definition stamp :: "'c agent_env \<Rightarrow> chunk_event \<Rightarrow> chunk_event" where
  "stamp E ev = ev\<lparr>e_p2aEnd := ag_received E, e_agentStart := ag_started E, e_agentEnd := ag_done E, e_a2pStart := ag_replied E\<rparr>"

definition send_reply :: "'c agent_env \<Rightarrow> chunk_event \<Rightarrow> 'c agent \<Rightarrow> 'c agent \<times> frame list option" where
  "send_reply E ev ag =
     (let fs = sendChunkEventMessage (stamp E ev)
      in if single_message fs then (addEgressTraffic (frames_size (map fst fs)) ag, Some (message_of fs)) else (ag, None))"

definition serve_local :: "'c agent_env \<Rightarrow> frame list \<Rightarrow> 'c agent \<Rightarrow> 'c agent \<times> frame list option" where
  "serve_local E fs ag = (case getChunkEventMessage fs event_reset of
       None \<Rightarrow> (ag, None)
     | Some (ev, bytes) \<Rightarrow>
         let (ag1, ev1) = handle_local E ev (addIngressTraffic bytes ag) in send_reply E ev1 ag1)"

subsection \<open>The cluster\<close>

type_synonym 'c cluster = "string \<Rightarrow> 'c agent option"

definition deliver :: "(string \<Rightarrow> 'c agent_env) \<Rightarrow> 'c cluster network" where
  "deliver E addr fs cl = (case cl addr of
       None \<Rightarrow> (cl, None)
     | Some ag \<Rightarrow> let (ag', r) = serve_local (E addr) fs ag in (cl(addr \<mapsto> ag'), r))"

fun send_all ::
  "(string \<Rightarrow> 'c agent_env) \<Rightarrow> string \<Rightarrow> (string \<times> chunk_event) list \<Rightarrow> 'c cluster \<Rightarrow> 'c cluster \<times> request_result list" where
  "send_all E me [] cl = (cl, [])"
| "send_all E me ((addr, req) # reqs) cl =
     (let (cl1, r) = sendChunkRequestToAgent (ag_connect (E me)) (deliver E) addr req cl;
          (cl2, rs) = send_all E me reqs cl1
      in (cl2, r # rs))"

definition at_agent :: "('c agent \<Rightarrow> 'c agent) \<Rightarrow> string \<Rightarrow> 'c cluster \<Rightarrow> 'c cluster" where
  "at_agent f me cl = cl(me := map_option f (cl me))"

subsection \<open>Repair\<close>

text \<open>The address list is a sequence of addresses, each followed by a semicolon.\<close>

definition next_addr :: "string \<Rightarrow> nat \<Rightarrow> string \<times> nat" where
  "next_addr s st =
     (let r = drop st s; a = takeWhile (\<lambda>c. c \<noteq> CHR '';'') r in (a, if length a < length r then st + length a + 1 else 0))"

definition input_chunk :: "chunk \<Rightarrow> int \<Rightarrow> chunk" where
  "input_chunk target cid =
     (setId (c_namespaceId target) (c_fuuid target) cid chunk_reset)\<lparr>c_size := 0, c_data := None, c_fileVersion := c_fileVersion target\<rparr>"

text \<open>The request number \<open>r\<close> for input chunks, at position \<open>pos\<close> of the chunk list.\<close>

definition input_request :: "chunk_event \<Rightarrow> 32 word \<Rightarrow> nat \<Rightarrow> nat \<Rightarrow> chunk_event" where
  "input_request ev evId r pos =
     (let isCAR = e_repairUsingCAR ev; n = (if isCAR then nat (e_chunkGroupMap ev ! (r + pos)) else 1);
          cid = (\<lambda>i. if isCAR then e_chunkGroupMap ev ! (pos + r + i + 1) else e_chunkGroupMap ev ! (pos + i + 1))
      in event_reset\<lparr>e_id := unat evId, e_opcode := if isCAR then ENC_CHUNK_REQ else GET_CHUNK_REQ, e_numChunks := int n,
           e_containerIds := take n (drop pos (e_containerGroupMap ev)),
           e_chunks := map (\<lambda>i. input_chunk (hd (e_chunks ev)) (cid i)) [0..<n],
           e_codingMeta := if isCAR
             then codingMeta_reset\<lparr>cm_codingStateSize := int n, cm_codingState := Some (take n (drop pos (the (cm_codingState (e_codingMeta ev)))))\<rparr>
             else codingMeta_reset\<rparr>)"

fun input_requests ::
  "chunk_event \<Rightarrow> nat list \<Rightarrow> 32 word \<Rightarrow> nat \<Rightarrow> nat \<Rightarrow> (string \<times> chunk_event) list \<times> nat" where
  "input_requests ev [] evId pos st = ([], st)"
| "input_requests ev (r # rs) evId pos st =
     (let req = input_request ev evId r pos; (addr, st1) = next_addr (e_agents ev) st;
          (reqs, st2) = input_requests ev rs (evId + 1) (pos + nat (e_numChunks req)) st1
      in ((addr, req) # reqs, st2))"

text \<open>The requests that store the repaired chunks but the first one at other agents.\<close>

fun store_requests ::
  "chunk_event \<Rightarrow> chunk list \<Rightarrow> nat list \<Rightarrow> 32 word \<Rightarrow> nat \<Rightarrow> (string \<times> chunk_event) list" where
  "store_requests ev chs [] evId st = []"
| "store_requests ev chs (r # rs) evId st =
     (let (addr, st1) = next_addr (e_agents ev) st;
          req = event_reset\<lparr>e_id := unat evId, e_opcode := PUT_CHUNK_REQ, e_numChunks := 1,
                  e_chunks := [(chs ! (r + 1))\<lparr>c_freeData := False\<rparr>], e_containerIds := [e_containerIds ev ! (r + 1)]\<rparr>
      in (addr, req) # store_requests ev chs rs (evId + 1) st1)"

definition reply_is :: "Opcode \<Rightarrow> request_result \<Rightarrow> bool" where
  "reply_is oc r = (case r of RequestOk ev \<Rightarrow> e_opcode ev = oc | _ \<Rightarrow> False)"

definition reply_chunk :: "request_result \<Rightarrow> chunk" where
  "reply_chunk r = (case r of RequestOk ev \<Rightarrow> hd (e_chunks ev) | _ \<Rightarrow> chunk_reset)"

definition reply_data :: "request_result \<Rightarrow> byte list" where
  "reply_data r = (case c_data (reply_chunk r) of None \<Rightarrow> [] | Some bs \<Rightarrow> bs)"

definition repaired_chunks :: "'c agent_env \<Rightarrow> chunk_event \<Rightarrow> request_result list \<Rightarrow> chunk list" where
  "repaired_chunks E ev reps =
     (let size = (if reps = [] then 0 else c_size (reply_chunk (last reps)));
          matrix = (if e_repairUsingCAR ev then replicate (length reps) 1 else the (cm_codingState (e_codingMeta ev)));
          outs = utils_encode (ag_isal E) (map reply_data reps) (nat (e_numChunks ev)) (nat size) matrix
      in map (\<lambda>(ch, bs). fst (computeMD5 (ag_md5 E) (ch\<lparr>c_data := Some bs, c_size := size\<rparr>))) (zip (event_srcs ev) outs))"

definition store_local :: "'c agent_env \<Rightarrow> int list \<Rightarrow> chunk list \<Rightarrow> 'c agent \<Rightarrow> 'c agent \<times> chunk list \<times> bool" where
  "store_local E cids chs ag =
     (let (m, chs', ok) = putChunks (ag_ops E) (ag_verify E) (ag_md5 E) cids chs (a_containers ag)
      in (ag\<lparr>a_containers := m\<rparr>, chs', ok))"

text \<open>
  The repaired chunks are stored: those for other agents by requests, the rest in the first container.  The
  code means to delete them again when some could not be stored, under a condition that only holds when
  it runs out of memory.
\<close>

definition store_repaired ::
  "(string \<Rightarrow> 'c agent_env) \<Rightarrow> string \<Rightarrow> chunk_event \<Rightarrow> 32 word \<Rightarrow> nat \<Rightarrow> chunk list \<Rightarrow> 'c cluster \<Rightarrow> 'c cluster \<times> chunk list \<times> bool" where
  "store_repaired E me ev evId st chs cl =
     (let numOut = (if e_repairUsingCAR ev then 0 else length chs - 1); numLocal = (if e_repairUsingCAR ev then length chs else 1);
          (cl1, reps) = send_all E me (store_requests ev chs [0..<numOut] evId st) cl
      in case cl1 me of
           None \<Rightarrow> (cl1, chs, False)
         | Some ag \<Rightarrow>
             let (ag1, chs1, ok) = store_local (E me) (replicate numLocal (hd (e_containerIds ev))) (take numLocal chs) ag
             in (cl1(me \<mapsto> ag1\<lparr>a_eventCount := a_eventCount ag1 + of_nat numOut\<rparr>), chs1 @ drop numLocal chs,
                 ok \<and> list_all (reply_is PUT_CHUNK_REP_SUCCESS) reps))"

definition handle_repair ::
  "(string \<Rightarrow> 'c agent_env) \<Rightarrow> string \<Rightarrow> chunk_event \<Rightarrow> 'c cluster \<Rightarrow> 'c cluster \<times> chunk_event" where
  "handle_repair E me ev cl =
     (if cm_coding (e_codingMeta ev) < 0 \<or> cm_coding (e_codingMeta ev) \<ge> UNKNOWN_CODE
      then (cl, ev\<lparr>e_opcode := RPR_CHUNK_REP_FAIL\<rparr>)
      else
        let evId = (case cl me of None \<Rightarrow> 0 | Some ag \<Rightarrow> a_eventCount ag);
            numReq = nat (if e_repairUsingCAR ev then e_numChunkGroups ev else e_chunkGroupMap ev ! 0);
            (reqs, st) = input_requests ev [0..<numReq] evId 0 0; evId1 = evId + of_nat numReq;
            (cl1, reps) = send_all E me reqs (at_agent (\<lambda>ag. ag\<lparr>a_eventCount := evId1\<rparr>) me cl);
            expected = (if e_repairUsingCAR ev then ENC_CHUNK_REP_SUCCESS else GET_CHUNK_REP_SUCCESS)
        in if list_all (reply_is expected) reps
           then let (cl2, chs, ok) = store_repaired E me ev evId1 st (repaired_chunks (E me) ev reps) cl1
                in (at_agent (incrementOp ok) me cl2,
                    ev\<lparr>e_chunks := chs, e_opcode := if ok then RPR_CHUNK_REP_SUCCESS else RPR_CHUNK_REP_FAIL\<rparr>)
           else (at_agent (incrementOp False) me cl1, ev\<lparr>e_opcode := RPR_CHUNK_REP_FAIL\<rparr>))"

text \<open>One turn of a worker of the agent at address \<open>me\<close>.\<close>

definition handleChunkEvent ::
  "(string \<Rightarrow> 'c agent_env) \<Rightarrow> string \<Rightarrow> frame list \<Rightarrow> 'c cluster \<Rightarrow> 'c cluster \<times> frame list option" where
  "handleChunkEvent E me fs cl = (case cl me of
       None \<Rightarrow> (cl, None)
     | Some ag \<Rightarrow> (case getChunkEventMessage fs event_reset of
           Some (ev, bytes) \<Rightarrow>
             if e_opcode ev = RPR_CHUNK_REQ
             then let (cl1, ev1) = handle_repair E me ev (cl(me \<mapsto> addIngressTraffic bytes ag))
                  in (case cl1 me of
                        None \<Rightarrow> (cl1, None)
                      | Some ag1 \<Rightarrow> let (ag2, r) = send_reply (E me) ev1 ag1 in (cl1(me \<mapsto> ag2), r))
             else deliver E me fs cl
         | None \<Rightarrow> deliver E me fs cl))"

end
