(* ===== verification/Agent_Messages.thy ===== *)
theory Agent_Messages
  imports Agent Message_Correct Container_Correct
begin

text \<open>
  What a request to an agent does, seen from the sender: the message format and the work of the agent on its
  containers put together, for every kind of container that keeps its contract.
\<close>

subsection \<open>Requests and replies\<close>

definition env_times :: "'c agent_env \<Rightarrow> bool" where
  "env_times E \<longleftrightarrow> list_all is_time [ag_received E, ag_started E, ag_done E, ag_replied E]"

lemma frames_size_pos: "0 < frames_size (map fst (sendChunkEventMessage ev))"
  by (simp add: sendChunkEventMessage_def frames_size_def Let_def)

lemma serve_request:
  assumes "event_sendable req" and "handle_local E (received req event_reset)
      (addIngressTraffic (frames_size (map fst (sendChunkEventMessage req))) ag) = (ag1, ev1)"
    and "event_sendable (stamp E ev1)"
  shows "\<exists>ag2 fs n. serve_local E (message_of (sendChunkEventMessage req)) ag = (ag2, Some fs) \<and> a_containers ag2 = a_containers ag1 \<and>
     getChunkEventMessage fs event_reset = Some (received (stamp E ev1) event_reset, n) \<and> 0 < n"
proof -
  note r = ends_event [OF assms(3)]
  have "getChunkEventMessage (message_of (sendChunkEventMessage req)) event_reset =
      Some (received req event_reset, frames_size (map fst (sendChunkEventMessage req)))"
    using ends_event [OF assms(1)] get_event_frames [OF assms(1), of event_reset]
    by (simp add: message_of_all getChunkEventMessage_def frames_size_def)
  moreover have "getChunkEventMessage (message_of (sendChunkEventMessage (stamp E ev1))) event_reset =
      Some (received (stamp E ev1) event_reset, frames_size (map fst (sendChunkEventMessage (stamp E ev1))))"
    using r get_event_frames [OF assms(3), of event_reset]
    by (simp add: message_of_all getChunkEventMessage_def frames_size_def)
  moreover have "single_message (sendChunkEventMessage (stamp E ev1))" using r by (simp add: single_message_ends)
  ultimately show ?thesis
    using assms(2) frames_size_pos [of "stamp E ev1"]
    by (auto simp: serve_local_def send_reply_def addEgressTraffic_def Let_def)
qed

lemma send_request:
  assumes "event_sendable req" and "con addr" and "cl addr = Some ag"
    and "handle_local (E addr) (received req event_reset)
      (addIngressTraffic (frames_size (map fst (sendChunkEventMessage req))) ag) = (ag1, ev1)"
    and "event_sendable (stamp (E addr) ev1)"
  shows "\<exists>ag2. sendChunkRequestToAgent con (deliver E) addr req cl = (cl(addr \<mapsto> ag2), RequestOk (received (stamp (E addr) ev1) event_reset)) \<and>
     a_containers ag2 = a_containers ag1"
proof -
  obtain ag2 fs n where s: "serve_local (E addr) (message_of (sendChunkEventMessage req)) ag = (ag2, Some fs)"
      "a_containers ag2 = a_containers ag1"
      "getChunkEventMessage fs event_reset = Some (received (stamp (E addr) ev1) event_reset, n)" "0 < n"
    using serve_request [OF assms(1,4,5)] by (elim exE conjE) (rule that)
  have "single_message (sendChunkEventMessage req)" using ends_event [OF assms(1)] by (simp add: single_message_ends)
  with s assms(2,3) show ?thesis by (intro exI [of _ ag2]) (simp add: sendChunkRequestToAgent_def deliver_def Let_def)
qed

lemma send_request_fails:
  assumes "event_sendable req" and "\<not> con addr \<or> cl addr = None"
  shows "\<exists>r. sendChunkRequestToAgent con (deliver E) addr req cl = (cl, r) \<and> (\<forall>oc. \<not> reply_is oc r)"
  using assms ends_event [OF assms(1)]
  by (auto simp: sendChunkRequestToAgent_def deliver_def reply_is_def single_message_ends)

subsection \<open>One chunk\<close>

text \<open>A request for one chunk of one container.\<close>

definition one_chunk :: "Opcode \<Rightarrow> 32 word \<Rightarrow> int \<Rightarrow> chunk \<Rightarrow> chunk_event" where
  "one_chunk oc evId cid ch = event_reset\<lparr>e_id := unat evId, e_opcode := oc, e_numChunks := 1, e_containerIds := [cid], e_chunks := [ch]\<rparr>"

lemma is_time_0 [simp]: "is_time (0, 0)"
  by (simp add: is_time_def)

lemma unat_word32: "unat (w :: 32 word) < 4294967296"
  by (rule unsigned_less [THEN order.strict_trans2]) simp

lemmas opcode_defs = isFromProxy_def hasData_def hasContainerIds_def hasChunkData_def needsCoding_def hasRepairChunkInfo_def
  getNumChunkFactor_def

lemma one_chunk_sendable:
  assumes "oc = GET_CHUNK_REQ \<or> oc = PUT_CHUNK_REQ" and "is_int cid" and "chunk_sendable oc ch"
  shows "event_sendable (one_chunk oc evId cid ch)"
  using assms unat_word32 [of evId] by (auto simp: event_sendable_def one_chunk_def event_reset_def opcode_defs is_int_def)

lemma received_one_chunk:
  "oc = GET_CHUNK_REQ \<or> oc = PUT_CHUNK_REQ \<Longrightarrow>
   received (one_chunk oc evId cid ch) event_reset = one_chunk oc evId cid (received_chunk oc ch)"
  by (auto simp: received_def one_chunk_def received_times_def received_data_def event_reset_def opcode_defs Let_def)

lemma chunk_sendable_cong:
  "c_namespaceId d = c_namespaceId ch \<Longrightarrow> c_chunkId d = c_chunkId ch \<Longrightarrow> c_fileVersion d = c_fileVersion ch \<Longrightarrow>
   c_chunkVersion d = c_chunkVersion ch \<Longrightarrow> c_md5 d = c_md5 ch \<Longrightarrow> c_size d = c_size ch \<Longrightarrow> \<not> hasChunkData oc \<Longrightarrow> chunk_sendable oc' ch \<Longrightarrow>
   chunk_sendable oc d"
  by (simp add: chunk_sendable_def)

lemma reply_sendable:
  assumes "env_times E" and "chunk_sendable oc ch" and "is_int cid"
    and "oc \<in> {GET_CHUNK_REP_SUCCESS, PUT_CHUNK_REP_SUCCESS, GET_CHUNK_REP_FAIL, PUT_CHUNK_REP_FAIL}"
  shows "event_sendable (stamp E ((one_chunk oc' evId cid d)\<lparr>e_chunks := [ch], e_opcode := oc\<rparr>))"
  using assms unat_word32 [of evId]
  by (auto simp: event_sendable_def env_times_def stamp_def one_chunk_def event_reset_def opcode_defs is_int_def)

lemma fail_reply_sendable:
  assumes "env_times E" and "oc \<in> {GET_CHUNK_REP_FAIL, PUT_CHUNK_REP_FAIL}"
  shows "event_sendable (stamp E ((one_chunk oc' evId cid d)\<lparr>e_chunks := chs, e_opcode := oc\<rparr>))"
  using assms unat_word32 [of evId]
  by (auto simp: event_sendable_def env_times_def stamp_def one_chunk_def event_reset_def opcode_defs is_int_def)

lemma received_reply:
  "oc \<in> {GET_CHUNK_REP_SUCCESS, PUT_CHUNK_REP_SUCCESS} \<Longrightarrow>
   received (stamp E ((one_chunk oc' evId cid d)\<lparr>e_chunks := [ch], e_opcode := oc\<rparr>)) event_reset =
     stamp E ((one_chunk oc evId cid (received_chunk oc ch)))"
  by (auto simp: received_def one_chunk_def received_times_def received_data_def event_reset_def opcode_defs stamp_def Let_def)

lemma stamp_one [simp]: "e_chunks (stamp E (one_chunk oc evId cid ch)) = [ch]" "e_opcode (stamp E ev) = e_opcode ev"
  by (simp_all add: stamp_def one_chunk_def)

lemma received_opcode: "e_opcode (received ev ev0) = e_opcode ev"
  by (simp add: received_def Let_def received_repair_def)

lemma one_chunk_fields [simp]:
  "e_opcode (one_chunk oc evId cid ch) = oc" "event_cids (one_chunk oc evId cid ch) = [cid]" "event_srcs (one_chunk oc evId cid ch) = [ch]"
  by (simp_all add: one_chunk_def event_cids_def event_srcs_def)

lemma handle_get_one:
  assumes "getChunks (ag_ops E) [cid] [ch] (a_containers ag) = (chs, ok)"
  shows "\<exists>ag1. handle_local E (one_chunk GET_CHUNK_REQ evId cid ch) ag =
      (ag1, (one_chunk GET_CHUNK_REQ evId cid ch)\<lparr>e_chunks := chs, e_opcode := if ok then GET_CHUNK_REP_SUCCESS else GET_CHUNK_REP_FAIL\<rparr>) \<and>
      a_containers ag1 = a_containers ag"
  using assms by (simp add: handle_local_def handle_get_def incrementOp_def addEgressChunkTraffic_def del: getChunks.simps)

lemma handle_put_one:
  assumes "putChunks (ag_ops E) (ag_verify E) (ag_md5 E) [cid] [ch] (a_containers ag) = (m, chs, ok)"
  shows "\<exists>ag1. handle_local E (one_chunk PUT_CHUNK_REQ evId cid ch) ag =
      (ag1, (one_chunk PUT_CHUNK_REQ evId cid ch)\<lparr>e_chunks := chs, e_opcode := if ok then PUT_CHUNK_REP_SUCCESS else PUT_CHUNK_REP_FAIL\<rparr>) \<and>
      a_containers ag1 = m"
  using assms by (simp add: handle_local_def handle_put_def incrementOp_def addIngressChunkTraffic_def)

lemma addIngress_containers [simp]: "a_containers (addIngressTraffic n ag) = a_containers ag"
  by (simp add: addIngressTraffic_def)

subsection \<open>Clusters of agents\<close>

text \<open>
  Each agent of a cluster has containers that keep the contract of a container, and whose operations return
  chunks that fit into a message.  The clock of an agent gives times a message can hold.
\<close>

definition in_cluster :: "('c \<Rightarrow> chunk \<Rightarrow> byte list option) \<Rightarrow> 'c cluster \<Rightarrow> string \<Rightarrow> int \<Rightarrow> chunk \<Rightarrow> byte list option" where
  "in_cluster stored cl addr cid ch = Option.bind (cl addr) (\<lambda>ag. in_container stored (a_containers ag) cid ch)"

text \<open>The reply to a request to store a chunk names the container and has the chunk.\<close>

definition acknowledges :: "int \<Rightarrow> request_result \<Rightarrow> bool" where
  "acknowledges cid r \<longleftrightarrow> (\<exists>ev ch. r = RequestOk ev \<and> e_containerIds ev = [cid] \<and> e_chunks ev = [ch] \<and>
     length (c_chunkVersion ch) < CHUNK_VERSION_MAX_LEN)"

locale chunk_cluster =
  fixes E :: "string \<Rightarrow> 'c agent_env" and stored :: "'c \<Rightarrow> chunk \<Rightarrow> byte list option" and same :: "chunk \<Rightarrow> chunk \<Rightarrow> bool"
  assumes node: "managed (ag_ops (E a)) stored same"
    and times: "env_times (E a)"
    and same_ids: "c_namespaceId d = c_namespaceId e \<Longrightarrow> c_fuuid d = c_fuuid e \<Longrightarrow> c_fileVersion d = c_fileVersion e \<Longrightarrow>
      c_chunkId d = c_chunkId e \<Longrightarrow> same d e"
    and get_fits: "k_getChunk (ag_ops (E a)) ch skip c = (ch', True) \<Longrightarrow> stored c ch = Some bs \<Longrightarrow> length bs < 2147483648 \<Longrightarrow>
      chunk_sendable GET_CHUNK_REQ ch \<Longrightarrow> c_size ch' = int (length bs) \<and> c_chunkId ch' = c_chunkId ch \<and> chunk_sendable GET_CHUNK_REP_SUCCESS ch'"
    and put_fits: "k_putChunk (ag_ops (E a)) ch c = (c', ch', True) \<Longrightarrow> chunk_sendable PUT_CHUNK_REQ ch \<Longrightarrow>
      chunk_sendable PUT_CHUNK_REP_SUCCESS ch'"
begin

lemma same_received: "same (received_chunk oc ch) ch" "same ch (received_chunk oc ch)"
  by (rule same_ids; simp add: received_chunk_def)+

lemma in_container_same: "same d e \<Longrightarrow> in_container stored m cid d = in_container stored m cid e"
  using chunk_container.stored_same [OF node [unfolded managed_def]] by (auto simp: in_container_def intro: bind_option_cong)

lemma holds_same: "same d e \<Longrightarrow> in_cluster stored cl addr cid d = in_cluster stored cl addr cid e"
  by (simp add: in_cluster_def in_container_same)

text \<open>A container of the agent accepts, or refuses, a request for a chunk it stores with these bytes.\<close>

definition readable :: "string \<Rightarrow> chunk \<Rightarrow> byte list \<Rightarrow> bool" where
  "readable addr ch bs \<longleftrightarrow> (\<exists>c ch'. stored c ch = Some bs \<and> k_getChunk (ag_ops (E addr)) (received_chunk GET_CHUNK_REQ ch) False c = (ch', True))"

definition refused :: "string \<Rightarrow> chunk \<Rightarrow> byte list \<Rightarrow> bool" where
  "refused addr ch bs \<longleftrightarrow> (\<exists>c ch'. stored c ch = Some bs \<and> k_getChunk (ag_ops (E addr)) (received_chunk GET_CHUNK_REQ ch) False c = (ch', False))"

text \<open>Asking an agent for a chunk it stores changes no container; a successful reply has the bytes.\<close>

lemma get_request:
  assumes "con addr" and "in_cluster stored cl addr cid ch = Some bs" and "length bs < 2147483648" and "is_int cid" and "chunk_sendable GET_CHUNK_REQ ch"
  shows "\<exists>cl' rep. sendChunkRequestToAgent con (deliver E) addr (one_chunk GET_CHUNK_REQ evId cid ch) cl = (cl', RequestOk rep) \<and>
     (\<forall>a. map_option a_containers (cl' a) = map_option a_containers (cl a)) \<and>
     (e_opcode rep = GET_CHUNK_REP_SUCCESS \<longrightarrow>
        c_data (hd (e_chunks rep)) = Some bs \<and> c_size (hd (e_chunks rep)) = int (length bs) \<and>
        c_chunkId (hd (e_chunks rep)) = c_chunkId ch \<and> readable addr ch bs) \<and>
     (e_opcode rep \<noteq> GET_CHUNK_REP_SUCCESS \<longrightarrow> refused addr ch bs)"
proof -
  let ?req = "one_chunk GET_CHUNK_REQ evId cid ch" and ?ch = "received_chunk GET_CHUNK_REQ ch"
  obtain ag c where ag: "cl addr = Some ag" "a_containers ag cid = Some c" "stored c ch = Some bs"
    using assms(2) by (auto simp: in_cluster_def in_container_def bind_eq_Some_conv)
  let ?ag = "addIngressTraffic (frames_size (map fst (sendChunkEventMessage ?req))) ag"
  have st: "stored c ?ch = Some bs"
    using ag(3) chunk_container.stored_same [OF node [unfolded managed_def] same_received(1)] by simp
  have ch: "chunk_sendable GET_CHUNK_REQ ?ch" using assms(5) by (simp add: chunk_sendable_def received_chunk_def hasChunkData_def)
  obtain ch' ok where get: "k_getChunk (ag_ops (E addr)) ?ch False c = (ch', ok)" by (cases "k_getChunk (ag_ops (E addr)) ?ch False c")
  have "getChunks (ag_ops (E addr)) [cid] [?ch] (a_containers ?ag) = ([ch'], ok)"
    using ag(2) get by (auto split: bool.splits)
  from handle_get_one [OF this] obtain ag1 where h: "handle_local (E addr) (received ?req event_reset) ?ag =
      (ag1, (one_chunk GET_CHUNK_REQ evId cid ?ch)\<lparr>e_chunks := [ch'], e_opcode := if ok then GET_CHUNK_REP_SUCCESS else GET_CHUNK_REP_FAIL\<rparr>)"
      "a_containers ag1 = a_containers ag"
    by (auto simp: received_one_chunk)
  have snd: "event_sendable (stamp (E addr) ((one_chunk GET_CHUNK_REQ evId cid ?ch)\<lparr>e_chunks := [ch'],
      e_opcode := if ok then GET_CHUNK_REP_SUCCESS else GET_CHUNK_REP_FAIL\<rparr>))"
  proof (cases ok)
    case True
    with get have "k_getChunk (ag_ops (E addr)) ?ch False c = (ch', True)" by simp
    with True get_fits [OF this st assms(3) ch] reply_sendable [OF times [of addr] _ assms(4)] show ?thesis by simp
  next
    case False
    then show ?thesis using fail_reply_sendable [OF times [of addr]] by simp
  qed
  obtain ag2 where s: "sendChunkRequestToAgent con (deliver E) addr ?req cl = (cl(addr \<mapsto> ag2), RequestOk (received (stamp (E addr)
      ((one_chunk GET_CHUNK_REQ evId cid ?ch)\<lparr>e_chunks := [ch'], e_opcode := if ok then GET_CHUNK_REP_SUCCESS else GET_CHUNK_REP_FAIL\<rparr>)) event_reset))"
      "a_containers ag2 = a_containers ag1"
    using send_request [where con = con and cl = cl and E = E and addr = addr,
        OF one_chunk_sendable [OF _ assms(4,5)] assms(1) ag(1) h(1) snd] by auto
  have data: "c_data (received_chunk GET_CHUNK_REP_SUCCESS ch') = Some bs \<and> c_size (received_chunk GET_CHUNK_REP_SUCCESS ch') = int (length bs) \<and>
      c_chunkId (received_chunk GET_CHUNK_REP_SUCCESS ch') = c_chunkId ch \<and> readable addr ch bs" if ok
  proof -
    have get: "k_getChunk (ag_ops (E addr)) ?ch False c = (ch', True)" using get that by simp
    obtain bs' where b: "stored c ?ch = Some bs'" "c_data ch' = Some bs'"
      using chunk_container.get_ok [OF node [of addr, unfolded managed_def] get] by auto
    moreover have "readable addr ch bs" using ag(3) get by (auto simp: readable_def)
    ultimately show ?thesis using st get_fits [OF get st assms(3) ch]
      by (simp add: received_chunk_def chunk_bytes_def hasChunkData_def hasData_def)
  qed
  have no: "refused addr ch bs" if "\<not> ok" using get ag(3) that by (auto simp: refused_def)
  show ?thesis
  proof (intro exI conjI impI)
    show "sendChunkRequestToAgent con (deliver E) addr ?req cl = (cl(addr \<mapsto> ag2), RequestOk (received (stamp (E addr)
      ((one_chunk GET_CHUNK_REQ evId cid ?ch)\<lparr>e_chunks := [ch'], e_opcode := if ok then GET_CHUNK_REP_SUCCESS else GET_CHUNK_REP_FAIL\<rparr>)) event_reset))"
      by (rule s(1))
    show "\<forall>a. map_option a_containers ((cl(addr \<mapsto> ag2)) a) = map_option a_containers (cl a)" using s(2) h(2) ag(1) by simp
  qed (use data no in \<open>auto simp: received_opcode received_reply split: if_splits\<close>)
qed

lemma received_bytes: "chunk_bytes (received_chunk PUT_CHUNK_REQ ch) = chunk_bytes ch"
  by (simp add: received_chunk_def chunk_bytes_def hasChunkData_def hasData_def)

lemma put_one:
  assumes "putChunks (ag_ops (E a)) v md5 [cid] [ch] m = (m', chs, ok)"
  shows "\<And>c d. \<not> (c = cid \<and> same d ch) \<Longrightarrow> in_container stored m' c d = in_container stored m c d"
    and "ok \<Longrightarrow> in_container stored m' cid ch = Some (chunk_bytes ch)"
    and "ok \<Longrightarrow> \<exists>c c' ch'. k_putChunk (ag_ops (E a)) ch c = (c', ch', True) \<and> chs = [ch']"
proof -
  let ?K = "ag_ops (E a)"
  obtain m1 chs1 n ok1 where loop: "put_loop ?K v md5 [cid] [ch] m = (m1, chs1, n, ok1)" by (cases "put_loop ?K v md5 [cid] [ch] m")
  note post = managed.put_loop_post [OF node loop, unfolded managed.put_post_def [OF node]]
  have "if ok1 then n = 1 else n = 0" using post by (auto split: if_splits)
  then have r: "m1 = m'" "chs1 = chs" "ok1 = ok" using assms loop by (auto simp: putChunks_def split: bool.splits)
  have frame: "\<forall>c d. (\<forall>i \<le> n. i < 1 \<longrightarrow> c = [cid] ! i \<longrightarrow> \<not> same d ([ch] ! i)) \<longrightarrow> in_container stored m1 c d = in_container stored m c d"
    and st: "apart same [cid] [ch] \<longrightarrow> (\<forall>i < n. in_container stored m1 ([cid] ! i) ([ch] ! i) = Some (chunk_bytes ([ch] ! i)))"
    using post by simp_all
  show "\<And>c d. \<not> (c = cid \<and> same d ch) \<Longrightarrow> in_container stored m' c d = in_container stored m c d"
    using frame unfolding r by auto
  show "ok \<Longrightarrow> in_container stored m' cid ch = Some (chunk_bytes ch)"
    using st \<open>if ok1 then n = 1 else n = 0\<close> unfolding r by (auto simp: apart_def)
  show "ok \<Longrightarrow> \<exists>c c' ch'. k_putChunk ?K ch c = (c', ch', True) \<and> chs = [ch']"
    using loop unfolding r by (auto split: if_splits option.splits prod.splits bool.splits)
qed

text \<open>
  Asking an agent to store a chunk changes no other chunk of the cluster; after a successful reply the
  chunk is stored.
\<close>

lemma put_request_runs:
  assumes "is_int cid" and "chunk_sendable PUT_CHUNK_REQ ch" and "con addr" and "cl addr = Some ag"
    and put: "putChunks (ag_ops (E addr)) (ag_verify (E addr)) (ag_md5 (E addr)) [cid] [received_chunk PUT_CHUNK_REQ ch] (a_containers ag) = (m, chs, ok)"
  shows "\<exists>ag2 r. sendChunkRequestToAgent con (deliver E) addr (one_chunk PUT_CHUNK_REQ evId cid ch) cl = (cl(addr \<mapsto> ag2), r) \<and>
     a_containers ag2 = m \<and> (reply_is PUT_CHUNK_REP_SUCCESS r \<longleftrightarrow> ok) \<and> (ok \<longrightarrow> acknowledges cid r)"
proof -
  let ?req = "one_chunk PUT_CHUNK_REQ evId cid ch" and ?ch = "received_chunk PUT_CHUNK_REQ ch"
  let ?ag = "addIngressTraffic (frames_size (map fst (sendChunkEventMessage ?req))) ag"
  have snb: "chunk_sendable PUT_CHUNK_REQ ?ch" using assms(2) received_bytes [of ch]
    by (auto simp: chunk_sendable_def received_chunk_def hasChunkData_def hasData_def)
  have "putChunks (ag_ops (E addr)) (ag_verify (E addr)) (ag_md5 (E addr)) [cid] [?ch] (a_containers ?ag) = (m, chs, ok)" using put by simp
  from handle_put_one [OF this] obtain ag1 where h: "handle_local (E addr) (received ?req event_reset) ?ag =
      (ag1, (one_chunk PUT_CHUNK_REQ evId cid ?ch)\<lparr>e_chunks := chs, e_opcode := if ok then PUT_CHUNK_REP_SUCCESS else PUT_CHUNK_REP_FAIL\<rparr>)"
      "a_containers ag1 = m"
    by (auto simp: received_one_chunk)
  have one: "\<exists>ch'. chs = [ch'] \<and> chunk_sendable PUT_CHUNK_REP_SUCCESS ch'" if ok
    using put_one(3) [OF put that] put_fits [OF _ snb] by metis
  have ack: "acknowledges cid (RequestOk (received (stamp (E addr) ((one_chunk PUT_CHUNK_REQ evId cid ?ch)\<lparr>e_chunks := chs,
      e_opcode := PUT_CHUNK_REP_SUCCESS\<rparr>)) event_reset))" if ok
  proof -
    from one [OF that] obtain ch' where "chs = [ch']" "chunk_sendable PUT_CHUNK_REP_SUCCESS ch'" by blast
    then show ?thesis
      using received_reply [where oc = PUT_CHUNK_REP_SUCCESS and E = "E addr" and oc' = PUT_CHUNK_REQ and evId = evId and cid = cid and d = ?ch and ch = ch']
      by (simp add: acknowledges_def) (simp add: stamp_def one_chunk_def chunk_sendable_def received_chunk_def)
  qed
  have snd: "event_sendable (stamp (E addr) ((one_chunk PUT_CHUNK_REQ evId cid ?ch)\<lparr>e_chunks := chs,
      e_opcode := if ok then PUT_CHUNK_REP_SUCCESS else PUT_CHUNK_REP_FAIL\<rparr>))"
  proof (cases ok)
    case True
    then obtain ch' where "chs = [ch']" "chunk_sendable PUT_CHUNK_REP_SUCCESS ch'" using one by blast
    then show ?thesis using True reply_sendable [OF times [of addr] _ assms(1)] by simp
  next
    case False
    then show ?thesis using fail_reply_sendable [OF times [of addr]] by simp
  qed
  show ?thesis
    using send_request [where con = con and cl = cl and E = E and addr = addr,
        OF one_chunk_sendable [OF _ assms(1,2)] assms(3,4) h(1) snd] h(2) ack
    by (auto simp: reply_is_def received_opcode)
qed

lemma put_request:
  assumes "is_int cid" and "chunk_sendable PUT_CHUNK_REQ ch"
  shows "\<exists>cl' r. sendChunkRequestToAgent con (deliver E) addr (one_chunk PUT_CHUNK_REQ evId cid ch) cl = (cl', r) \<and>
     (reply_is PUT_CHUNK_REP_SUCCESS r \<longrightarrow> in_cluster stored cl' addr cid ch = Some (chunk_bytes ch) \<and> acknowledges cid r) \<and>
     (\<forall>a c d. \<not> (a = addr \<and> c = cid \<and> same d ch) \<longrightarrow> in_cluster stored cl' a c d = in_cluster stored cl a c d)"
proof (cases "con addr \<and> cl addr \<noteq> None")
  case False
  then show ?thesis
    using send_request_fails [of "one_chunk PUT_CHUNK_REQ evId cid ch" con addr cl E] one_chunk_sendable [OF _ assms] by auto
next
  case True
  let ?ch = "received_chunk PUT_CHUNK_REQ ch"
  obtain ag where ag: "con addr" "cl addr = Some ag" using True by auto
  obtain m chs ok where put: "putChunks (ag_ops (E addr)) (ag_verify (E addr)) (ag_md5 (E addr)) [cid] [?ch] (a_containers ag) = (m, chs, ok)"
    by (cases "putChunks (ag_ops (E addr)) (ag_verify (E addr)) (ag_md5 (E addr)) [cid] [?ch] (a_containers ag)")
  obtain ag2 r where s: "sendChunkRequestToAgent con (deliver E) addr (one_chunk PUT_CHUNK_REQ evId cid ch) cl = (cl(addr \<mapsto> ag2), r)"
      "a_containers ag2 = m" "reply_is PUT_CHUNK_REP_SUCCESS r \<longleftrightarrow> ok" "ok \<longrightarrow> acknowledges cid r"
    using put_request_runs [where con = con and cl = cl and evId = evId, OF assms ag put] by (elim exE conjE) (rule that)
  have "in_cluster stored (cl(addr \<mapsto> ag2)) addr cid ch = Some (chunk_bytes ch)" if ok
    using put_one(2) [OF put that] received_bytes in_container_same [OF same_received(2)] s(2) by (simp add: in_cluster_def)
  moreover have "in_cluster stored (cl(addr \<mapsto> ag2)) a c d = in_cluster stored cl a c d" if "\<not> (a = addr \<and> c = cid \<and> same d ch)" for a c d
  proof (cases "a = addr")
    case True
    with that have "\<not> (c = cid \<and> same d ?ch)"
      using chunk_container.same_equiv(3) [OF node [unfolded managed_def]] same_received(1) by blast
    from put_one(1) [OF put this] True s(2) ag(2) show ?thesis by (simp add: in_cluster_def)
  qed (simp add: in_cluster_def)
  ultimately show ?thesis using s by (intro exI [of _ "cl(addr \<mapsto> ag2)"] exI [of _ r]) simp
qed

end

end
