(* ===== verification/Agent_Repair.thy ===== *)
theory Agent_Repair
  imports Agent_Messages RS_Correct
begin

text \<open>
  Repair at an agent, over the whole cluster: the agent reads the input chunks from the agents that have
  them, computes the lost chunks with the repair matrix, stores the first one itself and asks other agents
  to store the rest.
\<close>

subsection \<open>The address list\<close>

definition addr_list :: "string list \<Rightarrow> string" where "addr_list as = concat (map (\<lambda>a. a @ '';'') as)"

lemma addr_list_Cons: "addr_list (a # as) = a @ '';'' @ addr_list as"
  by (simp add: addr_list_def)

lemma addr_list_append: "addr_list (as @ bs) = addr_list as @ addr_list bs"
  by (simp add: addr_list_def)

lemma next_addr_at:
  assumes "CHR '';'' \<notin> set a"
  shows "next_addr (p @ a @ CHR '';'' # r) (length p) = (a, Suc (length p + length a))"
proof -
  have "takeWhile (\<lambda>c. c \<noteq> CHR '';'') (a @ CHR '';'' # r) = a" using assms by (subst takeWhile_append2) auto
  then show ?thesis by (simp add: next_addr_def Let_def)
qed

lemma upt_Cons_Suc: "[0..<length (a # as)] = 0 # map Suc [0..<length as]"
  by (simp add: upt_conv_Cons map_Suc_upt del: upt_Suc)

subsection \<open>Requests for the input chunks\<close>

lemma input_request_plain:
  assumes "\<not> e_repairUsingCAR ev" and "r < length (e_containerGroupMap ev)"
  shows "input_request ev evId r r =
     one_chunk GET_CHUNK_REQ evId (e_containerGroupMap ev ! r) (input_chunk (hd (e_chunks ev)) (e_chunkGroupMap ev ! (r + 1)))"
proof -
  have "take 1 (drop r (e_containerGroupMap ev)) = [e_containerGroupMap ev ! r]"
    using assms(2) by (simp add: take_Suc hd_drop_conv_nth)
  then show ?thesis using assms(1) by (simp add: input_request_def one_chunk_def event_reset_def Let_def)
qed

lemma input_requests_plain:
  assumes "\<not> e_repairUsingCAR ev" and "\<forall>a \<in> set as. CHR '';'' \<notin> set a" and "e_agents ev = p @ addr_list as @ rest"
    and "r + length as \<le> length (e_containerGroupMap ev)"
  shows "input_requests ev [r..<r + length as] evId r (length p) =
     (map (\<lambda>i. (as ! i, one_chunk GET_CHUNK_REQ (evId + of_nat i) (e_containerGroupMap ev ! (r + i))
         (input_chunk (hd (e_chunks ev)) (e_chunkGroupMap ev ! (r + i + 1))))) [0..<length as], length (p @ addr_list as))"
  using assms(2-4)
proof (induction as arbitrary: r evId p)
  case Nil
  then show ?case by (simp add: addr_list_def)
next
  case (Cons a as)
  have u: "[r..<r + length (a # as)] = r # [Suc r..<Suc r + length as]" by (simp add: upt_conv_Cons del: upt_Suc)
  have na: "next_addr (e_agents ev) (length p) = (a, length (p @ a @ '';''))"
    using Cons.prems(1,2) next_addr_at [of a p "addr_list as @ rest"] by (simp add: addr_list_Cons)
  have req: "input_request ev evId r r = one_chunk GET_CHUNK_REQ evId (e_containerGroupMap ev ! r)
      (input_chunk (hd (e_chunks ev)) (e_chunkGroupMap ev ! (r + 1)))"
    using Cons.prems(3) by (intro input_request_plain [OF assms(1)]) simp
  have n: "nat (e_numChunks (one_chunk oc i cid ch)) = 1" for oc i cid ch by (simp add: one_chunk_def)
  have IH: "input_requests ev [Suc r..<Suc r + length as] (evId + 1) (Suc r) (length (p @ a @ '';'')) =
     (map (\<lambda>i. (as ! i, one_chunk GET_CHUNK_REQ (evId + 1 + of_nat i) (e_containerGroupMap ev ! (Suc r + i))
         (input_chunk (hd (e_chunks ev)) (e_chunkGroupMap ev ! (Suc r + i + 1))))) [0..<length as], length ((p @ a @ '';'') @ addr_list as))"
    using Cons.prems by (intro Cons.IH) (simp_all add: addr_list_Cons)
  have "input_requests ev [r..<r + length (a # as)] evId r (length p) =
      ((a, one_chunk GET_CHUNK_REQ evId (e_containerGroupMap ev ! r) (input_chunk (hd (e_chunks ev)) (e_chunkGroupMap ev ! (r + 1)))) #
       map (\<lambda>i. (as ! i, one_chunk GET_CHUNK_REQ (evId + 1 + of_nat i) (e_containerGroupMap ev ! (Suc r + i))
         (input_chunk (hd (e_chunks ev)) (e_chunkGroupMap ev ! (Suc r + i + 1))))) [0..<length as], length ((p @ a @ '';'') @ addr_list as))"
    unfolding u input_requests.simps Let_def na req n prod.case Suc_eq_plus1 [symmetric] IH ..
  then show ?case unfolding upt_Cons_Suc list.map map_map by (simp add: comp_def addr_list_Cons add.assoc)
qed

lemma store_requests_eq:
  assumes "\<forall>a \<in> set as. CHR '';'' \<notin> set a" and "e_agents ev = p @ addr_list as"
  shows "store_requests ev chs [r..<r + length as] evId (length p) =
     map (\<lambda>i. (as ! i, one_chunk PUT_CHUNK_REQ (evId + of_nat i) (e_containerIds ev ! (r + i + 1))
         ((chs ! (r + i + 1))\<lparr>c_freeData := False\<rparr>))) [0..<length as]"
  using assms
proof (induction as arbitrary: r evId p)
  case Nil
  then show ?case by simp
next
  case (Cons a as)
  have u: "[r..<r + length (a # as)] = r # [Suc r..<Suc r + length as]" by (simp add: upt_conv_Cons del: upt_Suc)
  have na: "next_addr (e_agents ev) (length p) = (a, length (p @ a @ '';''))"
    using Cons.prems next_addr_at [of a p "addr_list as"] by (simp add: addr_list_Cons)
  have IH: "store_requests ev chs [Suc r..<Suc r + length as] (evId + 1) (length (p @ a @ '';'')) =
     map (\<lambda>i. (as ! i, one_chunk PUT_CHUNK_REQ (evId + 1 + of_nat i) (e_containerIds ev ! (Suc r + i + 1))
         ((chs ! (Suc r + i + 1))\<lparr>c_freeData := False\<rparr>))) [0..<length as]"
    using Cons.prems by (intro Cons.IH) (simp_all add: addr_list_Cons)
  have req: "event_reset\<lparr>e_id := unat evId, e_opcode := PUT_CHUNK_REQ, e_numChunks := 1,
       e_chunks := [ch], e_containerIds := [cid]\<rparr> = one_chunk PUT_CHUNK_REQ evId cid ch" for ch cid
    by (simp add: one_chunk_def event_reset_def)
  have "store_requests ev chs [r..<r + length (a # as)] evId (length p) =
      (a, one_chunk PUT_CHUNK_REQ evId (e_containerIds ev ! (r + 1)) ((chs ! (r + 1))\<lparr>c_freeData := False\<rparr>)) #
      map (\<lambda>i. (as ! i, one_chunk PUT_CHUNK_REQ (evId + 1 + of_nat i) (e_containerIds ev ! (Suc r + i + 1))
         ((chs ! (Suc r + i + 1))\<lparr>c_freeData := False\<rparr>))) [0..<length as]"
    unfolding u store_requests.simps Let_def na prod.case req IH ..
  then show ?case unfolding upt_Cons_Suc list.map map_map by (simp add: comp_def add.assoc)
qed

text \<open>
  What a repair request is: the input chunks with their containers and agents, the containers and agents for
  the repaired chunks, and the matrix.
\<close>

definition repair_request :: "string list \<Rightarrow> string list \<Rightarrow> int list \<Rightarrow> chunk_event \<Rightarrow> bool" where
  "repair_request ins out gids ev \<longleftrightarrow> event_sendable ev \<and> e_opcode ev = RPR_CHUNK_REQ \<and> \<not> e_repairUsingCAR ev \<and>
     cm_coding (e_codingMeta ev) = RS \<and> e_chunkGroupMap ev = int (length ins) # gids \<and> length gids = length ins \<and>
     length (e_containerGroupMap ev) = length ins \<and> ins \<noteq> [] \<and> (\<forall>a \<in> set (ins @ out). CHR '';'' \<notin> set a) \<and>
     e_agents ev = addr_list (ins @ out) \<and> length (e_chunks ev) = Suc (length out)"

subsection \<open>Several requests\<close>

lemma reply_RequestOk [simp]:
  "reply_is oc (RequestOk ev) \<longleftrightarrow> e_opcode ev = oc" "reply_chunk (RequestOk ev) = hd (e_chunks ev)"
  "reply_data (RequestOk ev) = (case c_data (hd (e_chunks ev)) of None \<Rightarrow> [] | Some bs \<Rightarrow> bs)"
  by (simp_all add: reply_is_def reply_chunk_def reply_data_def)

context chunk_cluster
begin

lemma holds_containers:
  "\<forall>a. map_option a_containers (cl' a) = map_option a_containers (cl a) \<Longrightarrow> in_cluster stored cl' a cid ch = in_cluster stored cl a cid ch"
  unfolding in_cluster_def by (cases "cl a"; cases "cl' a") (metis map_option_is_None option.distinct(1) option.map_sel option.sel bind.bind_lunit bind.bind_lzero)+

lemma send_all_gets:
  assumes "\<forall>i \<in> set is. ag_connect (E me) (A i) \<and> in_cluster stored cl (A i) (C i) (H i) = Some (B i) \<and> length (B i) < 2147483648 \<and>
      is_int (C i) \<and> chunk_sendable GET_CHUNK_REQ (H i)"
  shows "\<exists>cl' reps. send_all E me (map (\<lambda>i. (A i, one_chunk GET_CHUNK_REQ (N i) (C i) (H i))) is) cl = (cl', reps) \<and>
     (\<forall>a. map_option a_containers (cl' a) = map_option a_containers (cl a)) \<and> length reps = length is \<and>
     (list_all (reply_is GET_CHUNK_REP_SUCCESS) reps \<longrightarrow>
        map reply_data reps = map B is \<and> map (\<lambda>r. c_size (reply_chunk r)) reps = map (\<lambda>i. int (length (B i))) is \<and>
        (\<forall>i \<in> set is. readable (A i) (H i) (B i))) \<and>
     (\<not> list_all (reply_is GET_CHUNK_REP_SUCCESS) reps \<longrightarrow> (\<exists>i \<in> set is. refused (A i) (H i) (B i)))"
  using assms
proof (induction "is" arbitrary: cl)
  case (Cons i "is")
  have i: "ag_connect (E me) (A i)" "in_cluster stored cl (A i) (C i) (H i) = Some (B i)" "length (B i) < 2147483648" "is_int (C i)"
    "chunk_sendable GET_CHUNK_REQ (H i)" using Cons.prems by simp_all
  obtain cl1 rep where r: "sendChunkRequestToAgent (ag_connect (E me)) (deliver E) (A i) (one_chunk GET_CHUNK_REQ (N i) (C i) (H i)) cl = (cl1, RequestOk rep)"
      "\<forall>a. map_option a_containers (cl1 a) = map_option a_containers (cl a)"
      "e_opcode rep = GET_CHUNK_REP_SUCCESS \<longrightarrow> c_data (hd (e_chunks rep)) = Some (B i) \<and> c_size (hd (e_chunks rep)) = int (length (B i)) \<and>
        c_chunkId (hd (e_chunks rep)) = c_chunkId (H i) \<and> readable (A i) (H i) (B i)" "e_opcode rep \<noteq> GET_CHUNK_REP_SUCCESS \<longrightarrow> refused (A i) (H i) (B i)"
    using get_request [where con = "ag_connect (E me)" and evId = "N i", OF i] by (elim exE conjE) (rule that)
  have "\<forall>j \<in> set is. ag_connect (E me) (A j) \<and> in_cluster stored cl1 (A j) (C j) (H j) = Some (B j) \<and> length (B j) < 2147483648 \<and>
      is_int (C j) \<and> chunk_sendable GET_CHUNK_REQ (H j)"
    using Cons.prems holds_containers [OF r(2)] by simp
  from Cons.IH [OF this] obtain cl2 reps where IH: "send_all E me (map (\<lambda>i. (A i, one_chunk GET_CHUNK_REQ (N i) (C i) (H i))) is) cl1 = (cl2, reps)"
      "\<forall>a. map_option a_containers (cl2 a) = map_option a_containers (cl1 a)" "length reps = length is"
      "list_all (reply_is GET_CHUNK_REP_SUCCESS) reps \<longrightarrow>
        map reply_data reps = map B is \<and> map (\<lambda>r. c_size (reply_chunk r)) reps = map (\<lambda>i. int (length (B i))) is \<and>
        (\<forall>i \<in> set is. readable (A i) (H i) (B i))"
      "\<not> list_all (reply_is GET_CHUNK_REP_SUCCESS) reps \<longrightarrow> (\<exists>i \<in> set is. refused (A i) (H i) (B i))"
    by (elim exE conjE) (rule that)
  show ?case
    using r IH by (cases "e_opcode rep = GET_CHUNK_REP_SUCCESS") simp_all
qed simp

lemma send_all_puts:
  assumes "\<forall>i \<in> set is. is_int (C i) \<and> chunk_sendable PUT_CHUNK_REQ (H i)" and "distinct is"
    and "\<forall>i \<in> set is. \<forall>j \<in> set is. i \<noteq> j \<longrightarrow> \<not> same (H i) (H j)"
  shows "\<exists>cl' reps. send_all E me (map (\<lambda>i. (A i, one_chunk PUT_CHUNK_REQ (N i) (C i) (H i))) is) cl = (cl', reps) \<and>
     (\<forall>a c d. (\<forall>i \<in> set is. \<not> (a = A i \<and> c = C i \<and> same d (H i))) \<longrightarrow> in_cluster stored cl' a c d = in_cluster stored cl a c d) \<and>
     (list_all (reply_is PUT_CHUNK_REP_SUCCESS) reps \<longrightarrow>
        (\<forall>i \<in> set is. in_cluster stored cl' (A i) (C i) (H i) = Some (chunk_bytes (H i))))"
  using assms
proof (induction "is" arbitrary: cl)
  case (Cons i "is")
  obtain cl1 r where r: "sendChunkRequestToAgent (ag_connect (E me)) (deliver E) (A i) (one_chunk PUT_CHUNK_REQ (N i) (C i) (H i)) cl = (cl1, r)"
      "reply_is PUT_CHUNK_REP_SUCCESS r \<longrightarrow> in_cluster stored cl1 (A i) (C i) (H i) = Some (chunk_bytes (H i))"
      "\<forall>a c d. \<not> (a = A i \<and> c = C i \<and> same d (H i)) \<longrightarrow> in_cluster stored cl1 a c d = in_cluster stored cl a c d"
    using put_request [of "C i" "H i" "ag_connect (E me)" "A i" "N i" cl] Cons.prems(1) by auto
  obtain cl2 reps where IH: "send_all E me (map (\<lambda>i. (A i, one_chunk PUT_CHUNK_REQ (N i) (C i) (H i))) is) cl1 = (cl2, reps)"
      "\<forall>a c d. (\<forall>i \<in> set is. \<not> (a = A i \<and> c = C i \<and> same d (H i))) \<longrightarrow> in_cluster stored cl2 a c d = in_cluster stored cl1 a c d"
      "list_all (reply_is PUT_CHUNK_REP_SUCCESS) reps \<longrightarrow> (\<forall>i \<in> set is. in_cluster stored cl2 (A i) (C i) (H i) = Some (chunk_bytes (H i)))"
    using Cons.IH [of cl1] Cons.prems by auto
  have "\<forall>j \<in> set is. \<not> same (H i) (H j)" using Cons.prems(2,3) by auto
  then have keep: "in_cluster stored cl2 (A i) (C i) (H i) = in_cluster stored cl1 (A i) (C i) (H i)" using IH(2) by blast
  have frame: "in_cluster stored cl2 a c d = in_cluster stored cl a c d" if "\<forall>j \<in> set (i # is). \<not> (a = A j \<and> c = C j \<and> same d (H j))" for a c d
    using that r(3) IH(2) by simp
  show ?case
  proof (intro exI conjI)
    show "send_all E me (map (\<lambda>i. (A i, one_chunk PUT_CHUNK_REQ (N i) (C i) (H i))) (i # is)) cl = (cl2, r # reps)"
      using r(1) IH(1) by simp
    show "\<forall>a c d. (\<forall>j \<in> set (i # is). \<not> (a = A j \<and> c = C j \<and> same d (H j))) \<longrightarrow> in_cluster stored cl2 a c d = in_cluster stored cl a c d"
      using frame by blast
    show "list_all (reply_is PUT_CHUNK_REP_SUCCESS) (r # reps) \<longrightarrow> (\<forall>j \<in> set (i # is). in_cluster stored cl2 (A j) (C j) (H j) = Some (chunk_bytes (H j)))"
      using r(2) IH(3) keep by auto
  qed
qed simp

subsection \<open>Storing the repaired chunks\<close>

lemma store_local_one:
  assumes "store_local (E me) [cid] [ch] ag = (ag1, chs, ok)" and "cl me = Some ag" and "a_containers ag2 = a_containers ag1"
  shows "ok \<Longrightarrow> in_cluster stored (cl(me \<mapsto> ag2)) me cid ch = Some (chunk_bytes ch)"
    and "\<not> (a = me \<and> c = cid \<and> same d ch) \<Longrightarrow> in_cluster stored (cl(me \<mapsto> ag2)) a c d = in_cluster stored cl a c d"
proof -
  obtain m where put: "putChunks (ag_ops (E me)) (ag_verify (E me)) (ag_md5 (E me)) [cid] [ch] (a_containers ag) = (m, chs, ok)"
    and m: "a_containers ag1 = m"
    using assms(1) by (auto simp: store_local_def split: prod.splits)
  show "ok \<Longrightarrow> in_cluster stored (cl(me \<mapsto> ag2)) me cid ch = Some (chunk_bytes ch)"
    using put_one(2) [OF put] m assms(3) by (simp add: in_cluster_def)
  show "\<not> (a = me \<and> c = cid \<and> same d ch) \<Longrightarrow> in_cluster stored (cl(me \<mapsto> ag2)) a c d = in_cluster stored cl a c d"
    using put_one(1) [OF put, of c d] m assms(2,3) by (cases "a = me") (auto simp: in_cluster_def)
qed

text \<open>The repaired chunks but the first are sent to the agents of the list \<open>out\<close>.\<close>

lemma send_repaired:
  assumes "length chs = Suc (length out)" and "length (e_containerIds ev) = Suc (length out)"
    and "\<forall>a \<in> set out. CHR '';'' \<notin> set a" and "e_agents ev = p @ addr_list out"
    and "\<forall>ch \<in> set chs. chunk_sendable PUT_CHUNK_REQ ch" and "\<forall>c \<in> set (e_containerIds ev). is_int c"
    and apart: "\<forall>i < length chs. \<forall>j < length chs. i \<noteq> j \<longrightarrow> \<not> same (chs ! i) (chs ! j)"
  shows "\<exists>cl1 reps. send_all E me (store_requests ev chs [0..<length out] evId (length p)) cl = (cl1, reps) \<and>
     (\<forall>a c d. (\<forall>i < length out. \<not> (a = out ! i \<and> c = e_containerIds ev ! (i + 1) \<and> same d (chs ! (i + 1)))) \<longrightarrow>
        in_cluster stored cl1 a c d = in_cluster stored cl a c d) \<and>
     (list_all (reply_is PUT_CHUNK_REP_SUCCESS) reps \<longrightarrow>
        (\<forall>i < length out. in_cluster stored cl1 (out ! i) (e_containerIds ev ! (i + 1)) (chs ! (i + 1)) = Some (chunk_bytes (chs ! (i + 1)))))"
proof -
  let ?H = "\<lambda>i. (chs ! (i + 1))\<lparr>c_freeData := False\<rparr>" and ?C = "\<lambda>i. e_containerIds ev ! (i + 1)"
  have bytes: "chunk_bytes (?H i) = chunk_bytes (chs ! (i + 1))" for i by (simp add: chunk_bytes_def)
  have sH: "same (?H i) (chs ! (i + 1))" "same (chs ! (i + 1)) (?H i)" for i by (rule same_ids; simp)+
  note eq = chunk_container.same_equiv [OF node [unfolded managed_def]]
  have reqs: "store_requests ev chs [0..<length out] evId (length p) =
      map (\<lambda>i. (out ! i, one_chunk PUT_CHUNK_REQ (evId + of_nat i) (?C i) (?H i))) [0..<length out]"
    using store_requests_eq [OF assms(3,4), of chs 0 evId] by simp
  have fits: "\<forall>i \<in> set [0..<length out]. is_int (?C i) \<and> chunk_sendable PUT_CHUNK_REQ (?H i)"
    using assms(1,2,5,6) bytes by (auto simp: chunk_sendable_def)
  have diff: "\<forall>i \<in> set [0..<length out]. \<forall>j \<in> set [0..<length out]. i \<noteq> j \<longrightarrow> \<not> same (?H i) (?H j)"
  proof (intro ballI impI notI)
    fix i j assume ij: "i \<in> set [0..<length out]" "j \<in> set [0..<length out]" "i \<noteq> j" "same (?H i) (?H j)"
    then have "same (chs ! (i + 1)) (chs ! (j + 1))" using sH eq(3) by blast
    with ij apart assms(1) show False by auto
  qed
  obtain cl1 reps where send: "send_all E me (store_requests ev chs [0..<length out] evId (length p)) cl = (cl1, reps)"
    and frame: "\<forall>a c d. (\<forall>i \<in> set [0..<length out]. \<not> (a = out ! i \<and> c = ?C i \<and> same d (?H i))) \<longrightarrow> in_cluster stored cl1 a c d = in_cluster stored cl a c d"
    and put: "list_all (reply_is PUT_CHUNK_REP_SUCCESS) reps \<longrightarrow>
        (\<forall>i \<in> set [0..<length out]. in_cluster stored cl1 (out ! i) (?C i) (?H i) = Some (chunk_bytes (?H i)))"
    unfolding reqs using send_all_puts [OF fits distinct_upt diff, of me "\<lambda>i. out ! i" "\<lambda>i. evId + of_nat i" cl] by blast
  have "same d (?H i) \<longleftrightarrow> same d (chs ! (i + 1))" for d i using sH eq(3) by blast
  with send frame put bytes holds_same [OF sH(2)] show ?thesis by (intro exI [of _ cl1] exI [of _ reps]) simp
qed

lemma store_repaired_Some:
  assumes "\<not> e_repairUsingCAR ev" and "chs = ch # rest" and "length rest = n" and "e_containerIds ev = cid # cids"
    and "send_all E me (store_requests ev chs [0..<n] evId st) cl = (cl1, reps)" and "cl1 me = Some ag"
    and "store_local (E me) [cid] [ch] ag = (ag1, chs1, okl)"
  shows "store_repaired E me ev evId st chs cl = (cl1(me \<mapsto> ag1\<lparr>a_eventCount := a_eventCount ag1 + of_nat n\<rparr>), chs1 @ rest,
     okl \<and> list_all (reply_is PUT_CHUNK_REP_SUCCESS) reps)"
  using assms by (simp add: store_repaired_def Let_def)

lemma store_repaired_plain:
  assumes "\<not> e_repairUsingCAR ev" and "length chs = Suc (length out)" and "length (e_containerIds ev) = Suc (length out)"
    and "\<forall>a \<in> set out. CHR '';'' \<notin> set a" and "e_agents ev = p @ addr_list out"
    and "\<forall>ch \<in> set chs. chunk_sendable PUT_CHUNK_REQ ch" and "\<forall>c \<in> set (e_containerIds ev). is_int c"
    and apart: "\<forall>i < length chs. \<forall>j < length chs. i \<noteq> j \<longrightarrow> \<not> same (chs ! i) (chs ! j)"
    and st: "store_repaired E me ev evId (length p) chs cl = (cl', chs', ok)"
  shows "(ok \<longrightarrow> (\<forall>j < length chs. in_cluster stored cl' ((me # out) ! j) (e_containerIds ev ! j) (chs ! j) = Some (chunk_bytes (chs ! j)))) \<and>
    (\<forall>a c d. (\<forall>j < length chs. \<not> (a = (me # out) ! j \<and> c = e_containerIds ev ! j \<and> same d (chs ! j))) \<longrightarrow>
      in_cluster stored cl' a c d = in_cluster stored cl a c d)"
proof -
  obtain ch rest where chs: "chs = ch # rest" "length rest = length out" using assms(2) by (cases chs) auto
  obtain cid cids where cids: "e_containerIds ev = cid # cids" using assms(3) by (cases "e_containerIds ev") auto
  obtain cl1 reps where send: "send_all E me (store_requests ev chs [0..<length out] evId (length p)) cl = (cl1, reps)"
    and frame: "\<forall>a c d. (\<forall>i < length out. \<not> (a = out ! i \<and> c = cids ! i \<and> same d (rest ! i))) \<longrightarrow> in_cluster stored cl1 a c d = in_cluster stored cl a c d"
    and put: "list_all (reply_is PUT_CHUNK_REP_SUCCESS) reps \<longrightarrow>
        (\<forall>i < length out. in_cluster stored cl1 (out ! i) (cids ! i) (rest ! i) = Some (chunk_bytes (rest ! i)))"
    using send_repaired [OF assms(2-7) apart, of me evId cl] by (auto simp: chs cids)
  have split: "(\<forall>j < length chs. P j) \<longleftrightarrow> P 0 \<and> (\<forall>i < length out. P (Suc i))" for P
    unfolding assms(2) by (rule All_less_Suc2)
  show ?thesis
  proof (cases "cl1 me")
    case None
    with st send assms(1,2) have "cl' = cl1" "\<not> ok" by (auto simp: store_repaired_def Let_def)
    with frame show ?thesis unfolding split by (simp add: chs cids)
  next
    case (Some ag)
    obtain ag1 chs1 okl where l: "store_local (E me) [cid] [ch] ag = (ag1, chs1, okl)" by (cases "store_local (E me) [cid] [ch] ag")
    from st store_repaired_Some [OF assms(1) chs cids send Some l]
    have cl': "cl' = cl1(me \<mapsto> ag1\<lparr>a_eventCount := a_eventCount ag1 + of_nat (length out)\<rparr>)"
      and ok: "ok = (okl \<and> list_all (reply_is PUT_CHUNK_REP_SUCCESS) reps)" by simp_all
    note loc = store_local_one [where cl = cl1, OF l Some, of "ag1\<lparr>a_eventCount := a_eventCount ag1 + of_nat (length out)\<rparr>", folded cl']
    have "\<not> same (rest ! i) ch" if "i < length out" for i
      using apart [rule_format, of "Suc i" 0] that by (simp add: chs)
    then have "in_cluster stored cl' (out ! i) (cids ! i) (rest ! i) = in_cluster stored cl1 (out ! i) (cids ! i) (rest ! i)" if "i < length out" for i
      using loc(2) that by simp
    with loc put frame ok show ?thesis unfolding split by (simp add: chs cids)
  qed
qed

subsection \<open>The whole repair\<close>

definition repaired_chunk :: "md5_fun \<Rightarrow> chunk \<Rightarrow> byte list \<Rightarrow> chunk" where
  "repaired_chunk md5 ch bs = fst (computeMD5 md5 (ch\<lparr>c_data := Some bs, c_size := int (length bs)\<rparr>))"

lemma repaired_chunk_fields:
  "c_namespaceId (repaired_chunk md5 ch bs) = c_namespaceId ch" "c_fuuid (repaired_chunk md5 ch bs) = c_fuuid ch"
  "c_chunkId (repaired_chunk md5 ch bs) = c_chunkId ch" "c_fileVersion (repaired_chunk md5 ch bs) = c_fileVersion ch"
  "c_chunkVersion (repaired_chunk md5 ch bs) = c_chunkVersion ch" "c_size (repaired_chunk md5 ch bs) = int (length bs)"
  "chunk_bytes (repaired_chunk md5 ch bs) = bs" "bs \<noteq> [] \<Longrightarrow> c_md5 (repaired_chunk md5 ch bs) = md5 bs"
  by (simp_all add: repaired_chunk_def computeMD5_def chunk_bytes_def)

lemma repaired_chunk_same: "same (repaired_chunk md5 ch bs) ch" "same ch (repaired_chunk md5 ch bs)"
  by (rule same_ids; simp add: repaired_chunk_fields)+

lemma repaired_chunk_sendable:
  assumes "chunk_sendable oc ch" and "bs \<noteq> []" and "length bs < 2147483648" and "length (md5 bs) = MD5_DIGEST_LENGTH"
  shows "chunk_sendable PUT_CHUNK_REQ (repaired_chunk md5 ch bs)"
  using assms by (simp add: chunk_sendable_def repaired_chunk_fields is_int_def)

lemma holds_at_agent:
  "(\<And>ag. a_containers (f ag) = a_containers ag) \<Longrightarrow> in_cluster stored (at_agent f me cl) a c d = in_cluster stored cl a c d"
  by (cases "a = me"; cases "cl me") (simp_all add: in_cluster_def at_agent_def)

lemma at_agent_containers:
  "(\<And>ag. a_containers (f ag) = a_containers ag) \<Longrightarrow> map_option a_containers (at_agent f me cl a) = map_option a_containers (cl a)"
  by (cases "a = me"; cases "cl me") (simp_all add: at_agent_def)

lemma incrementOp_containers [simp]: "a_containers (incrementOp ok ag) = a_containers ag"
  by (simp add: incrementOp_def)

lemma input_chunk_sendable:
  assumes "chunk_sendable oc ch" and "is_int cid"
  shows "chunk_sendable GET_CHUNK_REQ (input_chunk ch cid)"
  using assms by (simp add: chunk_sendable_def input_chunk_def setId_def chunk_reset_def chunk_resetMD5_def is_int_def opcode_defs
      CHUNK_VERSION_MAX_LEN_def)

text \<open>
  The replies to the requests for the input chunks: no container changes, and if all succeed they have the
  bytes of the chunks.
\<close>

lemma read_inputs:
  assumes "\<not> e_repairUsingCAR ev" and "\<forall>a \<in> set ins. CHR '';'' \<notin> set a" and "e_agents ev = addr_list ins @ rest"
    and "length (e_containerGroupMap ev) = length ins" and "\<forall>c \<in> set (e_containerGroupMap ev). is_int c"
    and "chunk_sendable oc (hd (e_chunks ev))" and "\<forall>i < length ins. is_int (e_chunkGroupMap ev ! (i + 1))"
    and "\<forall>a \<in> set ins. ag_connect (E me) a"
    and "\<forall>i < length ins. length (B i) < 2147483648 \<and>
       in_cluster stored cl (ins ! i) (e_containerGroupMap ev ! i) (input_chunk (hd (e_chunks ev)) (e_chunkGroupMap ev ! (i + 1))) = Some (B i)"
  shows "\<exists>reqs cl1 reps. input_requests ev [0..<length ins] evId 0 0 = (reqs, length (addr_list ins)) \<and> send_all E me reqs cl = (cl1, reps) \<and>
     (\<forall>a. map_option a_containers (cl1 a) = map_option a_containers (cl a)) \<and> length reps = length ins \<and>
     (list_all (reply_is GET_CHUNK_REP_SUCCESS) reps \<longrightarrow>
        map reply_data reps = map B [0..<length ins] \<and> map (\<lambda>r. c_size (reply_chunk r)) reps = map (\<lambda>i. int (length (B i))) [0..<length ins] \<and>
        (\<forall>i < length ins. readable (ins ! i) (input_chunk (hd (e_chunks ev)) (e_chunkGroupMap ev ! (i + 1))) (B i))) \<and>
     (\<not> list_all (reply_is GET_CHUNK_REP_SUCCESS) reps \<longrightarrow>
        (\<exists>i < length ins. refused (ins ! i) (input_chunk (hd (e_chunks ev)) (e_chunkGroupMap ev ! (i + 1))) (B i)))"
proof -
  let ?H = "\<lambda>i. input_chunk (hd (e_chunks ev)) (e_chunkGroupMap ev ! (i + 1))" and ?C = "\<lambda>i. e_containerGroupMap ev ! i"
  have reqs: "input_requests ev [0..<length ins] evId 0 0 =
     (map (\<lambda>i. (ins ! i, one_chunk GET_CHUNK_REQ (evId + of_nat i) (?C i) (?H i))) [0..<length ins], length (addr_list ins))"
    using input_requests_plain [OF assms(1,2), of "[]" rest 0 evId] assms(3,4) by simp
  have "\<forall>i \<in> set [0..<length ins]. ag_connect (E me) (ins ! i) \<and> in_cluster stored cl (ins ! i) (?C i) (?H i) = Some (B i) \<and> length (B i) < 2147483648 \<and>
      is_int (?C i) \<and> chunk_sendable GET_CHUNK_REQ (?H i)"
    using assms(4-9) input_chunk_sendable by auto
  from send_all_gets [OF this, of "\<lambda>i. evId + of_nat i"]
  obtain cl1 reps where s: "send_all E me (map (\<lambda>i. (ins ! i, one_chunk GET_CHUNK_REQ (evId + of_nat i) (?C i) (?H i))) [0..<length ins]) cl = (cl1, reps)"
      "\<forall>a. map_option a_containers (cl1 a) = map_option a_containers (cl a)" "length reps = length ins"
      "list_all (reply_is GET_CHUNK_REP_SUCCESS) reps \<longrightarrow>
        map reply_data reps = map B [0..<length ins] \<and> map (\<lambda>r. c_size (reply_chunk r)) reps = map (\<lambda>i. int (length (B i))) [0..<length ins] \<and>
        (\<forall>i < length ins. readable (ins ! i) (input_chunk (hd (e_chunks ev)) (e_chunkGroupMap ev ! (i + 1))) (B i))"
      "\<not> list_all (reply_is GET_CHUNK_REP_SUCCESS) reps \<longrightarrow>
        (\<exists>i < length ins. refused (ins ! i) (input_chunk (hd (e_chunks ev)) (e_chunkGroupMap ev ! (i + 1))) (B i))"
    by (elim exE conjE) (rule that, simp_all add: Ball_def Bex_def)
  show ?thesis unfolding reqs using s
    by (intro exI [of _ cl1] exI [of _ reps] exI conjI) (rule refl, assumption+)
qed

lemma repaired_chunks_plain:
  assumes "\<not> e_repairUsingCAR ev" and "map reply_data reps = map B [0..<k]" and "map (\<lambda>r. c_size (reply_chunk r)) reps = map (\<lambda>i. int (length (B i))) [0..<k]"
    and "0 < k" and "\<forall>i < k. length (B i) = sz" and "e_numChunks ev = int (length (e_chunks ev))"
    and "utils_encode (ag_isal Env) (map B [0..<k]) (length (e_chunks ev)) sz (the (cm_codingState (e_codingMeta ev))) = outs"
    and "\<forall>bs \<in> set outs. length bs = sz"
  shows "repaired_chunks Env ev reps = map (\<lambda>(ch, bs). repaired_chunk (ag_md5 Env) ch bs) (zip (e_chunks ev) outs)"
proof -
  have len: "length reps = k" using arg_cong [OF assms(2), of length] by simp
  then have "reps \<noteq> []" using assms(4) by auto
  then have "c_size (reply_chunk (last reps)) = last (map (\<lambda>r. c_size (reply_chunk r)) reps)" by (simp add: last_map)
  also have "\<dots> = int sz" unfolding assms(3) using assms(4,5) by (simp add: last_map)
  finally have size: "c_size (reply_chunk (last reps)) = int sz" .
  have "(\<lambda>(ch, bs). fst (computeMD5 (ag_md5 Env) (ch\<lparr>c_data := Some bs, c_size := int sz\<rparr>))) x = (\<lambda>(ch, bs). repaired_chunk (ag_md5 Env) ch bs) x"
    if "x \<in> set (zip (e_chunks ev) outs)" for x
  proof -
    obtain ch bs where x: "x = (ch, bs)" by (cases x)
    with that assms(8) have "length bs = sz" by (auto dest: set_zip_rightD)
    then show ?thesis by (simp add: x repaired_chunk_def)
  qed
  then show ?thesis
    using assms(1,2,6,7) \<open>reps \<noteq> []\<close> by (simp add: repaired_chunks_def size event_srcs_def)
qed

lemma repair_request_wf:
  assumes "repair_request ins out gids ev"
  shows "e_numChunks ev = int (length (e_chunks ev))" "length (e_containerIds ev) = Suc (length out)" "length (e_chunks ev) = Suc (length out)"
    "\<forall>c \<in> set (e_containerIds ev). is_int c" "\<forall>ch \<in> set (e_chunks ev). chunk_sendable RPR_CHUNK_REQ ch"
    "\<forall>c \<in> set (e_containerGroupMap ev). is_int c" "\<forall>i < length ins. is_int (e_chunkGroupMap ev ! (i + 1))"
    "chunk_sendable RPR_CHUNK_REQ (hd (e_chunks ev))" "nat (e_chunkGroupMap ev ! 0) = length ins"
    "\<forall>a \<in> set ins. CHR '';'' \<notin> set a" "\<forall>a \<in> set out. CHR '';'' \<notin> set a" "e_agents ev = addr_list ins @ addr_list out"
proof -
  note r = assms [unfolded repair_request_def]
  have ev: "event_sendable ev" "e_opcode ev = RPR_CHUNK_REQ" "length (e_chunks ev) = Suc (length out)" using r by simp_all
  then have op: "hasData (e_opcode ev)" "hasContainerIds (e_opcode ev)" "getNumChunkFactor (e_opcode ev) = 1" "hasRepairChunkInfo (e_opcode ev)"
    by (simp_all add: opcode_defs)
  then show wf: "e_numChunks ev = int (length (e_chunks ev))" "length (e_containerIds ev) = Suc (length out)" "length (e_chunks ev) = Suc (length out)"
    "\<forall>c \<in> set (e_containerIds ev). is_int c" "\<forall>ch \<in> set (e_chunks ev). chunk_sendable RPR_CHUNK_REQ ch"
    "\<forall>c \<in> set (e_containerGroupMap ev). is_int c"
    using ev by (auto simp: event_sendable_def repair_sendable_def list_all_iff)
  have "\<forall>c \<in> set (e_chunkGroupMap ev). is_int c"
    using ev(1) op(4) by (auto simp: event_sendable_def repair_sendable_def list_all_iff)
  with r show "\<forall>i < length ins. is_int (e_chunkGroupMap ev ! (i + 1))" by simp
  show "chunk_sendable RPR_CHUNK_REQ (hd (e_chunks ev))" using wf(3,5) by (cases "e_chunks ev") auto
  show "nat (e_chunkGroupMap ev ! 0) = length ins" using r by simp
  show "\<forall>a \<in> set ins. CHR '';'' \<notin> set a" "\<forall>a \<in> set out. CHR '';'' \<notin> set a" "e_agents ev = addr_list ins @ addr_list out"
    using r by (auto simp: addr_list_append)
qed

text \<open>The course of a repair: an input chunk is refused, or the repaired chunks are stored.\<close>

lemma handle_repair_runs:
  assumes req: "repair_request ins out gids ev" and con: "\<forall>a \<in> set ins. ag_connect (E me) a"
    and inputs: "\<forall>i < length ins. length (B i) = sz \<and>
       in_cluster stored cl (ins ! i) (e_containerGroupMap ev ! i) (input_chunk (hd (e_chunks ev)) (gids ! i)) = Some (B i)" "sz < 2147483648"
    and matrix: "utils_encode (ag_isal (E me)) (map B [0..<length ins]) (length (e_chunks ev)) sz (the (cm_codingState (e_codingMeta ev))) = outs"
      "\<forall>bs \<in> set outs. length bs = sz"
    and run: "handle_repair E me ev cl = (cl', rep)"
  shows "\<exists>cl1. (\<forall>a. map_option a_containers (cl1 a) = map_option a_containers (cl a)) \<and>
     ((e_opcode rep = RPR_CHUNK_REP_FAIL \<and> cl' = at_agent (incrementOp False) me cl1 \<and>
         (\<exists>i < length ins. refused (ins ! i) (input_chunk (hd (e_chunks ev)) (gids ! i)) (B i))) \<or>
      (\<exists>evId cl2 chs2 ok. store_repaired E me ev evId (length (addr_list ins))
           (map (\<lambda>(ch, bs). repaired_chunk (ag_md5 (E me)) ch bs) (zip (e_chunks ev) outs)) cl1 = (cl2, chs2, ok) \<and>
         cl' = at_agent (incrementOp ok) me cl2 \<and> e_opcode rep = (if ok then RPR_CHUNK_REP_SUCCESS else RPR_CHUNK_REP_FAIL) \<and>
         (\<forall>i < length ins. readable (ins ! i) (input_chunk (hd (e_chunks ev)) (gids ! i)) (B i))))"
proof -
  note wf = repair_request_wf [OF req]
  have car: "\<not> e_repairUsingCAR ev" "cm_coding (e_codingMeta ev) = RS" "length (e_containerGroupMap ev) = length ins" "ins \<noteq> []"
    and gids: "\<And>i. e_chunkGroupMap ev ! (i + 1) = gids ! i"
    using req by (simp_all add: repair_request_def)
  let ?evId = "case cl me of None \<Rightarrow> 0 | Some ag \<Rightarrow> a_eventCount ag"
  define cl0 where "cl0 = at_agent (\<lambda>ag. ag\<lparr>a_eventCount := ?evId + of_nat (length ins)\<rparr>) me cl"
  have c0: "\<forall>a. map_option a_containers (cl0 a) = map_option a_containers (cl a)" unfolding cl0_def by (intro allI at_agent_containers) simp
  have in0: "\<forall>i < length ins. length (B i) < 2147483648 \<and>
       in_cluster stored cl0 (ins ! i) (e_containerGroupMap ev ! i) (input_chunk (hd (e_chunks ev)) (e_chunkGroupMap ev ! (i + 1))) = Some (B i)"
    unfolding gids holds_containers [OF c0] using inputs by simp
  obtain reqs cl1 reps where r: "input_requests ev [0..<length ins] ?evId 0 0 = (reqs, length (addr_list ins))" "send_all E me reqs cl0 = (cl1, reps)"
      "\<forall>a. map_option a_containers (cl1 a) = map_option a_containers (cl0 a)"
      "list_all (reply_is GET_CHUNK_REP_SUCCESS) reps \<longrightarrow>
        map reply_data reps = map B [0..<length ins] \<and> map (\<lambda>r. c_size (reply_chunk r)) reps = map (\<lambda>i. int (length (B i))) [0..<length ins] \<and>
        (\<forall>i < length ins. readable (ins ! i) (input_chunk (hd (e_chunks ev)) (gids ! i)) (B i))"
      "\<not> list_all (reply_is GET_CHUNK_REP_SUCCESS) reps \<longrightarrow>
        (\<exists>i < length ins. refused (ins ! i) (input_chunk (hd (e_chunks ev)) (gids ! i)) (B i))"
    using read_inputs [OF car(1) wf(10,12) car(3) wf(6,8,7) con in0, of ?evId, unfolded gids] by (elim exE conjE) (rule that)
  have c1: "\<forall>a. map_option a_containers (cl1 a) = map_option a_containers (cl a)" using r(3) c0 by simp
  have hr: "handle_repair E me ev cl = (if list_all (reply_is GET_CHUNK_REP_SUCCESS) reps
      then let (cl2, chs, ok) = store_repaired E me ev (?evId + of_nat (length ins)) (length (addr_list ins)) (repaired_chunks (E me) ev reps) cl1
           in (at_agent (incrementOp ok) me cl2, ev\<lparr>e_chunks := chs, e_opcode := if ok then RPR_CHUNK_REP_SUCCESS else RPR_CHUNK_REP_FAIL\<rparr>)
      else (at_agent (incrementOp False) me cl1, ev\<lparr>e_opcode := RPR_CHUNK_REP_FAIL\<rparr>))"
    using car(1,2) r(1,2) wf(9) by (simp add: handle_repair_def RS_def UNKNOWN_CODE_def Let_def cl0_def)
  show ?thesis
  proof (cases "list_all (reply_is GET_CHUNK_REP_SUCCESS) reps")
    case False
    with run hr r(5) c1 show ?thesis by (intro exI [of _ cl1]) auto
  next
    case True
    have rc: "repaired_chunks (E me) ev reps = map (\<lambda>(ch, bs). repaired_chunk (ag_md5 (E me)) ch bs) (zip (e_chunks ev) outs)"
      using r(4) True car(4) inputs(1) wf(1) matrix
      by (intro repaired_chunks_plain [OF car(1), where B = B and k = "length ins" and sz = sz]) auto
    obtain cl2 chs2 ok where st: "store_repaired E me ev (?evId + of_nat (length ins)) (length (addr_list ins)) (repaired_chunks (E me) ev reps) cl1 =
        (cl2, chs2, ok)" by (cases "store_repaired E me ev (?evId + of_nat (length ins)) (length (addr_list ins)) (repaired_chunks (E me) ev reps) cl1")
    with run hr True have res: "cl' = at_agent (incrementOp ok) me cl2" "e_opcode rep = (if ok then RPR_CHUNK_REP_SUCCESS else RPR_CHUNK_REP_FAIL)"
      by auto
    show ?thesis
      using c1 st [unfolded rc] res r(4) True
      by (intro exI [of _ cl1] conjI disjI2 exI [of _ "?evId + of_nat (length ins)"] exI [of _ cl2] exI [of _ chs2] exI [of _ ok]) simp_all
  qed
qed

lemma repaired_list:
  assumes "length outs = length ts" and "\<forall>t \<in> set ts. chunk_sendable oc t" and "\<forall>bs \<in> set outs. length bs = sz" and "0 < sz" "sz < 2147483648"
    and "\<And>bs. length (md5 bs) = MD5_DIGEST_LENGTH" and "chs = map (\<lambda>(ch, bs). repaired_chunk md5 ch bs) (zip ts outs)"
  shows "length chs = length ts" "\<And>j. j < length ts \<Longrightarrow> chs ! j = repaired_chunk md5 (ts ! j) (outs ! j)"
    "\<forall>ch \<in> set chs. chunk_sendable PUT_CHUNK_REQ ch" "\<And>j d. j < length ts \<Longrightarrow> same d (chs ! j) \<longleftrightarrow> same d (ts ! j)"
    "\<forall>i < length ts. \<forall>j < length ts. i \<noteq> j \<longrightarrow> \<not> same (ts ! i) (ts ! j) \<Longrightarrow>
       \<forall>i < length chs. \<forall>j < length chs. i \<noteq> j \<longrightarrow> \<not> same (chs ! i) (chs ! j)"
proof -
  note eq = chunk_container.same_equiv [OF node [unfolded managed_def]]
  show len: "length chs = length ts" by (simp add: assms(1,7))
  show nth: "chs ! j = repaired_chunk md5 (ts ! j) (outs ! j)" if "j < length ts" for j using that assms(1) by (simp add: assms(7))
  show "\<forall>ch \<in> set chs. chunk_sendable PUT_CHUNK_REQ ch"
  proof
    fix ch assume "ch \<in> set chs"
    then obtain t bs where "t \<in> set ts" "bs \<in> set outs" "ch = repaired_chunk md5 t bs"
      by (auto simp: assms(7) dest: set_zip_leftD set_zip_rightD)
    with assms show "chunk_sendable PUT_CHUNK_REQ ch" by (auto intro!: repaired_chunk_sendable)
  qed
  show same: "same d (chs ! j) \<longleftrightarrow> same d (ts ! j)" if "j < length ts" for j d
    unfolding nth [OF that] using repaired_chunk_same eq(3) by blast
  assume diff: "\<forall>i < length ts. \<forall>j < length ts. i \<noteq> j \<longrightarrow> \<not> same (ts ! i) (ts ! j)"
  show "\<forall>i < length chs. \<forall>j < length chs. i \<noteq> j \<longrightarrow> \<not> same (chs ! i) (chs ! j)"
  proof (intro allI impI notI)
    fix i j assume ij: "i < length chs" "j < length chs" "i \<noteq> j" "same (chs ! i) (chs ! j)"
    then have "same (chs ! i) (ts ! j)" using same len by simp
    from eq(2) [OF this] have "same (ts ! j) (ts ! i)" using same ij(1) len by simp
    with diff ij(1-3) len show False by simp
  qed
qed

lemma handle_repair_plain:
  assumes req: "repair_request ins out gids ev" and con: "\<forall>a \<in> set ins. ag_connect (E me) a"
    and diff: "\<forall>i < length (e_chunks ev). \<forall>j < length (e_chunks ev). i \<noteq> j \<longrightarrow> \<not> same (e_chunks ev ! i) (e_chunks ev ! j)"
    and inputs: "\<forall>i < length ins. length (B i) = sz \<and>
       in_cluster stored cl (ins ! i) (e_containerGroupMap ev ! i) (input_chunk (hd (e_chunks ev)) (gids ! i)) = Some (B i)" "sz < 2147483648" "0 < sz"
    and matrix: "utils_encode (ag_isal (E me)) (map B [0..<length ins]) (length (e_chunks ev)) sz (the (cm_codingState (e_codingMeta ev))) = outs"
      "\<forall>bs \<in> set outs. length bs = sz" "length outs = length (e_chunks ev)"
    and md5: "\<And>bs. length (ag_md5 (E me) bs) = MD5_DIGEST_LENGTH"
    and run: "handle_repair E me ev cl = (cl', rep)"
  shows "(e_opcode rep = RPR_CHUNK_REP_SUCCESS \<longrightarrow> (\<forall>j < length (e_chunks ev).
       in_cluster stored cl' ((me # out) ! j) (e_containerIds ev ! j) (e_chunks ev ! j) = Some (outs ! j))) \<and>
     (\<forall>a c d. (\<forall>j < length (e_chunks ev). \<not> (a = (me # out) ! j \<and> c = e_containerIds ev ! j \<and> same d (e_chunks ev ! j))) \<longrightarrow>
       in_cluster stored cl' a c d = in_cluster stored cl a c d)"
proof -
  note wf = repair_request_wf [OF req]
  have car: "\<not> e_repairUsingCAR ev" using req by (simp add: repair_request_def)
  let ?chs = "map (\<lambda>(ch, bs). repaired_chunk (ag_md5 (E me)) ch bs) (zip (e_chunks ev) outs)"
  note chs = repaired_list [OF matrix(3) wf(5) matrix(2) inputs(3,2) md5 refl]
  have op: "in_cluster stored (at_agent (incrementOp ok) me c) = in_cluster stored c" for ok c by (intro ext holds_at_agent) simp
  from handle_repair_runs [OF req con inputs(1,2) matrix(1,2) run]
  obtain cl1 where c1: "\<forall>a. map_option a_containers (cl1 a) = map_option a_containers (cl a)"
    and res: "(e_opcode rep = RPR_CHUNK_REP_FAIL \<and> cl' = at_agent (incrementOp False) me cl1) \<or>
      (\<exists>evId cl2 chs2 ok. store_repaired E me ev evId (length (addr_list ins)) ?chs cl1 = (cl2, chs2, ok) \<and>
         cl' = at_agent (incrementOp ok) me cl2 \<and> e_opcode rep = (if ok then RPR_CHUNK_REP_SUCCESS else RPR_CHUNK_REP_FAIL))"
    by blast
  from res show ?thesis
  proof (elim disjE exE conjE)
    assume "e_opcode rep = RPR_CHUNK_REP_FAIL" "cl' = at_agent (incrementOp False) me cl1"
    then show ?thesis using op holds_containers [OF c1] by simp
  next
    fix evId cl2 chs2 ok
    assume st: "store_repaired E me ev evId (length (addr_list ins)) ?chs cl1 = (cl2, chs2, ok)" and cl': "cl' = at_agent (incrementOp ok) me cl2"
      and rep: "e_opcode rep = (if ok then RPR_CHUNK_REP_SUCCESS else RPR_CHUNK_REP_FAIL)"
    note stored = store_repaired_plain [OF car _ wf(2,11,12) chs(3) wf(4) chs(5) [OF diff] st, unfolded chs(1), OF wf(3)]
    have "in_cluster stored cl' a c (e_chunks ev ! j) = in_cluster stored cl' a c (?chs ! j)" if "j < length (e_chunks ev)" for a c j
      unfolding chs(2) [OF that] by (rule holds_same [OF repaired_chunk_same(2)])
    with stored rep cl' op holds_containers [OF c1] chs(2,4) show ?thesis by (simp add: repaired_chunk_fields)
  qed
qed

end

end
