(* ===== verification/Cluster_Repair.thy ===== *)
theory Cluster_Repair
  imports Agent_Repair
begin

text \<open>
  Repair in a cluster of agents with file system containers: the message format, the agents, the container
  manager, the containers and the erasure code put together.
\<close>

subsection \<open>Repair succeeds\<close>

definition writable :: "(string \<Rightarrow> 'c \<Rightarrow> bool) \<Rightarrow> 'c cluster \<Rightarrow> string \<Rightarrow> int \<Rightarrow> bool" where
  "writable ready cl a cid \<longleftrightarrow> (\<exists>ag c. cl a = Some ag \<and> a_containers ag cid = Some c \<and> ready a c)"

text \<open>
  A cluster in which no operation fails: agents can be reached, checksums are not verified, and the
  containers that are ready accept chunks of up to \<open>room\<close> bytes and stay ready.
\<close>

locale ready_cluster = chunk_cluster E stored same
  for E :: "string \<Rightarrow> 'c agent_env" and stored :: "'c \<Rightarrow> chunk \<Rightarrow> byte list option" and same :: "chunk \<Rightarrow> chunk \<Rightarrow> bool" +
  fixes ready :: "string \<Rightarrow> 'c \<Rightarrow> bool" and room :: nat
  assumes get_ready: "stored c ch = Some bs \<Longrightarrow> snd (k_getChunk (ag_ops (E a)) ch False c)"
    and put_ready: "ready a c \<Longrightarrow> chunk_sendable PUT_CHUNK_REQ ch \<Longrightarrow> length (chunk_bytes ch) \<le> room \<Longrightarrow>
      k_putChunk (ag_ops (E a)) ch c = (c', ch', ok) \<Longrightarrow> ok \<and> ready a c'"
    and no_verify: "\<not> ag_verify (E a)"
    and connect: "ag_connect (E a) b"
begin

lemma never_refused: "\<not> refused addr ch bs"
proof
  assume "refused addr ch bs"
  then obtain c ch' where c: "stored c ch = Some bs" "k_getChunk (ag_ops (E addr)) (received_chunk GET_CHUNK_REQ ch) False c = (ch', False)"
    by (auto simp: refused_def)
  have "stored c (received_chunk GET_CHUNK_REQ ch) = Some bs"
    using c(1) chunk_container.stored_same [OF node [unfolded managed_def] same_received(1)] by simp
  from get_ready [OF this, of addr] c(2) show False by simp
qed

lemma put_one_ready:
  assumes "m cid = Some c" and "ready a c" and "chunk_sendable PUT_CHUNK_REQ ch" and "length (chunk_bytes ch) \<le> room"
    and "putChunks (ag_ops (E a)) (ag_verify (E a)) md5 [cid] [ch] m = (m', chs, ok)"
  shows "ok \<and> (\<forall>i x. m i = Some x \<longrightarrow> ready a x \<longrightarrow> (\<exists>y. m' i = Some y \<and> ready a y))"
proof -
  obtain c' ch' okp where put: "k_putChunk (ag_ops (E a)) ch c = (c', ch', okp)" by (cases "k_putChunk (ag_ops (E a)) ch c")
  have r: okp "ready a c'" using put_ready [OF assms(2-4) put] by simp_all
  then have "put_loop (ag_ops (E a)) (ag_verify (E a)) md5 [cid] [ch] m = (m(cid \<mapsto> c'), [ch'], 1, True)"
    using assms(1) put no_verify by simp
  then have "m' = m(cid \<mapsto> c')" ok using assms(5) by (simp_all add: putChunks_def)
  with r(2) show ?thesis by simp
qed

lemma put_request_ready:
  assumes "is_int cid" and "chunk_sendable PUT_CHUNK_REQ ch" and "length (chunk_bytes ch) \<le> room" and "writable ready cl addr cid"
  shows "\<exists>cl' r. sendChunkRequestToAgent (ag_connect (E me)) (deliver E) addr (one_chunk PUT_CHUNK_REQ evId cid ch) cl = (cl', r) \<and>
     reply_is PUT_CHUNK_REP_SUCCESS r \<and> (\<forall>a i. writable ready cl a i \<longrightarrow> writable ready cl' a i)"
proof -
  let ?ch = "received_chunk PUT_CHUNK_REQ ch"
  obtain ag c where ag: "cl addr = Some ag" "a_containers ag cid = Some c" "ready addr c" using assms(4) by (auto simp: writable_def)
  obtain m chs ok where put: "putChunks (ag_ops (E addr)) (ag_verify (E addr)) (ag_md5 (E addr)) [cid] [?ch] (a_containers ag) = (m, chs, ok)"
    by (cases "putChunks (ag_ops (E addr)) (ag_verify (E addr)) (ag_md5 (E addr)) [cid] [?ch] (a_containers ag)")
  have snb: "chunk_sendable PUT_CHUNK_REQ ?ch" "length (chunk_bytes ?ch) \<le> room" using assms(2,3) received_bytes [of ch]
    by (auto simp: chunk_sendable_def received_chunk_def hasChunkData_def hasData_def)
  note ok = put_one_ready [OF ag(2,3) snb put]
  obtain ag2 r where s: "sendChunkRequestToAgent (ag_connect (E me)) (deliver E) addr (one_chunk PUT_CHUNK_REQ evId cid ch) cl = (cl(addr \<mapsto> ag2), r)"
      "a_containers ag2 = m" "reply_is PUT_CHUNK_REP_SUCCESS r \<longleftrightarrow> ok"
    using put_request_runs [where con = "ag_connect (E me)" and cl = cl, OF assms(1,2) connect ag(1) put] by blast
  have "writable ready (cl(addr \<mapsto> ag2)) a i" if "writable ready cl a i" for a i
    using that ok s(2) ag(1) by (cases "a = addr") (auto simp: writable_def)
  with s ok show ?thesis by (intro exI [of _ "cl(addr \<mapsto> ag2)"] exI [of _ r]) simp
qed

lemma send_all_puts_ready:
  assumes "\<forall>i \<in> set is. is_int (C i) \<and> chunk_sendable PUT_CHUNK_REQ (H i) \<and> length (chunk_bytes (H i)) \<le> room \<and> writable ready cl (A i) (C i)"
  shows "\<exists>cl' reps. send_all E me (map (\<lambda>i. (A i, one_chunk PUT_CHUNK_REQ (N i) (C i) (H i))) is) cl = (cl', reps) \<and>
     list_all (reply_is PUT_CHUNK_REP_SUCCESS) reps \<and> (\<forall>a i. writable ready cl a i \<longrightarrow> writable ready cl' a i)"
  using assms
proof (induction "is" arbitrary: cl)
  case (Cons i "is")
  obtain cl1 r where r: "sendChunkRequestToAgent (ag_connect (E me)) (deliver E) (A i) (one_chunk PUT_CHUNK_REQ (N i) (C i) (H i)) cl = (cl1, r)"
      "reply_is PUT_CHUNK_REP_SUCCESS r" "\<forall>a i. writable ready cl a i \<longrightarrow> writable ready cl1 a i"
    using put_request_ready [of "C i" "H i" cl "A i" me "N i"] Cons.prems by auto
  obtain cl2 reps where IH: "send_all E me (map (\<lambda>i. (A i, one_chunk PUT_CHUNK_REQ (N i) (C i) (H i))) is) cl1 = (cl2, reps)"
      "list_all (reply_is PUT_CHUNK_REP_SUCCESS) reps" "\<forall>a i. writable ready cl1 a i \<longrightarrow> writable ready cl2 a i"
    using Cons.IH [of cl1] Cons.prems r(3) by auto
  with r show ?case by simp
qed simp

lemma store_repaired_ready:
  assumes "\<not> e_repairUsingCAR ev" and "length chs = Suc (length out)" and "length (e_containerIds ev) = Suc (length out)"
    and "\<forall>a \<in> set out. CHR '';'' \<notin> set a" and "e_agents ev = p @ addr_list out"
    and "\<forall>ch \<in> set chs. chunk_sendable PUT_CHUNK_REQ ch \<and> length (chunk_bytes ch) \<le> room" and "\<forall>c \<in> set (e_containerIds ev). is_int c"
    and "\<forall>j < length chs. writable ready cl ((me # out) ! j) (e_containerIds ev ! j)"
    and st: "store_repaired E me ev evId (length p) chs cl = (cl', chs', ok)"
  shows ok
proof -
  obtain ch rest where chs: "chs = ch # rest" "length rest = length out" using assms(2) by (cases chs) auto
  obtain cid cids where cids: "e_containerIds ev = cid # cids" using assms(3) by (cases "e_containerIds ev") auto
  have reqs: "store_requests ev chs [0..<length out] evId (length p) =
      map (\<lambda>i. (out ! i, one_chunk PUT_CHUNK_REQ (evId + of_nat i) (cids ! i) ((rest ! i)\<lparr>c_freeData := False\<rparr>))) [0..<length out]"
    using store_requests_eq [OF assms(4,5), of chs 0 evId] by (simp add: chs cids)
  have "is_int (cids ! i) \<and> chunk_sendable PUT_CHUNK_REQ ((rest ! i)\<lparr>c_freeData := False\<rparr>) \<and>
      length (chunk_bytes ((rest ! i)\<lparr>c_freeData := False\<rparr>)) \<le> room \<and> writable ready cl (out ! i) (cids ! i)" if "i < length out" for i
    using assms(3,6,7) assms(8) [rule_format, of "Suc i"] that chs cids
    by (auto simp: chunk_sendable_def chunk_bytes_def)
  then obtain cl1 reps where send: "send_all E me (store_requests ev chs [0..<length out] evId (length p)) cl = (cl1, reps)"
      "list_all (reply_is PUT_CHUNK_REP_SUCCESS) reps" "\<forall>a i. writable ready cl a i \<longrightarrow> writable ready cl1 a i"
    unfolding reqs using send_all_puts_ready [of "[0..<length out]" "\<lambda>i. cids ! i" "\<lambda>i. (rest ! i)\<lparr>c_freeData := False\<rparr>" cl
        "\<lambda>i. out ! i" me "\<lambda>i. evId + of_nat i"] by auto
  have "writable ready cl1 me cid" using send(3) assms(8) [rule_format, of 0] chs(1) cids by simp
  then obtain ag c where ag: "cl1 me = Some ag" "a_containers ag cid = Some c" "ready me c" by (auto simp: writable_def)
  obtain ag1 chs1 okl where l: "store_local (E me) [cid] [ch] ag = (ag1, chs1, okl)" by (cases "store_local (E me) [cid] [ch] ag")
  have okl using l assms(6) put_one_ready [where m = "a_containers ag" and c = c and cid = cid and a = me and ch = ch and ?md5.0 = "ag_md5 (E me)"] ag(2,3)
    by (auto simp: store_local_def chs(1) split: prod.splits)
  with st store_repaired_Some [OF assms(1) chs cids send(1) ag(1) l] send(2) show ok by simp
qed

lemma handle_repair_ready:
  assumes req: "repair_request ins out gids ev"
    and inputs: "\<forall>i < length ins. length (B i) = sz \<and>
       in_cluster stored cl (ins ! i) (e_containerGroupMap ev ! i) (input_chunk (hd (e_chunks ev)) (gids ! i)) = Some (B i)" "sz < 2147483648" "0 < sz"
    and matrix: "utils_encode (ag_isal (E me)) (map B [0..<length ins]) (length (e_chunks ev)) sz (the (cm_codingState (e_codingMeta ev))) = outs"
      "\<forall>bs \<in> set outs. length bs = sz" "length outs = length (e_chunks ev)"
    and md5: "\<And>bs. length (ag_md5 (E me) bs) = MD5_DIGEST_LENGTH" and room: "sz \<le> room"
    and ready: "\<forall>j < length (e_chunks ev). writable ready cl ((me # out) ! j) (e_containerIds ev ! j)"
    and run: "handle_repair E me ev cl = (cl', rep)"
  shows "e_opcode rep = RPR_CHUNK_REP_SUCCESS"
proof -
  note wf = repair_request_wf [OF req]
  have car: "\<not> e_repairUsingCAR ev" using req by (simp add: repair_request_def)
  let ?chs = "map (\<lambda>(ch, bs). repaired_chunk (ag_md5 (E me)) ch bs) (zip (e_chunks ev) outs)"
  note chs = repaired_list [OF matrix(3) wf(5) matrix(2) inputs(3,2) md5 refl]
  have con: "\<forall>a \<in> set ins. ag_connect (E me) a" using connect by simp
  obtain cl1 evId cl2 chs2 ok where c1: "\<forall>a. map_option a_containers (cl1 a) = map_option a_containers (cl a)"
    and st: "store_repaired E me ev evId (length (addr_list ins)) ?chs cl1 = (cl2, chs2, ok)"
    and rep: "e_opcode rep = (if ok then RPR_CHUNK_REP_SUCCESS else RPR_CHUNK_REP_FAIL)"
    using handle_repair_runs [OF req con inputs(1,2) matrix(1,2) run] never_refused by blast
  have w: "writable ready cl1 a i \<longleftrightarrow> writable ready cl a i" for a i
    using c1 [rule_format, of a] by (cases "cl a"; cases "cl1 a") (auto simp: writable_def)
  have "length (chunk_bytes ch) \<le> room" if "ch \<in> set ?chs" for ch
    using that matrix(2) room by (auto simp: repaired_chunk_fields dest: set_zip_rightD)
  with chs(3) have fits: "\<forall>ch \<in> set ?chs. chunk_sendable PUT_CHUNK_REQ ch \<and> length (chunk_bytes ch) \<le> room" by simp
  have ok using ready w chs(1) wf(3) by (intro store_repaired_ready [OF car _ wf(2,11,12) fits wf(4) _ st]) simp_all
  with rep show ?thesis by simp
qed

end

subsection \<open>Clusters with file system containers\<close>

context fs_env
begin

lemma fs_managed: "managed (fs_ops env) (fs_stored env) (same_name env)"
  by (rule manager.managed_axioms)

end

text \<open>All agents name chunk files the same way; digests have the length of an MD5 digest.\<close>

locale fs_cluster =
  fixes E :: "string \<Rightarrow> fs_container agent_env" and env :: "string \<Rightarrow> storage_env" and uts :: "uuid \<Rightarrow> string"
  assumes ops: "ag_ops (E a) = fs_ops (env a)" and names: "se_uts (env a) = uts" and files: "fs_env (env a)" and clock: "env_times (E a)"
    and digests: "length (se_md5 (env a) bs) = MD5_DIGEST_LENGTH" "length (ag_md5 (E a) bs) = MD5_DIGEST_LENGTH"

lemma fs_stored_uts: "se_uts e = se_uts f \<Longrightarrow> fs_stored e = fs_stored f" "se_uts e = se_uts f \<Longrightarrow> same_name e = same_name f"
  by (intro ext, simp add: fs_stored_def same_name_def getChunkPath_def)+

lemma fs_get_fits:
  assumes "fs_getChunk env ch skip c = (ch', True)" and "fs_stored env c ch = Some bs" and "length bs < 2147483648" and "chunk_sendable GET_CHUNK_REQ ch"
  shows "c_size ch' = int (length bs) \<and> c_chunkId ch' = c_chunkId ch \<and> chunk_sendable GET_CHUNK_REP_SUCCESS ch'"
proof -
  have "ch' = ch\<lparr>c_size := int (length bs), c_data := Some bs\<rparr>"
    using assms(1-3) by (auto simp: fs_getChunk_def getChunkInternal_def readChunkFile_def fs_stored_def split: option.splits)
  then show ?thesis using assms(3,4) by (simp add: chunk_sendable_def is_int_def chunk_bytes_def)
qed

lemma fs_put_fits:
  assumes "fs_putChunk env ch c = (c', ch', True)" and "chunk_sendable PUT_CHUNK_REQ ch" and "\<And>bs. length (se_md5 env bs) = MD5_DIGEST_LENGTH"
  shows "chunk_sendable PUT_CHUNK_REP_SUCCESS ch'"
  using assms(1)
proof (cases rule: fs_putChunk_cases)
  case (written p fs1 ch1 n rd r)
  have ver: "c_chunkVersion ch1 = [] \<or> c_chunkVersion ch1 = take (CHUNK_VERSION_MAX_LEN - 1) (int_to_string (se_now env))"
    and ids: "ch1 = ch\<lparr>c_chunkVersion := c_chunkVersion ch1\<rparr>"
    using written(2) by (auto simp: backupChunk_def Let_def split: if_splits prod.splits)
  have "length (c_md5 ch1) = MD5_DIGEST_LENGTH" using assms(2) ids by (metis chunk.select_convs(9) chunk.surjective chunk.update_convs(8) chunk_sendable_def)
  then have rd: "length (c_md5 rd) = MD5_DIGEST_LENGTH"
    using written assms(3) by (auto simp: readBack_def computeMD5_def getChunkInternal_def readChunkFile_def Let_def split: prod.splits option.splits if_splits)
  have len: "length (c_chunkVersion ch1) < CHUNK_VERSION_MAX_LEN" using ver by (auto simp: CHUNK_VERSION_MAX_LEN_def)
  obtain v where v: "ch1 = ch\<lparr>c_chunkVersion := v\<rparr>" using ids by blast
  show ?thesis using written rd len assms(2) by (simp add: copyMD5_def chunk_sendable_def v opcode_defs)
qed simp_all

sublocale fs_cluster \<subseteq> cluster: chunk_cluster E "fs_stored (env [])" "same_name (env [])"
proof (rule chunk_cluster.intro, goal_cases)
  case (1 a)
  have "managed (fs_ops (env a)) (fs_stored (env a)) (same_name (env a))"
    by (rule fs_env.fs_managed [OF files])
  moreover have "fs_stored (env a) = fs_stored (env [])" "same_name (env a) = same_name (env [])"
    using fs_stored_uts names by simp_all
  ultimately show ?case by (simp add: ops)
next
  case (2 a)
  show ?case by (rule clock)
next
  case (3 d e)
  then show ?case by (simp add: same_name_def getChunkName_def)
next
  case (4 a ch skip c ch' bs)
  have "fs_stored (env a) = fs_stored (env [])" using fs_stored_uts names by simp
  with 4 show ?case using fs_get_fits [of "env a" ch skip c ch' bs] by (simp add: ops fs_ops_def)
next
  case (5 a ch c c' ch')
  then show ?case using fs_put_fits [of "env a" ch c c' ch'] digests(1) by (simp add: ops fs_ops_def)
qed

text \<open>File systems that refuse nothing: files open and are renamed, a chunk fits, and paths are short.\<close>

definition fs_ready :: "fs_container \<Rightarrow> bool" where
  "fs_ready c \<longleftrightarrow> length (fc_dir c) < 4000"

locale ready_fs_cluster = fs_cluster +
  fixes room :: nat
  assumes healthy: "se_openW (env a) p" "se_rename (env a) p q" "room \<le> se_room (env a) p" "\<not> se_verify (env a)"
    and uuid_length: "length (uts u) \<le> 36" and unverified: "\<not> ag_verify (E a)" and reachable: "ag_connect (E a) b"

lemma nat_to_string_length: "n < 10 ^ Suc d \<Longrightarrow> length (nat_to_string n) \<le> Suc d"
proof (induction d arbitrary: n)
  case (Suc d)
  show ?case
  proof (cases "n < 10")
    case False
    have "n div 10 < 10 ^ Suc d" using Suc.prems by (simp add: div_less_iff_less_mult mult.commute)
    with False Suc.IH [of "n div 10"] show ?thesis by (simp add: nat_to_string.simps [of n])
  qed (simp add: nat_to_string.simps)
qed (simp add: nat_to_string.simps)

lemma int_to_string_length: "is_int i \<Longrightarrow> length (int_to_string i) \<le> 11"
proof -
  assume "is_int i"
  then have "nat i < 10 ^ Suc 9" "nat (- i) < 10 ^ Suc 9" by (auto simp: is_int_def)
  then show ?thesis using nat_to_string_length [of "nat i" 9] nat_to_string_length [of "nat (- i)" 9] by (auto simp: int_to_string_def)
qed

lemma ready_path:
  assumes "fs_ready c" and "chunk_sendable oc ch" and "\<And>u. length (se_uts env u) \<le> 36"
  shows "\<exists>p. getChunkPath env ch c = Some p"
proof -
  have "length (nat_to_string (c_namespaceId ch)) \<le> 3" using assms(2) by (intro nat_to_string_length [of _ 2, simplified]) (simp add: chunk_sendable_def)
  moreover have "length (int_to_string (c_fileVersion ch)) \<le> 11" "length (int_to_string (c_chunkId ch)) \<le> 11"
    using assms(2) by (simp_all add: int_to_string_length chunk_sendable_def)
  ultimately show ?thesis using assms(1) assms(3) [of "c_fuuid ch"]
    by (simp add: getChunkPath_def Let_def getChunkName_def PATH_MAX_def fs_ready_def)
qed

lemma fs_put_ready:
  assumes "getChunkPath env ch c = Some p" and "chunk_sendable PUT_CHUNK_REQ ch" and "length (chunk_bytes ch) \<le> se_room env p"
    and "\<And>p. se_openW env p" and "\<And>p q. se_rename env p q" and "\<not> se_verify env" and "fs_putChunk env ch c = (c', ch', ok)"
  shows "ok \<and> fc_dir c' = fc_dir c"
proof -
  obtain fs1 ch1 okb where b: "backupChunk env p ch (fc_files c) = (fs1, ch1, okb)" by (cases "backupChunk env p ch (fc_files c)")
  have okb using b assms(5) by (auto simp: backupChunk_def fs_rename_def Let_def split: if_splits option.splits prod.splits)
  moreover have "chunk_bytes ch1 = chunk_bytes ch" "c_size ch1 = c_size ch" using backup_chunk [OF b] by (auto simp: chunk_bytes_def)
  moreover have "int (length (chunk_bytes ch)) = c_size ch" using assms(2) by (auto simp: chunk_sendable_def hasChunkData_def hasData_def)
  ultimately show ?thesis using assms(1,3,4,6,7) b
    by (auto simp: fs_putChunk_def fs_write_def readBack_def Let_def split: prod.splits if_splits)
qed

context ready_fs_cluster
begin

lemma fs_get_ready: "fs_stored (env []) c ch = Some bs \<Longrightarrow> snd (k_getChunk (ag_ops (E a)) ch False c)"
  using healthy(4) [of a] names [of a] names [of "[]"]
  by (auto simp: ops fs_ops_def fs_stored_def fs_getChunk_def getChunkInternal_def readChunkFile_def getChunkPath_def Let_def
      split: option.splits if_splits)

end

sublocale ready_fs_cluster \<subseteq> healthy: ready_cluster E "fs_stored (env [])" "same_name (env [])" "\<lambda>a. fs_ready" room
proof (rule ready_cluster.intro [OF cluster.chunk_cluster_axioms], rule ready_cluster_axioms.intro, goal_cases)
  case (1 c ch bs a)
  then show ?case by (rule fs_get_ready)
next
  case (2 a c ch c' ch' ok)
  obtain p where p: "getChunkPath (env a) ch c = Some p"
    using ready_path [OF 2(1,2), of "env a"] uuid_length names by auto
  have "length (chunk_bytes ch) \<le> se_room (env a) p" using 2(3) healthy(3) order_trans by blast
  with 2(4) fs_put_ready [OF p 2(2) _ healthy(1,2,4)] 2(1) show ?case by (simp add: ops fs_ops_def fs_ready_def)
next
  case 3
  then show ?case by (rule unverified)
next
  case 4
  then show ?case by (rule reachable)
qed

subsection \<open>The repair matrix of a plan\<close>

lemma preDecode_repair_True:
  assumes "isal I" and "newRSCode I opts = Some c" and "sorted_wrt (<) failed" and "set failed \<subseteq> {..<rs_n c}"
    and "alive = filter (\<lambda>i. i \<notin> set failed) [0..<rs_n c]" and "preDecode I alloc junk c failed True plan0 = (plan, True)"
    and "R = the (bb_data (dp_repairMatrix plan))"
  shows "dp_inputChunkIds plan = alive \<and> rs_k c \<le> length alive \<and>
     utils_encode I (map (coded I (rs_encodeMatrix c) (rs_k c) sz data) (take (rs_k c) alive)) (length failed) sz R =
       map (coded I (rs_encodeMatrix c) (rs_k c) sz data) failed"
proof -
  let ?k = "rs_k c" and ?D = "coded I (rs_encodeMatrix c) (rs_k c) sz data"
  have k: "0 < ?k" "?k \<le> rs_n c" using newRSCode_Some [OF assms(2)] by auto
  have le: "length failed \<le> rs_n c - ?k" using assms(6) by (auto simp: preDecode_def Let_def split: if_splits)
  have surv: "survivors c alive" unfolding assms(5) by (rule alive_survivors [OF assms(3,4) le k(2)])
  have len: "\<not> length alive < ?k" using surv by (simp add: survivors_def)
  obtain N where N: "gf_invert_matrix I (input_matrix c junk alive) ?k = Some N"
    using assms(6) le len
    by (cases "gf_invert_matrix I (input_matrix c junk alive) ?k")
      (auto simp: preDecode_def preDecode_scan [OF assms(3,4)] assms(5) [symmetric] setMinNumInputChunks_def getNumDataChunks_def
        input_matrix_def Let_def)
  obtain b where b: "bb_allocate alloc (length failed * ?k) False bb_reset = (b, True)"
    using assms(6) le len N
    by (cases "bb_allocate alloc (length failed * ?k) False bb_reset"; cases "snd (bb_allocate alloc (length failed * ?k) False bb_reset)")
      (auto simp: preDecode_def preDecode_scan [OF assms(3,4)] assms(5) [symmetric] setMinNumInputChunks_def getNumDataChunks_def
        allocateRepairMatrix_def input_matrix_def Let_def)
  let ?rows = "repair_rows I ?k (rs_encodeMatrix c) N failed"
  have src: "?k \<le> length (map ?D (take ?k alive))" "\<And>l. l < ?k \<Longrightarrow> map ?D (take ?k alive) ! l = ?D (alive ! l)" using len by simp_all
  note enc = isal.repair_encode [OF assms(1,2) surv N src, of failed]
  from preDecode_repair [OF assms(3,4) le k(2) assms(5) N b, of plan0] assms(6)
  have plan: "dp_inputChunkIds plan = alive" and R: "R = ?rows @ drop (length failed * ?k) (the (bb_data b))"
    using enc(2) by (auto simp: assms(7) memcpy_def)
  have "ec_encode_data I sz ?k (length failed) (ec_init_tables I ?k (length failed) R) (map ?D (take ?k alive)) =
      ec_encode_data I sz ?k (length failed) (ec_init_tables I ?k (length failed) ?rows) (map ?D (take ?k alive))"
  proof -
    have "R ! (r * ?k + j) = ?rows ! (r * ?k + j)" if "r < length failed" "j < ?k" for r j
    proof -
      have "r * ?k + j < Suc r * ?k" using that(2) by simp
      also have "\<dots> \<le> length failed * ?k" using that(1) by (intro mult_le_mono1) simp
      finally show ?thesis using enc(2) by (simp add: R nth_append)
    qed
    then show ?thesis using enc(2) src(1)
      by (simp add: isal.encode_data [OF assms(1)] R mult.commute [of ?k] cong: xsum_cong)
  qed
  with enc(1) src(1) plan len show ?thesis by (simp add: utils_encode_def)
qed

subsection \<open>Repair across agents\<close>

text \<open>
  A request to rebuild the chunks \<open>failed\<close> of a file: \<open>ins\<close> are the agents of the chunks that the plan reads.
\<close>

definition repair_of ::
  "rs_code \<Rightarrow> decoding_plan \<Rightarrow> nat list \<Rightarrow> string list \<Rightarrow> string list \<Rightarrow> chunk_event \<Rightarrow> bool" where
  "repair_of c plan failed ins out ev \<longleftrightarrow>
     repair_request ins out (map int (take (rs_k c) (dp_inputChunkIds plan))) ev \<and> length (e_chunks ev) = length failed \<and>
     cm_codingState (e_codingMeta ev) = bb_data (dp_repairMatrix plan) \<and>
     e_chunks ev = map (\<lambda>i. (hd (e_chunks ev))\<lparr>c_chunkId := int i\<rparr>) failed"

lemma repair_of_ins: "repair_of c plan failed ins out ev \<Longrightarrow> length ins = min (rs_k c) (length (dp_inputChunkIds plan))"
  by (auto simp: repair_of_def repair_request_def)

lemma repair_of_targets:
  assumes "repair_of c plan failed ins out ev" and "sorted_wrt (<) failed" and "i < length failed" and "j < length failed"
    and "same_name env (e_chunks ev ! i) (e_chunks ev ! j)"
  shows "i = j"
proof -
  obtain h where h: "e_chunks ev = map (\<lambda>i. h\<lparr>c_chunkId := int i\<rparr>) failed" using assms(1) unfolding repair_of_def by blast
  have "failed ! i = failed ! j" using assms(5) assms(3,4) by (simp add: same_name_def getChunkName_def h)
  moreover have "distinct failed" using assms(2) by (simp add: strict_sorted_iff)
  ultimately show ?thesis using assms(3,4) by (simp add: nth_eq_iff_index_eq)
qed

context ready_fs_cluster
begin

lemma repair_restores:
  assumes "isal (ag_isal (E me))" and "newRSCode (ag_isal (E me)) opts = Some c" and "sorted_wrt (<) failed" and "set failed \<subseteq> {..<rs_n c}"
    and "preDecode (ag_isal (E me)) alloc junk c failed True plan0 = (plan, True)" and "repair_of c plan failed ins out ev"
    and "D = coded (ag_isal (E me)) (rs_encodeMatrix c) (rs_k c) sz data" and "0 < sz" and "sz \<le> room" and "sz < 2147483648"
    and "\<forall>i < rs_k c. in_cluster (fs_stored (env [])) cl (ins ! i) (e_containerGroupMap ev ! i)
       (input_chunk (hd (e_chunks ev)) (int (dp_inputChunkIds plan ! i))) = Some (D (dp_inputChunkIds plan ! i))"
    and "\<forall>j < length failed. writable (\<lambda>a. fs_ready) cl ((me # out) ! j) (e_containerIds ev ! j)"
    and "handle_repair E me ev cl = (cl', rep)"
  shows "e_opcode rep = RPR_CHUNK_REP_SUCCESS \<and>
     (\<forall>j < length failed. in_cluster (fs_stored (env [])) cl' ((me # out) ! j) (e_containerIds ev ! j) (e_chunks ev ! j) = Some (D (failed ! j))) \<and>
     (\<forall>a i d. (\<forall>j < length failed. \<not> (a = (me # out) ! j \<and> i = e_containerIds ev ! j \<and> same_name (env []) d (e_chunks ev ! j))) \<longrightarrow>
        in_cluster (fs_stored (env [])) cl' a i d = in_cluster (fs_stored (env [])) cl a i d)"
proof -
  let ?k = "rs_k c" and ?ids = "dp_inputChunkIds plan" and ?B = "\<lambda>i. D (dp_inputChunkIds plan ! i)"
  note plan = preDecode_repair_True [OF assms(1-4) refl assms(5) refl, of sz data, folded assms(7)]
  have len: "length ins = ?k" using repair_of_ins [OF assms(6)] plan by simp
  have req: "repair_request ins out (map int (take ?k ?ids)) ev" and n: "length (e_chunks ev) = length failed"
    using assms(6) by (simp_all add: repair_of_def)
  have D: "length (D i) = sz" for i by (simp add: assms(7) coded_def)
  have ins: "map ?B [0..<length ins] = map D (take ?k ?ids)" using plan by (simp add: list_eq_iff_nth_eq len)
  have inputs: "\<forall>i < length ins. length (?B i) = sz \<and> in_cluster (fs_stored (env [])) cl (ins ! i) (e_containerGroupMap ev ! i)
       (input_chunk (hd (e_chunks ev)) (map int (take ?k ?ids) ! i)) = Some (?B i)"
    using assms(11) D plan by (simp add: len)
  have m: "utils_encode (ag_isal (E me)) (map ?B [0..<length ins]) (length (e_chunks ev)) sz (the (cm_codingState (e_codingMeta ev))) = map D failed"
    unfolding ins n using plan assms(6) by (simp add: repair_of_def)
  have m': "\<forall>bs \<in> set (map D failed). length bs = sz" "length (map D failed) = length (e_chunks ev)" using D n by auto
  have ok: "e_opcode rep = RPR_CHUNK_REP_SUCCESS"
    using healthy.handle_repair_ready [OF req inputs assms(10,8) m m' digests(2) assms(9) _ assms(13)] assms(12) n by simp
  have diff: "\<forall>i < length (e_chunks ev). \<forall>j < length (e_chunks ev). i \<noteq> j \<longrightarrow> \<not> same_name (env []) (e_chunks ev ! i) (e_chunks ev ! j)"
    using repair_of_targets [OF assms(6,3)] n by auto
  have con: "\<forall>a \<in> set ins. ag_connect (E me) a" using reachable by simp
  from cluster.handle_repair_plain [OF req con diff inputs assms(10,8) m m' digests(2) assms(13)] ok show ?thesis by (simp add: n)
qed

end

context fs_cluster
begin

lemma readable_verified:
  assumes "cluster.readable addr ch bs" and "se_verify (env addr)" and "length bs < 2147483648"
  shows "se_md5 (env addr) bs = c_md5 ch"
proof -
  obtain c ch' where c: "fs_stored (env []) c ch = Some bs" "fs_getChunk (env addr) (received_chunk GET_CHUNK_REQ ch) False c = (ch', True)"
    using assms(1) by (auto simp: cluster.readable_def ops fs_ops_def)
  obtain p where p: "getChunkPath (env addr) (received_chunk GET_CHUNK_REQ ch) c = Some p" using c(2) by (auto simp: fs_getChunk_def split: option.splits)
  then have "getChunkPath (env []) ch c = Some p"
    using names [of addr] names [of "[]"] by (simp add: getChunkPath_def getChunkName_def received_chunk_def)
  then obtain f where f: "map_of (fc_files c) p = Some f" "ff_data f = bs" using c(1) by (auto simp: fs_stored_def)
  then show ?thesis using c(2) p assms(2,3)
    by (auto simp: fs_getChunk_def getChunkInternal_def readChunkFile_def verifyMD5_def chunk_bytes_def received_chunk_def hasChunkData_def hasData_def
        split: option.splits)
qed

lemma verified_repair:
  assumes "repair_request ins out gids ev" and "\<forall>a \<in> set ins. ag_connect (E me) a" and "sz < 2147483648"
    and "\<forall>i < length ins. length (B i) = sz \<and>
       in_cluster (fs_stored (env [])) cl (ins ! i) (e_containerGroupMap ev ! i) (input_chunk (hd (e_chunks ev)) (gids ! i)) = Some (B i)"
    and "utils_encode (ag_isal (E me)) (map B [0..<length ins]) (length (e_chunks ev)) sz (the (cm_codingState (e_codingMeta ev))) = outs"
    and "\<forall>bs \<in> set outs. length bs = sz"
    and "l < length ins" and "se_verify (env (ins ! l))" and "se_md5 (env (ins ! l)) (B l) \<noteq> replicate MD5_DIGEST_LENGTH 0"
    and "handle_repair E me ev cl = (cl', rep)"
  shows "e_opcode rep = RPR_CHUNK_REP_FAIL \<and> in_cluster (fs_stored (env [])) cl' a i d = in_cluster (fs_stored (env [])) cl a i d"
proof -
  have no: "\<not> cluster.readable (ins ! l) (input_chunk (hd (e_chunks ev)) (gids ! l)) (B l)"
    using readable_verified [of "ins ! l" "input_chunk (hd (e_chunks ev)) (gids ! l)" "B l"] assms(3,4,7-9)
    by (auto simp: input_chunk_def setId_def chunk_reset_def chunk_resetMD5_def)
  obtain cl1 where cl1: "\<forall>a. map_option a_containers (cl1 a) = map_option a_containers (cl a)"
      "e_opcode rep = RPR_CHUNK_REP_FAIL" "cl' = at_agent (incrementOp False) me cl1"
    using cluster.handle_repair_runs [OF assms(1,2,4,3,5,6,10)] no assms(7) by blast
  have "in_cluster (fs_stored (env [])) cl' a i d = in_cluster (fs_stored (env [])) cl a i d"
    using cl1(1) [rule_format, of a] by (cases "cl1 a"; cases "cl a") (auto simp: cl1(3) in_cluster_def at_agent_def incrementOp_def)
  with cl1(2) show ?thesis by simp
qed

end


text \<open>
  C37.  The requests of a repair for its input chunks carry a checksum of zeros.  When the agent of one of them verifies
  checksums, and its digest is not all zeros, the repair is answered with failure and changes no chunk.
\<close>

theorem verified_repair_fails:
  assumes "fs_cluster E env uts" and "repair_request ins out gids ev" and "\<forall>a \<in> set ins. ag_connect (E me) a" and "sz < 2147483648"
    and "\<forall>i < length ins. length (B i) = sz \<and>
       in_cluster (fs_stored (env [])) cl (ins ! i) (e_containerGroupMap ev ! i) (input_chunk (hd (e_chunks ev)) (gids ! i)) = Some (B i)"
    and "utils_encode (ag_isal (E me)) (map B [0..<length ins]) (length (e_chunks ev)) sz (the (cm_codingState (e_codingMeta ev))) = outs"
    and "\<forall>bs \<in> set outs. length bs = sz"
    and "l < length ins" and "se_verify (env (ins ! l))" and "se_md5 (env (ins ! l)) (B l) \<noteq> replicate MD5_DIGEST_LENGTH 0"
    and "handle_repair E me ev cl = (cl', rep)"
  shows "e_opcode rep = RPR_CHUNK_REP_FAIL \<and> in_cluster (fs_stored (env [])) cl' a i d = in_cluster (fs_stored (env [])) cl a i d"
  by (rule fs_cluster.verified_repair [OF assms])

subsection \<open>A cluster of three agents\<close>

definition example_fs_env :: "bool \<Rightarrow> storage_env" where
  "example_fs_env verify = \<lparr>se_now = 5, se_verify = verify, se_md5 = (\<lambda>bs. 1 # replicate 15 (of_nat (length bs))),
     se_uts = (\<lambda>u. ''7''), se_openW = (\<lambda>p. True), se_room = (\<lambda>p. 100), se_rename = (\<lambda>a b. True), se_copyBlock = 4\<rparr>"

definition example_agent_env :: "bool \<Rightarrow> fs_container agent_env" where
  "example_agent_env verify = \<lparr>ag_ops = fs_ops (example_fs_env verify), ag_verify = False,
     ag_md5 = (\<lambda>bs. 1 # replicate 15 (of_nat (length bs))), ag_isal = isal256, ag_malloc = (\<lambda>n. True), ag_connect = (\<lambda>a. True),
     ag_received = (0, 0), ag_started = (0, 0), ag_done = (0, 0), ag_replied = (0, 0)\<rparr>"

definition example_target :: chunk where
  "example_target = setId 1 7 0 chunk_reset"

definition example_store :: "int \<Rightarrow> (string \<times> byte list) list \<Rightarrow> fs_container agent" where
  "example_store cid fs =
     newAgent [cid \<mapsto> newFsContainer cid ''/d'' 1000 (map (\<lambda>(p, bs). (p, \<lparr>ff_data = bs, ff_mtime = 1\<rparr>)) fs)]"

definition example_cluster :: "fs_container cluster" where
  "example_cluster = [''a'' \<mapsto> example_store 1 [(''/d/1_7_0_1'', [7])], ''b'' \<mapsto> example_store 2 [(''/d/1_7_0_2'', [2])],
     ''c'' \<mapsto> example_store 3 []]"

definition example_plan :: decoding_plan where
  "example_plan = fst (preDecode isal256 (\<lambda>n. Some (replicate (nat n) 0)) [] (example_code False) [0] True
     (newDecodingPlan 0))"

definition example_repair :: chunk_event where
  "example_repair = event_reset\<lparr>e_opcode := RPR_CHUNK_REQ, e_numChunks := 1, e_chunks := [example_target], e_containerIds := [3],
     e_codingMeta := codingMeta_reset\<lparr>cm_coding := RS, cm_n := 3, cm_k := 2, cm_codingStateSize := 2, cm_codingState := Some [1, 1]\<rparr>,
     e_numChunkGroups := 1, e_numInputChunks := 2, e_chunkGroupMap := [2, 1, 2], e_containerGroupMap := [1, 2], e_agents := ''a;b;''\<rparr>"

lemma example_plan_eq:
  "snd (preDecode isal256 (\<lambda>n. Some (replicate (nat n) 0)) [] (example_code False) [0] True (newDecodingPlan 0))"
  "bb_data (dp_repairMatrix example_plan) = Some [1, 1]" "dp_inputChunkIds example_plan = [1, 2]"
  by code_simp+

lemma example_repair_of: "repair_of (example_code False) example_plan [0] [''a'', ''b''] [] example_repair"
  by (simp add: repair_of_def repair_request_def event_sendable_def example_plan_eq example_code_def example_repair_def addr_list_def
      example_target_def event_reset_def is_time_def is_int_def setId_def chunk_sendable_def coding_sendable_def
      chunk_reset_def chunk_resetMD5_def hasData_def hasContainerIds_def needsCoding_def hasRepairChunkInfo_def hasChunkData_def
      getNumChunkFactor_def CHUNK_VERSION_MAX_LEN_def repair_sendable_def RS_def)

interpretation example_fs_cluster: fs_cluster "\<lambda>a. example_agent_env v" "\<lambda>a. example_fs_env v" "\<lambda>u. ''7''"
  by unfold_locales (simp_all add: example_agent_env_def example_fs_env_def env_times_def is_time_def MD5_DIGEST_LENGTH_def)

interpretation example_cluster: ready_fs_cluster "\<lambda>a. example_agent_env False" "\<lambda>a. example_fs_env False" "\<lambda>u. ''7''" 100
  by unfold_locales (simp_all add: example_agent_env_def example_fs_env_def)

lemma example_inputs:
  "in_cluster (fs_stored (example_fs_env v)) example_cluster ''a'' 1 (input_chunk example_target 1) = Some [7]"
  "in_cluster (fs_stored (example_fs_env v)) example_cluster ''b'' 2 (input_chunk example_target 2) = Some [2]"
  by code_simp+

lemma example_writable: "writable (\<lambda>a. fs_ready) example_cluster ''c'' 3"
  by (simp add: writable_def example_cluster_def example_store_def newAgent_def newFsContainer_def updateUsage_def fs_ready_def)

lemma example_coded: "coded isal256 (rs_encodeMatrix (example_code False)) 2 1 [5, 7] 0 = [5]"
   "coded isal256 (rs_encodeMatrix (example_code False)) 2 1 [5, 7] 1 = [7]"
   "coded isal256 (rs_encodeMatrix (example_code False)) 2 1 [5, 7] 2 = [2]"
  by code_simp+


theorem verified_repair_fails_witness:
  "\<exists>cl' rep. handle_repair (\<lambda>a. example_agent_env True) ''c'' example_repair example_cluster = (cl', rep) \<and>
     e_opcode rep = RPR_CHUNK_REP_FAIL \<and> in_cluster (fs_stored (example_fs_env True)) cl' ''c'' 3 example_target = None"
proof -
  let ?E = "\<lambda>a :: string. example_agent_env True" and ?B = "\<lambda>i :: nat. if i = 0 then [7] else [2 :: byte]"
  obtain cl' rep where run: "handle_repair ?E ''c'' example_repair example_cluster = (cl', rep)"
    by (cases "handle_repair ?E ''c'' example_repair example_cluster")
  have ev: "e_chunks example_repair = [example_target]" "e_containerGroupMap example_repair = [1, 2]"
      "the (cm_codingState (e_codingMeta example_repair)) = [1, 1]"
    by (simp_all add: example_repair_def event_reset_def)
  have req: "repair_request [''a'', ''b''] [] [1, 2] example_repair"
    using example_repair_of by (simp add: repair_of_def example_plan_eq example_code_def)
  have con: "\<forall>a \<in> set [''a'', ''b'']. ag_connect (?E ''c'') a" by (simp add: example_agent_env_def)
  have enc: "utils_encode (ag_isal (?E ''c'')) (map ?B [0..<length [''a'', ''b'']]) (length (e_chunks example_repair)) 1
      (the (cm_codingState (e_codingMeta example_repair))) = [[5]]"
    unfolding ev by code_simp
  have ins: "\<forall>i < length [''a'', ''b'']. length (?B i) = 1 \<and> in_cluster (fs_stored (example_fs_env True)) example_cluster ([''a'', ''b''] ! i)
      (e_containerGroupMap example_repair ! i) (input_chunk (hd (e_chunks example_repair)) ([1, 2] ! i)) = Some (?B i)"
    using example_inputs [where v = True] by (simp add: ev less_Suc_eq)
  have ver: "se_verify (example_fs_env True)" "se_md5 (example_fs_env True) [7] \<noteq> replicate MD5_DIGEST_LENGTH 0"
    by (simp_all add: example_fs_env_def MD5_DIGEST_LENGTH_def numeral_eq_Suc)
  have none: "in_cluster (fs_stored (example_fs_env True)) example_cluster ''c'' 3 example_target = None" by code_simp
  show ?thesis
    using verified_repair_fails [where l = 0 and cl = example_cluster and ?cl' = cl' and a = "''c''" and i = 3 and d = example_target,
        OF example_fs_cluster.fs_cluster_axioms [where v = True] req con _ ins enc _ _ _ _ run] run ver none
    by simp
qed

end
