(* ===== verification/Chunk_Manager.thy ===== *)
theory Chunk_Manager
  imports Nexo_File RS_Code Chunk_Message
begin

text \<open>
  The chunk manager of the proxy (\<^verbatim>\<open>src/proxy/chunk_manager.cc\<close>) and its requests to agents
  (\<^verbatim>\<open>src/proxy/io.cc\<close>): stripes of files are encoded and written, read and decoded, copied,
  moved, deleted, reverted, checked, and repaired.  The state of the manager has the agents as the network
  presents them.  Requests that the code sends from several threads are answered in their order.

  The only erasure code stores one chunk per container, and the functions are those of the code for this case.
  Writes wait for all chunks: acknowledging or writing the code chunks in the background is switched off.
  Fresh memory for arrays of events and chunks is available; the allocation of buffers is a parameter.
\<close>

subsection \<open>Environment and state\<close>

record 'w proxy_env =
  pe_network :: "'w network"
  pe_connect :: "string \<Rightarrow> bool"
  pe_md5 :: md5_fun
  pe_uts :: "uuid \<Rightarrow> string"
  pe_isal :: isal
  pe_alloc :: allocator
  pe_junk :: "byte list"
  pe_verify :: bool
  pe_n :: nat
  pe_k :: nat
  pe_useCAR :: bool
  pe_repairAtProxy :: bool

record storage_class =
  sc_className :: string
  sc_classMeta :: coding_meta
  sc_instance :: rs_code

record 'w chunk_manager =
  m_storageClasses :: "string \<rightharpoonup> storage_class"
  m_codings :: "string \<rightharpoonup> rs_code option"
  m_eventCount :: "32 word"
  m_containerToAgentMap :: "int \<rightharpoonup> string"
  m_world :: 'w

subsection \<open>Coding instances\<close>

definition isValidCoding :: "int \<Rightarrow> bool" where
  "isValidCoding coding \<longleftrightarrow> 0 \<le> coding \<and> coding < UNKNOWN_CODE"

text \<open>The only name of a coding scheme is that of the Reed-Solomon code.  \<open>None\<close>: an exception.\<close>

definition genCodingInstanceKey :: "int \<Rightarrow> int \<Rightarrow> int \<Rightarrow> string option" where
  "genCodingInstanceKey codingScheme n k =
     (if isValidCoding codingScheme then Some (''RS'' @ ''_'' @ int_to_string n @ ''_'' @ int_to_string k) else None)"

definition options_for :: "'w proxy_env \<Rightarrow> int \<Rightarrow> int \<Rightarrow> coding_options" where
  "options_for P n k =
     fst (setK (nat (k mod 256)) (fst (setN (nat (n mod 256)) (newCodingOptions (pe_k P) (pe_n P) (pe_useCAR P)))))"

text \<open>An instance that cannot be generated is remembered as a null pointer.\<close>

definition getCodingInstance ::
  "'w proxy_env \<Rightarrow> int \<Rightarrow> int \<Rightarrow> int \<Rightarrow> 'w chunk_manager \<Rightarrow> 'w chunk_manager \<times> rs_code option" where
  "getCodingInstance P codingScheme n k m = (case genCodingInstanceKey codingScheme n k of
       None \<Rightarrow> (m, None)
     | Some key \<Rightarrow> (case m_codings m key of
           Some code \<Rightarrow> (m, code)
         | None \<Rightarrow> let code = genCoding (pe_isal P) codingScheme (options_for P n k)
                   in (m\<lparr>m_codings := (m_codings m)(key \<mapsto> code)\<rparr>, code)))"

definition meta_instance :: "'w proxy_env \<Rightarrow> coding_meta \<Rightarrow> 'w chunk_manager \<Rightarrow> 'w chunk_manager \<times> rs_code option" where
  "meta_instance P cm m = getCodingInstance P (cm_coding cm) (cm_n cm) (cm_k cm) m"

definition getCodingInstanceOfClass :: "string \<Rightarrow> 'w chunk_manager \<Rightarrow> rs_code option" where
  "getCodingInstanceOfClass className m = map_option sc_instance (m_storageClasses m className)"

definition getCodingScheme :: "string \<Rightarrow> 'w chunk_manager \<Rightarrow> int" where
  "getCodingScheme className m =
     (case m_storageClasses m className of None \<Rightarrow> UNKNOWN_CODE | Some sc \<Rightarrow> cm_coding (sc_classMeta sc))"

definition setCodingMeta :: "string \<Rightarrow> coding_meta \<Rightarrow> 'w chunk_manager \<Rightarrow> coding_meta \<times> bool" where
  "setCodingMeta className cm m = (case m_storageClasses m className of
       None \<Rightarrow> (cm, False)
     | Some sc \<Rightarrow> (codingMeta_copyMeta (sc_classMeta sc) True cm, True))"

text \<open>
  The constructor: one storage class per name in the configuration, with its scheme, \<open>n\<close>, \<open>k\<close>,
  number of failures and chunk size.  \<open>None\<close>: a class whose code cannot be generated ends the program.
\<close>

fun init_classes ::
  "'w proxy_env \<Rightarrow> (string \<times> int \<times> int \<times> int \<times> int \<times> int) list \<Rightarrow> 'w chunk_manager \<Rightarrow> 'w chunk_manager option" where
  "init_classes P [] m = Some m"
| "init_classes P ((name, coding, n, k, f, maxChunkSize) # cs) m =
     (case genCoding (pe_isal P) coding (options_for P n k) of
        None \<Rightarrow> None
      | Some code \<Rightarrow> (case genCodingInstanceKey coding (int (rs_n code)) (int (rs_k code)) of
            None \<Rightarrow> None
          | Some key \<Rightarrow>
              let meta = codingMeta_reset\<lparr>cm_coding := coding, cm_n := int (rs_n code), cm_k := int (rs_k code), cm_f := f, cm_maxChunkSize := maxChunkSize\<rparr>;
                  sc = \<lparr>sc_className = name, sc_classMeta = meta, sc_instance = code\<rparr>
              in init_classes P cs
                   (m\<lparr>m_codings := (if m_codings m key = None then (m_codings m)(key \<mapsto> Some code) else m_codings m),
                      m_storageClasses := (m_storageClasses m)(name \<mapsto> sc)\<rparr>)))"

definition newChunkManager ::
  "'w proxy_env \<Rightarrow> (string \<times> int \<times> int \<times> int \<times> int \<times> int) list \<Rightarrow> (int \<rightharpoonup> string) \<Rightarrow> 'w \<Rightarrow> 'w chunk_manager option" where
  "newChunkManager P classes toAgent w =
     init_classes P classes
       \<lparr>m_storageClasses = Map.empty, m_codings = Map.empty, m_eventCount = 0, m_containerToAgentMap = toAgent, m_world = w\<rparr>"

subsection \<open>Sizes\<close>

definition numRequiredContainers :: "rs_code \<Rightarrow> int" where
  "numRequiredContainers c = int ((getNumDataChunks c + getNumCodeChunks c) div getNumChunksPerNode c)"

definition getNumRequiredContainers :: "string \<Rightarrow> 'w chunk_manager \<Rightarrow> int" where
  "getNumRequiredContainers storageClass m =
     (case getCodingInstanceOfClass storageClass m of None \<Rightarrow> -1 | Some c \<Rightarrow> numRequiredContainers c)"

definition getMinNumRequiredContainers :: "string \<Rightarrow> 'w chunk_manager \<Rightarrow> int" where
  "getMinNumRequiredContainers storageClass m =
     (case getCodingInstanceOfClass storageClass m of None \<Rightarrow> -1 | Some c \<Rightarrow> int (getNumDataChunks c div getNumChunksPerNode c))"

definition getNumChunksPerContainer :: "string \<Rightarrow> 'w chunk_manager \<Rightarrow> int" where
  "getNumChunksPerContainer storageClass m =
     (case getCodingInstanceOfClass storageClass m of None \<Rightarrow> -1 | Some c \<Rightarrow> int (getNumChunksPerNode c))"

text \<open>\<^verbatim>\<open>while (coding->getChunkSize(size) * numChunksPerNode > chunkSize) size--\<close>\<close>

fun shrink_size :: "rs_code \<Rightarrow> nat \<Rightarrow> nat \<Rightarrow> nat" where
  "shrink_size c chunkSize 0 = 0"
| "shrink_size c chunkSize (Suc sz) =
     (if getChunkSize c (Suc sz) * getNumChunksPerNode c > chunkSize then shrink_size c chunkSize sz else Suc sz)"

definition maxDataSizePerStripe :: "rs_code \<Rightarrow> nat \<Rightarrow> nat" where
  "maxDataSizePerStripe c chunkSize =
     shrink_size c chunkSize (chunkSize div getNumChunksPerNode c * getNumDataChunks c)"

definition getMaxDataSizePerStripe ::
  "'w proxy_env \<Rightarrow> int \<Rightarrow> int \<Rightarrow> int \<Rightarrow> int \<Rightarrow> 'w chunk_manager \<Rightarrow> 'w chunk_manager \<times> nat" where
  "getMaxDataSizePerStripe P codingScheme n k chunkSize m = (case getCodingInstance P codingScheme n k m of
       (m1, None) \<Rightarrow> (m1, INVALID_FILE_OFFSET)
     | (m1, Some c) \<Rightarrow> (m1, maxDataSizePerStripe c (nat chunkSize)))"

definition getMaxDataSizePerStripeOfClass :: "string \<Rightarrow> 'w chunk_manager \<Rightarrow> nat" where
  "getMaxDataSizePerStripeOfClass storageClass m = (case getCodingInstanceOfClass storageClass m of
       None \<Rightarrow> INVALID_FILE_OFFSET
     | Some c \<Rightarrow> maxDataSizePerStripe c (nat (cm_maxChunkSize (fst (setCodingMeta storageClass codingMeta_reset m)))))"

definition getDataStripeSize :: "'w proxy_env \<Rightarrow> int \<Rightarrow> int \<Rightarrow> int \<Rightarrow> nat \<Rightarrow> 'w chunk_manager \<Rightarrow> 'w chunk_manager \<times> nat" where
  "getDataStripeSize P codingScheme n k dataSize m = (case getCodingInstance P codingScheme n k m of
       (m1, None) \<Rightarrow> (m1, INVALID_FILE_OFFSET)
     | (m1, Some c) \<Rightarrow> (m1, getChunkSize c dataSize * getNumDataChunks c))"

subsection \<open>Requests\<close>

definition proxy_send :: "'w proxy_env \<Rightarrow> int \<Rightarrow> chunk_event \<Rightarrow> 'w chunk_manager \<Rightarrow> 'w chunk_manager \<times> request_result" where
  "proxy_send P containerId request m = (case m_containerToAgentMap m containerId of
       None \<Rightarrow> (m, RequestNotSent)
     | Some address \<Rightarrow>
         let (w, r) = sendChunkRequestToAgent (pe_connect P) (pe_network P) address request (m_world m)
         in (m\<lparr>m_world := w\<rparr>, r))"

definition take_ids :: "nat \<Rightarrow> 'w chunk_manager \<Rightarrow> 'w chunk_manager \<times> nat list" where
  "take_ids n m = (m\<lparr>m_eventCount := m_eventCount m + of_nat n\<rparr>, map (\<lambda>i. unat (m_eventCount m + of_nat i)) [0..<n])"

fun send_each :: "'w proxy_env \<Rightarrow> (int \<times> chunk_event) list \<Rightarrow> 'w chunk_manager \<Rightarrow> 'w chunk_manager \<times> request_result list" where
  "send_each P [] m = (m, [])"
| "send_each P ((cid, ev) # reqs) m =
     (let (m1, r) = proxy_send P cid ev m; (m2, rs) = send_each P reqs m1 in (m2, r # rs))"

text \<open>Requests for one container each; the requests get their numbers before the first one is sent.\<close>

definition send_numbered :: "'w proxy_env \<Rightarrow> (int \<times> chunk_event) list \<Rightarrow> 'w chunk_manager \<Rightarrow> 'w chunk_manager \<times> request_result list" where
  "send_numbered P reqs m =
     (let (m1, ids) = take_ids (length reqs) m
      in send_each P (map2 (\<lambda>(cid, ev) i. (cid, ev\<lparr>e_id := i\<rparr>)) reqs ids) m1)"

subsection \<open>Access to chunks\<close>

definition access_request :: "Opcode \<Rightarrow> file_t \<Rightarrow> nat \<Rightarrow> int \<times> chunk_event" where
  "access_request reqOp f i =
     (f_containerIds f ! i,
      event_reset\<lparr>e_opcode := reqOp, e_numChunks := 1, e_chunks := [(f_chunks f ! i)\<lparr>c_freeData := False\<rparr>],
        e_containerIds := [f_containerIds f ! i]\<rparr>)"

text \<open>The reply to a read is checked against the checksum and the size that the file has for the chunk.\<close>

definition checked_reply :: "'w proxy_env \<Rightarrow> Opcode \<Rightarrow> file_t \<Rightarrow> nat \<Rightarrow> chunk_event \<Rightarrow> chunk_event" where
  "checked_reply P reqOp f i ev =
     (if reqOp = GET_CHUNK_REQ \<and> pe_verify P
      then ev\<lparr>e_chunks := copyMD5 (f_chunks f ! i) (hd (e_chunks ev)) # tl (e_chunks ev)\<rparr> else ev)"

definition accept_reply :: "'w proxy_env \<Rightarrow> Opcode \<Rightarrow> Opcode \<Rightarrow> file_t \<Rightarrow> nat \<Rightarrow> request_result \<Rightarrow> chunk_event option" where
  "accept_reply P reqOp expectedOpRep f i r = (case r of
       RequestOk ev \<Rightarrow>
         let ev' = checked_reply P reqOp f i ev in
         if e_opcode ev = expectedOpRep \<and>
            (reqOp = GET_CHUNK_REQ \<longrightarrow>
               (pe_verify P \<longrightarrow> verifyMD5 (pe_md5 P) (hd (e_chunks ev'))) \<and> c_size (f_chunks f ! i) = c_size (hd (e_chunks ev)))
         then Some ev' else None
     | _ \<Rightarrow> None)"

text \<open>
  \<^verbatim>\<open>accessChunks\<close>: requests go to the first \<open>numChunks\<close> of the listed chunks.  A chunk whose request fails
  is taken from the list.  A read is then tried with the next chunks of the list, as long as there are
  enough.  The result has the list of chunks left, the replies in its order, whether the last round had no
  failure, and for each chunk of the last round whether it succeeded.
\<close>

definition access_round ::
  "'w proxy_env \<Rightarrow> Opcode \<Rightarrow> Opcode \<Rightarrow> file_t \<Rightarrow> nat list \<Rightarrow> 'w chunk_manager \<Rightarrow> 'w chunk_manager \<times> (nat \<times> chunk_event option) list" where
  "access_round P reqOp expectedOpRep f cur m =
     (let (m1, rs) = send_numbered P (map (access_request reqOp f) cur) m
      in (m1, map2 (\<lambda>i r. (i, accept_reply P reqOp expectedOpRep f i r)) cur rs))"

abbreviation kept_of :: "(nat \<times> chunk_event option) list \<Rightarrow> (nat \<times> chunk_event option) list" where
  "kept_of res \<equiv> filter (\<lambda>(i, a). a \<noteq> None) res"

lemma access_round_length: "access_round P reqOp expectedOpRep f cur m = (m1, res) \<Longrightarrow> length (kept_of res) \<le> length cur"
  by (auto simp: access_round_def split: prod.splits intro: order_trans [OF length_filter_le])

function access_loop ::
  "'w proxy_env \<Rightarrow> Opcode \<Rightarrow> Opcode \<Rightarrow> file_t \<Rightarrow> nat \<Rightarrow> nat list \<Rightarrow> chunk_event list \<Rightarrow> 'w chunk_manager
   \<Rightarrow> 'w chunk_manager \<times> nat list \<times> chunk_event list \<times> bool \<times> bool list" where
  "access_loop P reqOp expectedOpRep f numChunks chunkIndices replies m =
     (if length replies < numChunks \<and> numChunks \<le> length chunkIndices
      then
        let (m1, res) = access_round P reqOp expectedOpRep f (drop (length replies) (take numChunks chunkIndices)) m;
            kept = kept_of res;
            indices = take (length replies) chunkIndices @ map fst kept @ drop numChunks chunkIndices;
            replies' = replies @ map (\<lambda>(i, a). the a) kept;
            allsuccess = (length replies' = numChunks)
        in if allsuccess \<or> reqOp \<noteq> GET_CHUNK_REQ
           then (m1, indices, replies', allsuccess, map (\<lambda>(i, a). a \<noteq> None) res)
           else access_loop P reqOp expectedOpRep f numChunks indices replies' m1
      else (m, chunkIndices, replies, False, []))"
  by pat_completeness auto

termination
proof (relation "measure (\<lambda>(P, reqOp, exp, f, n, idx, reps, m). length idx)", goal_cases)
  case (2 P reqOp exp f n idx reps m x m1 res kept indices replies' ok)
  have "length kept \<le> n - length reps" using 2(1-4) access_round_length [of P reqOp exp f "drop (length reps) (take n idx)" m m1 res] by simp
  then show ?case using 2(1,5,6,7,8) by simp arith
qed simp

definition accessChunks ::
  "'w proxy_env \<Rightarrow> Opcode \<Rightarrow> Opcode \<Rightarrow> file_t \<Rightarrow> nat \<Rightarrow> nat list \<Rightarrow> 'w chunk_manager
   \<Rightarrow> 'w chunk_manager \<times> nat list \<times> chunk_event list \<times> bool \<times> bool list" where
  "accessChunks P reqOp expectedOpRep f numChunks chunkIndices m =
     access_loop P reqOp expectedOpRep f numChunks chunkIndices [] m"

declare access_loop.simps [simp del]

subsection \<open>Deleting and reverting\<close>

fun access_batches ::
  "'w proxy_env \<Rightarrow> Opcode \<Rightarrow> Opcode \<Rightarrow> file_t \<Rightarrow> nat list list \<Rightarrow> 'w chunk_manager \<Rightarrow> 'w chunk_manager \<times> bool" where
  "access_batches P reqOp expectedOpRep f [] m = (m, True)"
| "access_batches P reqOp expectedOpRep f (b # bs) m =
     (let (m1, _, _, ok, _) = accessChunks P reqOp expectedOpRep f (length b) b m;
          (m2, oks) = access_batches P reqOp expectedOpRep f bs m1
      in (m2, ok \<and> oks))"

text \<open>The default \<open>n\<close> of the configuration limits the number of connections; it is positive.\<close>

function batches :: "nat \<Rightarrow> nat list \<Rightarrow> nat list list" where
  "batches n xs = (if n = 0 \<or> xs = [] then [] else take n xs # batches n (drop n xs))"
  by pat_completeness auto
termination by (relation "measure (\<lambda>(n, xs). length xs)") auto

declare batches.simps [simp del]

definition operateOnAliveChunks ::
  "'w proxy_env \<Rightarrow> file_t \<Rightarrow> bool list option \<Rightarrow> Opcode \<Rightarrow> Opcode \<Rightarrow> 'w chunk_manager \<Rightarrow> 'w chunk_manager \<times> bool" where
  "operateOnAliveChunks P f chunkIndicator reqOp expectedOpRep m =
     (if f_numChunks f < 0 then (m, False)
      else if f_numChunks f = 0 then (m, True)
      else
        let m1 = fst (meta_instance P (f_codingMeta f) m);
            chunkIndices = filter (\<lambda>i. case chunkIndicator of None \<Rightarrow> True | Some ind \<Rightarrow> ind ! i) [0..<nat (f_numChunks f)]
        in access_batches P reqOp expectedOpRep f (batches (pe_n P) chunkIndices) m1)"

definition deleteFile :: "'w proxy_env \<Rightarrow> file_t \<Rightarrow> bool list option \<Rightarrow> 'w chunk_manager \<Rightarrow> 'w chunk_manager \<times> bool" where
  "deleteFile P f chunkIndicator m = operateOnAliveChunks P f chunkIndicator DEL_CHUNK_REQ DEL_CHUNK_REP_SUCCESS m"

definition revertFile :: "'w proxy_env \<Rightarrow> file_t \<Rightarrow> bool list option \<Rightarrow> 'w chunk_manager \<Rightarrow> 'w chunk_manager \<times> bool" where
  "revertFile P f chunkIndicator m = operateOnAliveChunks P f chunkIndicator RVT_CHUNK_REQ RVT_CHUNK_REP_SUCCESS m"

subsection \<open>Writing\<close>

definition file_bytes :: "file_t \<Rightarrow> byte list" where
  "file_bytes f = (case f_data f of None \<Rightarrow> [] | Some d \<Rightarrow> d)"

text \<open>\<^verbatim>\<open>realloc\<close> of the data to a multiple of the chunk size, the new part filled with zeros.  \<open>None\<close>: no memory.\<close>

definition align_data :: "'w proxy_env \<Rightarrow> rs_code \<Rightarrow> bool \<Rightarrow> file_t \<Rightarrow> file_t option" where
  "align_data P c alignDataBuf f =
     (let sz = getChunkSize c (f_length f) * getNumDataChunks c in
      if alignDataBuf \<and> sz > f_length f
      then (case pe_alloc P (int sz) of
              None \<Rightarrow> None
            | Some _ \<Rightarrow> Some (f\<lparr>f_data := Some (take (f_length f) (file_bytes f) @ replicate (sz - f_length f) 0)\<rparr>))
      else Some f)"

definition place_chunks :: "int \<Rightarrow> chunk list \<Rightarrow> file_t \<Rightarrow> file_t" where
  "place_chunks off stripe f =
     f\<lparr>f_numChunks := int (length stripe),
       f_chunks := map (\<lambda>i. (setId (f_namespaceId f) (f_uuid f) (int i + off) (fst (chunk_move (stripe ! i) chunk_reset)))\<lparr>c_fileVersion := f_version f\<rparr>)
         [0..<length stripe]\<rparr>"

definition encodeFile :: "'w proxy_env \<Rightarrow> bool \<Rightarrow> file_t \<Rightarrow> 'w chunk_manager \<Rightarrow> 'w chunk_manager \<times> file_t \<times> bool" where
  "encodeFile P alignDataBuf f m = (case meta_instance P (f_codingMeta f) m of
       (m1, None) \<Rightarrow> (m1, f, False)
     | (m1, Some c) \<Rightarrow> (case align_data P c alignDataBuf f of
           None \<Rightarrow> (m1, f, False)
         | Some f1 \<Rightarrow>
             let f2 = f1\<lparr>f_codingMeta := (f_codingMeta f1)\<lparr>cm_codingStateSize := int (getCodingStateSize c)\<rparr>\<rparr>;
                 (stripe, ok) = rs_encode (pe_isal P) (pe_alloc P) c (file_bytes f2) (f_length f2)
             in if \<not> ok then (m1, f2, False)
                else let (m2, stripeSize) = getMaxDataSizePerStripe P (cm_coding (f_codingMeta f2)) (int (rs_n c)) (int (rs_k c)) (cm_maxChunkSize (f_codingMeta f2)) m1;
                         off = int32 (int (f_offset f2 div stripeSize * length stripe))
                     in (m2, place_chunks off stripe f2, True)))"

definition write_request :: "int list \<Rightarrow> file_t \<Rightarrow> nat \<Rightarrow> chunk_event" where
  "write_request spare f i = event_reset\<lparr>e_opcode := PUT_CHUNK_REQ, e_numChunks := 1, e_chunks := [(f_chunks f ! i)\<lparr>c_freeData := False\<rparr>],
     e_containerIds := [if i < length spare then spare ! i else INVALID_CONTAINER_ID]\<rparr>"

text \<open>
  The container where a chunk is now, the chunk with the version that the agent reports, whether it was
  stored, and whether the agent reports success, even with another checksum.
\<close>

definition write_result :: "'w proxy_env \<Rightarrow> chunk \<Rightarrow> request_result \<Rightarrow> int \<times> chunk \<times> bool \<times> bool" where
  "write_result P ch r = (case r of
       RequestOk ev \<Rightarrow>
         let ok = (e_opcode ev = PUT_CHUNK_REP_SUCCESS);
             checksumPassed = (\<not> pe_verify P \<or> ok \<and> c_md5 ch = c_md5 (hd (e_chunks ev)))
         in if ok \<and> checksumPassed
            then (hd (e_containerIds ev), ch\<lparr>c_chunkVersion := c_chunkVersion (hd (e_chunks ev))\<rparr>, True, True)
            else (INVALID_CONTAINER_ID, ch, False, ok)
     | _ \<Rightarrow> (INVALID_CONTAINER_ID, ch, False, False))"

definition with_checksums :: "'w proxy_env \<Rightarrow> nat \<Rightarrow> file_t \<Rightarrow> file_t" where
  "with_checksums P numReqs f =
     f\<lparr>f_chunks := map (\<lambda>ch. fst (computeMD5 (pe_md5 P) ch)) (take numReqs (f_chunks f)) @ drop numReqs (f_chunks f)\<rparr>"

definition write_chunks ::
  "'w proxy_env \<Rightarrow> int list \<Rightarrow> nat \<Rightarrow> file_t \<Rightarrow> 'w chunk_manager \<Rightarrow> 'w chunk_manager \<times> file_t \<times> (int \<times> chunk \<times> bool \<times> bool) list" where
  "write_chunks P spare numReqs f m =
     (let f1 = with_checksums P numReqs f;
          (m1, ids) = take_ids numReqs m; num = min numReqs (length spare);
          (m2, rs) = send_each P (map (\<lambda>i. (spare ! i, (write_request spare f1 i)\<lparr>e_id := ids ! i\<rparr>)) [0..<num]) m1;
          res = map2 (write_result P) (take num (f_chunks f1)) rs
      in (m2, f1\<lparr>f_containerIds := map fst res @ replicate (numReqs - num) INVALID_CONTAINER_ID,
                 f_chunks := map (\<lambda>(_, ch, _). ch) res @ drop num (f_chunks f1)\<rparr>, res))"

definition writeFileStripe ::
  "'w proxy_env \<Rightarrow> int list \<Rightarrow> bool \<Rightarrow> bool \<Rightarrow> bool \<Rightarrow> file_t \<Rightarrow> 'w chunk_manager \<Rightarrow> 'w chunk_manager \<times> file_t \<times> bool" where
  "writeFileStripe P spare alignDataBuf isOverwrite withEncode f m = (case getCodingInstanceOfClass (f_storageClass f) m of
       None \<Rightarrow> (m, f, False)
     | Some c \<Rightarrow>
         if withEncode \<and> pe_alloc P (int (getNumCodeChunks c * getChunkSize c (f_length f))) = None then (m, f, False)
         else
           let (m1, f1, encoded) = (if withEncode then encodeFile P alignDataBuf f m else (m, f, True))
           in if \<not> encoded then (m1, f1, False)
              else
                let numReqs = getNumDataChunks c + getNumCodeChunks c;
                    (m2, f2, res) = write_chunks P spare numReqs f1 m1;
                    allsuccess = list_all2 (\<lambda>(_, _, stored, _) cid. stored \<or> cid = INVALID_CONTAINER_ID) res (take numReqs spare);
                    numSuccess = length (filter (\<lambda>(_, _, stored, _). stored) res);
                    chunkIndicator = map (\<lambda>(_, _, _, reported). reported) res @ replicate (numReqs - length res) False
                in if isOverwrite \<and> \<not> allsuccess then (fst (revertFile P f2 (Some chunkIndicator) m2), f2, False)
                   else if \<not> allsuccess \<and> numSuccess < getNumDataChunks c
                   then (fst (deleteFile P f2 (Some chunkIndicator) m2), f2, False)
                   else (m2, f2, True))"

subsection \<open>Reading\<close>

definition failed_chunks :: "file_t \<Rightarrow> bool list \<Rightarrow> nat list" where
  "failed_chunks f chunkIndicator = filter (\<lambda>i. \<not> chunkIndicator ! i) [0..<nat (f_numChunks f)]"

definition input_of :: "rs_code \<Rightarrow> chunk_event \<Rightarrow> chunk" where
  "input_of c ev =
     (let ch = fst (chunk_move (hd (e_chunks ev)) chunk_reset) in setChunkId (c_chunkId ch mod int (getNumChunks c)) ch)"

text \<open>\<open>chunkIndices\<close> are the chunks that were read, \<open>replies\<close> the replies for them.\<close>

definition decodeFile ::
  "'w proxy_env \<Rightarrow> nat list \<Rightarrow> chunk_event list \<Rightarrow> file_t \<Rightarrow> 'w chunk_manager \<Rightarrow> 'w chunk_manager \<times> file_t \<times> bool" where
  "decodeFile P chunkIndices replies f m = (case meta_instance P (f_codingMeta f) m of
       (m1, None) \<Rightarrow> (m1, f, False)
     | (m1, Some c) \<Rightarrow>
         let chunkSize = c_size (f_chunks f ! hd chunkIndices);
             buf = (if f_data f = None then pe_alloc P (int (getChunkSize c (f_size f) * getNumDataChunks c)) else f_data f);
             f1 = f\<lparr>f_data := buf\<rparr>
         in if buf = None then (m1, f, False)
            else if \<not> list_all (\<lambda>ev. c_size (hd (e_chunks ev)) = chunkSize) (take (getNumDataChunks c) replies) then (m1, f1, False)
            else let (d, decodedSize, ok) = rs_decode (pe_isal P) (\<lambda>n. pe_alloc P (int n) \<noteq> None) (pe_junk P) c
                       (map (input_of c) (take (getNumDataChunks c) replies)) buf 0 False []
                 in (m1, f1\<lparr>f_data := d, f_length := decodedSize\<rparr>, ok))"

definition readFile ::
  "'w proxy_env \<Rightarrow> bool list \<Rightarrow> bool \<Rightarrow> decoding_plan \<Rightarrow> file_t \<Rightarrow> 'w chunk_manager
   \<Rightarrow> 'w chunk_manager \<times> file_t \<times> decoding_plan \<times> (nat list \<times> chunk_event list) option \<times> bool" where
  "readFile P chunkIndicator withDecode plan0 f m = (case meta_instance P (f_codingMeta f) m of
       (m1, None) \<Rightarrow> (m1, f, plan0, None, False)
     | (m1, Some c) \<Rightarrow>
         let (plan, decodable) = preDecode (pe_isal P) (pe_alloc P) (pe_junk P) c (failed_chunks f chunkIndicator) False plan0;
             selected = length (dp_inputChunkIds plan)
         in if selected < getNumDataChunks c \<or> \<not> decodable then (m1, f, plan, None, False)
            else (case accessChunks P GET_CHUNK_REQ GET_CHUNK_REP_SUCCESS f (dp_minNumChunks plan) (dp_inputChunkIds plan) m1 of
                (m2, indices, replies, False, _) \<Rightarrow> (m2, f, plan, None, False)
              | (m2, indices, replies, True, _) \<Rightarrow>
                  if \<not> withDecode then (m2, f, plan, Some (indices, replies), True)
                  else let (m3, f3, ok) = decodeFile P indices replies f m2 in (m3, f3, plan, None, ok)))"

definition readFileStripe :: "'w proxy_env \<Rightarrow> nat \<Rightarrow> bool list \<Rightarrow> file_t \<Rightarrow> 'w chunk_manager \<Rightarrow> 'w chunk_manager \<times> file_t \<times> bool" where
  "readFileStripe P garbage chunkIndicator f m =
     (let (m1, f1, _, _, ok) = readFile P chunkIndicator True (newDecodingPlan garbage) f m in (m1, f1, ok))"

end
