(* ===== verification/Chunk_Manager_Ops.thy ===== *)
theory Chunk_Manager_Ops
  imports Chunk_Manager
begin

text \<open>
  The operations of the chunk manager (\<^verbatim>\<open>src/proxy/chunk_manager.cc\<close>) on stripes that are already stored:
  copying and moving, checking, the verification of checksums, and repair at the proxy or at an agent.
\<close>

subsection \<open>Copying and moving\<close>

definition modify_target :: "file_t \<Rightarrow> file_t \<Rightarrow> nat \<Rightarrow> chunk" where
  "modify_target src dst p =
     (setId (f_namespaceId dst) (f_uuid dst) (c_chunkId (f_chunks src ! p)) (f_chunks dst ! p))\<lparr>c_size := c_size (f_chunks src ! p),
       c_fileVersion := f_version dst\<rparr>"

definition modify_request :: "bool \<Rightarrow> file_t \<Rightarrow> file_t \<Rightarrow> nat \<Rightarrow> int \<times> chunk_event" where
  "modify_request isCopy src dst p =
     (f_containerIds src ! p,
      event_reset\<lparr>e_opcode := if isCopy then CPY_CHUNK_REQ else MOV_CHUNK_REQ, e_numChunks := 1,
        e_chunks := [f_chunks src ! p, f_chunks dst ! p], e_containerIds := [f_containerIds src ! p]\<rparr>)"

text \<open>
  What a reply says of the chunk at \<open>p\<close>: whether it was copied, its container, and whether it counts as a success
  with the destination chunk then.  An opcode that is neither the expected one nor the failure counts as a success.
\<close>

definition modify_result :: "'w proxy_env \<Rightarrow> bool \<Rightarrow> chunk \<Rightarrow> chunk \<Rightarrow> request_result \<Rightarrow> bool \<times> int \<times> chunk \<times> bool" where
  "modify_result P isCopy srcChunk dstChunk r = (case r of
       RequestOk ev \<Rightarrow>
         let expected = (if isCopy then CPY_CHUNK_REP_SUCCESS else MOV_CHUNK_REP_SUCCESS);
             failed = (if isCopy then CPY_CHUNK_REP_FAIL else MOV_CHUNK_REP_FAIL);
             copied = (e_opcode ev = expected);
             counts = (e_opcode ev \<noteq> failed \<and> (pe_verify P \<longrightarrow> c_md5 (hd (e_chunks ev)) = c_md5 srcChunk))
         in (copied, if copied then hd (e_containerIds ev) else INVALID_CONTAINER_ID,
             if counts then copyMD5 (hd (e_chunks ev)) dstChunk else dstChunk, counts)
     | _ \<Rightarrow> (False, INVALID_CONTAINER_ID, dstChunk, False))"

text \<open>One stripe: the positions \<open>ps\<close>.  The result has the new chunk indicators and whether enough chunks were copied.\<close>

definition modify_stripe ::
  "'w proxy_env \<Rightarrow> bool \<Rightarrow> file_t \<Rightarrow> nat list \<Rightarrow> file_t \<Rightarrow> bool list \<Rightarrow> 'w chunk_manager \<Rightarrow> 'w chunk_manager \<times> file_t \<times> bool list \<times> bool" where
  "modify_stripe P isCopy src ps dst ind m =
     (let dst1 = dst\<lparr>f_chunks := foldl (\<lambda>chs p. chs[p := modify_target src dst p]) (f_chunks dst) ps\<rparr>;
          (m1, rs) = send_numbered P (map (modify_request isCopy src dst1) ps) m;
          res = map2 (\<lambda>p r. (p, modify_result P isCopy (f_chunks src ! p) (f_chunks dst1 ! p) r)) ps rs;
          dst2 = dst1\<lparr>f_chunks := foldl (\<lambda>chs (p, _, _, ch, _). chs[p := ch]) (f_chunks dst1) res,
                      f_containerIds := foldl (\<lambda>cids (p, _, cid, _). cids[p := cid]) (f_containerIds dst1) res\<rparr>
      in (m1, dst2, foldl (\<lambda>ind (p, copied, _). ind[p := copied]) ind res,
          int (length (filter (\<lambda>(_, _, _, _, counts). counts) res)) \<ge> cm_k (f_codingMeta src)))"

fun modify_stripes ::
  "'w proxy_env \<Rightarrow> bool \<Rightarrow> file_t \<Rightarrow> nat list list \<Rightarrow> file_t \<Rightarrow> bool list \<Rightarrow> 'w chunk_manager \<Rightarrow> 'w chunk_manager \<times> file_t \<times> bool list \<times> bool" where
  "modify_stripes P isCopy src [] dst ind m = (m, dst, ind, True)"
| "modify_stripes P isCopy src (ps # pss) dst ind m =
     (let (m1, dst1, ind1, ok) = modify_stripe P isCopy src ps dst ind m;
          (m2, dst2, ind2, oks) = modify_stripes P isCopy src pss dst1 ind1 m1
      in (m2, dst2, ind2, ok \<and> oks))"

text \<open>
  \<open>junk\<close> and \<open>junkInd\<close> are the initial content of the container ids and of the chunk indicators.  The number of chunks of
  the destination is only set when all stripes were copied, so the deletion after a failure works with
  the number it had before.  The result has the first stripe, and the end of the stripes, that were copied.
\<close>

definition fullFileModify ::
  "'w proxy_env \<Rightarrow> int list \<Rightarrow> bool list \<Rightarrow> bool \<Rightarrow> file_t \<Rightarrow> file_t \<Rightarrow> 'w chunk_manager
   \<Rightarrow> 'w chunk_manager \<times> file_t \<times> (nat \<times> nat) option \<times> bool" where
  "fullFileModify P junk junkInd isCopy src dst m =
     (if f_numChunks src \<le> 0 \<or> f_numStripes src \<le> 0
      then (m, dst\<lparr>f_size := f_size src, f_numChunks := f_numChunks src,
              f_codingMeta := codingMeta_copyMeta (f_codingMeta src) False (f_codingMeta dst), f_numStripes := f_numStripes src\<rparr>, None, True)
      else
        let num = nat (f_numChunks src);
            dst1 = dst\<lparr>f_storageClass := f_storageClass src, f_chunks := replicate num chunk_reset, f_containerIds := take num junk\<rparr>
        in case meta_instance P (f_codingMeta src) m of
             (m1, None) \<Rightarrow> (m1, dst1, None, False)
           | (m1, Some c) \<Rightarrow>
               let cm = f_codingMeta src;
                   (m2, stripeSize) = getMaxDataSizePerStripe P (cm_coding cm) (cm_n cm) (cm_k cm) (cm_maxChunkSize cm) m1;
                   startIdx = f_offset src div stripeSize;
                   endIdx = (f_offset src + f_length src + stripeSize - 1) div stripeSize;
                   perStripe = num div nat (f_numStripes src);
                   stripes = map (\<lambda>s. [s * perStripe..<(s + 1) * perStripe]) [startIdx..<endIdx];
                   (m3, dst2, ind, okay) = modify_stripes P isCopy src stripes dst1 junkInd m2
               in if \<not> okay
                  then (fst (deleteFile P dst2 (Some ind) m3), dst2\<lparr>f_chunks := [], f_containerIds := []\<rparr>, Some (startIdx, endIdx), False)
                  else (m3, dst2\<lparr>f_numChunks := if int endIdx = f_numStripes src then f_numChunks src
                                    else int (endIdx * num div nat (f_numStripes src)),
                                 f_size := if int endIdx = f_numStripes src then f_size src
                                    else (f_offset src + f_length src + stripeSize - 1) div stripeSize * stripeSize,
                                 f_codingMeta := codingMeta_copyMeta cm False (f_codingMeta dst2), f_numStripes := int endIdx\<rparr>,
                        Some (startIdx, endIdx), True))"

definition copyFile ::
  "'w proxy_env \<Rightarrow> int list \<Rightarrow> bool list \<Rightarrow> file_t \<Rightarrow> file_t \<Rightarrow> 'w chunk_manager
   \<Rightarrow> 'w chunk_manager \<times> file_t \<times> (nat \<times> nat) option \<times> bool" where
  "copyFile P junk junkInd src dst m = fullFileModify P junk junkInd True src dst m"

definition moveFile ::
  "'w proxy_env \<Rightarrow> int list \<Rightarrow> bool list \<Rightarrow> file_t \<Rightarrow> file_t \<Rightarrow> 'w chunk_manager
   \<Rightarrow> 'w chunk_manager \<times> file_t \<times> (nat \<times> nat) option \<times> bool" where
  "moveFile P junk junkInd src dst m = fullFileModify P junk junkInd False src dst m"

subsection \<open>Checking\<close>

text \<open>The number that is returned counts the chunks found when one is missing, and is zero otherwise.\<close>

definition checkFile :: "'w proxy_env \<Rightarrow> bool list \<Rightarrow> file_t \<Rightarrow> 'w chunk_manager \<Rightarrow> 'w chunk_manager \<times> bool list \<times> nat" where
  "checkFile P chunkIndicator f m = (case meta_instance P (f_codingMeta f) m of
       (m1, None) \<Rightarrow> (m1, chunkIndicator, 0)
     | (m1, Some c) \<Rightarrow>
         let num = nat (f_numChunks f);
             (m2, _, _, ok, flags) = accessChunks P CHK_CHUNK_REQ CHK_CHUNK_REP_SUCCESS f num [0..<num] m1;
             ind = flags @ drop (length flags) chunkIndicator
         in (m2, ind, if ok then 0 else length (filter id (take num ind))))"

text \<open>The chunks of the reply are matched with those of the file in order.\<close>

fun match_corrupted :: "(uuid \<Rightarrow> string) \<Rightarrow> chunk list \<Rightarrow> chunk list \<Rightarrow> bool list" where
  "match_corrupted uts [] reported = []"
| "match_corrupted uts (ch # chs) [] = False # match_corrupted uts chs []"
| "match_corrupted uts (ch # chs) (r # rs) =
     (if getChunkName uts ch \<noteq> getChunkName uts r then False # match_corrupted uts chs (r # rs)
      else True # match_corrupted uts chs rs)"

definition verifyFileChecksums :: "'w proxy_env \<Rightarrow> file_t \<Rightarrow> 'w chunk_manager \<Rightarrow> 'w chunk_manager \<times> bool list \<times> int" where
  "verifyFileChecksums P f m =
     (let num = nat (f_numChunks f); cid = hd (f_containerIds f);
          req = event_reset\<lparr>e_opcode := VRF_CHUNK_REQ, e_numChunks := f_numChunks f,
                  e_chunks := map (\<lambda>ch. ch\<lparr>c_freeData := False\<rparr>) (take num (f_chunks f)), e_containerIds := replicate num cid\<rparr>
      in case send_numbered P [(cid, req)] m of
           (m1, [RequestOk ev]) \<Rightarrow>
             if e_opcode ev = VRF_CHUNK_REP_SUCCESS
             then (m1, match_corrupted (pe_uts P) (take num (f_chunks f)) (take (nat (e_numChunks ev)) (e_chunks ev)), e_numChunks ev)
             else (m1, replicate num False, -1)
         | (m1, _) \<Rightarrow> (m1, replicate num False, -1))"

subsection \<open>Repair\<close>

definition group_request :: "file_t \<Rightarrow> nat list \<Rightarrow> byte list \<Rightarrow> int \<times> chunk_event" where
  "group_request f cids coeffs =
     (f_containerIds f ! hd cids,
      event_reset\<lparr>e_opcode := ENC_CHUNK_REQ, e_numChunks := int (length cids), e_containerIds := map (\<lambda>i. f_containerIds f ! i) cids,
        e_chunks := map (\<lambda>i. (setId (f_namespaceId f) (f_uuid f) (int i + c_chunkId (hd (f_chunks f))) chunk_reset)\<lparr>c_freeData := False\<rparr>) cids,
        e_codingMeta := codingMeta_reset\<lparr>cm_codingStateSize := int (length cids), cm_codingState := Some coeffs\<rparr>\<rparr>)"

text \<open>\<^verbatim>\<open>accessGroupedChunks\<close>: one request for each group of chunks, with the coefficients of the group.\<close>

definition accessGroupedChunks ::
  "'w proxy_env \<Rightarrow> file_t \<Rightarrow> (nat list \<times> byte list) list \<Rightarrow> 'w chunk_manager \<Rightarrow> 'w chunk_manager \<times> chunk_event list \<times> bool" where
  "accessGroupedChunks P f groups m =
     (let (m1, rs) = send_numbered P (map (\<lambda>(cids, coeffs). group_request f cids coeffs) groups) m;
          evs = map (\<lambda>r. case r of RequestOk ev \<Rightarrow> ev | _ \<Rightarrow> event_reset) rs
      in (m1, evs, list_all (\<lambda>r. case r of RequestOk ev \<Rightarrow> e_opcode ev = ENC_CHUNK_REP_SUCCESS | _ \<Rightarrow> False) rs))"

text \<open>
  The groups of chunks found by the coordinator are rows of an array, each a number of chunks followed by the
  chunks.  The chunks of a group that are input chunks form a new group, until all input chunks are in one.
\<close>

definition chunk_group :: "nat \<Rightarrow> int list \<Rightarrow> nat \<Rightarrow> nat list" where
  "chunk_group num chunkGroups i =
     map nat (take (nat (chunkGroups ! (i * (num + 1)))) (drop (i * (num + 1) + 1) chunkGroups))"

definition coefficient :: "nat list \<Rightarrow> byte list \<Rightarrow> nat \<Rightarrow> byte" where
  "coefficient inputs matrix cid = matrix ! length (takeWhile (\<lambda>i. i \<noteq> cid) inputs)"

fun select_groups :: "nat list \<Rightarrow> byte list \<Rightarrow> nat list list \<Rightarrow> nat \<Rightarrow> (nat list \<times> byte list) list" where
  "select_groups inputs matrix [] found = []"
| "select_groups inputs matrix (g # gs) found =
     (if found \<ge> length inputs then []
      else let sel = filter (\<lambda>cid. cid \<in> set inputs) g; rest = select_groups inputs matrix gs (found + length sel)
        in if sel = [] then rest else (sel, map (coefficient inputs matrix) sel) # rest)"

text \<open>The addresses for a repair at an agent, each ended by a semicolon.  \<open>None\<close>: a container without an agent.\<close>

fun addresses :: "'w chunk_manager \<Rightarrow> int list \<Rightarrow> string option" where
  "addresses m [] = Some []"
| "addresses m (cid # cids) = (case m_containerToAgentMap m cid of
       None \<Rightarrow> None
     | Some a \<Rightarrow> map_option (\<lambda>r. a @ '';'' @ r) (addresses m cids))"

definition repair_target :: "file_t \<Rightarrow> nat \<Rightarrow> chunk" where
  "repair_target f i =
     (setId (f_namespaceId f) (f_uuid f) (c_chunkId (hd (f_chunks f)) + int i) chunk_reset)\<lparr>c_size := 0, c_data := None, c_fileVersion := f_version f\<rparr>"

text \<open>
  The request for a repair at an agent: with cross-rack repair the groups and their coefficients, otherwise
  one group with all input chunks and the whole repair matrix, and the agents for the repaired chunks but the first.
\<close>

definition agent_repair_request ::
  "file_t \<Rightarrow> bool \<Rightarrow> nat list \<Rightarrow> decoding_plan \<Rightarrow> (nat list \<times> byte list) list \<Rightarrow> int list \<Rightarrow> string \<Rightarrow> chunk_event" where
  "agent_repair_request f isCAR failed plan groups spare agents =
     (let inputs = take (dp_minNumChunks plan) (dp_inputChunkIds plan);
          matrix = (if isCAR then concat (map snd groups)
                    else take (bb_size (dp_repairMatrix plan)) (the (bb_data (dp_repairMatrix plan))));
          ids = (\<lambda>cids. map (\<lambda>i. c_chunkId (f_chunks f ! i)) cids);
          used = (if isCAR then concat (map fst groups) else inputs)
      in event_reset\<lparr>e_opcode := RPR_CHUNK_REQ, e_numChunks := int (length failed), e_chunks := map (repair_target f) failed,
           e_containerIds := take (length failed) spare,
           e_codingMeta := codingMeta_reset\<lparr>cm_coding := cm_coding (f_codingMeta f), cm_codingStateSize := int (length matrix), cm_codingState := Some matrix\<rparr>,
           e_numChunkGroups := if isCAR then int (length groups) else 1, e_numInputChunks := int (length inputs),
           e_chunkGroupMap := if isCAR then concat (map (\<lambda>(cids, _). int (length cids) # ids cids) groups) else int (length inputs) # ids inputs,
           e_containerGroupMap := map (\<lambda>i. f_containerIds f ! i) used,
           e_agents := agents, e_repairUsingCAR := isCAR\<rparr>)"

definition repairAtAgent ::
  "'w proxy_env \<Rightarrow> bool \<Rightarrow> nat list \<Rightarrow> decoding_plan \<Rightarrow> (nat list \<times> byte list) list \<Rightarrow> int list \<Rightarrow> file_t \<Rightarrow> 'w chunk_manager
   \<Rightarrow> 'w chunk_manager \<times> file_t \<times> bool" where
  "repairAtAgent P isCAR failed plan groups spare f m =
     (let inputs = take (dp_minNumChunks plan) (dp_inputChunkIds plan);
          cids = (if isCAR then map (\<lambda>(g, _). f_containerIds f ! hd g) groups
                  else map (\<lambda>i. f_containerIds f ! i) inputs @ tl (take (length failed) spare))
      in case addresses m cids of
           None \<Rightarrow> (m, f, False)
         | Some agents \<Rightarrow> (case send_numbered P [(hd spare, agent_repair_request f isCAR failed plan groups spare agents)] m of
               (m1, [RequestOk ev]) \<Rightarrow>
                 if e_opcode ev \<noteq> RPR_CHUNK_REP_SUCCESS then (m1, f, False)
                 else (m1, f\<lparr>f_containerIds := foldl (\<lambda>cids (i, cid). cids[i := cid]) (f_containerIds f) (zip failed (e_containerIds ev)),
                             f_chunksCorrupted := map (\<lambda>_. False) (f_chunksCorrupted f)\<rparr>, True)
             | (m1, _) \<Rightarrow> (m1, f, False)))"

text \<open>Storing the repaired chunks: \<open>data\<close> is the repaired data of the failed chunks, one after the other.\<close>

definition repaired_chunk_at :: "'w proxy_env \<Rightarrow> file_t \<Rightarrow> nat \<Rightarrow> byte list \<Rightarrow> nat list \<Rightarrow> nat \<Rightarrow> chunk" where
  "repaired_chunk_at P f sz data failed i =
     (fst (computeMD5 (pe_md5 P) ((chunk_copyMeta (f_chunks f ! (failed ! i)) True chunk_reset)\<lparr>c_size := int sz,
        c_data := Some (take sz (drop (i * sz) data))\<rparr>)))\<lparr>c_freeData := False\<rparr>"

definition store_repaired_at_proxy ::
  "'w proxy_env \<Rightarrow> nat \<Rightarrow> byte list \<Rightarrow> nat list \<Rightarrow> int list \<Rightarrow> file_t \<Rightarrow> 'w chunk_manager \<Rightarrow> 'w chunk_manager \<times> file_t \<times> bool" where
  "store_repaired_at_proxy P sz data failed spare f m =
     (let chs = map (repaired_chunk_at P f sz data failed) [0..<length failed];
          (m1, rs) = send_numbered P (map (\<lambda>i. (spare ! i, event_reset\<lparr>e_opcode := PUT_CHUNK_REQ, e_numChunks := 1, e_chunks := [chs ! i],
                         e_containerIds := [spare ! i]\<rparr>)) [0..<length failed]) m;
          stored = map (\<lambda>r. case r of RequestOk ev \<Rightarrow> if e_opcode ev = PUT_CHUNK_REP_SUCCESS then Some (hd (e_containerIds ev)) else None | _ \<Rightarrow> None) rs;
          upd = filter (\<lambda>(i, ch, cid). cid \<noteq> None) (zip failed (zip chs stored));
          f1 = f\<lparr>f_chunks := foldl (\<lambda>l (i, ch, _). l[i := chunk_copyMeta ch True (l ! i)]) (f_chunks f) upd,
                 f_containerIds := foldl (\<lambda>l (i, _, cid). l[i := the cid]) (f_containerIds f) upd\<rparr>
      in if list_all (\<lambda>cid. cid \<noteq> None) stored
         then (m1, f1\<lparr>f_chunksCorrupted := map (\<lambda>_. False) (f_chunksCorrupted f)\<rparr>, True) else (m1, f1, False))"

definition repairAtProxy ::
  "'w proxy_env \<Rightarrow> rs_code \<Rightarrow> bool \<Rightarrow> nat list \<Rightarrow> decoding_plan \<Rightarrow> (nat list \<times> byte list) list \<Rightarrow> int list \<Rightarrow> file_t \<Rightarrow> 'w chunk_manager
   \<Rightarrow> 'w chunk_manager \<times> file_t \<times> bool" where
  "repairAtProxy P c isCAR failed plan groups spare f m =
     (let inputs = take (dp_minNumChunks plan) (dp_inputChunkIds plan);
          (m1, replies, ok) =
            (if isCAR then accessGroupedChunks P f groups m
             else let (m1, _, replies, ok, _) = accessChunks P GET_CHUNK_REQ GET_CHUNK_REP_SUCCESS f (length inputs) inputs m in (m1, replies, ok))
      in if \<not> ok then (m1, f, False)
         else
           let chunkSize = nat (c_size (hd (e_chunks (hd replies)))); buf = pe_alloc P (int (chunkSize * length failed))
           in case rs_decode (pe_isal P) (\<lambda>n. pe_alloc P (int n) \<noteq> None) (pe_junk P) c (map (input_of c) replies) buf 0 True failed of
                (d, decodedSize, False) \<Rightarrow> (m1, f, False)
              | (d, decodedSize, True) \<Rightarrow> store_repaired_at_proxy P chunkSize (the d) failed spare f m1)"

definition repairFile ::
  "'w proxy_env \<Rightarrow> nat \<Rightarrow> bool list \<Rightarrow> int list \<Rightarrow> int list \<Rightarrow> nat \<Rightarrow> file_t \<Rightarrow> 'w chunk_manager \<Rightarrow> 'w chunk_manager \<times> file_t \<times> bool" where
  "repairFile P garbage chunkIndicator spare chunkGroups numChunkGroups f m = (case meta_instance P (f_codingMeta f) m of
       (m1, None) \<Rightarrow> (m1, f, False)
     | (m1, Some c) \<Rightarrow>
         let failed = failed_chunks f chunkIndicator in
         if failed = [] then (m1, f, True)
         else (case preDecode (pe_isal P) (pe_alloc P) (pe_junk P) c failed True (newDecodingPlan garbage) of
             (plan, False) \<Rightarrow> (m1, f, False)
           | (plan, True) \<Rightarrow>
               let isCAR = (pe_useCAR P \<and> length failed = 1); inputs = take (dp_minNumChunks plan) (dp_inputChunkIds plan);
                   groups = select_groups inputs (the (bb_data (dp_repairMatrix plan)))
                     (map (chunk_group (nat (f_numChunks f)) chunkGroups) [0..<numChunkGroups]) 0
               in if cm_coding (f_codingMeta f) \<noteq> RS then (m1, f, False)
                  else if pe_repairAtProxy P then repairAtProxy P c isCAR failed plan groups spare f m1
                  else repairAtAgent P isCAR failed plan groups spare f m1))"

end
