(* ===== verification/Chunk_Access.thy ===== *)
theory Chunk_Access
  imports Chunk_Manager Agent_Messages "HOL-Library.Sublist"
begin

text \<open>
  What the chunk manager gets from its requests to agents.  The locale \<open>agent_network\<close> is the contract of
  requests to store and to read one chunk; inside it, the sequences of requests of the chunk manager are
  related to the chunks that the agents hold.
\<close>

lemma subseq_mem: "subseq xs ys \<Longrightarrow> x \<in> set xs \<Longrightarrow> x \<in> set ys"
  by (induction rule: list_emb.induct) auto

lemma subseq_sorted: "subseq xs ys \<Longrightarrow> sorted_wrt R ys \<Longrightarrow> sorted_wrt R xs"
  by (induction rule: list_emb.induct) (auto dest: subseq_mem)

subsection \<open>The number of requests\<close>

text \<open>Only the agents change when requests are sent.\<close>

lemma proxy_send_fields:
  "proxy_send P cid ev m = (m', r) \<Longrightarrow> m' = m\<lparr>m_world := m_world m'\<rparr>"
  by (auto simp: proxy_send_def split: option.splits prod.splits)

lemma send_each_fields:
  "send_each P reqs m = (m', rs) \<Longrightarrow> m' = m\<lparr>m_world := m_world m'\<rparr> \<and> length rs = length reqs"
proof (induction reqs arbitrary: m rs)
  case (Cons req reqs)
  obtain cid ev where req: "req = (cid, ev)" by (cases req)
  obtain m1 r where r: "proxy_send P cid ev m = (m1, r)" by (cases "proxy_send P cid ev m")
  obtain rs' where rs': "send_each P reqs m1 = (m', rs')" "rs = r # rs'" using Cons.prems r by (auto simp: req split: prod.splits)
  from Cons.IH [OF rs'(1)] proxy_send_fields [OF r] show ?case
    by (metis (no_types, lifting) chunk_manager.surjective chunk_manager.update_convs(5) length_Cons rs'(2))
qed simp

lemma send_numbered_fields:
  assumes "send_numbered P reqs m = (m', rs)"
  shows "m' = m\<lparr>m_eventCount := m_eventCount m + of_nat (length reqs), m_world := m_world m'\<rparr> \<and> length rs = length reqs"
proof -
  let ?m = "m\<lparr>m_eventCount := m_eventCount m + of_nat (length reqs)\<rparr>"
  have "send_each P (map2 (\<lambda>(cid, ev) i. (cid, ev\<lparr>e_id := i\<rparr>)) reqs (snd (take_ids (length reqs) m))) ?m = (m', rs)"
    using assms by (simp add: send_numbered_def take_ids_def)
  from send_each_fields [OF this] show ?thesis by (simp add: take_ids_def)
qed

lemma access_round_fields:
  assumes "access_round P reqOp exp f cur m = (m1, res)"
  shows "m1 = m\<lparr>m_eventCount := m_eventCount m + of_nat (length cur), m_world := m_world m1\<rparr>" "map fst res = cur"
proof -
  obtain rs where rs: "send_numbered P (map (access_request reqOp f) cur) m = (m1, rs)"
      "res = map2 (\<lambda>i r. (i, accept_reply P reqOp exp f i r)) cur rs"
    using assms by (auto simp: access_round_def split: prod.splits)
  from send_numbered_fields [OF rs(1)] show "m1 = m\<lparr>m_eventCount := m_eventCount m + of_nat (length cur), m_world := m_world m1\<rparr>"
    and "map fst res = cur" by (simp_all add: rs(2) list_eq_iff_nth_eq)
qed

text \<open>One turn of the loop.\<close>

lemma access_loop_turn:
  assumes "length replies < num" and "num \<le> length idx" and "access_round P reqOp exp f (drop (length replies) (take num idx)) m = (m1, res)"
    and "idx' = take (length replies) idx @ map fst (kept_of res) @ drop num idx" and "replies' = replies @ map (\<lambda>(i, a). the a) (kept_of res)"
  shows "access_loop P reqOp exp f num idx replies m =
    (if length replies' = num \<or> reqOp \<noteq> GET_CHUNK_REQ
     then (m1, idx', replies', length replies' = num, map (\<lambda>(i, a). a \<noteq> None) res)
     else access_loop P reqOp exp f num idx' replies' m1)"
  using assms by (subst access_loop.simps) (simp add: Let_def)

lemma access_loop_stop:
  "\<not> (length replies < num \<and> num \<le> length idx) \<Longrightarrow> access_loop P reqOp exp f num idx replies m = (m, idx, replies, False, [])"
  by (subst access_loop.simps, rule if_not_P)

text \<open>Induction over the turns of the loop.\<close>

lemma access_loop_induct:
  assumes stop: "\<And>idx replies m. \<not> (length replies < num \<and> num \<le> length idx) \<Longrightarrow> Q idx replies m (m, idx, replies, False, [])"
    and last: "\<And>idx replies m m1 res idx' replies'. length replies < num \<Longrightarrow> num \<le> length idx \<Longrightarrow>
      access_round P reqOp exp f (drop (length replies) (take num idx)) m = (m1, res) \<Longrightarrow>
      idx' = take (length replies) idx @ map fst (kept_of res) @ drop num idx \<Longrightarrow> replies' = replies @ map (\<lambda>(i, a). the a) (kept_of res) \<Longrightarrow>
      length replies' = num \<or> reqOp \<noteq> GET_CHUNK_REQ \<Longrightarrow>
      Q idx replies m (m1, idx', replies', length replies' = num, map (\<lambda>(i, a). a \<noteq> None) res)"
    and again: "\<And>idx replies m m1 res idx' replies' x. length replies < num \<Longrightarrow> num \<le> length idx \<Longrightarrow>
      access_round P reqOp exp f (drop (length replies) (take num idx)) m = (m1, res) \<Longrightarrow>
      idx' = take (length replies) idx @ map fst (kept_of res) @ drop num idx \<Longrightarrow> replies' = replies @ map (\<lambda>(i, a). the a) (kept_of res) \<Longrightarrow>
      length replies' < num \<Longrightarrow> Q idx' replies' m1 x \<Longrightarrow> Q idx replies m x"
  shows "Q idx replies m (access_loop P reqOp exp f num idx replies m)"
proof (induction "length idx" arbitrary: idx replies m rule: less_induct)
  case less
  show ?case
  proof (cases "length replies < num \<and> num \<le> length idx")
    case False
    with stop [OF False] access_loop_stop [OF False, of P reqOp exp f m] show ?thesis by simp
  next
    case True
    obtain m1 res where res: "access_round P reqOp exp f (drop (length replies) (take num idx)) m = (m1, res)"
      by (cases "access_round P reqOp exp f (drop (length replies) (take num idx)) m")
    define idx' replies' where d: "idx' = take (length replies) idx @ map fst (kept_of res) @ drop num idx"
      "replies' = replies @ map (\<lambda>(i, a). the a) (kept_of res)"
    have len: "length (kept_of res) \<le> num - length replies" using access_round_length [OF res] True by simp
    note turn = access_loop_turn [OF conjunct1 [OF True] conjunct2 [OF True] res d]
    show ?thesis
    proof (cases "length replies' = num \<or> reqOp \<noteq> GET_CHUNK_REQ")
      case fin: True
      show ?thesis using last [OF conjunct1 [OF True] conjunct2 [OF True] res d fin] fin unfolding turn by simp
    next
      case more: False
      then have l: "length replies' < num" "length idx' < length idx" using len True by (simp_all add: d, arith+)
      show ?thesis using again [OF conjunct1 [OF True] conjunct2 [OF True] res d l(1) less [OF l(2)]] more unfolding turn by simp
    qed
  qed
qed

text \<open>
  Each turn asks chunks that were not asked before: the number of requests is at most the number of chunks in
  the list that have no reply yet.
\<close>

lemma access_loop_requests:
  assumes "access_loop P reqOp exp f num idx replies m = (m', rest)" and "length replies \<le> length idx"
  shows "\<exists>r. m' = m\<lparr>m_eventCount := m_eventCount m + of_nat r, m_world := m_world m'\<rparr> \<and> r + length replies \<le> length idx"
proof -
  let ?Q = "\<lambda>idx replies m x. length replies \<le> length idx \<longrightarrow>
    (\<exists>r. fst x = m\<lparr>m_eventCount := m_eventCount m + of_nat r, m_world := m_world (fst x)\<rparr> \<and> r + length replies \<le> length idx)"
  have "?Q idx replies m (access_loop P reqOp exp f num idx replies m)"
  proof (rule access_loop_induct [where Q = ?Q], goal_cases stop last again)
    case (stop idx replies m)
    then show ?case by (auto intro: exI [of _ 0])
  next
    case (last idx replies m m1 res idx' replies')
    then show ?case using access_round_fields(1) [OF last(3)] by (intro impI exI [of _ "num - length replies"]) simp
  next
    case (again idx replies m m1 res idx' replies' x)
    have len: "length (kept_of res) \<le> num - length replies" using access_round_length [OF again(3)] again(1,2) by simp
    have "length replies' \<le> length idx'" using len again(1,2) by (simp add: again(4,5))
    with again(7) obtain r where r: "fst x = m1\<lparr>m_eventCount := m_eventCount m1 + of_nat r, m_world := m_world (fst x)\<rparr>"
        "r + length replies' \<le> length idx'" by blast
    have "m1 = m\<lparr>m_eventCount := m_eventCount m + of_nat (num - length replies), m_world := m_world m1\<rparr>"
      using access_round_fields(1) [OF again(3)] again(1,2) by simp
    with r(1) have "fst x = m\<lparr>m_eventCount := m_eventCount m + of_nat (num - length replies + r), m_world := m_world (fst x)\<rparr>"
      by (cases m; cases m1; cases "fst x") (simp add: add.assoc)
    moreover have "num - length replies + r + length replies \<le> length idx" using r(2) again(1,2) by (simp add: again(4,5))
    ultimately show ?case by blast
  qed
  with assms show ?thesis by simp
qed

subsection \<open>Requests to agents that hold chunks\<close>

text \<open>A request for one chunk, as the proxy builds it, is one for an agent.\<close>

lemma access_one_chunk:
  "(snd (access_request oc f i))\<lparr>e_id := unat n\<rparr> = one_chunk oc n (f_containerIds f ! i) ((f_chunks f ! i)\<lparr>c_freeData := False\<rparr>)"
  by (simp add: access_request_def one_chunk_def event_reset_def)

lemma write_one_chunk:
  "i < length spare \<Longrightarrow> (write_request spare f i)\<lparr>e_id := unat n\<rparr> = one_chunk PUT_CHUNK_REQ n (spare ! i) ((f_chunks f ! i)\<lparr>c_freeData := False\<rparr>)"
  by (simp add: write_request_def one_chunk_def event_reset_def)

lemma round_requests:
  assumes "send_numbered P (map (access_request oc f) cur) m = (m1, rs)"
  shows "send_each P (map2 (\<lambda>i n. (f_containerIds f ! i, (snd (access_request oc f i))\<lparr>e_id := unat n\<rparr>)) cur
      (map (\<lambda>i. m_eventCount m + of_nat i) [0..<length cur])) (m\<lparr>m_eventCount := m_eventCount m + of_nat (length cur)\<rparr>) = (m1, rs)"
proof -
  have "map2 (\<lambda>(cid, ev) i. (cid, ev\<lparr>e_id := i\<rparr>)) (map (access_request oc f) cur) (snd (take_ids (length cur) m)) =
      map2 (\<lambda>i n. (f_containerIds f ! i, (snd (access_request oc f i))\<lparr>e_id := unat n\<rparr>)) cur (map (\<lambda>i. m_eventCount m + of_nat i) [0..<length cur])"
    by (rule nth_equalityI) (auto simp: take_ids_def access_request_def)
  then show ?thesis using assms by (simp add: send_numbered_def take_ids_def)
qed

locale agent_network =
  fixes P :: "'w proxy_env" and holds :: "'w \<Rightarrow> string \<Rightarrow> int \<Rightarrow> chunk \<Rightarrow> byte list option" and same :: "chunk \<Rightarrow> chunk \<Rightarrow> bool"
  assumes same_refl: "same d d" and same_sym: "same d e \<Longrightarrow> same e d" and same_trans: "same d e \<Longrightarrow> same e g \<Longrightarrow> same d g"
    and same_ids: "c_namespaceId d = c_namespaceId e \<Longrightarrow> c_fuuid d = c_fuuid e \<Longrightarrow> c_fileVersion d = c_fileVersion e \<Longrightarrow>
      c_chunkId d = c_chunkId e \<Longrightarrow> same d e"
    and ids_same: "same d e \<Longrightarrow> c_fuuid d = c_fuuid e \<Longrightarrow> c_chunkId d = c_chunkId e"
    and holds_same: "same d e \<Longrightarrow> holds w a cid d = holds w a cid e"
    and get: "holds w a cid ch = Some bs \<Longrightarrow> length bs < 2147483648 \<Longrightarrow> is_int cid \<Longrightarrow> chunk_sendable GET_CHUNK_REQ ch \<Longrightarrow>
      sendChunkRequestToAgent (pe_connect P) (pe_network P) a (one_chunk GET_CHUNK_REQ n cid ch) w = (w', r) \<Longrightarrow>
      holds w' = holds w \<and> (\<forall>ev. r = RequestOk ev \<longrightarrow> e_opcode ev = GET_CHUNK_REP_SUCCESS \<longrightarrow>
        c_data (hd (e_chunks ev)) = Some bs \<and> c_size (hd (e_chunks ev)) = int (length bs) \<and> c_chunkId (hd (e_chunks ev)) = c_chunkId ch)"
    and put: "is_int cid \<Longrightarrow> chunk_sendable PUT_CHUNK_REQ ch \<Longrightarrow>
      sendChunkRequestToAgent (pe_connect P) (pe_network P) a (one_chunk PUT_CHUNK_REQ n cid ch) w = (w', r) \<Longrightarrow>
      (reply_is PUT_CHUNK_REP_SUCCESS r \<longrightarrow> holds w' a cid ch = Some (chunk_bytes ch) \<and> acknowledges cid r) \<and>
      (\<forall>b c d. \<not> (b = a \<and> c = cid \<and> same d ch) \<longrightarrow> holds w' b c d = holds w b c d)"
begin

text \<open>The chunk a container has, by the agent that the proxy knows for it.\<close>

definition stored_at :: "'w chunk_manager \<Rightarrow> int \<Rightarrow> chunk \<Rightarrow> byte list option" where
  "stored_at m cid ch = (case m_containerToAgentMap m cid of None \<Rightarrow> None | Some a \<Rightarrow> holds (m_world m) a cid ch)"

lemma stored_at_same: "same d e \<Longrightarrow> stored_at m cid d = stored_at m cid e"
  by (auto simp: stored_at_def holds_same split: option.splits)

lemma stored_at_cong: "m_world m' = m_world m \<Longrightarrow> m_containerToAgentMap m' = m_containerToAgentMap m \<Longrightarrow> stored_at m' = stored_at m"
  by (intro ext) (simp add: stored_at_def split: option.splits)

lemma proxy_get:
  assumes "stored_at m cid ch = Some bs" and "length bs < 2147483648" and "is_int cid" and "chunk_sendable GET_CHUNK_REQ ch"
    and "proxy_send P cid (one_chunk GET_CHUNK_REQ n cid ch) m = (m', r)"
  shows "stored_at m' = stored_at m \<and> (\<forall>ev. r = RequestOk ev \<longrightarrow> e_opcode ev = GET_CHUNK_REP_SUCCESS \<longrightarrow>
        c_data (hd (e_chunks ev)) = Some bs \<and> c_size (hd (e_chunks ev)) = int (length bs) \<and> c_chunkId (hd (e_chunks ev)) = c_chunkId ch)"
proof -
  obtain a where a: "m_containerToAgentMap m cid = Some a" "holds (m_world m) a cid ch = Some bs"
    using assms(1) by (auto simp: stored_at_def split: option.splits)
  obtain w' where w': "sendChunkRequestToAgent (pe_connect P) (pe_network P) a (one_chunk GET_CHUNK_REQ n cid ch) (m_world m) = (w', r)"
      "m' = m\<lparr>m_world := w'\<rparr>"
    using assms(5) a(1) by (auto simp: proxy_send_def split: prod.splits)
  from get [OF a(2) assms(2-4) w'(1)] show ?thesis by (auto simp: w'(2) stored_at_def intro!: ext split: option.splits)
qed

lemma proxy_put:
  assumes "is_int cid" and "chunk_sendable PUT_CHUNK_REQ ch" and "proxy_send P cid (one_chunk PUT_CHUNK_REQ n cid ch) m = (m', r)"
  shows "(reply_is PUT_CHUNK_REP_SUCCESS r \<longrightarrow> stored_at m' cid ch = Some (chunk_bytes ch) \<and> acknowledges cid r) \<and>
     (\<forall>c d. \<not> (c = cid \<and> same d ch) \<longrightarrow> stored_at m' c d = stored_at m c d)"
proof (cases "m_containerToAgentMap m cid")
  case None
  then show ?thesis using assms(3) by (auto simp: proxy_send_def reply_is_def)
next
  case (Some a)
  obtain w' where w': "sendChunkRequestToAgent (pe_connect P) (pe_network P) a (one_chunk PUT_CHUNK_REQ n cid ch) (m_world m) = (w', r)"
      "m' = m\<lparr>m_world := w'\<rparr>"
    using assms(3) Some by (auto simp: proxy_send_def split: prod.splits)
  from put [OF assms(1,2) w'(1)] show ?thesis using Some by (auto simp: w'(2) stored_at_def split: option.splits)
qed

text \<open>Reads of chunks that are held: nothing changes, and a reply that is accepted has the bytes.\<close>

definition good_reply :: "chunk \<Rightarrow> byte list \<Rightarrow> chunk_event \<Rightarrow> bool" where
  "good_reply ch bs ev \<longleftrightarrow> c_data (hd (e_chunks ev)) = Some bs \<and> c_size (hd (e_chunks ev)) = int (length bs) \<and>
     c_chunkId (hd (e_chunks ev)) = c_chunkId ch"

definition held :: "'w chunk_manager \<Rightarrow> file_t \<Rightarrow> (nat \<Rightarrow> byte list) \<Rightarrow> nat \<Rightarrow> bool" where
  "held m f D i \<longleftrightarrow> stored_at m (f_containerIds f ! i) (f_chunks f ! i) = Some (D i) \<and> length (D i) < 2147483648 \<and>
     is_int (f_containerIds f ! i) \<and> chunk_sendable GET_CHUNK_REQ (f_chunks f ! i)"

lemma held_cong: "stored_at m' = stored_at m \<Longrightarrow> held m' f D i = held m f D i"
  by (simp add: held_def)

lemma accepted_good:
  assumes "held m f D i" and "proxy_send P (f_containerIds f ! i) (one_chunk GET_CHUNK_REQ n (f_containerIds f ! i) ((f_chunks f ! i)\<lparr>c_freeData := False\<rparr>)) m = (m', r)"
  shows "stored_at m' = stored_at m" "accept_reply P GET_CHUNK_REQ GET_CHUNK_REP_SUCCESS f i r = Some ev \<Longrightarrow> good_reply (f_chunks f ! i) (D i) ev"
proof -
  let ?ch = "(f_chunks f ! i)\<lparr>c_freeData := False\<rparr>"
  have "same ?ch (f_chunks f ! i)" by (rule same_ids) simp_all
  then have "stored_at m (f_containerIds f ! i) ?ch = Some (D i)" using assms(1) stored_at_same by (simp add: held_def)
  moreover have "chunk_sendable GET_CHUNK_REQ ?ch" using assms(1) by (simp add: held_def chunk_sendable_def chunk_bytes_def)
  ultimately have r: "stored_at m' = stored_at m \<and> (\<forall>ev. r = RequestOk ev \<longrightarrow> e_opcode ev = GET_CHUNK_REP_SUCCESS \<longrightarrow>
        c_data (hd (e_chunks ev)) = Some (D i) \<and> c_size (hd (e_chunks ev)) = int (length (D i)) \<and> c_chunkId (hd (e_chunks ev)) = c_chunkId ?ch)"
    using proxy_get [OF _ _ _ _ assms(2), of "D i"] assms(1) by (simp add: held_def)
  then show "stored_at m' = stored_at m" by simp
  show "good_reply (f_chunks f ! i) (D i) ev" if acc: "accept_reply P GET_CHUNK_REQ GET_CHUNK_REP_SUCCESS f i r = Some ev"
  proof -
    obtain ev0 where ev0: "r = RequestOk ev0" "e_opcode ev0 = GET_CHUNK_REP_SUCCESS" "ev = checked_reply P GET_CHUNK_REQ f i ev0"
      using acc by (auto simp: accept_reply_def Let_def split: request_result.splits if_splits)
    with r have g: "c_data (hd (e_chunks ev0)) = Some (D i)" "c_size (hd (e_chunks ev0)) = int (length (D i))"
        "c_chunkId (hd (e_chunks ev0)) = c_chunkId (f_chunks f ! i)" by simp_all
    show ?thesis using g by (simp add: ev0(3) checked_reply_def good_reply_def copyMD5_def)
  qed
qed

lemma get_each:
  assumes "\<forall>i \<in> set is. held m f D i" and "length (ns :: 32 word list) = length is"
    and "send_each P (map2 (\<lambda>i n. (f_containerIds f ! i, (snd (access_request GET_CHUNK_REQ f i))\<lparr>e_id := unat n\<rparr>)) is ns) m = (m', rs)"
  shows "stored_at m' = stored_at m \<and> (\<forall>j < length is. \<forall>ev. accept_reply P GET_CHUNK_REQ GET_CHUNK_REP_SUCCESS f (is ! j) (rs ! j) = Some ev \<longrightarrow>
     good_reply (f_chunks f ! (is ! j)) (D (is ! j)) ev)"
  using assms
proof (induction "is" arbitrary: ns m rs)
  case (Cons i "is")
  obtain n ns' where ns: "ns = n # ns'" using Cons.prems(2) by (cases ns) auto
  obtain m1 r where r: "proxy_send P (f_containerIds f ! i) (one_chunk GET_CHUNK_REQ n (f_containerIds f ! i) ((f_chunks f ! i)\<lparr>c_freeData := False\<rparr>)) m = (m1, r)"
    by (cases "proxy_send P (f_containerIds f ! i) (one_chunk GET_CHUNK_REQ n (f_containerIds f ! i) ((f_chunks f ! i)\<lparr>c_freeData := False\<rparr>)) m")
  obtain rs' where rs': "send_each P (map2 (\<lambda>i n. (f_containerIds f ! i, (snd (access_request GET_CHUNK_REQ f i))\<lparr>e_id := unat n\<rparr>)) is ns') m1 = (m', rs')"
      "rs = r # rs'"
    using Cons.prems(3) r by (auto simp: ns access_one_chunk split: prod.splits)
  have i: "held m f D i" using Cons.prems(1) by simp
  note g = accepted_good [OF i r]
  have "\<forall>i \<in> set is. held m1 f D i" using Cons.prems(1) held_cong [OF g(1)] by simp
  with Cons.IH [OF _ _ rs'(1)] Cons.prems(2) ns g show ?case by (auto simp: rs'(2) nth_Cons split: nat.splits)
qed simp

lemma access_round_gets:
  assumes "\<forall>i \<in> set cur. held m f D i" and "access_round P GET_CHUNK_REQ GET_CHUNK_REP_SUCCESS f cur m = (m1, res)"
  shows "stored_at m1 = stored_at m \<and> (\<forall>(i, a) \<in> set res. \<forall>ev. a = Some ev \<longrightarrow> good_reply (f_chunks f ! i) (D i) ev)"
proof -
  let ?m = "m\<lparr>m_eventCount := m_eventCount m + of_nat (length cur)\<rparr>" and ?ns = "map (\<lambda>i. m_eventCount m + of_nat i) [0..<length cur]"
  obtain rs where rs: "send_numbered P (map (access_request GET_CHUNK_REQ f) cur) m = (m1, rs)"
      "res = map2 (\<lambda>i r. (i, accept_reply P GET_CHUNK_REQ GET_CHUNK_REP_SUCCESS f i r)) cur rs"
    using assms(2) by (auto simp: access_round_def split: prod.splits)
  have "send_each P (map2 (\<lambda>i n. (f_containerIds f ! i, (snd (access_request GET_CHUNK_REQ f i))\<lparr>e_id := unat n\<rparr>)) cur ?ns) ?m = (m1, rs)"
    by (rule round_requests [OF rs(1)])
  moreover have "stored_at ?m = stored_at m" by (rule stored_at_cong) simp_all
  moreover have "\<forall>i \<in> set cur. held ?m f D i" using assms(1) held_cong [OF \<open>stored_at ?m = stored_at m\<close>] by simp
  ultimately show ?thesis using get_each [of cur ?m f D ?ns m1 rs] by (auto simp: rs(2) in_set_conv_nth)
qed

text \<open>The loop of a read keeps replies for a part of the list, in its order.\<close>

lemma access_loop_gets:
  assumes "access_loop P GET_CHUNK_REQ GET_CHUNK_REP_SUCCESS f num idx replies m = (m', idx', replies', ok, flags)"
    and "\<forall>i \<in> set idx. held m f D i" and "length replies \<le> length idx"
    and "list_all2 (\<lambda>i ev. good_reply (f_chunks f ! i) (D i) ev) (take (length replies) idx) replies"
  shows "stored_at m' = stored_at m \<and> subseq idx' idx \<and> length replies' \<le> length idx' \<and>
     list_all2 (\<lambda>i ev. good_reply (f_chunks f ! i) (D i) ev) (take (length replies') idx') replies' \<and> (ok \<longrightarrow> length replies' = num)"
proof -
  let ?good = "\<lambda>i ev. good_reply (f_chunks f ! i) (D i) ev"
  let ?pre = "\<lambda>idx replies m. (\<forall>i \<in> set idx. held m f D i) \<and> length replies \<le> length idx \<and> list_all2 ?good (take (length replies) idx) replies"
  let ?Q = "\<lambda>idx replies m x. ?pre idx replies m \<longrightarrow> (case x of (m', idx', replies', ok, flags) \<Rightarrow>
     stored_at m' = stored_at m \<and> subseq idx' idx \<and> length replies' \<le> length idx' \<and>
     list_all2 ?good (take (length replies') idx') replies' \<and> (ok \<longrightarrow> length replies' = num))"
  have turn: "stored_at m1 = stored_at m \<and> subseq idx' idx \<and> ?pre idx' replies' m1"
    if pre: "?pre idx replies m" and l: "length replies < num" "num \<le> length idx"
      and res: "access_round P GET_CHUNK_REQ GET_CHUNK_REP_SUCCESS f (drop (length replies) (take num idx)) m = (m1, res)"
      and d: "idx' = take (length replies) idx @ map fst (kept_of res) @ drop num idx" "replies' = replies @ map (\<lambda>(i, a). the a) (kept_of res)"
    for idx replies m m1 res idx' replies'
  proof -
    let ?cur = "drop (length replies) (take num idx)"
    have cur: "\<forall>i \<in> set ?cur. held m f D i" using pre by (meson in_set_dropD in_set_takeD)
    note g = access_round_gets [OF cur res]
    have "subseq (map fst (kept_of res)) (map fst res)" by (intro subseq_map subseq_filter_left)
    then have k: "subseq (map fst (kept_of res)) ?cur" using access_round_fields(2) [OF res] by simp
    have idx: "idx = take (length replies) idx @ ?cur @ drop num idx"
      using l by (metis append_take_drop_id drop_take less_imp_le_nat append.assoc take_add take_take min.absorb1 le_add_diff_inverse)
    have sub: "subseq idx' idx" unfolding d(1) by (subst (3) idx) (intro list_emb_append_mono subseq_order.refl k)
    have "\<forall>i \<in> set idx'. held m1 f D i" using pre held_cong [OF conjunct1 [OF g]] subseq_mem [OF sub] by auto
    moreover have "list_all2 ?good (map fst (kept_of res)) (map (\<lambda>(i, a). the a) (kept_of res))"
      using g by (auto simp: list_all2_map1 list_all2_map2 list_all2_same)
    then have "list_all2 ?good (take (length replies) idx @ map fst (kept_of res)) replies'"
      using pre unfolding d(2) by (auto intro: list_all2_appendI)
    ultimately show ?thesis using g sub pre by (simp add: d)
  qed
  have "?Q idx replies m (access_loop P GET_CHUNK_REQ GET_CHUNK_REP_SUCCESS f num idx replies m)"
  proof (rule access_loop_induct [where Q = ?Q], goal_cases stop last again)
    case (stop idx replies m)
    then show ?case by simp
  next
    case (last idx replies m m1 res idx' replies')
    then show ?case using turn [OF _ last(1-5)] by simp
  next
    case (again idx replies m m1 res idx' replies' x)
    show ?case
    proof (rule impI)
      assume "?pre idx replies m"
      note t = turn [OF this again(1-5)]
      obtain m' i r ok flags where x: "x = (m', i, r, ok, flags)" by (cases x)
      from again(7) t have "stored_at m' = stored_at m1 \<and> subseq i idx' \<and> length r \<le> length i \<and> list_all2 ?good (take (length r) i) r \<and> (ok \<longrightarrow> length r = num)"
        unfolding x prod.case by blast
      with t show "case x of (m', idx', replies', ok, flags) \<Rightarrow> stored_at m' = stored_at m \<and> subseq idx' idx \<and> length replies' \<le> length idx' \<and>
          list_all2 ?good (take (length replies') idx') replies' \<and> (ok \<longrightarrow> length replies' = num)"
        unfolding x prod.case using subseq_order.trans by metis
    qed
  qed
  with assms show ?thesis by simp
qed

end

end
