(* ===== verification/Chunk_Write.thy ===== *)
theory Chunk_Write
  imports Chunk_Access RS_Correct
begin

text \<open>
  Writing a stripe: what the agents hold after it and what the file says of it.  The chunks of the stripe are
  those of the erasure code.
\<close>

subsection \<open>Sequences of writes\<close>

context agent_network
begin

lemma put_each:
  assumes "\<forall>i \<in> set is. is_int (C i) \<and> chunk_sendable PUT_CHUNK_REQ (H i)"
    and "\<forall>i \<in> set is. \<forall>j \<in> set is. i \<noteq> j \<longrightarrow> \<not> same (H i) (H j)" and "distinct is"
    and "send_each P (map (\<lambda>i. (C i, one_chunk PUT_CHUNK_REQ (N i) (C i) (H i))) is) m = (m', rs)"
  shows "(\<forall>j < length is. reply_is PUT_CHUNK_REP_SUCCESS (rs ! j) \<longrightarrow>
       stored_at m' (C (is ! j)) (H (is ! j)) = Some (chunk_bytes (H (is ! j))) \<and> acknowledges (C (is ! j)) (rs ! j)) \<and>
     (\<forall>c d. (\<forall>i \<in> set is. \<not> (c = C i \<and> same d (H i))) \<longrightarrow> stored_at m' c d = stored_at m c d)"
  using assms
proof (induction "is" arbitrary: m rs)
  case (Cons i "is")
  obtain m1 r where r: "proxy_send P (C i) (one_chunk PUT_CHUNK_REQ (N i) (C i) (H i)) m = (m1, r)"
    by (cases "proxy_send P (C i) (one_chunk PUT_CHUNK_REQ (N i) (C i) (H i)) m")
  obtain rs' where rs': "send_each P (map (\<lambda>i. (C i, one_chunk PUT_CHUNK_REQ (N i) (C i) (H i))) is) m1 = (m', rs')" "rs = r # rs'"
    using Cons.prems(4) r by (auto split: prod.splits)
  have i: "is_int (C i)" "chunk_sendable PUT_CHUNK_REQ (H i)" using Cons.prems(1) by auto
  note one = proxy_put [OF i r]
  have IH: "(\<forall>j < length is. reply_is PUT_CHUNK_REP_SUCCESS (rs' ! j) \<longrightarrow>
       stored_at m' (C (is ! j)) (H (is ! j)) = Some (chunk_bytes (H (is ! j))) \<and> acknowledges (C (is ! j)) (rs' ! j)) \<and>
     (\<forall>c d. (\<forall>i \<in> set is. \<not> (c = C i \<and> same d (H i))) \<longrightarrow> stored_at m' c d = stored_at m1 c d)"
    using Cons.prems by (intro Cons.IH [OF _ _ _ rs'(1)]) auto
  have "\<forall>j \<in> set is. \<not> (C i = C j \<and> same (H i) (H j))" using Cons.prems(2,3) by auto
  with IH have "stored_at m' (C i) (H i) = stored_at m1 (C i) (H i)" by blast
  with IH one show ?case by (auto simp: rs'(2) nth_Cons split: nat.splits)
qed simp

end

subsection \<open>The result of a write\<close>

lemma computeMD5_fields:
  "fst (computeMD5 md5 ch) = ch\<lparr>c_md5 := c_md5 (fst (computeMD5 md5 ch))\<rparr>"
  by (simp add: computeMD5_def)

lemma computeMD5_bytes [simp]: "chunk_bytes (fst (computeMD5 md5 ch)) = chunk_bytes ch"
  by (simp add: computeMD5_def chunk_bytes_def)

lemma write_result_stored:
  assumes "write_result P ch r = (cid, ch', stored, reported)"
  shows "stored \<Longrightarrow> reply_is PUT_CHUNK_REP_SUCCESS r" and "\<not> stored \<Longrightarrow> cid = INVALID_CONTAINER_ID \<and> ch' = ch"
    and "stored \<Longrightarrow> acknowledges c r \<Longrightarrow> cid = c \<and> (\<exists>v. ch' = ch\<lparr>c_chunkVersion := v\<rparr> \<and> length v < CHUNK_VERSION_MAX_LEN)"
  using assms by (auto simp: write_result_def acknowledges_def reply_is_def Let_def split: request_result.splits if_splits)

text \<open>
  The chunks of a written file: the name and the bytes of a chunk do not change, its checksum is computed and its
  version is the one of the agent.
\<close>

definition written_chunk :: "'w proxy_env \<Rightarrow> chunk \<Rightarrow> chunk \<Rightarrow> bool" where
  "written_chunk P ch ch' \<longleftrightarrow> (\<exists>v. ch' = (fst (computeMD5 (pe_md5 P) ch))\<lparr>c_chunkVersion := v\<rparr> \<and>
     (v = c_chunkVersion ch \<or> length v < CHUNK_VERSION_MAX_LEN))"

definition valid_count :: "file_t \<Rightarrow> nat" where
  "valid_count f = length (filter (\<lambda>cid. cid \<noteq> INVALID_CONTAINER_ID) (f_containerIds f))"

abbreviation md5_chunk :: "'w proxy_env \<Rightarrow> file_t \<Rightarrow> nat \<Rightarrow> chunk" where
  "md5_chunk P f i \<equiv> fst (computeMD5 (pe_md5 P) (f_chunks f ! i))"

lemma written_md5: "written_chunk P ch (fst (computeMD5 (pe_md5 P) ch))"
  by (auto simp: written_chunk_def computeMD5_def intro: exI [of _ "c_chunkVersion ch"])

lemma write_chunks_run:
  assumes "write_chunks P spare n f m = (m', f', res)" and "length spare \<le> n" and "length (f_chunks f) = n" and "l = length spare"
  obtains rs where "send_each P (map (\<lambda>i. (spare ! i, one_chunk PUT_CHUNK_REQ (m_eventCount m + of_nat i) (spare ! i) ((md5_chunk P f i)\<lparr>c_freeData := False\<rparr>)))
      [0..<l]) (m\<lparr>m_eventCount := m_eventCount m + of_nat n\<rparr>) = (m', rs)"
    and "length rs = l" and "res = map (\<lambda>i. write_result P (md5_chunk P f i) (rs ! i)) [0..<l]"
    and "f' = f\<lparr>f_containerIds := map fst res @ replicate (n - l) INVALID_CONTAINER_ID,
           f_chunks := map (\<lambda>(_, ch, _). ch) res @ map (md5_chunk P f) [l..<n]\<rparr>"
proof -
  let ?cnt = "m_eventCount m" let ?m = "m\<lparr>m_eventCount := ?cnt + of_nat n\<rparr>"
  define f1 where "f1 = with_checksums P n f"
  then have f1: "f1 = f\<lparr>f_chunks := map (\<lambda>ch. fst (computeMD5 (pe_md5 P) ch)) (f_chunks f)\<rparr>" using assms(3) by (simp add: with_checksums_def)
  let ?reqs = "map (\<lambda>i. (spare ! i, one_chunk PUT_CHUNK_REQ (?cnt + of_nat i) (spare ! i) ((md5_chunk P f i)\<lparr>c_freeData := False\<rparr>))) [0..<l]"
  have reqs: "map (\<lambda>i. (spare ! i, (write_request spare f1 i)\<lparr>e_id := map (\<lambda>i. unat (?cnt + of_nat i)) [0..<n] ! i\<rparr>)) [0..<l] = ?reqs"
    using assms(2,3,4) by (intro map_cong refl) (simp add: write_one_chunk f1)
  obtain m2 rs where s: "send_each P ?reqs ?m = (m2, rs)" by (cases "send_each P ?reqs ?m")
  have rs: "length rs = l" using send_each_fields [OF s] by simp
  have l: "l \<le> n" using assms(2,4) by simp
  have res: "map2 (write_result P) (take l (f_chunks f1)) rs = map (\<lambda>i. write_result P (md5_chunk P f i) (rs ! i)) [0..<l]"
  proof (rule nth_equalityI)
    show "length (map2 (write_result P) (take l (f_chunks f1)) rs) = length (map (\<lambda>i. write_result P (md5_chunk P f i) (rs ! i)) [0..<l])"
      using rs l assms(3) by (simp add: f1)
  qed (use rs l assms(3) in \<open>simp add: f1\<close>)
  have rest: "drop l (f_chunks f1) = map (md5_chunk P f) [l..<n]" by (rule nth_equalityI) (use l assms(3) in \<open>simp_all add: f1\<close>)
  have mn: "min n l = l" using assms(2,4) by simp
  have "m' = m2" "res = map (\<lambda>i. write_result P (md5_chunk P f i) (rs ! i)) [0..<l]"
    "f' = f1\<lparr>f_containerIds := map fst res @ replicate (n - l) INVALID_CONTAINER_ID, f_chunks := map (\<lambda>(_, ch, _). ch) res @ map (md5_chunk P f) [l..<n]\<rparr>"
    using assms(1)
    unfolding write_chunks_def take_ids_def Let_def \<open>f1 = with_checksums P n f\<close> [symmetric] prod.case assms(4) [symmetric] mn reqs s res rest by auto
  then show ?thesis using that s rs by (simp add: f1)
qed

context agent_network
begin

text \<open>The result of one request: either the chunk is stored in the container, or the file says that it is not.\<close>

lemma write_one_post:
  assumes "reply_is PUT_CHUNK_REP_SUCCESS r \<longrightarrow> stored_at m' cid (ch\<lparr>c_freeData := False\<rparr>) = Some (chunk_bytes ch) \<and> acknowledges cid r"
    and "write_result P (fst (computeMD5 (pe_md5 P) ch0)) r = (c, ch', st, rep)" and "ch = fst (computeMD5 (pe_md5 P) ch0)"
  shows "written_chunk P ch0 ch'" and "c \<noteq> INVALID_CONTAINER_ID \<Longrightarrow> c = cid \<and> stored_at m' cid ch' = Some (chunk_bytes ch0)" and "st \<Longrightarrow> c = cid"
proof -
  note w = write_result_stored [OF assms(2)]
  have "written_chunk P ch0 ch' \<and> (c \<noteq> INVALID_CONTAINER_ID \<longrightarrow> c = cid \<and> stored_at m' cid ch' = Some (chunk_bytes ch0)) \<and> (st \<longrightarrow> c = cid)"
  proof (cases st)
    case False
    with w(2) written_md5 show ?thesis by auto
  next
    case True
    with w(1) assms(1) have p: "stored_at m' cid (ch\<lparr>c_freeData := False\<rparr>) = Some (chunk_bytes ch0)" "acknowledges cid r" by (auto simp: assms(3))
    obtain v where v: "c = cid" "ch' = ch\<lparr>c_chunkVersion := v\<rparr>" "length v < CHUNK_VERSION_MAX_LEN" using w(3) [OF True p(2)] assms(3) by blast
    have "same ch' (ch\<lparr>c_freeData := False\<rparr>)" by (rule same_ids) (simp_all add: v(2))
    then have "stored_at m' cid ch' = Some (chunk_bytes ch0)" using p(1) stored_at_same by simp
    with v assms(3) show ?thesis by (auto simp: written_chunk_def)
  qed
  then show "written_chunk P ch0 ch'" and "c \<noteq> INVALID_CONTAINER_ID \<Longrightarrow> c = cid \<and> stored_at m' cid ch' = Some (chunk_bytes ch0)" and "st \<Longrightarrow> c = cid"
    by simp_all
qed

lemma write_chunks_post:
  assumes "write_chunks P spare n f m = (m', f', res)" and "length spare \<le> n" and "length (f_chunks f) = n"
    and "\<forall>i < n. chunk_sendable PUT_CHUNK_REQ (md5_chunk P f i)"
    and "\<forall>i < n. \<forall>j < n. i \<noteq> j \<longrightarrow> \<not> same (f_chunks f ! i) (f_chunks f ! j)" and "\<forall>cid \<in> set spare. is_int cid"
  shows "m' = m\<lparr>m_eventCount := m_eventCount m + of_nat n, m_world := m_world m'\<rparr>"
    and "f' = f\<lparr>f_chunks := f_chunks f', f_containerIds := f_containerIds f'\<rparr>"
    and "length (f_chunks f') = n" "length (f_containerIds f') = n" "length res = length spare"
    and "\<forall>i < n. written_chunk P (f_chunks f ! i) (f_chunks f' ! i)"
    and "\<forall>i < n. f_containerIds f' ! i \<noteq> INVALID_CONTAINER_ID \<longrightarrow> i < length spare \<and> f_containerIds f' ! i = spare ! i \<and>
       stored_at m' (spare ! i) (f_chunks f' ! i) = Some (chunk_bytes (f_chunks f ! i))"
    and "\<forall>i < length spare. fst (snd (snd (res ! i))) \<longrightarrow> f_containerIds f' ! i = spare ! i"
    and "\<forall>c d. (\<forall>i < length spare. \<not> (c = spare ! i \<and> same d (f_chunks f ! i))) \<longrightarrow> stored_at m' c d = stored_at m c d"
proof -
  let ?l = "length spare" let ?H = "\<lambda>i. (md5_chunk P f i)\<lparr>c_freeData := False\<rparr>" let ?m = "m\<lparr>m_eventCount := m_eventCount m + of_nat n\<rparr>"
  obtain rs where send: "send_each P (map (\<lambda>i. (spare ! i, one_chunk PUT_CHUNK_REQ (m_eventCount m + of_nat i) (spare ! i) (?H i))) [0..<?l]) ?m = (m', rs)"
    and rs: "length rs = ?l" and res: "res = map (\<lambda>i. write_result P (md5_chunk P f i) (rs ! i)) [0..<?l]"
    and f': "f' = f\<lparr>f_containerIds := map fst res @ replicate (n - ?l) INVALID_CONTAINER_ID,
           f_chunks := map (\<lambda>(_, ch, _). ch) res @ map (md5_chunk P f) [?l..<n]\<rparr>"
    by (rule write_chunks_run [OF assms(1-3) refl])
  have same1: "same (?H i) (f_chunks f ! i)" "same (f_chunks f ! i) (?H i)" for i by (rule same_ids; simp add: computeMD5_def)+
  show "length res = ?l" by (simp add: res)
  then show "length (f_chunks f') = n" "length (f_containerIds f') = n" using assms(2) by (simp_all add: f')
  show "m' = m\<lparr>m_eventCount := m_eventCount m + of_nat n, m_world := m_world m'\<rparr>" using send_each_fields [OF send] by simp
  show "f' = f\<lparr>f_chunks := f_chunks f', f_containerIds := f_containerIds f'\<rparr>" by (simp add: f')
  have snb: "\<forall>i \<in> set [0..<?l]. is_int (spare ! i) \<and> chunk_sendable PUT_CHUNK_REQ (?H i)"
    using assms(2,4,6) by (auto simp: chunk_sendable_def chunk_bytes_def)
  have "\<not> same (?H i) (?H j)" if "i < n" "j < n" "i \<noteq> j" for i j using assms(5) that same1 same_trans by meson
  then have diff: "\<forall>i \<in> set [0..<?l]. \<forall>j \<in> set [0..<?l]. i \<noteq> j \<longrightarrow> \<not> same (?H i) (?H j)" using assms(2) by simp
  note put = put_each [OF snb diff _ send]
  have one: "written_chunk P (f_chunks f ! i) (f_chunks f' ! i) \<and>
      (f_containerIds f' ! i \<noteq> INVALID_CONTAINER_ID \<longrightarrow> f_containerIds f' ! i = spare ! i \<and>
       stored_at m' (spare ! i) (f_chunks f' ! i) = Some (chunk_bytes (f_chunks f ! i))) \<and>
      (fst (snd (snd (res ! i))) \<longrightarrow> f_containerIds f' ! i = spare ! i)" if i: "i < ?l" for i
  proof -
    obtain c ch' st rep where r: "write_result P (md5_chunk P f i) (rs ! i) = (c, ch', st, rep)" by (cases "write_result P (md5_chunk P f i) (rs ! i)")
    have fi: "f_containerIds f' ! i = c" "f_chunks f' ! i = ch'" "fst (snd (snd (res ! i))) = st" using i r by (simp_all add: f' res nth_append)
    have "chunk_bytes (?H i) = chunk_bytes (md5_chunk P f i)" by (simp add: chunk_bytes_def)
    with put i have "reply_is PUT_CHUNK_REP_SUCCESS (rs ! i) \<longrightarrow> stored_at m' (spare ! i) (?H i) = Some (chunk_bytes (md5_chunk P f i)) \<and>
        acknowledges (spare ! i) (rs ! i)" by auto
    from write_one_post [OF this r refl] show ?thesis by (auto simp: fi)
  qed
  have fo: "f_containerIds f' ! i = INVALID_CONTAINER_ID" "f_chunks f' ! i = md5_chunk P f i" if "i < n" "\<not> i < ?l" for i
    using that by (simp_all add: f' res nth_append)
  show "\<forall>i < n. written_chunk P (f_chunks f ! i) (f_chunks f' ! i)" using one fo(2) written_md5 by metis
  show "\<forall>i < n. f_containerIds f' ! i \<noteq> INVALID_CONTAINER_ID \<longrightarrow> i < ?l \<and> f_containerIds f' ! i = spare ! i \<and>
       stored_at m' (spare ! i) (f_chunks f' ! i) = Some (chunk_bytes (f_chunks f ! i))" using one fo(1) by blast
  show "\<forall>i < ?l. fst (snd (snd (res ! i))) \<longrightarrow> f_containerIds f' ! i = spare ! i" using one by blast
  show "\<forall>c d. (\<forall>i < ?l. \<not> (c = spare ! i \<and> same d (f_chunks f ! i))) \<longrightarrow> stored_at m' c d = stored_at m c d"
  proof (intro allI impI)
    fix c d
    assume a: "\<forall>i < ?l. \<not> (c = spare ! i \<and> same d (f_chunks f ! i))"
    have "\<forall>i \<in> set [0..<?l]. \<not> (c = spare ! i \<and> same d (?H i))"
    proof (intro ballI notI)
      fix i
      assume "i \<in> set [0..<?l]" and "c = spare ! i \<and> same d (?H i)"
      with a same_trans [OF _ same1(1), of d i] show False by auto
    qed
    with put have "stored_at m' c d = stored_at ?m c d" by auto
    also have "\<dots> = stored_at m c d" by (simp add: stored_at_def split: option.splits)
    finally show "stored_at m' c d = stored_at m c d" .
  qed
qed

end

subsection \<open>Encoding\<close>

text \<open>Memory is available, digests have their length, and the manager has an instance of the code.\<close>

definition memory :: "'w proxy_env \<Rightarrow> bool" where
  "memory P \<longleftrightarrow> (\<forall>n. \<exists>b. pe_alloc P (int n) = Some b \<and> length b = n)"

definition has_code :: "'w proxy_env \<Rightarrow> coding_meta \<Rightarrow> rs_code \<Rightarrow> 'w chunk_manager \<Rightarrow> bool" where
  "has_code P cm c m \<longleftrightarrow> newRSCode (pe_isal P) (rs_options c) = Some c \<and> cm_n cm = int (rs_n c) \<and> cm_k cm = int (rs_k c) \<and>
     (\<exists>key. genCodingInstanceKey (cm_coding cm) (cm_n cm) (cm_k cm) = Some key \<and> m_codings m key = Some (Some c))"

lemma has_code_instance: "has_code P cm c m \<Longrightarrow> meta_instance P cm m = (m, Some c)"
  by (auto simp: has_code_def meta_instance_def getCodingInstance_def)

lemma has_code_cong: "m_codings m' = m_codings m \<Longrightarrow> has_code P cm c m' = has_code P cm c m"
  by (simp add: has_code_def)

lemma chunk_size_mult: "0 < rs_k c \<Longrightarrow> getChunkSize c (s * rs_k c) = s"
proof -
  assume k: "0 < rs_k c"
  have "(s * rs_k c + (rs_k c - 1)) div rs_k c = s" using k by (subst div_mult_self3) simp_all
  then show ?thesis using k by (simp add: getChunkSize_def)
qed

lemma max_data_size: "0 < rs_k c \<Longrightarrow> maxDataSizePerStripe c s = s * rs_k c"
proof -
  assume k: "0 < rs_k c"
  have "shrink_size c s (s * rs_k c) = s * rs_k c"
  proof (cases "s * rs_k c")
    case (Suc n)
    then have "getChunkSize c (Suc n) = s" using chunk_size_mult [OF k, of s] by simp
    then show ?thesis using Suc by (simp add: getNumChunksPerNode_def)
  next
    case 0
    then show ?thesis by (simp only: 0 shrink_size.simps(1))
  qed
  then show ?thesis by (simp add: maxDataSizePerStripe_def getNumChunksPerNode_def getNumDataChunks_def)
qed

definition padded :: "rs_code \<Rightarrow> byte list \<Rightarrow> byte list" where
  "padded c data = data @ replicate (getChunkSize c (length data) * rs_k c - length data) 0"

definition stripe_offset :: "rs_code \<Rightarrow> file_t \<Rightarrow> nat" where
  "stripe_offset c f = f_offset f div (nat (cm_maxChunkSize (f_codingMeta f)) * rs_k c) * rs_n c"

definition encoded_chunk :: "isal \<Rightarrow> rs_code \<Rightarrow> byte list \<Rightarrow> file_t \<Rightarrow> nat \<Rightarrow> chunk" where
  "encoded_chunk I c data f i =
     (setId (f_namespaceId f) (f_uuid f) (int (stripe_offset c f + i))
        (fst (chunk_move (coded_chunk I c (getChunkSize c (length data)) (padded c data) i) chunk_reset)))\<lparr>c_fileVersion := f_version f\<rparr>"

definition encoded_file :: "isal \<Rightarrow> rs_code \<Rightarrow> byte list \<Rightarrow> file_t \<Rightarrow> file_t" where
  "encoded_file I c data f = f\<lparr>f_data := Some (padded c data), f_codingMeta := (f_codingMeta f)\<lparr>cm_codingStateSize := 0\<rparr>,
     f_numChunks := int (rs_n c), f_chunks := map (encoded_chunk I c data f) [0..<rs_n c]\<rparr>"

lemma chunk_size_bound: "0 < rs_k c \<Longrightarrow> l \<le> getChunkSize c l * rs_k c"
proof -
  assume k: "0 < rs_k c"
  have "getChunkSize c l * rs_k c + (l + rs_k c - 1) mod rs_k c = l + rs_k c - 1" unfolding getChunkSize_def by (rule div_mult_mod_eq)
  moreover have "(l + rs_k c - 1) mod rs_k c < rs_k c" using k by simp
  ultimately show ?thesis using k by linarith
qed

lemma chunk_size_pos: "0 < rs_k c \<Longrightarrow> 0 < l \<Longrightarrow> 0 < getChunkSize c l"
  using chunk_size_bound [of c l] by (cases "getChunkSize c l") auto

lemma encodeFile_eq:
  assumes "isal (pe_isal P)" and "memory P" and "has_code P (f_codingMeta f) c m" and "f_data f = Some data" and "f_length f = length data"
    and "data \<noteq> []" and "getChunkSize c (length data) < 2147483648" and "stripe_offset c f + rs_n c < 2147483648"
  shows "encodeFile P True f m = (m, encoded_file (pe_isal P) c data f, True)"
proof -
  let ?sz = "getChunkSize c (length data)" let ?cm = "f_codingMeta f"
  have code: "newRSCode (pe_isal P) (rs_options c) = Some c" using assms(3) by (simp add: has_code_def)
  have k: "0 < rs_k c" "rs_k c \<le> rs_n c" using newRSCode_Some [OF code] by auto
  have le: "length data \<le> ?sz * rs_k c" by (rule chunk_size_bound [OF k(1)])
  obtain b where b: "pe_alloc P (int ?sz) = Some b" "length b = ?sz" using assms(2) by (auto simp: memory_def)
  have al: "align_data P c True f = Some (f\<lparr>f_data := Some (padded c data)\<rparr>)"
  proof (cases "?sz * rs_k c > length data")
    case True
    obtain b' where "pe_alloc P (int (?sz * rs_k c)) = Some b'" using assms(2) unfolding memory_def by blast
    with True assms(4,5) show ?thesis by (simp add: align_data_def Let_def getNumDataChunks_def file_bytes_def padded_def)
  next
    case False
    with le assms(4) show ?thesis by (simp add: align_data_def Let_def getNumDataChunks_def assms(5) padded_def)
  qed
  have enc: "rs_encode (pe_isal P) (pe_alloc P) c (padded c data) (length data) = (map (coded_chunk (pe_isal P) c ?sz (padded c data)) [0..<rs_n c], True)"
    using isal.rs_encode_eq [where alloc = "pe_alloc P" and sz = ?sz and data = "padded c data" and dataSize = "length data",
        OF assms(1) code b refl chunk_size_pos [OF k(1)] assms(7)] le assms(6) by (simp add: padded_def mult.commute)
  have key: "getMaxDataSizePerStripe P (cm_coding ?cm) (int (rs_n c)) (int (rs_k c)) (cm_maxChunkSize ?cm) m = (m, nat (cm_maxChunkSize ?cm) * rs_k c)"
    using assms(3) k(1) by (auto simp: has_code_def getMaxDataSizePerStripe_def getCodingInstance_def max_data_size)
  have off: "int32 (int (stripe_offset c f)) = int (stripe_offset c f)" using assms(8) by (simp add: int32_id is_int_def)
  show ?thesis
    using has_code_instance [OF assms(3)] al enc key off
    by (simp add: encodeFile_def file_bytes_def assms(5) getCodingStateSize_def place_chunks_def encoded_file_def encoded_chunk_def stripe_offset_def
        algebra_simps cong: map_cong)
qed

subsection \<open>The whole write\<close>

abbreviation stripe_bytes :: "'w proxy_env \<Rightarrow> rs_code \<Rightarrow> byte list \<Rightarrow> nat \<Rightarrow> byte list" where
  "stripe_bytes P c data \<equiv> coded (pe_isal P) (rs_encodeMatrix c) (rs_k c) (getChunkSize c (length data)) (padded c data)"

text \<open>A file that can be written: one stripe of data, with values that fit into messages.\<close>

definition stripe_file :: "'w proxy_env \<Rightarrow> rs_code \<Rightarrow> byte list \<Rightarrow> file_t \<Rightarrow> 'w chunk_manager \<Rightarrow> bool" where
  "stripe_file P c data f m \<longleftrightarrow> has_code P (f_codingMeta f) c m \<and> getCodingInstanceOfClass (f_storageClass f) m = Some c \<and>
     f_data f = Some data \<and> f_length f = length data \<and> data \<noteq> [] \<and> getChunkSize c (length data) < 2147483648 \<and>
     stripe_offset c f + rs_n c < 2147483648 \<and> f_namespaceId f < 256 \<and> is_int (f_version f)"

lemma encoded_chunk_fields [simp]:
  "c_namespaceId (encoded_chunk I c data f i) = f_namespaceId f" "c_fuuid (encoded_chunk I c data f i) = f_uuid f"
  "c_chunkId (encoded_chunk I c data f i) = int (stripe_offset c f + i)" "c_fileVersion (encoded_chunk I c data f i) = f_version f"
  "c_size (encoded_chunk I c data f i) = int (getChunkSize c (length data))" "c_chunkVersion (encoded_chunk I c data f i) = []"
  "c_data (encoded_chunk I c data f i) = Some (coded I (rs_encodeMatrix c) (rs_k c) (getChunkSize c (length data)) (padded c data) i)"
  by (simp_all add: encoded_chunk_def setId_def chunk_move_def coded_chunk_def chunk_copyMeta_def copyMD5_def Let_def setChunkId_def
      chunk_reset_def chunk_resetMD5_def)

lemma coded_length [simp]: "length (coded I M k sz data i) = sz"
  by (simp add: coded_def)

lemma encoded_chunk_bytes [simp]:
  "chunk_bytes (encoded_chunk I c data f i) = coded I (rs_encodeMatrix c) (rs_k c) (getChunkSize c (length data)) (padded c data) i"
  by (simp add: chunk_bytes_def)

lemma encoded_sendable:
  assumes "stripe_file P c data f m" and "\<And>bs. length (pe_md5 P bs) = MD5_DIGEST_LENGTH" and "i < rs_n c"
  shows "chunk_sendable PUT_CHUNK_REQ (fst (computeMD5 (pe_md5 P) (encoded_chunk (pe_isal P) c data f i)))"
    and "c_md5 (fst (computeMD5 (pe_md5 P) (encoded_chunk (pe_isal P) c data f i))) = pe_md5 P (stripe_bytes P c data i)"
proof -
  have code: "newRSCode (pe_isal P) (rs_options c) = Some c" using assms(1) by (simp add: stripe_file_def has_code_def)
  have pos: "0 < getChunkSize c (length data)"
    using newRSCode_Some [OF code] assms(1) by (intro chunk_size_pos) (auto simp: stripe_file_def)
  then show md5: "c_md5 (fst (computeMD5 (pe_md5 P) (encoded_chunk (pe_isal P) c data f i))) = pe_md5 P (stripe_bytes P c data i)"
    by (simp add: computeMD5_def)
  show "chunk_sendable PUT_CHUNK_REQ (fst (computeMD5 (pe_md5 P) (encoded_chunk (pe_isal P) c data f i)))"
    using assms pos
    by (subst computeMD5_fields) (simp add: chunk_sendable_def md5 stripe_file_def is_int_def CHUNK_VERSION_MAX_LEN_def, simp add: chunk_bytes_def)
qed

context agent_network
begin

definition stripe_stored :: "rs_code \<Rightarrow> byte list \<Rightarrow> file_t \<Rightarrow> 'w chunk_manager \<Rightarrow> bool" where
  "stripe_stored c data f m \<longleftrightarrow> has_code P (f_codingMeta f) c m \<and> f_numChunks f = int (rs_n c) \<and> length (f_chunks f) = rs_n c \<and>
     length (f_containerIds f) = rs_n c \<and> data \<noteq> [] \<and> getChunkSize c (length data) < 2147483648 \<and>
     (\<forall>i < rs_n c. c_size (f_chunks f ! i) = int (getChunkSize c (length data)) \<and> c_chunkId (f_chunks f ! i) mod int (rs_n c) = int i \<and>
        c_md5 (f_chunks f ! i) = pe_md5 P (stripe_bytes P c data i) \<and>
        (f_containerIds f ! i \<noteq> INVALID_CONTAINER_ID \<longrightarrow> held m f (stripe_bytes P c data) i))"

lemma written_stripe:
  assumes "stripe_file P c data f m" and "\<And>bs. length (pe_md5 P bs) = MD5_DIGEST_LENGTH"
    and "f_codingMeta f' = (f_codingMeta f)\<lparr>cm_codingStateSize := 0\<rparr>" and "f_numChunks f' = int (rs_n c)"
    and "length (f_chunks f') = rs_n c" "length (f_containerIds f') = rs_n c" "m_codings m' = m_codings m"
    and "\<forall>i < rs_n c. written_chunk P (encoded_chunk (pe_isal P) c data f i) (f_chunks f' ! i)"
    and "\<forall>i < rs_n c. f_containerIds f' ! i \<noteq> INVALID_CONTAINER_ID \<longrightarrow> is_int (f_containerIds f' ! i) \<and>
       stored_at m' (f_containerIds f' ! i) (f_chunks f' ! i) = Some (stripe_bytes P c data i)"
  shows "stripe_stored c data f' m'"
proof -
  have one: "c_size (f_chunks f' ! i) = int (getChunkSize c (length data)) \<and> c_chunkId (f_chunks f' ! i) mod int (rs_n c) = int i \<and>
      c_md5 (f_chunks f' ! i) = pe_md5 P (stripe_bytes P c data i) \<and> chunk_sendable GET_CHUNK_REQ (f_chunks f' ! i)" if i: "i < rs_n c" for i
  proof -
    let ?e = "encoded_chunk (pe_isal P) c data f i" and ?d = "fst (computeMD5 (pe_md5 P) (encoded_chunk (pe_isal P) c data f i))"
    note e = encoded_sendable [OF assms(1,2) i]
    obtain v where v: "f_chunks f' ! i = ?d\<lparr>c_chunkVersion := v\<rparr>" "length v < CHUNK_VERSION_MAX_LEN"
      using assms(8) i by (auto simp: written_chunk_def CHUNK_VERSION_MAX_LEN_def)
    have d: "c_size ?d = c_size ?e" "c_chunkId ?d = c_chunkId ?e" by (simp_all add: computeMD5_def)
    have "int (stripe_offset c f + i) mod int (rs_n c) = int i" using i by (simp add: stripe_offset_def flip: of_nat_mod)
    moreover have "chunk_sendable GET_CHUNK_REQ (?d\<lparr>c_chunkVersion := v\<rparr>)"
      using e(1) v(2) by (simp add: chunk_sendable_def chunk_bytes_def hasChunkData_def)
    ultimately show ?thesis using e(2) d by (simp add: v(1))
  qed
  have "has_code P (f_codingMeta f') c m'" using assms(1) by (auto simp: assms(3,7) stripe_file_def has_code_def)
  with one assms(1,4-6,9) show ?thesis by (simp add: stripe_stored_def stripe_file_def held_def)
qed

lemma encoded_apart: "i \<noteq> j \<Longrightarrow> \<not> same (encoded_chunk I c data f i) (encoded_chunk I c data f j)"
  using ids_same [of "encoded_chunk I c data f i" "encoded_chunk I c data f j"] by auto

text \<open>A write that reports success has stored enough chunks to read the data, and has changed no other chunk.\<close>

lemma writeFileStripe_True:
  assumes "isal (pe_isal P)" and "memory P" and "stripe_file P c data f m" and "\<And>bs. length (pe_md5 P bs) = MD5_DIGEST_LENGTH"
    and "\<forall>cid \<in> set spare. is_int cid \<and> cid \<noteq> INVALID_CONTAINER_ID" and "rs_k c \<le> length spare" and "length spare \<le> rs_n c"
    and "writeFileStripe P spare True isOverwrite True f m = (m', f', True)"
  shows "stripe_stored c data f' m'" and "rs_k c \<le> valid_count f'" and "f_namespaceId f' = f_namespaceId f \<and> f_uuid f' = f_uuid f"
    and "\<forall>cid d. (\<forall>i < length spare. \<not> (cid = spare ! i \<and> same d (encoded_chunk (pe_isal P) c data f i))) \<longrightarrow> stored_at m' cid d = stored_at m cid d"
proof -
  let ?f1 = "encoded_file (pe_isal P) c data f" and ?n = "rs_n c" and ?l = "length spare"
  note sf = assms(3) [unfolded stripe_file_def]
  have code: "newRSCode (pe_isal P) (rs_options c) = Some c" using sf by (simp add: has_code_def)
  have n: "getNumDataChunks c + getNumCodeChunks c = ?n" using newRSCode_Some [OF code] by (simp add: getNumDataChunks_def getNumCodeChunks_def)
  have enc: "encodeFile P True f m = (m, ?f1, True)" using sf by (intro encodeFile_eq [OF assms(1,2)]) simp_all
  obtain b where b: "pe_alloc P (int (getNumCodeChunks c * getChunkSize c (length data))) = Some b" using assms(2) unfolding memory_def by blast
  obtain m2 f2 res where w: "write_chunks P spare ?n ?f1 m = (m2, f2, res)" by (cases "write_chunks P spare ?n ?f1 m")
  let ?all = "list_all2 (\<lambda>(_, _, stored, _) cid. stored \<or> cid = INVALID_CONTAINER_ID) res (take ?n spare)"
    and ?num = "length (filter (\<lambda>(_, _, stored, _). stored) res)"
  have out: "m' = m2" "f' = f2" "?all \<or> rs_k c \<le> ?num"
    using assms(8) sf b enc w n
    by (auto simp: writeFileStripe_def Let_def getNumDataChunks_def split: if_splits)
  have ch: "f_chunks ?f1 ! i = encoded_chunk (pe_isal P) c data f i" if "i < ?n" for i using that by (simp add: encoded_file_def)
  have snb: "\<forall>i < ?n. chunk_sendable PUT_CHUNK_REQ (md5_chunk P ?f1 i)" using encoded_sendable(1) [OF assms(3,4)] ch by simp
  have diff: "\<forall>i < ?n. \<forall>j < ?n. i \<noteq> j \<longrightarrow> \<not> same (f_chunks ?f1 ! i) (f_chunks ?f1 ! j)" using ch encoded_apart by simp
  have len: "length (f_chunks ?f1) = ?n" by (simp add: encoded_file_def)
  have ints: "\<forall>cid \<in> set spare. is_int cid" using assms(5) by simp
  note post = write_chunks_post [OF w assms(7) len snb diff ints]
  have written: "\<forall>i < ?n. written_chunk P (encoded_chunk (pe_isal P) c data f i) (f_chunks f2 ! i)" using post(6) ch by simp
  have stored: "\<forall>i < ?n. f_containerIds f2 ! i \<noteq> INVALID_CONTAINER_ID \<longrightarrow> i < ?l \<and> f_containerIds f2 ! i = spare ! i \<and>
       stored_at m2 (spare ! i) (f_chunks f2 ! i) = Some (stripe_bytes P c data i)" using post(7) ch by auto
  have frame: "\<forall>cid d. (\<forall>i < ?l. \<not> (cid = spare ! i \<and> same d (encoded_chunk (pe_isal P) c data f i))) \<longrightarrow> stored_at m2 cid d = stored_at m cid d"
    using post(9) ch assms(7) by simp
  have flds: "f_codingMeta f2 = (f_codingMeta f)\<lparr>cm_codingStateSize := 0\<rparr>" "f_numChunks f2 = int ?n" "m_codings m2 = m_codings m"
    "f_namespaceId f2 = f_namespaceId f" "f_uuid f2 = f_uuid f"
    using arg_cong [OF post(1), of m_codings] arg_cong [OF post(2), of f_codingMeta] arg_cong [OF post(2), of f_numChunks]
      arg_cong [OF post(2), of f_namespaceId] arg_cong [OF post(2), of f_uuid] by (simp_all add: encoded_file_def)
  have "\<forall>i < ?n. f_containerIds f2 ! i \<noteq> INVALID_CONTAINER_ID \<longrightarrow> is_int (f_containerIds f2 ! i) \<and>
       stored_at m2 (f_containerIds f2 ! i) (f_chunks f2 ! i) = Some (stripe_bytes P c data i)"
    using stored assms(5) by auto
  with written_stripe [OF assms(3,4) flds(1,2) post(3,4) flds(3) written] out show "stripe_stored c data f' m'" by simp
  show "rs_k c \<le> valid_count f'"
  proof -
    have st: "?num = card {i. i < ?l \<and> fst (snd (snd (res ! i)))}" by (simp add: length_filter_conv_card post(5) case_prod_unfold)
    have "{i. i < ?l \<and> fst (snd (snd (res ! i)))} \<subseteq> {i. i < ?n \<and> f_containerIds f2 ! i \<noteq> INVALID_CONTAINER_ID}"
      using post(8) assms(5,7) by auto
    from card_mono [OF _ this] have "?num \<le> valid_count f2" unfolding st valid_count_def by (simp add: length_filter_conv_card post(4))
    moreover have "?num = ?l" if ?all
    proof -
      have "\<forall>i < ?l. fst (snd (snd (res ! i)))" using that assms(5,7) post(5) by (auto simp: list_all2_conv_all_nth case_prod_unfold)
      then have "{i. i < ?l \<and> fst (snd (snd (res ! i)))} = {..<?l}" by auto
      then show ?thesis unfolding st by simp
    qed
    ultimately show ?thesis using out assms(6) by auto
  qed
  show "f_namespaceId f' = f_namespaceId f \<and> f_uuid f' = f_uuid f" using flds out by simp
  show "\<forall>cid d. (\<forall>i < ?l. \<not> (cid = spare ! i \<and> same d (encoded_chunk (pe_isal P) c data f i))) \<longrightarrow> stored_at m' cid d = stored_at m cid d"
    using frame out(1) by simp
qed

end

end
