(* ===== verification/Chunk_Read.thy ===== *)
theory Chunk_Read
  imports Chunk_Write
begin

text \<open>
  Reading a stripe that was written: any chunks the manager takes from the agents decode to the data.
\<close>

subsection \<open>Decoding into a buffer\<close>

lemma rs_decode_cong:
  assumes "map c_chunkId a = map c_chunkId b" and "map c_data a = map c_data b" and "map c_size a = map c_size b"
  shows "rs_decode I mallocOk junk c a d s r t = rs_decode I mallocOk junk c b d s r t"
proof -
  have l: "length a = length b" using arg_cong [OF assms(1), of length] by simp
  have h: "a = [] \<longleftrightarrow> b = []" "a \<noteq> [] \<Longrightarrow> c_size (hd a) = c_size (hd b)" using l assms(3) by (cases a; cases b; simp)+
  have "map (\<lambda>d. case c_data d of None \<Rightarrow> [] | Some bs \<Rightarrow> bs) (take n xs) = map (case_option [] id) (take n (map c_data xs))" for n and xs :: "chunk list"
    by (simp add: take_map id_def)
  with assms(2) have i: "map (\<lambda>d. case c_data d of None \<Rightarrow> [] | Some bs \<Rightarrow> bs) (take (rs_n c) a) = map (\<lambda>d. case c_data d of None \<Rightarrow> [] | Some bs \<Rightarrow> bs) (take (rs_n c) b)"
    by simp
  have sz: "(if a = [] then 0 else nat (c_size (hd a))) = (if b = [] then 0 else nat (c_size (hd b)))" using h by auto
  show ?thesis unfolding rs_decode_def Let_def assms(1) l i sz ..
qed

lemma rs_decode_buffer:
  assumes "rs_decode I (\<lambda>_. True) junk c chs None s0 r ts = (Some d, s, True)"
  shows "rs_decode I mallocOk junk c chs (Some old) s0 r ts = (Some (d @ drop s old), s, True)"
  using assms by (auto simp: rs_decode_def Let_def split: prod.splits if_splits option.splits)

lemma rs_decode_inverted:
  assumes "isal I" and "survivors c ids" and "map c_chunkId chs = map int ids" and "rs_decode I mallocOk junk c chs buf s0 False [] = (d, s, True)"
  shows "\<exists>N. gf_invert_matrix I (input_matrix c junk ids) (rs_k c) = Some N"
proof (rule ccontr)
  assume "\<not> ?thesis"
  then have none: "gf_invert_matrix I (input_matrix c junk ids) (rs_k c) = None" by simp
  show False
    using assms(4) none isal.decode_scan_survivors [OF assms(1,2), of False]
    by (auto simp: rs_decode_def Let_def assms(3) input_matrix_def split: if_splits)
qed

lemma decode_stripe:
  assumes "isal I" and "newRSCode I opts = Some c" and "survivors c ids" and "map c_chunkId chs = map int ids"
    and "map c_data chs = map (\<lambda>i. Some (coded I (rs_encodeMatrix c) (rs_k c) sz data i)) ids" and "\<forall>ch \<in> set chs. c_size ch = int sz"
    and "gf_invert_matrix I (input_matrix c junk ids) (rs_k c) = Some N" and "length data = rs_k c * sz"
  shows "rs_decode I mallocOk junk c chs (Some old) s0 False [] = (Some (data @ drop (rs_k c * sz) old), rs_k c * sz, True)"
proof -
  have len: "length chs = length ids" using arg_cong [OF assms(4), of length] by simp
  have "rs_decode I (\<lambda>_. True) junk c chs None s0 False [] = rs_decode I (\<lambda>_. True) junk c (map (coded_chunk I c sz data) ids) None s0 False []"
    using assms(4-6) len by (intro rs_decode_cong) (auto simp: isal.coded_chunk_simps [OF assms(1)] comp_def list_eq_iff_nth_eq)
  also have "\<dots> = (Some data, rs_k c * sz, True)"
    using isal.rs_decode_data [OF assms(1-3,7), of "\<lambda>_. True" sz data s0] assms(8) by simp
  finally show ?thesis by (rule rs_decode_buffer)
qed

subsection \<open>The plan of a read\<close>

lemma failed_chunks_props:
  "sorted_wrt (<) (failed_chunks f ind)" "set (failed_chunks f ind) \<subseteq> {..<nat (f_numChunks f)}"
  by (auto simp: failed_chunks_def sorted_wrt_filter)

lemma read_plan:
  assumes "f_numChunks f = int (rs_n c)"
    and "preDecode I alloc junk c (failed_chunks f ind) False plan0 = (plan, ok)"
  shows "ok \<Longrightarrow> dp_inputChunkIds plan = filter (\<lambda>i. ind ! i) [0..<rs_n c] \<and> dp_minNumChunks plan = rs_k c"
    and "rs_k c \<le> length (filter (\<lambda>i. ind ! i) [0..<rs_n c]) \<Longrightarrow> ok"
proof -
  have alive: "filter (\<lambda>i. i \<notin> set (failed_chunks f ind)) [0..<rs_n c] = filter (\<lambda>i. ind ! i) [0..<rs_n c]"
    by (rule filter_cong) (auto simp: failed_chunks_def assms(1))
  have scan: "alive_scan [0..<rs_n c] (failed_chunks f ind) (plan_release plan0) =
      (\<lparr>dp_repairMatrix = bb_reset, dp_inputChunkIds = filter (\<lambda>i. ind ! i) [0..<rs_n c], dp_minNumChunks = 0\<rparr>, failed_chunks f ind)"
    using preDecode_scan [OF failed_chunks_props(1) [of f ind], of "rs_n c" plan0] failed_chunks_props(2) [of f ind] assms(1) by (simp add: alive)
  show "ok \<Longrightarrow> dp_inputChunkIds plan = filter (\<lambda>i. ind ! i) [0..<rs_n c] \<and> dp_minNumChunks plan = rs_k c"
    using assms(2) by (auto simp: preDecode_def scan setMinNumInputChunks_def getNumDataChunks_def Let_def split: if_splits)
  have "length (failed_chunks f ind) + length (filter (\<lambda>i. ind ! i) [0..<rs_n c]) = rs_n c"
    using sum_length_filter_compl [of "\<lambda>i. ind ! i" "[0..<rs_n c]"] by (simp add: failed_chunks_def assms(1))
  then show "rs_k c \<le> length (filter (\<lambda>i. ind ! i) [0..<rs_n c]) \<Longrightarrow> ok"
    using assms(2) by (auto simp: preDecode_def scan Let_def split: if_splits)
qed

subsection \<open>Reading a stored stripe\<close>

context agent_network
begin

text \<open>Replies for chunks of a stored stripe decode to its data.\<close>

lemma decode_replies:
  assumes "isal (pe_isal P)" and "memory P" and "stripe_stored c data f m0" and "has_code P (f_codingMeta f) c m" and "f_data f = None"
    and "sorted_wrt (<) idx" and "set idx \<subseteq> {..<rs_n c}" and "rs_k c \<le> length idx" and "length replies = rs_k c"
    and "list_all2 (\<lambda>i ev. good_reply (f_chunks f ! i) (stripe_bytes P c data i) ev) (take (rs_k c) idx) replies"
    and "decodeFile P idx replies f m = (m', f', ok)"
  shows "ok \<longleftrightarrow> gf_invert_matrix (pe_isal P) (input_matrix c (pe_junk P) (take (rs_k c) idx)) (rs_k c) \<noteq> None"
    and "ok \<Longrightarrow> m' = m \<and> take (length data) (the (f_data f')) = data \<and> f_length f' = rs_k c * getChunkSize c (length data) \<and>
       f_chunks f' = f_chunks f \<and> f_containerIds f' = f_containerIds f"
proof -
  let ?k = "rs_k c" and ?sz = "getChunkSize c (length data)" let ?ids = "take ?k idx" and ?chs = "map (input_of c) replies"
  have code: "newRSCode (pe_isal P) (rs_options c) = Some c" using assms(4) by (simp add: has_code_def)
  have k: "0 < ?k" using newRSCode_Some [OF code] by auto
  have ids: "length ?ids = ?k" "\<And>j. j < ?k \<Longrightarrow> ?ids ! j < rs_n c" using assms(7,8) nth_mem [of _ idx] by force+
  have surv: "survivors c ?ids" using assms(6-8) ids(1) by (auto simp: survivors_def sorted_wrt_take dest: in_set_takeD)
  have good: "good_reply (f_chunks f ! (?ids ! j)) (stripe_bytes P c data (?ids ! j)) (replies ! j)" if "j < ?k" for j
    using assms(8,9,10) that by (auto simp: list_all2_conv_all_nth)
  note st = assms(3) [unfolded stripe_stored_def]
  have in_of: "c_chunkId (?chs ! j) = int (?ids ! j)" "c_data (?chs ! j) = Some (stripe_bytes P c data (?ids ! j))" "c_size (?chs ! j) = int ?sz"
    if "j < ?k" for j
  proof -
    have "c_chunkId (f_chunks f ! (?ids ! j)) mod int (rs_n c) = int (?ids ! j)" using st ids(2) [OF that] by simp
    with good [OF that] that assms(9) show "c_chunkId (?chs ! j) = int (?ids ! j)" "c_data (?chs ! j) = Some (stripe_bytes P c data (?ids ! j))" "c_size (?chs ! j) = int ?sz"
      by (simp_all add: input_of_def Let_def good_reply_def setChunkId_def chunk_move_def chunk_copyMeta_def setId_def copyMD5_def getNumChunks_def)
  qed
  have maps: "map c_chunkId ?chs = map int ?ids" "map c_data ?chs = map (\<lambda>i. Some (stripe_bytes P c data i)) ?ids" "\<forall>ch \<in> set ?chs. c_size ch = int ?sz"
    using in_of ids(1) assms(9) by (auto simp: list_eq_iff_nth_eq in_set_conv_nth)
  obtain old where old: "pe_alloc P (int (getChunkSize c (f_size f) * ?k)) = Some old" using assms(2) unfolding memory_def by blast
  have pad: "length (padded c data) = ?k * ?sz" using chunk_size_bound [OF k, of "length data"] by (simp add: padded_def mult.commute)
  have "hd idx = ?ids ! 0" using assms(8) k by (cases idx) simp_all
  then have hd_size: "c_size (f_chunks f ! hd idx) = int ?sz" using st ids(2) [OF k] by simp
  have sizes: "list_all (\<lambda>ev. c_size (hd (e_chunks ev)) = c_size (f_chunks f ! hd idx)) replies"
    using good assms(9) by (auto simp: hd_size list_all_length good_reply_def)
  obtain d s0 ok' where dec: "rs_decode (pe_isal P) (\<lambda>n. pe_alloc P (int n) \<noteq> None) (pe_junk P) c ?chs (Some old) 0 False [] = (d, s0, ok')"
    by (cases "rs_decode (pe_isal P) (\<lambda>n. pe_alloc P (int n) \<noteq> None) (pe_junk P) c ?chs (Some old) 0 False []")
  have run: "ok = ok'" "m' = m" "f' = f\<lparr>f_data := d, f_length := s0\<rparr>"
    using assms(11) has_code_instance [OF assms(4)] assms(5,9) old sizes dec
    by (simp_all add: decodeFile_def Let_def getNumDataChunks_def)
  have inv: "\<exists>N. gf_invert_matrix (pe_isal P) (input_matrix c (pe_junk P) ?ids) ?k = Some N" if ok'
    using rs_decode_inverted [OF assms(1) surv maps(1)] dec that by simp
  have res: "(d, s0, ok') = (Some (padded c data @ drop (?k * ?sz) old), ?k * ?sz, True)"
    if "gf_invert_matrix (pe_isal P) (input_matrix c (pe_junk P) ?ids) ?k = Some N" for N
    using decode_stripe [OF assms(1) code surv maps that pad] dec by metis
  show "ok \<longleftrightarrow> gf_invert_matrix (pe_isal P) (input_matrix c (pe_junk P) ?ids) ?k \<noteq> None" using inv res run(1) by auto
  show "m' = m \<and> take (length data) (the (f_data f')) = data \<and> f_length f' = ?k * ?sz \<and> f_chunks f' = f_chunks f \<and> f_containerIds f' = f_containerIds f" if ok
    using inv res run that by (auto simp: padded_def)
qed

lemma stripe_held:
  "stripe_stored c data f m \<Longrightarrow> \<forall>i < rs_n c. ind ! i \<longrightarrow> f_containerIds f ! i \<noteq> INVALID_CONTAINER_ID \<Longrightarrow>
   \<forall>i \<in> set (filter (\<lambda>i. ind ! i) [0..<rs_n c]). held m f (stripe_bytes P c data) i"
  by (auto simp: stripe_stored_def)

lemma stripe_stored_cong: "stripe_stored c data f m \<Longrightarrow> stored_at m' = stored_at m \<Longrightarrow> m_codings m' = m_codings m \<Longrightarrow> stripe_stored c data f m'"
  using held_cong [of m' m] has_code_cong [of m' m] by (simp add: stripe_stored_def)

text \<open>A read of a stored stripe that reports success returns the data, whichever chunks were readable.\<close>

lemma readFileStripe_True:
  assumes "isal (pe_isal P)" and "memory P" and "stripe_stored c data f m" and "f_data f = None"
    and "\<forall>i < rs_n c. ind ! i \<longrightarrow> f_containerIds f ! i \<noteq> INVALID_CONTAINER_ID" and "readFileStripe P garbage ind f m = (m', f', True)"
  shows "stored_at m' = stored_at m" and "take (length data) (the (f_data f')) = data" and "f_length f' = rs_k c * getChunkSize c (length data)"
proof -
  let ?alive = "filter (\<lambda>i. ind ! i) [0..<rs_n c]" and ?D = "stripe_bytes P c data"
  note st = assms(3) [unfolded stripe_stored_def]
  have inst: "meta_instance P (f_codingMeta f) m = (m, Some c)" using st by (intro has_code_instance) simp
  obtain plan dec where plan: "preDecode (pe_isal P) (pe_alloc P) (pe_junk P) c (failed_chunks f ind) False (newDecodingPlan garbage) = (plan, dec)"
    by (cases "preDecode (pe_isal P) (pe_alloc P) (pe_junk P) c (failed_chunks f ind) False (newDecodingPlan garbage)")
  have n: "f_numChunks f = int (rs_n c)" using st by simp
  have d: dec "rs_k c \<le> length (dp_inputChunkIds plan)"
    using assms(6) inst plan by (auto simp: readFileStripe_def readFile_def getNumDataChunks_def split: if_splits)
  have pl: "dp_inputChunkIds plan = ?alive" "dp_minNumChunks plan = rs_k c" using read_plan(1) [OF n plan d(1)] by simp_all
  obtain m2 idx replies ok flags where acc: "accessChunks P GET_CHUNK_REQ GET_CHUNK_REP_SUCCESS f (rs_k c) ?alive m = (m2, idx, replies, ok, flags)"
    by (cases "accessChunks P GET_CHUNK_REQ GET_CHUNK_REP_SUCCESS f (rs_k c) ?alive m")
  have ok: ok and dc: "decodeFile P idx replies f m2 = (m', f', True)"
    using assms(6) inst plan d acc pl by (auto simp: readFileStripe_def readFile_def getNumDataChunks_def split: if_splits bool.splits prod.splits)
  have loop: "access_loop P GET_CHUNK_REQ GET_CHUNK_REP_SUCCESS f (rs_k c) ?alive [] m = (m2, idx, replies, ok, flags)" using acc by (simp add: accessChunks_def)
  note g = access_loop_gets [OF loop stripe_held [OF assms(3,5)], simplified]
  have len: "length replies = rs_k c" using g ok by simp
  have m2: "m_codings m2 = m_codings m"
  proof -
    obtain r where "m2 = m\<lparr>m_eventCount := m_eventCount m + of_nat r, m_world := m_world m2\<rparr>" using access_loop_requests [OF loop] by auto
    from arg_cong [OF this, of m_codings] show ?thesis by simp
  qed
  have sub: "sorted_wrt (<) idx" "set idx \<subseteq> {..<rs_n c}"
    using g subseq_sorted [of idx ?alive "(<)"] subseq_mem [of idx ?alive] by (auto simp: sorted_wrt_filter)
  have code: "has_code P (f_codingMeta f) c m2" using st has_code_cong [OF m2] by simp
  have all: "list_all2 (\<lambda>i ev. good_reply (f_chunks f ! i) (?D i) ev) (take (rs_k c) idx) replies" using g len by simp
  have "rs_k c \<le> length idx" using g len by simp
  from decode_replies(2) [OF assms(1-3) code assms(4) sub this len all dc] g
  show "stored_at m' = stored_at m" and "take (length data) (the (f_data f')) = data" and "f_length f' = rs_k c * getChunkSize c (length data)"
    by simp_all
qed

end

end
