(* ===== verification/Chunk_Ready.thy ===== *)
theory Chunk_Ready
  imports Chunk_Read
begin

text \<open>
  Agents that do not fail: a stripe whose containers are ready is written, and a stripe with enough chunks is read.
\<close>

locale ready_network = agent_network P holds same
  for P :: "'w proxy_env" and holds :: "'w \<Rightarrow> string \<Rightarrow> int \<Rightarrow> chunk \<Rightarrow> byte list option" and same :: "chunk \<Rightarrow> chunk \<Rightarrow> bool" +
  fixes ready :: "'w \<Rightarrow> string \<Rightarrow> int \<Rightarrow> bool" and room :: nat
  assumes get_ready: "holds w a cid ch = Some bs \<Longrightarrow> length bs < 2147483648 \<Longrightarrow> is_int cid \<Longrightarrow> chunk_sendable GET_CHUNK_REQ ch \<Longrightarrow>
      sendChunkRequestToAgent (pe_connect P) (pe_network P) a (one_chunk GET_CHUNK_REQ n cid ch) w = (w', r) \<Longrightarrow> reply_is GET_CHUNK_REP_SUCCESS r"
    and put_ready: "ready w a cid \<Longrightarrow> is_int cid \<Longrightarrow> chunk_sendable PUT_CHUNK_REQ ch \<Longrightarrow> length (chunk_bytes ch) \<le> room \<Longrightarrow>
      sendChunkRequestToAgent (pe_connect P) (pe_network P) a (one_chunk PUT_CHUNK_REQ n cid ch) w = (w', r) \<Longrightarrow>
      reply_is PUT_CHUNK_REP_SUCCESS r \<and> (\<forall>b i. ready w b i \<longrightarrow> ready w' b i)"
    and no_checks: "\<not> pe_verify P"
begin

definition ready_at :: "'w chunk_manager \<Rightarrow> int \<Rightarrow> bool" where
  "ready_at m cid \<longleftrightarrow> (\<exists>a. m_containerToAgentMap m cid = Some a \<and> ready (m_world m) a cid)"

subsection \<open>Writing\<close>

lemma proxy_put_ready:
  assumes "ready_at m cid" and "is_int cid" and "chunk_sendable PUT_CHUNK_REQ ch" and "length (chunk_bytes ch) \<le> room"
    and "proxy_send P cid (one_chunk PUT_CHUNK_REQ n cid ch) m = (m', r)"
  shows "reply_is PUT_CHUNK_REP_SUCCESS r \<and> (\<forall>i. ready_at m i \<longrightarrow> ready_at m' i)"
proof -
  obtain a where a: "m_containerToAgentMap m cid = Some a" "ready (m_world m) a cid" using assms(1) by (auto simp: ready_at_def)
  obtain w' where w': "sendChunkRequestToAgent (pe_connect P) (pe_network P) a (one_chunk PUT_CHUNK_REQ n cid ch) (m_world m) = (w', r)"
      "m' = m\<lparr>m_world := w'\<rparr>"
    using assms(5) a(1) by (auto simp: proxy_send_def split: prod.splits)
  from put_ready [OF a(2) assms(2-4) w'(1)] show ?thesis by (auto simp: ready_at_def w'(2))
qed

lemma put_each_ready:
  assumes "\<forall>i \<in> set is. is_int (C i) \<and> chunk_sendable PUT_CHUNK_REQ (H i) \<and> length (chunk_bytes (H i)) \<le> room \<and> ready_at m (C i)"
    and "send_each P (map (\<lambda>i. (C i, one_chunk PUT_CHUNK_REQ (N i) (C i) (H i))) is) m = (m', rs)"
  shows "list_all (reply_is PUT_CHUNK_REP_SUCCESS) rs"
  using assms
proof (induction "is" arbitrary: m rs)
  case (Cons i "is")
  obtain m1 r where r: "proxy_send P (C i) (one_chunk PUT_CHUNK_REQ (N i) (C i) (H i)) m = (m1, r)"
    by (cases "proxy_send P (C i) (one_chunk PUT_CHUNK_REQ (N i) (C i) (H i)) m")
  obtain rs' where rs': "send_each P (map (\<lambda>i. (C i, one_chunk PUT_CHUNK_REQ (N i) (C i) (H i))) is) m1 = (m', rs')" "rs = r # rs'"
    using Cons.prems(2) r by (auto split: prod.splits)
  have "reply_is PUT_CHUNK_REP_SUCCESS r \<and> (\<forall>i. ready_at m i \<longrightarrow> ready_at m1 i)"
    using proxy_put_ready [OF _ _ _ _ r] Cons.prems(1) by simp
  with Cons.IH [OF _ rs'(1)] Cons.prems(1) show ?case by (simp add: rs'(2))
qed simp

lemma write_chunks_ready:
  assumes "write_chunks P spare n f m = (m', f', res)" and "length spare \<le> n" and "length (f_chunks f) = n"
    and "\<forall>i < n. chunk_sendable PUT_CHUNK_REQ (md5_chunk P f i) \<and> length (chunk_bytes (f_chunks f ! i)) \<le> room"
    and "\<forall>cid \<in> set spare. is_int cid \<and> ready_at m cid"
  shows "\<forall>i < length spare. fst (snd (snd (res ! i)))" and "length res = length spare"
proof -
  let ?l = "length spare" let ?H = "\<lambda>i. (md5_chunk P f i)\<lparr>c_freeData := False\<rparr>" let ?m = "m\<lparr>m_eventCount := m_eventCount m + of_nat n\<rparr>"
  obtain rs where send: "send_each P (map (\<lambda>i. (spare ! i, one_chunk PUT_CHUNK_REQ (m_eventCount m + of_nat i) (spare ! i) (?H i))) [0..<?l]) ?m = (m', rs)"
    and rs: "length rs = ?l" and res: "res = map (\<lambda>i. write_result P (md5_chunk P f i) (rs ! i)) [0..<?l]"
    by (rule write_chunks_run [OF assms(1-3) refl])
  have "ready_at ?m cid = ready_at m cid" for cid by (simp add: ready_at_def)
  moreover have "chunk_bytes (?H i) = chunk_bytes (f_chunks f ! i)" for i by (simp add: chunk_bytes_def computeMD5_def)
  ultimately have "\<forall>i \<in> set [0..<?l]. is_int (spare ! i) \<and> chunk_sendable PUT_CHUNK_REQ (?H i) \<and> length (chunk_bytes (?H i)) \<le> room \<and> ready_at ?m (spare ! i)"
    using assms(2,4,5) by (auto simp: chunk_sendable_def)
  from put_each_ready [OF this send] have "\<forall>i < ?l. reply_is PUT_CHUNK_REP_SUCCESS (rs ! i)" by (simp add: list_all_length rs)
  then show "\<forall>i < ?l. fst (snd (snd (res ! i)))"
    using no_checks by (auto simp: res write_result_def reply_is_def Let_def split: request_result.splits)
  show "length res = ?l" by (simp add: res)
qed

lemma writeFileStripe_ready:
  assumes "isal (pe_isal P)" and "memory P" and "stripe_file P c data f m" and "\<And>bs. length (pe_md5 P bs) = MD5_DIGEST_LENGTH"
    and "\<forall>cid \<in> set spare. is_int cid \<and> ready_at m cid" and "length spare \<le> rs_n c" and "getChunkSize c (length data) \<le> room"
    and "writeFileStripe P spare True isOverwrite True f m = (m', f', ok)"
  shows ok
proof -
  let ?f1 = "encoded_file (pe_isal P) c data f" and ?n = "rs_n c"
  note sf = assms(3) [unfolded stripe_file_def]
  have code: "newRSCode (pe_isal P) (rs_options c) = Some c" using sf by (simp add: has_code_def)
  have n: "getNumDataChunks c + getNumCodeChunks c = ?n" using newRSCode_Some [OF code] by (simp add: getNumDataChunks_def getNumCodeChunks_def)
  have enc: "encodeFile P True f m = (m, ?f1, True)" using sf by (intro encodeFile_eq [OF assms(1,2)]) simp_all
  obtain b where b: "pe_alloc P (int (getNumCodeChunks c * getChunkSize c (length data))) = Some b" using assms(2) unfolding memory_def by blast
  obtain m2 f2 res where w: "write_chunks P spare ?n ?f1 m = (m2, f2, res)" by (cases "write_chunks P spare ?n ?f1 m")
  have ch: "f_chunks ?f1 ! i = encoded_chunk (pe_isal P) c data f i" if "i < ?n" for i using that by (simp add: encoded_file_def)
  have "\<forall>i < ?n. chunk_sendable PUT_CHUNK_REQ (md5_chunk P ?f1 i) \<and> length (chunk_bytes (f_chunks ?f1 ! i)) \<le> room"
    using encoded_sendable(1) [OF assms(3,4)] ch assms(7) by simp
  from write_chunks_ready [OF w assms(6) _ this assms(5)] have "\<forall>i < length spare. fst (snd (snd (res ! i)))" "length res = length spare"
    by (simp_all add: encoded_file_def)
  then have "list_all2 (\<lambda>(_, _, stored, _) cid. stored \<or> cid = INVALID_CONTAINER_ID) res (take ?n spare)"
    using assms(6) by (auto simp: list_all2_conv_all_nth case_prod_unfold)
  then show ok using assms(8) sf b enc w n by (auto simp: writeFileStripe_def Let_def)
qed

subsection \<open>Reading\<close>

lemma accepted_ready:
  assumes "held m f D i" and "c_size (f_chunks f ! i) = int (length (D i))"
    and "proxy_send P (f_containerIds f ! i) (one_chunk GET_CHUNK_REQ n (f_containerIds f ! i) ((f_chunks f ! i)\<lparr>c_freeData := False\<rparr>)) m = (m', r)"
  shows "accept_reply P GET_CHUNK_REQ GET_CHUNK_REP_SUCCESS f i r \<noteq> None"
proof -
  let ?ch = "(f_chunks f ! i)\<lparr>c_freeData := False\<rparr>" and ?cid = "f_containerIds f ! i"
  have "same ?ch (f_chunks f ! i)" by (rule same_ids) simp_all
  then have st: "stored_at m ?cid ?ch = Some (D i)" using assms(1) stored_at_same by (simp add: held_def)
  have h: "length (D i) < 2147483648" "is_int ?cid" "chunk_sendable GET_CHUNK_REQ ?ch"
    using assms(1) by (simp_all add: held_def chunk_sendable_def chunk_bytes_def)
  obtain a where a: "m_containerToAgentMap m ?cid = Some a" "holds (m_world m) a ?cid ?ch = Some (D i)"
    using st by (auto simp: stored_at_def split: option.splits)
  obtain w' where w': "sendChunkRequestToAgent (pe_connect P) (pe_network P) a (one_chunk GET_CHUNK_REQ n ?cid ?ch) (m_world m) = (w', r)"
    using assms(3) a(1) by (auto simp: proxy_send_def split: prod.splits)
  obtain ev where ev: "r = RequestOk ev" "e_opcode ev = GET_CHUNK_REP_SUCCESS"
    using get_ready [OF a(2) h w'] by (auto simp: reply_is_def split: request_result.splits)
  then have "c_size (hd (e_chunks ev)) = int (length (D i))" using get [OF a(2) h w'] by simp
  then show ?thesis using no_checks assms(2) ev by (simp add: accept_reply_def Let_def)
qed

lemma get_each_ready:
  assumes "\<forall>i \<in> set is. held m f D i \<and> c_size (f_chunks f ! i) = int (length (D i))" and "length (ns :: 32 word list) = length is"
    and "send_each P (map2 (\<lambda>i n. (f_containerIds f ! i, (snd (access_request GET_CHUNK_REQ f i))\<lparr>e_id := unat n\<rparr>)) is ns) m = (m', rs)"
  shows "list_all2 (\<lambda>i r. accept_reply P GET_CHUNK_REQ GET_CHUNK_REP_SUCCESS f i r \<noteq> None) is rs"
  using assms
proof (induction "is" arbitrary: ns m rs)
  case (Cons i "is")
  obtain n ns' where ns: "ns = n # ns'" using Cons.prems(2) by (cases ns) auto
  obtain m1 r where r: "proxy_send P (f_containerIds f ! i) (one_chunk GET_CHUNK_REQ n (f_containerIds f ! i) ((f_chunks f ! i)\<lparr>c_freeData := False\<rparr>)) m = (m1, r)"
    by (cases "proxy_send P (f_containerIds f ! i) (one_chunk GET_CHUNK_REQ n (f_containerIds f ! i) ((f_chunks f ! i)\<lparr>c_freeData := False\<rparr>)) m")
  obtain rs' where rs': "send_each P (map2 (\<lambda>i n. (f_containerIds f ! i, (snd (access_request GET_CHUNK_REQ f i))\<lparr>e_id := unat n\<rparr>)) is ns') m1 = (m', rs')"
      "rs = r # rs'"
    using Cons.prems(3) r by (auto simp: ns access_one_chunk split: prod.splits)
  have i: "held m f D i" "c_size (f_chunks f ! i) = int (length (D i))" using Cons.prems(1) by simp_all
  have "\<forall>i \<in> set is. held m1 f D i \<and> c_size (f_chunks f ! i) = int (length (D i))"
    using Cons.prems(1) held_cong [OF accepted_good(1) [OF i(1) r]] by simp
  with Cons.IH [OF _ _ rs'(1)] Cons.prems(2) ns accepted_ready [OF i r] show ?case by (simp add: rs'(2))
qed simp

lemma access_round_ready:
  assumes "\<forall>i \<in> set cur. held m f D i \<and> c_size (f_chunks f ! i) = int (length (D i))"
    and "access_round P GET_CHUNK_REQ GET_CHUNK_REP_SUCCESS f cur m = (m1, res)"
  shows "kept_of res = res"
proof -
  let ?m = "m\<lparr>m_eventCount := m_eventCount m + of_nat (length cur)\<rparr>" and ?ns = "map (\<lambda>i. m_eventCount m + of_nat i) [0..<length cur]"
  obtain rs where rs: "send_numbered P (map (access_request GET_CHUNK_REQ f) cur) m = (m1, rs)"
      "res = map2 (\<lambda>i r. (i, accept_reply P GET_CHUNK_REQ GET_CHUNK_REP_SUCCESS f i r)) cur rs"
    using assms(2) by (auto simp: access_round_def split: prod.splits)
  have send: "send_each P (map2 (\<lambda>i n. (f_containerIds f ! i, (snd (access_request GET_CHUNK_REQ f i))\<lparr>e_id := unat n\<rparr>)) cur ?ns) ?m = (m1, rs)"
    by (rule round_requests [OF rs(1)])
  have st: "stored_at ?m = stored_at m" by (rule stored_at_cong) simp_all
  have "\<forall>i \<in> set cur. held ?m f D i \<and> c_size (f_chunks f ! i) = int (length (D i))" using assms(1) held_cong [OF st] by simp
  from get_each_ready [OF this _ send] show ?thesis by (auto simp: rs(2) list_all2_iff intro!: filter_True)
qed

lemma readFileStripe_ready:
  assumes "isal (pe_isal P)" and "memory P" and "stripe_stored c data f m" and "f_data f = None"
    and "\<forall>i < rs_n c. ind ! i \<longrightarrow> f_containerIds f ! i \<noteq> INVALID_CONTAINER_ID" and "rs_k c \<le> length (filter (\<lambda>i. ind ! i) [0..<rs_n c])"
    and "\<And>ids. survivors c ids \<Longrightarrow> length ids = rs_k c \<Longrightarrow> gf_invert_matrix (pe_isal P) (input_matrix c (pe_junk P) ids) (rs_k c) \<noteq> None"
    and "readFileStripe P garbage ind f m = (m', f', ok)"
  shows ok
proof -
  let ?alive = "filter (\<lambda>i. ind ! i) [0..<rs_n c]" and ?D = "stripe_bytes P c data" let ?cur = "take (rs_k c) ?alive"
  note st = assms(3) [unfolded stripe_stored_def]
  have k: "0 < rs_k c" using st newRSCode_Some [of "pe_isal P" "rs_options c" c] by (simp add: has_code_def)
  have inst: "meta_instance P (f_codingMeta f) m = (m, Some c)" using st by (intro has_code_instance) simp
  obtain plan dec where plan: "preDecode (pe_isal P) (pe_alloc P) (pe_junk P) c (failed_chunks f ind) False (newDecodingPlan garbage) = (plan, dec)"
    by (cases "preDecode (pe_isal P) (pe_alloc P) (pe_junk P) c (failed_chunks f ind) False (newDecodingPlan garbage)")
  have n: "f_numChunks f = int (rs_n c)" using st by simp
  have dec: dec by (rule read_plan(2) [OF n plan assms(6)])
  note pl = read_plan(1) [OF n plan dec]
  note held = stripe_held [OF assms(3,5)]
  obtain m1 res where res: "access_round P GET_CHUNK_REQ GET_CHUNK_REP_SUCCESS f ?cur m = (m1, res)"
    by (cases "access_round P GET_CHUNK_REQ GET_CHUNK_REP_SUCCESS f ?cur m")
  have "\<forall>i \<in> set ?cur. held m f ?D i \<and> c_size (f_chunks f ! i) = int (length (?D i))" using held st by (auto dest: in_set_takeD)
  from access_round_ready [OF this res] access_round_fields(2) [OF res] have kept: "kept_of res = res" "map fst res = ?cur" by simp_all
  let ?replies = "map (\<lambda>(i, a). the a) res"
  have len: "length ?replies = rs_k c" using arg_cong [OF kept(2), of length] assms(6) by simp
  have acc: "accessChunks P GET_CHUNK_REQ GET_CHUNK_REP_SUCCESS f (rs_k c) ?alive m = (m1, ?alive, ?replies, True, map (\<lambda>(i, a). a \<noteq> None) res)"
    using access_loop_turn [where replies = "[]" and idx = ?alive and num = "rs_k c" and res = res, OF _ assms(6) _ refl refl, of P GET_CHUNK_REQ] k res kept len
    by (simp add: accessChunks_def)
  have loop: "access_loop P GET_CHUNK_REQ GET_CHUNK_REP_SUCCESS f (rs_k c) ?alive [] m = (m1, ?alive, ?replies, True, map (\<lambda>(i, a). a \<noteq> None) res)"
    using acc by (simp add: accessChunks_def)
  note g = access_loop_gets [OF loop held, simplified]
  obtain m3 f3 ok3 where dc: "decodeFile P ?alive ?replies f m1 = (m3, f3, ok3)" by (cases "decodeFile P ?alive ?replies f m1")
  have sub: "sorted_wrt (<) ?alive" "set ?alive \<subseteq> {..<rs_n c}" by (auto simp: sorted_wrt_filter)
  have m1: "m_codings m1 = m_codings m" using arg_cong [OF access_round_fields(1) [OF res], of m_codings] by simp
  have code: "has_code P (f_codingMeta f) c m1" using st has_code_cong [OF m1] by simp
  have all: "list_all2 (\<lambda>i ev. good_reply (f_chunks f ! i) (?D i) ev) (take (rs_k c) ?alive) ?replies" using g len by auto
  have surv: "survivors c (take (rs_k c) ?alive)" using sub assms(6) by (auto simp: survivors_def sorted_wrt_take dest: in_set_takeD)
  have ok3 using decode_replies(1) [OF assms(1-3) code assms(4) sub assms(6) len all dc] assms(7) [OF surv] assms(6) by simp
  then show ok using assms(8) inst plan dec pl assms(6) acc dc by (auto simp: readFileStripe_def readFile_def getNumDataChunks_def)
qed

end

end
