(* ===== verification/Chunk_Network.thy ===== *)
theory Chunk_Network
  imports Chunk_Ready Cluster_Repair
begin

text \<open>
  The chunk manager over a cluster of agents: the cluster keeps the contract of \<open>agent_network\<close>, so what
  the chunk manager writes to the agents it reads from them.
\<close>

subsection \<open>The cluster as a network\<close>

lemma network_deliver:
  assumes "event_sendable req" and "e_opcode req \<noteq> RPR_CHUNK_REQ"
  shows "sendChunkRequestToAgent con (handleChunkEvent E) a req cl = sendChunkRequestToAgent con (deliver E) a req cl"
proof -
  have "getChunkEventMessage (message_of (sendChunkEventMessage req)) event_reset =
      Some (received req event_reset, frames_size (map fst (sendChunkEventMessage req)))"
    using ends_event [OF assms(1)] get_event_frames [OF assms(1), of event_reset]
    by (simp add: message_of_all getChunkEventMessage_def frames_size_def)
  then show ?thesis
    using assms(2) by (simp add: sendChunkRequestToAgent_def handleChunkEvent_def received_opcode deliver_def split: option.splits)
qed

lemma in_cluster_cong:
  "\<forall>a. map_option a_containers (cl' a) = map_option a_containers (cl a) \<Longrightarrow> in_cluster stored cl' = in_cluster stored cl"
proof (intro ext)
  fix a cid ch
  assume "\<forall>a. map_option a_containers (cl' a) = map_option a_containers (cl a)"
  then have "map_option a_containers (cl' a) = map_option a_containers (cl a)" by blast
  then show "in_cluster stored cl' a cid ch = in_cluster stored cl a cid ch"
    by (cases "cl a"; cases "cl' a") (simp_all add: in_cluster_def)
qed

lemma same_name_chunkId:
  assumes "same_name env d e" and "c_fuuid d = c_fuuid e"
  shows "c_chunkId d = c_chunkId e"
proof -
  let ?v = "\<lambda>c. int_to_string (c_fileVersion c) @ CHR ''_'' # int_to_string (c_chunkId c)"
  have "nat_to_string (c_namespaceId d) @ CHR ''_'' # se_uts env (c_fuuid d) @ CHR ''_'' # ?v d =
      nat_to_string (c_namespaceId e) @ CHR ''_'' # se_uts env (c_fuuid e) @ CHR ''_'' # ?v e"
    using assms(1) by (simp add: same_name_def getChunkName_def)
  then have "se_uts env (c_fuuid d) @ CHR ''_'' # ?v d = se_uts env (c_fuuid e) @ CHR ''_'' # ?v e"
    using split_at_separator by fastforce
  then have "?v d = ?v e" using assms(2) by simp
  then have "int_to_string (c_fileVersion d) = int_to_string (c_fileVersion e) \<and> int_to_string (c_chunkId d) = int_to_string (c_chunkId e)"
    by (rule split_at_separator) (rule int_to_string_no_underscore)+
  then show ?thesis by simp
qed

locale proxy_cluster = fs_cluster +
  fixes P :: "fs_container cluster proxy_env"
  assumes network: "pe_network P = handleChunkEvent E"
begin

lemma send_one:
  "oc = GET_CHUNK_REQ \<or> oc = PUT_CHUNK_REQ \<Longrightarrow> is_int cid \<Longrightarrow> chunk_sendable oc ch \<Longrightarrow>
   sendChunkRequestToAgent (pe_connect P) (pe_network P) a (one_chunk oc n cid ch) cl =
   sendChunkRequestToAgent (pe_connect P) (deliver E) a (one_chunk oc n cid ch) cl"
  unfolding network by (rule network_deliver [OF one_chunk_sendable]) auto

end

sublocale proxy_cluster \<subseteq> net: agent_network P "in_cluster (fs_stored (env []))" "same_name (env [])"
proof (rule agent_network.intro, goal_cases)
  case (1 d)
  show ?case by (simp add: same_name_def)
next
  case (2 d e)
  then show ?case by (simp add: same_name_def)
next
  case (3 d e g)
  then show ?case by (simp add: same_name_def)
next
  case (4 d e)
  then show ?case by (rule cluster.same_ids)
next
  case (5 d e)
  then show ?case by (rule same_name_chunkId)
next
  case (6 d e w a cid)
  then show ?case by (rule cluster.holds_same)
next
  case (7 w a cid ch bs n w' r)
  have snd: "sendChunkRequestToAgent (pe_connect P) (deliver E) a (one_chunk GET_CHUNK_REQ n cid ch) w = (w', r)"
    using 7(5) send_one [OF _ 7(3,4)] by simp
  show ?case
  proof (cases "pe_connect P a")
    case False
    then show ?thesis using snd by (auto simp: sendChunkRequestToAgent_def)
  next
    case True
    from cluster.get_request [where con = "pe_connect P" and addr = a and evId = n, OF this 7(1-4)] snd show ?thesis
      using in_cluster_cong [where cl = w and ?cl' = w' and stored = "fs_stored (env [])"] by auto
  qed
next
  case (8 cid ch a n w w' r)
  have "sendChunkRequestToAgent (pe_connect P) (deliver E) a (one_chunk PUT_CHUNK_REQ n cid ch) w = (w', r)"
    using 8(3) send_one [OF _ 8(1,2)] by simp
  with cluster.put_request [OF 8(1,2), where con = "pe_connect P" and addr = a and evId = n and cl = w] show ?case by auto
qed

subsection \<open>A cluster in which nothing fails\<close>

locale ready_proxy_cluster = proxy_cluster E env uts P + ready_fs_cluster E env uts room
  for E :: "string \<Rightarrow> fs_container agent_env" and env :: "string \<Rightarrow> storage_env" and uts :: "uuid \<Rightarrow> string"
    and P :: "fs_container cluster proxy_env" and room :: nat +
  assumes proxy_connects: "pe_connect P a" and proxy_trusts: "\<not> pe_verify P"

sublocale ready_proxy_cluster \<subseteq> rdy: ready_network P "in_cluster (fs_stored (env []))" "same_name (env [])" "writable (\<lambda>a. fs_ready)" room
proof (rule ready_network.intro [OF net.agent_network_axioms], rule ready_network_axioms.intro, goal_cases)
  case (1 w a cid ch bs n w' r)
  have "sendChunkRequestToAgent (pe_connect P) (deliver E) a (one_chunk GET_CHUNK_REQ n cid ch) w = (w', r)"
    using 1(5) send_one [OF _ 1(3,4)] by simp
  with cluster.get_request [where con = "pe_connect P" and addr = a and evId = n, OF proxy_connects 1(1-4)] healthy.never_refused show ?case
    by (auto simp: reply_is_def)
next
  case (2 w a cid ch n w' r)
  have con: "pe_connect P = ag_connect (E a)" using proxy_connects reachable by (intro ext) simp
  have "sendChunkRequestToAgent (ag_connect (E a)) (deliver E) a (one_chunk PUT_CHUNK_REQ n cid ch) w = (w', r)"
    using 2(5) send_one [OF _ 2(2,3)] by (simp add: con)
  with healthy.put_request_ready [OF 2(2-4,1), of a n] show ?case by auto
next
  case 3
  show ?case by (rule proxy_trusts)
qed

subsection \<open>Stripes in a cluster\<close>

context proxy_cluster
begin

text \<open>Connections do not matter for what is stored.\<close>

lemma reconnected: "proxy_cluster E env uts (P\<lparr>pe_connect := con\<rparr>)"
  using network by unfold_locales simp

lemma as_network: "agent_network P (in_cluster (fs_stored (env []))) (same_name (env []))"
  by (rule net.agent_network_axioms)

lemma stripe_read_again:
  assumes "isal (pe_isal P)" and "memory P" and "stripe_file P c data f m" and "\<And>bs. length (pe_md5 P bs) = MD5_DIGEST_LENGTH"
    and "\<forall>cid \<in> set spare. is_int cid \<and> cid \<noteq> INVALID_CONTAINER_ID" and "rs_k c \<le> length spare" and "length spare \<le> rs_n c"
    and "writeFileStripe P spare True isOverwrite True f m = (m1, f1, True)"
    and "\<forall>i < rs_n c. ind ! i \<longrightarrow> f_containerIds f1 ! i \<noteq> INVALID_CONTAINER_ID"
    and "readFileStripe (P\<lparr>pe_connect := con\<rparr>) garbage ind (f1\<lparr>f_data := None\<rparr>) m1 = (m2, f2, True)"
  shows "rs_k c \<le> valid_count f1 \<and> take (length data) (the (f_data f2)) = data"
proof -
  let ?P = "P\<lparr>pe_connect := con\<rparr>" and ?f = "f1\<lparr>f_data := None\<rparr>"
  note w = net.writeFileStripe_True [OF assms(1-8)]
  note N = proxy_cluster.as_network [OF reconnected [of con]]
  have "has_code ?P cm c m1 = has_code P cm c m1" for cm by (simp add: has_code_def)
  then have st: "agent_network.stripe_stored ?P (in_cluster (fs_stored (env []))) c data ?f m1"
    using w(1) by (simp add: agent_network.stripe_stored_def [OF N] net.stripe_stored_def agent_network.held_def [OF N] net.held_def)
  have "take (length data) (the (f_data f2)) = data"
    by (rule agent_network.readFileStripe_True(2) [OF N _ _ st _ _ assms(10)]) (use assms(1,2,9) in \<open>simp_all add: memory_def\<close>)
  with w(2) show ?thesis by simp
qed

end

context ready_proxy_cluster
begin

lemma stripe_round_trip:
  assumes "isal (pe_isal P)" and "memory P" and "stripe_file P c data f m" and "\<And>bs. length (pe_md5 P bs) = MD5_DIGEST_LENGTH"
    and "\<forall>cid \<in> set spare. is_int cid \<and> cid \<noteq> INVALID_CONTAINER_ID \<and>
      (\<exists>a. m_containerToAgentMap m cid = Some a \<and> writable (\<lambda>a. fs_ready) (m_world m) a cid)"
    and "rs_k c \<le> length spare" and "length spare \<le> rs_n c" and "getChunkSize c (length data) \<le> room"
    and "\<And>ids. survivors c ids \<Longrightarrow> length ids = rs_k c \<Longrightarrow> gf_invert_matrix (pe_isal P) (input_matrix c (pe_junk P) ids) (rs_k c) \<noteq> None"
    and "writeFileStripe P spare True isOverwrite True f m = (m1, f1, written)"
    and "\<forall>i < rs_n c. ind ! i \<longrightarrow> f_containerIds f1 ! i \<noteq> INVALID_CONTAINER_ID" and "rs_k c \<le> length (filter (\<lambda>i. ind ! i) [0..<rs_n c])"
    and "readFileStripe P garbage ind (f1\<lparr>f_data := None\<rparr>) m1 = (m2, f2, ok)"
  shows "written \<and> ok \<and> take (length data) (the (f_data f2)) = data \<and> f_length f2 = rs_k c * getChunkSize c (length data)"
proof -
  have spare: "\<forall>cid \<in> set spare. is_int cid \<and> rdy.ready_at m cid" "\<forall>cid \<in> set spare. is_int cid \<and> cid \<noteq> INVALID_CONTAINER_ID"
    using assms(5) by (simp_all add: rdy.ready_at_def)
  have w: written by (rule rdy.writeFileStripe_ready [OF assms(1-4) spare(1) assms(7,8,10)])
  have "writeFileStripe P spare True isOverwrite True f m = (m1, f1, True)" using assms(10) w by simp
  from net.writeFileStripe_True(1) [OF assms(1-4) spare(2) assms(6,7) this]
  have st: "net.stripe_stored c data (f1\<lparr>f_data := None\<rparr>) m1" by (simp add: net.stripe_stored_def net.held_def)
  have valid: "\<forall>i < rs_n c. ind ! i \<longrightarrow> f_containerIds (f1\<lparr>f_data := None\<rparr>) ! i \<noteq> INVALID_CONTAINER_ID" using assms(11) by simp
  have ok by (rule rdy.readFileStripe_ready [OF assms(1,2) st _ valid assms(12,9,13)]) simp_all
  then have "readFileStripe P garbage ind (f1\<lparr>f_data := None\<rparr>) m1 = (m2, f2, True)" using assms(13) by simp
  from net.readFileStripe_True(2,3) [OF assms(1,2) st _ valid this] w \<open>ok\<close> show ?thesis by simp
qed

end



text \<open>
  C23.  Access to the chunks of a file ends, with at most one request for each listed chunk: whatever agents
  answer, a chunk that failed is not tried again, and a chunk that was read is not read twice.
\<close>

theorem access_requests_bounded:
  "\<exists>r. r \<le> length chunkIndices \<and>
     fst (accessChunks P reqOp expectedOpRep f numChunks chunkIndices m) =
       m\<lparr>m_eventCount := m_eventCount m + of_nat r, m_world := m_world (fst (accessChunks P reqOp expectedOpRep f numChunks chunkIndices m))\<rparr>"
proof -
  obtain m' rest where a: "accessChunks P reqOp expectedOpRep f numChunks chunkIndices m = (m', rest)"
    by (cases "accessChunks P reqOp expectedOpRep f numChunks chunkIndices m")
  then have "access_loop P reqOp expectedOpRep f numChunks chunkIndices [] m = (m', rest)" by (simp add: accessChunks_def)
  from access_loop_requests [OF this] show ?thesis unfolding a by auto
qed


text \<open>
  C39.  A write of a stripe to which no container is assigned sends nothing and reports success: only chunks
  that could not be stored in a container they were assigned count as failed.
\<close>

theorem stripe_without_containers:
  assumes "isal (pe_isal P)" and "memory P" and "stripe_file P c data f m"
  shows "\<exists>f'. writeFileStripe P [] True isOverwrite True f m = (m\<lparr>m_eventCount := m_eventCount m + of_nat (rs_n c)\<rparr>, f', True) \<and> valid_count f' = 0"
proof -
  let ?f1 = "encoded_file (pe_isal P) c data f" and ?n = "rs_n c"
  note sf = assms(3) [unfolded stripe_file_def]
  have code: "newRSCode (pe_isal P) (rs_options c) = Some c" using sf by (simp add: has_code_def)
  have n: "getNumDataChunks c + getNumCodeChunks c = ?n" using newRSCode_Some [OF code] by (simp add: getNumDataChunks_def getNumCodeChunks_def)
  have enc: "encodeFile P True f m = (m, ?f1, True)" using sf by (intro encodeFile_eq [OF assms(1,2)]) simp_all
  obtain b where b: "pe_alloc P (int (getNumCodeChunks c * getChunkSize c (length data))) = Some b" using assms(2) unfolding memory_def by blast
  show ?thesis using sf b enc n
    by (simp add: writeFileStripe_def write_chunks_def take_ids_def Let_def valid_count_def)
qed

subsection \<open>A proxy and three agents\<close>

definition example_proxy :: "fs_container cluster proxy_env" where
  "example_proxy = \<lparr>pe_network = handleChunkEvent (\<lambda>a. example_agent_env False), pe_connect = (\<lambda>a. True),
     pe_md5 = (\<lambda>bs. 1 # replicate 15 (of_nat (length bs))), pe_uts = (\<lambda>u. ''7''), pe_isal = isal256,
     pe_alloc = (\<lambda>n. Some (replicate (nat n) 0)), pe_junk = [], pe_verify = False, pe_n = 3, pe_k = 2, pe_useCAR = False, pe_repairAtProxy = False\<rparr>"

definition example_meta :: coding_meta where
  "example_meta = codingMeta_reset\<lparr>cm_coding := RS, cm_n := 3, cm_k := 2, cm_f := 1, cm_maxChunkSize := 8\<rparr>"

definition example_manager :: "fs_container cluster chunk_manager" where
  "example_manager = \<lparr>m_storageClasses = [''std'' \<mapsto> \<lparr>sc_className = ''std'', sc_classMeta = example_meta, sc_instance = example_code False\<rparr>],
     m_codings = [''RS_3_2'' \<mapsto> Some (example_code False)], m_eventCount = 0,
     m_containerToAgentMap = [1 \<mapsto> ''a'', 2 \<mapsto> ''b'', 3 \<mapsto> ''c''], m_world = example_cluster\<rparr>"

definition example_stripe :: file_t where
  "example_stripe = (new_file False)\<lparr>f_namespaceId := 1, f_uuid := 7, f_version := 1, f_size := 3, f_offset := 0, f_length := 3,
     f_data := Some [5, 6, 7], f_codingMeta := example_meta, f_storageClass := ''std''\<rparr>"

interpretation example_proxy: ready_proxy_cluster "\<lambda>a. example_agent_env False" "\<lambda>a. example_fs_env False" "\<lambda>u. ''7''" example_proxy 100
  by unfold_locales (simp_all add: example_proxy_def)

lemma example_memory: "memory example_proxy"
  by (simp add: memory_def example_proxy_def)

lemma example_code_key: "genCodingInstanceKey RS 3 2 = Some ''RS_3_2''"
  by code_simp

lemma example_stripe_file: "stripe_file example_proxy (example_code False) [5, 6, 7] example_stripe example_manager"
  using example_code_key example_code_new [of False]
  by (simp add: stripe_file_def has_code_def getCodingInstanceOfClass_def example_stripe_def example_manager_def example_proxy_def example_meta_def
      example_code_def getChunkSize_def stripe_offset_def is_int_def)

lemma example_survivors_list: "survivors (example_code False) ids \<Longrightarrow> length ids = 2 \<Longrightarrow> ids \<in> {[0, 1], [0, 2], [1, 2]}"
  by (auto simp: survivors_def example_code_def length_Suc_conv numeral_2_eq_2 numeral_3_eq_3 lessThan_Suc)

lemma example_invertible:
  assumes "survivors (example_code False) ids" and "length ids = rs_k (example_code False)"
  shows "gf_invert_matrix isal256 (input_matrix (example_code False) [] ids) (rs_k (example_code False)) \<noteq> None"
proof -
  have "invert256 (input_matrix (example_code False) [] [0, 1]) 2 \<noteq> None" "invert256 (input_matrix (example_code False) [] [0, 2]) 2 \<noteq> None"
      "invert256 (input_matrix (example_code False) [] [1, 2]) 2 \<noteq> None"
    by code_simp+
  moreover have "ids \<in> {[0, 1], [0, 2], [1, 2]}" using example_survivors_list [of ids] assms by (simp add: example_code_def)
  ultimately show ?thesis by (auto simp: isal256_def example_code_def)
qed

lemma example_spare:
  "\<forall>cid \<in> set [1, 2, 3]. is_int cid \<and> cid \<noteq> INVALID_CONTAINER_ID \<and>
     (\<exists>a. m_containerToAgentMap example_manager cid = Some a \<and> writable (\<lambda>a. fs_ready) (m_world example_manager) a cid)"
  by (simp add: is_int_def INVALID_CONTAINER_ID_def example_manager_def writable_def example_cluster_def example_store_def newAgent_def
      newFsContainer_def updateUsage_def fs_ready_def)

text \<open>All chunks of a file that have a container.\<close>

abbreviation valid_chunks :: "file_t \<Rightarrow> bool list" where
  "valid_chunks f \<equiv> map (\<lambda>cid. cid \<noteq> INVALID_CONTAINER_ID) (f_containerIds f)"

lemma valid_chunks_count:
  "length (f_containerIds f) = n \<Longrightarrow> length (filter (\<lambda>i. valid_chunks f ! i) [0..<n]) = valid_count f"
  by (auto simp: valid_count_def length_filter_conv_card intro!: arg_cong [where f = card])

lemma example_written:
  assumes "writeFileStripe example_proxy [1, 2, 3] True False True example_stripe example_manager = (m1, f1, ok)"
  shows "ok" "length (f_containerIds f1) = 3" "2 \<le> valid_count f1"
proof -
  have I: "isal (pe_isal example_proxy)" by (simp add: example_proxy_def isal256.isal_axioms)
  have md5: "length (pe_md5 example_proxy bs) = MD5_DIGEST_LENGTH" for bs by (simp add: example_proxy_def MD5_DIGEST_LENGTH_def)
  have sz: "length [1, 2, 3 :: int] \<le> rs_n (example_code False)" "getChunkSize (example_code False) (length [5, 6, 7 :: byte]) \<le> 100"
      "rs_k (example_code False) \<le> length [1, 2, 3 :: int]" "rs_k (example_code False) = 2" "rs_n (example_code False) = 3"
    by (simp_all add: example_code_def getChunkSize_def)
  have r: "\<forall>cid \<in> set [1, 2, 3]. is_int cid \<and> example_proxy.rdy.ready_at example_manager cid"
    using example_spare unfolding example_proxy.rdy.ready_at_def by blast
  show ok by (rule example_proxy.rdy.writeFileStripe_ready [OF I example_memory example_stripe_file md5 r sz(1,2) assms])
  then have w: "writeFileStripe example_proxy [1, 2, 3] True False True example_stripe example_manager = (m1, f1, True)" using assms by simp
  have v: "\<forall>cid \<in> set [1, 2, 3]. is_int cid \<and> cid \<noteq> INVALID_CONTAINER_ID" using example_spare by blast
  note t = example_proxy.net.writeFileStripe_True [OF I example_memory example_stripe_file md5 v sz(3,1) w]
  show "2 \<le> valid_count f1" using t(2) sz(4) by simp
  show "length (f_containerIds f1) = 3" using t(1) sz(5) unfolding example_proxy.net.stripe_stored_def by metis
qed

lemma example_readable:
  assumes "writeFileStripe example_proxy [1, 2, 3] True False True example_stripe example_manager = (m1, f1, ok)"
  shows "\<forall>i < rs_n (example_code False). valid_chunks f1 ! i \<longrightarrow> f_containerIds f1 ! i \<noteq> INVALID_CONTAINER_ID"
    "rs_k (example_code False) \<le> length (filter (\<lambda>i. valid_chunks f1 ! i) [0..<rs_n (example_code False)])"
  using example_written [OF assms] valid_chunks_count [of f1 3] by (simp_all add: example_code_def)

lemma example_proxy_facts:
  "isal (pe_isal example_proxy)" "\<And>bs. length (pe_md5 example_proxy bs) = MD5_DIGEST_LENGTH"
  "rs_k (example_code False) \<le> length [1, 2, 3 :: int]" "length [1, 2, 3 :: int] \<le> rs_n (example_code False)"
  "getChunkSize (example_code False) (length [5, 6, 7 :: byte]) \<le> 100" "pe_isal example_proxy = isal256" "pe_junk example_proxy = []"
  by (simp_all add: example_proxy_def isal256.isal_axioms MD5_DIGEST_LENGTH_def example_code_def getChunkSize_def)

lemma example_read:
  assumes "writeFileStripe example_proxy [1, 2, 3] True False True example_stripe example_manager = (m1, f1, ok1)"
    and "readFileStripe example_proxy 0 (valid_chunks f1) (f1\<lparr>f_data := None\<rparr>) m1 = (m2, f2, ok2)"
  shows ok2
  using example_proxy.stripe_round_trip [OF example_proxy_facts(1) example_memory example_stripe_file example_proxy_facts(2) example_spare
      example_proxy_facts(3-5) _ assms(1) example_readable [OF assms(1)] assms(2)] example_invertible by (simp add: example_proxy_facts(6,7))




theorem stripe_without_containers_witness:
  "\<exists>f'. writeFileStripe example_proxy [] True False True example_stripe example_manager =
     (example_manager\<lparr>m_eventCount := 3\<rparr>, f', True) \<and> valid_count f' = 0"
  using stripe_without_containers [OF example_proxy_facts(1) example_memory example_stripe_file, of False]
  by (simp add: example_manager_def example_code_def)

end
