(* ===== verification/Redis_Store.thy ===== *)
theory Redis_Store
  imports Redis_Interface "HOL-Library.Multiset"
begin

text \<open>
  The other commands of the Redis server that the metadata store sends: sets, sorted sets, plain values and
  the types of keys.  As in \<open>Redis_Interface\<close> the server is a parameter.  A command on a key that holds a
  value of another type is answered with an error and changes nothing.  The locale \<open>store_server\<close> states the documented
  effect of each command on the value of its key; \<open>list_store\<close> is a server over association lists.
\<close>

subsection \<open>Commands\<close>

datatype key_type = THash | TSet | TString | TZSet

record 'db store =
  d_redis :: "'db redis"
  d_type :: "'db \<Rightarrow> string \<Rightarrow> key_type option"
  d_hgetall :: "'db \<Rightarrow> string \<Rightarrow> (string \<times> string) list"
  d_hdel :: "string \<Rightarrow> string list \<Rightarrow> 'db \<Rightarrow> 'db"
  d_members :: "'db \<Rightarrow> string \<Rightarrow> string list"
  d_random :: "'db \<Rightarrow> string \<Rightarrow> string list"
  d_sadd :: "string \<Rightarrow> string \<Rightarrow> 'db \<Rightarrow> 'db"
  d_srem :: "string \<Rightarrow> string \<Rightarrow> 'db \<Rightarrow> 'db"
  d_get :: "'db \<Rightarrow> string \<Rightarrow> string option"
  d_set :: "string \<Rightarrow> string \<Rightarrow> 'db \<Rightarrow> 'db"
  d_zrange :: "'db \<Rightarrow> string \<Rightarrow> (string \<times> int) list"
  d_zadd :: "string \<Rightarrow> int \<Rightarrow> string \<Rightarrow> 'db \<Rightarrow> 'db"
  d_zrem :: "string \<Rightarrow> string list \<Rightarrow> 'db \<Rightarrow> 'db"
  d_keys :: "'db \<Rightarrow> string \<Rightarrow> string list"
  d_dbsize :: "'db \<Rightarrow> nat"
  d_sscan :: "'db \<Rightarrow> string \<Rightarrow> string \<Rightarrow> string \<Rightarrow> string \<times> string list"
  d_zscan :: "'db \<Rightarrow> string \<Rightarrow> string \<Rightarrow> string \<times> (string \<times> int) list"

definition typed :: "'db store \<Rightarrow> key_type \<Rightarrow> string \<Rightarrow> 'db \<Rightarrow> bool" where
  "typed D t k db \<longleftrightarrow> (case d_type D db k of None \<Rightarrow> True | Some u \<Rightarrow> u = t)"

text \<open>A command for keys of one type.\<close>

definition on_type :: "'db store \<Rightarrow> key_type \<Rightarrow> string \<Rightarrow> ('db \<Rightarrow> 'db \<times> reply) \<Rightarrow> 'db \<Rightarrow> 'db \<times> reply" where
  "on_type D t k f db = (if typed D t k db then f db else (db, RError))"

abbreviation bulk :: "string option \<Rightarrow> reply" where
  "bulk v \<equiv> (case v of None \<Rightarrow> RNil | Some s \<Rightarrow> RString s)"

definition HGET :: "'db store \<Rightarrow> string \<Rightarrow> string \<Rightarrow> 'db \<Rightarrow> 'db \<times> reply" where
  "HGET D k f = on_type D THash k (\<lambda>db. (db, bulk (r_hget (d_redis D) db k f)))"

definition HMGET :: "'db store \<Rightarrow> string \<Rightarrow> string list \<Rightarrow> 'db \<Rightarrow> 'db \<times> reply" where
  "HMGET D k fs = on_type D THash k (hmget (d_redis D) k fs)"

definition HMSET :: "'db store \<Rightarrow> string \<Rightarrow> (string \<times> string) list \<Rightarrow> 'db \<Rightarrow> 'db \<times> reply" where
  "HMSET D k fvs = on_type D THash k (\<lambda>db. (r_hset (d_redis D) k fvs db, RStatus ''OK''))"

definition HSET :: "'db store \<Rightarrow> string \<Rightarrow> string \<Rightarrow> string \<Rightarrow> 'db \<Rightarrow> 'db \<times> reply" where
  "HSET D k f v = on_type D THash k
     (\<lambda>db. (r_hset (d_redis D) k [(f, v)] db, RInteger (if r_hget (d_redis D) db k f = None then 1 else 0)))"

definition RENAME :: "'db store \<Rightarrow> string \<Rightarrow> string \<Rightarrow> 'db \<Rightarrow> 'db \<times> reply" where
  "RENAME D k k1 = rename_key (d_redis D) k k1"

definition RENAMENX :: "'db store \<Rightarrow> string \<Rightarrow> string \<Rightarrow> 'db \<Rightarrow> 'db \<times> reply" where
  "RENAMENX D k k1 db =
     (if \<not> r_exists (d_redis D) db k then (db, RError)
      else if r_exists (d_redis D) db k1 then (db, RInteger 0)
      else (r_rename (d_redis D) k k1 db, RInteger 1))"

definition DEL :: "'db store \<Rightarrow> string \<Rightarrow> 'db \<Rightarrow> 'db \<times> reply" where
  "DEL D k = del_key (d_redis D) k"

definition SET :: "'db store \<Rightarrow> string \<Rightarrow> string \<Rightarrow> 'db \<Rightarrow> 'db \<times> reply" where
  "SET D k v db = (d_set D k v db, RStatus ''OK'')"

definition GET :: "'db store \<Rightarrow> string \<Rightarrow> 'db \<Rightarrow> 'db \<times> reply" where
  "GET D k = on_type D TString k (\<lambda>db. (db, bulk (d_get D db k)))"

definition SADD :: "'db store \<Rightarrow> string \<Rightarrow> string \<Rightarrow> 'db \<Rightarrow> 'db \<times> reply" where
  "SADD D k m = on_type D TSet k (\<lambda>db. (d_sadd D k m db, RInteger (if m \<in> set (d_members D db k) then 0 else 1)))"

definition SREM :: "'db store \<Rightarrow> string \<Rightarrow> string \<Rightarrow> 'db \<Rightarrow> 'db \<times> reply" where
  "SREM D k m = on_type D TSet k (\<lambda>db. (d_srem D k m db, RInteger (if m \<in> set (d_members D db k) then 1 else 0)))"

definition SCARD :: "'db store \<Rightarrow> string \<Rightarrow> 'db \<Rightarrow> 'db \<times> reply" where
  "SCARD D k = on_type D TSet k (\<lambda>db. (db, RInteger (int (length (d_members D db k)))))"

definition SMEMBERS :: "'db store \<Rightarrow> string \<Rightarrow> 'db \<Rightarrow> 'db \<times> reply" where
  "SMEMBERS D k = on_type D TSet k (\<lambda>db. (db, RArray (map RString (d_members D db k))))"

definition SISMEMBER :: "'db store \<Rightarrow> string \<Rightarrow> string \<Rightarrow> 'db \<Rightarrow> 'db \<times> reply" where
  "SISMEMBER D k m = on_type D TSet k (\<lambda>db. (db, RInteger (if m \<in> set (d_members D db k) then 1 else 0)))"

text \<open>\<^verbatim>\<open>SPOP\<close> of some members, and of one.\<close>

definition SPOPN :: "'db store \<Rightarrow> string \<Rightarrow> nat \<Rightarrow> 'db \<Rightarrow> 'db \<times> reply" where
  "SPOPN D k n = on_type D TSet k (\<lambda>db. let ms = take n (d_random D db k) in (foldl (\<lambda>db m. d_srem D k m db) db ms, RArray (map RString ms)))"

definition SPOP :: "'db store \<Rightarrow> string \<Rightarrow> 'db \<Rightarrow> 'db \<times> reply" where
  "SPOP D k = on_type D TSet k (\<lambda>db. case d_random D db k of [] \<Rightarrow> (db, RNil) | m # _ \<Rightarrow> (d_srem D k m db, RString m))"

definition SMOVE :: "'db store \<Rightarrow> string \<Rightarrow> string \<Rightarrow> string \<Rightarrow> 'db \<Rightarrow> 'db \<times> reply" where
  "SMOVE D k k1 m = on_type D TSet k (on_type D TSet k1
     (\<lambda>db. if m \<in> set (d_members D db k) then (d_sadd D k1 m (d_srem D k m db), RInteger 1) else (db, RInteger 0)))"

definition SDIFFSTORE :: "'db store \<Rightarrow> string \<Rightarrow> string \<Rightarrow> string \<Rightarrow> 'db \<Rightarrow> 'db \<times> reply" where
  "SDIFFSTORE D dst k k1 = on_type D TSet k (on_type D TSet k1
     (\<lambda>db. let ms = filter (\<lambda>m. m \<notin> set (d_members D db k1)) (d_members D db k)
           in (foldl (\<lambda>db m. d_sadd D dst m db) (r_del (d_redis D) dst db) ms, RInteger (int (length ms)))))"

definition ZADD :: "'db store \<Rightarrow> string \<Rightarrow> int \<Rightarrow> string \<Rightarrow> 'db \<Rightarrow> 'db \<times> reply" where
  "ZADD D k sc m = on_type D TZSet k (\<lambda>db. (d_zadd D k sc m db, RInteger (if m \<in> fst ` set (d_zrange D db k) then 0 else 1)))"

definition ZCARD :: "'db store \<Rightarrow> string \<Rightarrow> 'db \<Rightarrow> 'db \<times> reply" where
  "ZCARD D k = on_type D TZSet k (\<lambda>db. (db, RInteger (int (length (d_zrange D db k)))))"

text \<open>\<^verbatim>\<open>ZRANGEBYSCORE\<close> and \<^verbatim>\<open>ZREMRANGEBYSCORE\<close> for one score, \<^verbatim>\<open>ZREVRANGEBYSCORE\<close> for the highest one.\<close>

definition ZRANGEBYSCORE :: "'db store \<Rightarrow> string \<Rightarrow> int \<Rightarrow> 'db \<Rightarrow> 'db \<times> reply" where
  "ZRANGEBYSCORE D k sc = on_type D TZSet k (\<lambda>db. (db, RArray (map (\<lambda>(m, s). RString m) (filter (\<lambda>(m, s). s = sc) (d_zrange D db k)))))"

definition ZREMRANGEBYSCORE :: "'db store \<Rightarrow> string \<Rightarrow> int \<Rightarrow> 'db \<Rightarrow> 'db \<times> reply" where
  "ZREMRANGEBYSCORE D k sc = on_type D TZSet k
     (\<lambda>db. let ms = map fst (filter (\<lambda>(m, s). s = sc) (d_zrange D db k)) in (d_zrem D k ms db, RInteger (int (length ms))))"

definition ZMAX :: "'db store \<Rightarrow> string \<Rightarrow> 'db \<Rightarrow> 'db \<times> reply" where
  "ZMAX D k = on_type D TZSet k
     (\<lambda>db. (db, RArray (if d_zrange D db k = [] then []
        else [RString (fst (last (d_zrange D db k))), RString (int_to_string (snd (last (d_zrange D db k))))])))"

definition ZRANGE :: "'db store \<Rightarrow> string \<Rightarrow> nat \<Rightarrow> 'db \<Rightarrow> 'db \<times> reply" where
  "ZRANGE D k n = on_type D TZSet k (\<lambda>db. (db, RArray (map (\<lambda>(m, s). RString m) (take (n + 1) (d_zrange D db k)))))"

definition ZINCRBY :: "'db store \<Rightarrow> string \<Rightarrow> int \<Rightarrow> string \<Rightarrow> 'db \<Rightarrow> 'db \<times> reply" where
  "ZINCRBY D k i m = on_type D TZSet k
     (\<lambda>db. let sc = (case map_of (d_zrange D db k) m of None \<Rightarrow> i | Some s \<Rightarrow> s + i) in (d_zadd D k sc m db, RString (int_to_string sc)))"

definition ZREM :: "'db store \<Rightarrow> string \<Rightarrow> string \<Rightarrow> 'db \<Rightarrow> 'db \<times> reply" where
  "ZREM D k m = on_type D TZSet k (\<lambda>db. (d_zrem D k [m] db, RInteger (if m \<in> fst ` set (d_zrange D db k) then 1 else 0)))"

text \<open>\<^verbatim>\<open>KEYS\<close> with a pattern.\<close>

definition KEYS :: "'db store \<Rightarrow> string \<Rightarrow> 'db \<Rightarrow> 'db \<times> reply" where
  "KEYS D pattern db = (db, RArray (map RString (d_keys D db pattern)))"

definition DBSIZE :: "'db store \<Rightarrow> 'db \<Rightarrow> 'db \<times> reply" where
  "DBSIZE D db = (db, RInteger (int (d_dbsize D db)))"

text \<open>\<^verbatim>\<open>SSCAN\<close> with a pattern and \<^verbatim>\<open>ZSCAN\<close>: the next cursor and some elements.\<close>

definition SSCAN :: "'db store \<Rightarrow> string \<Rightarrow> string \<Rightarrow> string \<Rightarrow> 'db \<Rightarrow> 'db \<times> reply" where
  "SSCAN D k cursor pattern = on_type D TSet k
     (\<lambda>db. case d_sscan D db k cursor pattern of (c, ms) \<Rightarrow> (db, RArray [RString c, RArray (map RString ms)]))"

definition ZSCAN :: "'db store \<Rightarrow> string \<Rightarrow> string \<Rightarrow> 'db \<Rightarrow> 'db \<times> reply" where
  "ZSCAN D k cursor = on_type D TZSet k
     (\<lambda>db. case d_zscan D db k cursor of (c, ms) \<Rightarrow>
        (db, RArray [RString c, RArray (concat (map (\<lambda>(m, sc). [RString m, RString (int_to_string sc)]) ms))]))"

text \<open>A full scan: from cursor zero until the server answers with cursor zero.\<close>

partial_function (option) sscan_all :: "'db store \<Rightarrow> 'db \<Rightarrow> string \<Rightarrow> string \<Rightarrow> string \<Rightarrow> string list option" where
  "sscan_all D db k cursor pattern =
     (case d_sscan D db k cursor pattern of (c, ms) \<Rightarrow>
        if c = ''0'' then Some ms
        else Option.bind (sscan_all D db k c pattern) (\<lambda>r. Some (ms @ r)))"

text \<open>A request, and requests of which the first that gets no answer ends the sequence.\<close>

abbreviation call :: "'db store \<Rightarrow> ('db \<Rightarrow> 'db \<times> reply) \<Rightarrow> 'db \<Rightarrow> 'db \<times> reply option" where
  "call D f db \<equiv> redis_call (d_redis D) f db"

fun pipeline :: "'db store \<Rightarrow> ('db \<Rightarrow> 'db \<times> reply) list \<Rightarrow> 'db \<Rightarrow> 'db \<times> reply list \<times> bool" where
  "pipeline D [] db = (db, [], True)"
| "pipeline D (f # fs) db = (case call D f db of
      (db1, None) \<Rightarrow> (db1, [], False)
    | (db1, Some r) \<Rightarrow> (case pipeline D fs db1 of (db2, rs, ok) \<Rightarrow> (db2, r # rs, ok)))"

subsection \<open>The contract\<close>

text \<open>What a key holds.\<close>

datatype redis_value = HashValue "string \<rightharpoonup> string" | SetValue "string set" | StringValue string | ZSetValue "string \<rightharpoonup> int"

fun value_type :: "redis_value \<Rightarrow> key_type" where
  "value_type (HashValue _) = THash"
| "value_type (SetValue _) = TSet"
| "value_type (StringValue _) = TString"
| "value_type (ZSetValue _) = TZSet"

definition hash_of :: "redis_value option \<Rightarrow> string \<rightharpoonup> string" where
  "hash_of v = (case v of Some (HashValue h) \<Rightarrow> h | _ \<Rightarrow> Map.empty)"

definition set_of :: "redis_value option \<Rightarrow> string set" where
  "set_of v = (case v of Some (SetValue s) \<Rightarrow> s | _ \<Rightarrow> {})"

definition zset_of :: "redis_value option \<Rightarrow> string \<rightharpoonup> int" where
  "zset_of v = (case v of Some (ZSetValue z) \<Rightarrow> z | _ \<Rightarrow> Map.empty)"

definition string_of :: "redis_value option \<Rightarrow> string option" where
  "string_of v = (case v of Some (StringValue s) \<Rightarrow> Some s | _ \<Rightarrow> None)"

lemma value_parts [simp]:
  "hash_of (Some (HashValue h)) = h" "hash_of None = Map.empty" "set_of (Some (SetValue s)) = s" "set_of None = {}"
  "zset_of (Some (ZSetValue z)) = z" "zset_of None = Map.empty" "string_of (Some (StringValue t)) = Some t" "string_of None = None"
  by (simp_all add: hash_of_def set_of_def zset_of_def string_of_def)

text \<open>A key whose last field or member is removed is removed.\<close>

definition some_hash :: "(string \<rightharpoonup> string) \<Rightarrow> redis_value option" where
  "some_hash h = (if h = Map.empty then None else Some (HashValue h))"

definition some_set :: "string set \<Rightarrow> redis_value option" where
  "some_set s = (if s = {} then None else Some (SetValue s))"

definition some_zset :: "(string \<rightharpoonup> int) \<Rightarrow> redis_value option" where
  "some_zset z = (if z = Map.empty then None else Some (ZSetValue z))"

text \<open>Characters that have no special meaning in a pattern.\<close>

definition plain_pattern :: "string \<Rightarrow> bool" where
  "plain_pattern p \<longleftrightarrow> set p \<inter> {CHR ''*'', CHR ''?'', CHR ''['', CHR 0x5C} = {}"

locale store_server =
  fixes D :: "'db store" and val :: "'db \<Rightarrow> string \<rightharpoonup> redis_value"
  assumes hget_val: "r_hget (d_redis D) db k = hash_of (val db k)"
    and exists_val: "r_exists (d_redis D) db k \<longleftrightarrow> val db k \<noteq> None"
    and type_val: "d_type D db k = map_option value_type (val db k)"
    and val_hset: "typed D THash k db \<Longrightarrow> fvs \<noteq> [] \<Longrightarrow>
      val (r_hset (d_redis D) k fvs db) = (val db)(k \<mapsto> HashValue (hash_of (val db k) ++ map_of (rev fvs)))"
    and val_del: "val (r_del (d_redis D) k db) = (val db)(k := None)"
    and val_rename: "val db k \<noteq> None \<Longrightarrow> val (r_rename (d_redis D) k k1 db) = (val db)(k := None, k1 := val db k)"
    and val_hdel: "typed D THash k db \<Longrightarrow> val (d_hdel D k fs db) = (val db)(k := some_hash (hash_of (val db k) |` (- set fs)))"
    and hgetall: "map_of (d_hgetall D db k) = hash_of (val db k)" "distinct (map fst (d_hgetall D db k))"
    and members: "set (d_members D db k) = set_of (val db k)" "distinct (d_members D db k)"
    and random: "set (d_random D db k) = set_of (val db k)" "distinct (d_random D db k)"
    and val_sadd: "typed D TSet k db \<Longrightarrow> val (d_sadd D k m db) = (val db)(k \<mapsto> SetValue (insert m (set_of (val db k))))"
    and val_srem: "typed D TSet k db \<Longrightarrow> val (d_srem D k m db) = (val db)(k := some_set (set_of (val db k) - {m}))"
    and get_val: "d_get D db k = string_of (val db k)"
    and val_set: "val (d_set D k v db) = (val db)(k \<mapsto> StringValue v)"
    and zrange: "map_of (d_zrange D db k) = zset_of (val db k)" "distinct (map fst (d_zrange D db k))" "sorted (map snd (d_zrange D db k))"
    and val_zadd: "typed D TZSet k db \<Longrightarrow> val (d_zadd D k sc m db) = (val db)(k \<mapsto> ZSetValue ((zset_of (val db k))(m \<mapsto> sc)))"
    and val_zrem: "typed D TZSet k db \<Longrightarrow> val (d_zrem D k ms db) = (val db)(k := some_zset (zset_of (val db k) |` (- set ms)))"
    and keys: "plain_pattern p \<Longrightarrow> set (d_keys D db (p @ ''*'')) = {k. val db k \<noteq> None \<and> take (length p) k = p}" "distinct (d_keys D db p)"
    and dbsize: "d_dbsize D db = card (dom (val db))"
    and sscan: "plain_pattern p \<Longrightarrow>
      \<exists>ms. sscan_all D db k ''0'' (p @ ''*'') = Some ms \<and> set ms = {m \<in> set_of (val db k). take (length p) m = p}"
    and zscan: "set (snd (d_zscan D db k c)) \<subseteq> set (d_zrange D db k)"
begin

lemma typed_val: "typed D t k db \<longleftrightarrow> (\<forall>v. val db k = Some v \<longrightarrow> value_type v = t)"
  by (auto simp: typed_def type_val split: option.splits)

end

subsection \<open>A server over association lists\<close>

datatype list_value = LHash "(string \<times> string) list" | LSet "string list" | LString string | LZSet "(string \<times> int) list"

type_synonym list_db = "(string \<times> list_value) list"

definition ls_hash :: "list_db \<Rightarrow> string \<Rightarrow> (string \<times> string) list" where
  "ls_hash db k = (case map_of db k of Some (LHash h) \<Rightarrow> h | _ \<Rightarrow> [])"

definition ls_set :: "list_db \<Rightarrow> string \<Rightarrow> string list" where
  "ls_set db k = (case map_of db k of Some (LSet xs) \<Rightarrow> remdups xs | _ \<Rightarrow> [])"

definition ls_zset :: "list_db \<Rightarrow> string \<Rightarrow> (string \<times> int) list" where
  "ls_zset db k = (case map_of db k of Some (LZSet z) \<Rightarrow> sort_key snd (AList.clearjunk z) | _ \<Rightarrow> [])"

definition ls_put :: "string \<Rightarrow> list_value \<Rightarrow> list_db \<Rightarrow> list_db" where
  "ls_put k v db = (k, v) # AList.delete k db"

definition ls_rename :: "string \<Rightarrow> string \<Rightarrow> list_db \<Rightarrow> list_db" where
  "ls_rename k k1 db = (case map_of db k of None \<Rightarrow> db | Some v \<Rightarrow> ls_put k1 v (AList.delete k db))"

definition list_redis :: "(list_db \<Rightarrow> fate) \<Rightarrow> list_db redis" where
  "list_redis fate =
     \<lparr>r_fate = fate,
      r_hget = (\<lambda>db k. map_of (ls_hash db k)),
      r_hset = (\<lambda>k fvs db. ls_put k (LHash (rev fvs @ ls_hash db k)) db),
      r_exists = (\<lambda>db k. map_of db k \<noteq> None),
      r_del = AList.delete,
      r_rename = ls_rename\<rparr>"

definition ls_matches :: "string \<Rightarrow> string \<Rightarrow> bool" where
  "ls_matches pattern s \<longleftrightarrow>
     (if pattern \<noteq> [] \<and> last pattern = CHR ''*'' then take (length pattern - 1) s = butlast pattern else s = pattern)"

fun list_type :: "list_value \<Rightarrow> key_type" where
  "list_type (LHash _) = THash"
| "list_type (LSet _) = TSet"
| "list_type (LString _) = TString"
| "list_type (LZSet _) = TZSet"

definition list_store :: "(list_db \<Rightarrow> fate) \<Rightarrow> list_db store" where
  "list_store fate =
     \<lparr>d_redis = list_redis fate,
      d_type = (\<lambda>db k. map_option list_type (map_of db k)),
      d_hgetall = (\<lambda>db k. AList.clearjunk (ls_hash db k)),
      d_hdel = (\<lambda>k fs db. let h = filter (\<lambda>(f, v). f \<notin> set fs) (ls_hash db k) in if h = [] then AList.delete k db else ls_put k (LHash h) db),
      d_members = ls_set,
      d_random = ls_set,
      d_sadd = (\<lambda>k m db. ls_put k (LSet (m # ls_set db k)) db),
      d_srem = (\<lambda>k m db. let s = removeAll m (ls_set db k) in if s = [] then AList.delete k db else ls_put k (LSet s) db),
      d_get = (\<lambda>db k. case map_of db k of Some (LString s) \<Rightarrow> Some s | _ \<Rightarrow> None),
      d_set = (\<lambda>k v. ls_put k (LString v)),
      d_zrange = ls_zset,
      d_zadd = (\<lambda>k sc m db. ls_put k (LZSet ((m, sc) # ls_zset db k)) db),
      d_zrem = (\<lambda>k ms db. let z = filter (\<lambda>(m, sc). m \<notin> set ms) (ls_zset db k) in if z = [] then AList.delete k db else ls_put k (LZSet z) db),
      d_keys = (\<lambda>db p. filter (ls_matches p) (remdups (map fst db))),
      d_dbsize = (\<lambda>db. length (remdups (map fst db))),
      d_sscan = (\<lambda>db k c p. (''0'', filter (ls_matches p) (ls_set db k))),
      d_zscan = (\<lambda>db k c. (''0'', ls_zset db k))\<rparr>"

fun abs_value :: "list_value \<Rightarrow> redis_value" where
  "abs_value (LHash h) = HashValue (map_of h)"
| "abs_value (LSet xs) = SetValue (set xs)"
| "abs_value (LString s) = StringValue s"
| "abs_value (LZSet z) = ZSetValue (map_of z)"

definition ls_val :: "list_db \<Rightarrow> string \<rightharpoonup> redis_value" where
  "ls_val db k = map_option abs_value (map_of db k)"

lemma ls_val_put: "ls_val (ls_put k v db) = (ls_val db)(k \<mapsto> abs_value v)"
  by (auto simp: ls_val_def ls_put_def delete_conv)

lemma ls_val_delete: "ls_val (AList.delete k db) = (ls_val db)(k := None)"
  by (auto simp: ls_val_def delete_conv)

lemma ls_hash_val: "map_of (ls_hash db k) = hash_of (ls_val db k)"
  by (cases "map_of db k") (simp_all add: ls_hash_def hash_of_def ls_val_def split: list_value.splits)

lemma ls_set_val: "set (ls_set db k) = set_of (ls_val db k)" "distinct (ls_set db k)"
proof -
  show "set (ls_set db k) = set_of (ls_val db k)"
    by (cases "map_of db k"; cases "the (map_of db k)") (simp_all add: ls_set_def set_of_def ls_val_def)
  show "distinct (ls_set db k)"
    by (simp add: ls_set_def split: option.split list_value.split)
qed

lemma distinct_sort_key: "distinct (map fst xs) \<Longrightarrow> distinct (map fst (sort_key f xs))"
  by (metis mset_eq_imp_distinct_iff mset_map mset_sort)

lemma map_of_sort_key: "distinct (map fst xs) \<Longrightarrow> map_of (sort_key f xs) = map_of xs"
  using distinct_sort_key [of xs f] by (intro map_of_inject_set [THEN iffD2]) simp_all

lemma ls_zset_val:
  "map_of (ls_zset db k) = zset_of (ls_val db k)" "distinct (map fst (ls_zset db k))" "sorted (map snd (ls_zset db k))"
proof -
  show "map_of (ls_zset db k) = zset_of (ls_val db k)"
    by (cases "map_of db k"; cases "the (map_of db k)")
      (simp_all add: ls_zset_def zset_of_def ls_val_def map_of_clearjunk map_of_sort_key)
  show "distinct (map fst (ls_zset db k))" "sorted (map snd (ls_zset db k))"
    by (simp_all add: ls_zset_def distinct_sort_key split: option.split list_value.split)
qed

lemma map_of_filter_keys: "map_of (filter (\<lambda>(a, b). a \<notin> S) xs) = map_of xs |` (- S)"
  by (induction xs) (auto simp: restrict_map_def fun_eq_iff)

lemma ls_matches_prefix: "ls_matches (p @ ''*'') m \<longleftrightarrow> take (length p) m = p"
  by (auto simp: ls_matches_def)

lemma value_type_abs [simp]: "value_type (abs_value v) = list_type v"
  by (cases v) simp_all

lemma ls_dom: "dom (ls_val db) = set (map fst db)"
proof -
  have "dom (ls_val db) = dom (map_of db)" by (auto simp: ls_val_def dom_def)
  then show ?thesis by (simp add: dom_map_of_conv_image_fst)
qed

interpretation list_server: store_server "list_store fate" ls_val
proof
  let ?D = "list_store fate"
  have put: "ls_val (ls_put k v db) = (ls_val db)(k \<mapsto> abs_value v)" for k v db by (rule ls_val_put)
  fix db :: list_db and k k1 m v p c :: string and fvs :: "(string \<times> string) list" and fs ms :: "string list" and sc :: int
  show "r_hget (d_redis ?D) db k = hash_of (ls_val db k)" by (simp add: list_store_def list_redis_def ls_hash_val)
  show "r_exists (d_redis ?D) db k \<longleftrightarrow> ls_val db k \<noteq> None" by (simp add: list_store_def list_redis_def ls_val_def)
  show "d_type ?D db k = map_option value_type (ls_val db k)"
    by (simp add: list_store_def ls_val_def option.map_comp comp_def)
  show "ls_val (r_hset (d_redis ?D) k fvs db) = (ls_val db)(k \<mapsto> HashValue (hash_of (ls_val db k) ++ map_of (rev fvs)))"
    by (simp add: list_store_def list_redis_def put ls_hash_val)
  show "ls_val (r_del (d_redis ?D) k db) = (ls_val db)(k := None)" by (simp add: list_store_def list_redis_def ls_val_delete)
  show "ls_val (r_rename (d_redis ?D) k k1 db) = (ls_val db)(k := None, k1 := ls_val db k)" if "ls_val db k \<noteq> None"
    using that by (auto simp: list_store_def list_redis_def ls_rename_def put ls_val_delete ls_val_def)
  show "map_of (d_hgetall ?D db k) = hash_of (ls_val db k)" by (simp add: list_store_def map_of_clearjunk ls_hash_val)
  show "distinct (map fst (d_hgetall ?D db k))" by (simp add: list_store_def distinct_clearjunk)
  show "set (d_members ?D db k) = set_of (ls_val db k)" "distinct (d_members ?D db k)"
    "set (d_random ?D db k) = set_of (ls_val db k)" "distinct (d_random ?D db k)"
    by (simp_all add: list_store_def ls_set_val)
  show "d_get ?D db k = string_of (ls_val db k)"
    by (auto simp: list_store_def string_of_def ls_val_def split: option.splits list_value.splits)
  show "ls_val (d_set ?D k v db) = (ls_val db)(k \<mapsto> StringValue v)" by (simp add: list_store_def put)
  show "map_of (d_zrange ?D db k) = zset_of (ls_val db k)" "distinct (map fst (d_zrange ?D db k))" "sorted (map snd (d_zrange ?D db k))"
    by (simp_all add: list_store_def ls_zset_val)
  show "set (d_keys ?D db (p @ ''*'')) = {k. ls_val db k \<noteq> None \<and> take (length p) k = p}"
    using ls_dom [of db] by (auto simp: list_store_def ls_matches_prefix dom_def)
  show "distinct (d_keys ?D db p)" by (simp add: list_store_def)
  show "d_dbsize ?D db = card (dom (ls_val db))" by (simp add: ls_dom list_store_def length_remdups_card_conv)
  show "\<exists>ms. sscan_all ?D db k ''0'' (p @ ''*'') = Some ms \<and> set ms = {m \<in> set_of (ls_val db k). take (length p) m = p}"
    by (subst sscan_all.simps) (auto simp: list_store_def ls_matches_prefix ls_set_val)
  show "set (snd (d_zscan ?D db k c)) \<subseteq> set (d_zrange ?D db k)" by (simp add: list_store_def)
  show "ls_val (d_hdel ?D k fs db) = (ls_val db)(k := some_hash (hash_of (ls_val db k) |` (- set fs)))"
    by (simp add: list_store_def Let_def put ls_val_delete some_hash_def map_of_filter_keys [symmetric] flip: ls_hash_val)
  show "ls_val (d_zrem ?D k ms db) = (ls_val db)(k := some_zset (zset_of (ls_val db k) |` (- set ms)))"
    by (simp add: list_store_def Let_def put ls_val_delete some_zset_def map_of_filter_keys [symmetric] flip: ls_zset_val(1))
  show "ls_val (d_zadd ?D k sc m db) = (ls_val db)(k \<mapsto> ZSetValue ((zset_of (ls_val db k))(m \<mapsto> sc)))"
    by (simp add: list_store_def put ls_zset_val)
  show "ls_val (d_sadd ?D k m db) = (ls_val db)(k \<mapsto> SetValue (insert m (set_of (ls_val db k))))"
    by (simp add: list_store_def put ls_set_val)
  have "removeAll m (ls_set db k) = [] \<longleftrightarrow> set_of (ls_val db k) - {m} = {}"
    by (metis ls_set_val(1) set_empty set_removeAll)
  then show "ls_val (d_srem ?D k m db) = (ls_val db)(k := some_set (set_of (ls_val db k) - {m}))"
    by (simp add: list_store_def Let_def put ls_val_delete some_set_def ls_set_val(1))
qed

end
