(* ===== verification/Meta_Keys.thy ===== *)
theory Meta_Keys
  imports Redis_Store Policy_Store Message_Correct
begin

text \<open>
  Keys and field values of the metadata store (\<^verbatim>\<open>src/proxy/metastore/redis_metastore.cc\<close>): the key generators at the end of
  the file and the binary values of the fields.  The store holds byte strings; a C string ends at its first zero byte.  Keys longer than the
  buffers of the source are cut; the properties are about names that fit.
\<close>

subsection \<open>Values\<close>

definition c_str :: "string \<Rightarrow> string" where
  "c_str s = takeWhile (\<lambda>c. c \<noteq> CHR 0x00) s"

abbreviation bstr :: "byte list \<Rightarrow> string" where "bstr \<equiv> map byte_char"
abbreviation strb :: "string \<Rightarrow> byte list" where "strb \<equiv> map char_byte"

definition int_str :: "int \<Rightarrow> string" where "int_str i = bstr (int_bytes i)"
definition long_str :: "int \<Rightarrow> string" where "long_str i = bstr (long_bytes i)"
definition ulong_str :: "nat \<Rightarrow> string" where "ulong_str n = bstr (le_bytes 8 n)"
definition uint_str :: "nat \<Rightarrow> string" where "uint_str n = bstr (le_bytes 4 n)"
definition uchar_str :: "int \<Rightarrow> string" where "uchar_str i = bstr [word_of_int i]"

definition str_int :: "string \<Rightarrow> int" where "str_int s = bytes_int (strb s)"
definition str_long :: "string \<Rightarrow> int" where "str_long s = bytes_long (strb s)"
definition str_ulong :: "string \<Rightarrow> nat" where "str_ulong s = le_value (take 8 (strb s))"
definition str_uint :: "string \<Rightarrow> nat" where "str_uint s = le_value (take 4 (strb s))"
definition str_uchar :: "string \<Rightarrow> int" where "str_uchar s = int (le_value (take 1 (strb s)))"

text \<open>\<^verbatim>\<open>strtol\<close> in base ten, and \<^verbatim>\<open>atoi\<close>.\<close>

definition strtol :: "string \<Rightarrow> int" where
  "strtol s =
     (let t = dropWhile (\<lambda>c. c \<in> {CHR '' '', CHR 0x09, CHR 0x0A, CHR 0x0B, CHR 0x0C, CHR 0x0D}) s;
          neg = (t \<noteq> [] \<and> hd t = CHR ''-'');
          u = (if t \<noteq> [] \<and> (hd t = CHR ''-'' \<or> hd t = CHR ''+'') then tl t else t);
          v = int (dec_value (takeWhile is_digit u))
      in max (- (2 ^ 63)) (min (2 ^ 63 - 1) (if neg then - v else v)))"

definition atoi :: "string \<Rightarrow> int" where "atoi s = int32 (strtol s)"

subsection \<open>Keys\<close>

definition FILE_LOCK_KEY :: string where "FILE_LOCK_KEY = ''//snccFLock''"
definition FILE_PIN_STAGED_KEY :: string where "FILE_PIN_STAGED_KEY = ''//snccFPinStaged''"
definition FILE_REPAIR_KEY :: string where "FILE_REPAIR_KEY = ''//snccFRepair''"
definition FILE_PENDING_WRITE_KEY :: string where "FILE_PENDING_WRITE_KEY = ''//snccFPendingWrite''"
definition FILE_PENDING_WRITE_COMP_KEY :: string where "FILE_PENDING_WRITE_COMP_KEY = ''//snccFPendingWriteComp''"
definition BG_TASK_PENDING_KEY :: string where "BG_TASK_PENDING_KEY = ''//snccFBgTask''"
definition DIR_LIST_KEY :: string where "DIR_LIST_KEY = ''//snccDirList''"
definition MAX_KEY_SIZE :: nat where "MAX_KEY_SIZE = 64"

lemmas system_keys = FILE_LOCK_KEY_def FILE_PIN_STAGED_KEY_def FILE_REPAIR_KEY_def FILE_PENDING_WRITE_KEY_def
  FILE_PENDING_WRITE_COMP_KEY_def BG_TASK_PENDING_KEY_def DIR_LIST_KEY_def

definition genVersionedFileKey :: "nat \<Rightarrow> string option \<Rightarrow> int \<Rightarrow> int \<Rightarrow> string" where
  "genVersionedFileKey ns name nlen version = take (nat PATH_MAX - 1)
     (''/'' @ nat_to_string ns @ ''_'' @ print_width nlen name @ [CHR 0x0A] @ int_to_string version)"

definition genFileVersionListKey :: "nat \<Rightarrow> string option \<Rightarrow> int \<Rightarrow> string" where
  "genFileVersionListKey ns name nlen = take (nat PATH_MAX - 1)
     (''//vl'' @ nat_to_string ns @ ''_'' @ print_width nlen name)"

definition genFileUuidKey :: "(uuid \<Rightarrow> string) \<Rightarrow> nat \<Rightarrow> uuid \<Rightarrow> string option" where
  "genFileUuidKey uts ns u =
     (let k = ''//fu'' @ nat_to_string ns @ ''-'' @ uts u in if length k \<le> MAX_KEY_SIZE then Some k else None)"

text \<open>The numbers are machine integers, so these texts always fit their buffers.\<close>

definition genChunkKeyPrefix :: "int \<Rightarrow> string" where
  "genChunkKeyPrefix chunkId = ''c'' @ int_to_string chunkId"

definition getBlockKeyPrefix :: "bool \<Rightarrow> string" where
  "getBlockKeyPrefix unique = (if unique then ''ub'' else ''db'')"

definition genBlockKey :: "int \<Rightarrow> bool \<Rightarrow> string" where
  "genBlockKey blockId unique = getBlockKeyPrefix unique @ int_to_string blockId"

definition isSystemKey :: "string \<Rightarrow> bool" where "isSystemKey key \<longleftrightarrow> take 2 key = ''//''"
definition isVersionedFileKey :: "string \<Rightarrow> bool" where "isVersionedFileKey key \<longleftrightarrow> take 1 key = ''/''"

text \<open>The index of the first or last occurrence of a character.\<close>

definition find_char :: "char \<Rightarrow> string \<Rightarrow> nat option" where
  "find_char c s = (if c \<in> set s then Some (length (takeWhile (\<lambda>x. x \<noteq> c) s)) else None)"

definition rfind_char :: "char \<Rightarrow> string \<Rightarrow> nat option" where
  "rfind_char c s = (if c \<in> set s then Some (length s - 1 - length (takeWhile (\<lambda>x. x \<noteq> c) (rev s))) else None)"

text \<open>
  \<^verbatim>\<open>getNameFromFileKey\<close>: name, namespace and, when the key has one, version.  The version of a key without one is
  left as the caller had it.  \<open>epos\<close> is the length of the whole key when there is no line break.
\<close>

definition getNameFromFileKey :: "string \<Rightarrow> (string \<times> nat \<times> int option) option" where
  "getNameFromFileKey str =
     (let ofs = (if isVersionedFileKey str then 1 else 0);
          fullname = drop ofs str
      in case find_char (CHR ''_'') fullname of
           None \<Rightarrow> None
         | Some dpos \<Rightarrow>
             let ver = (case find_char (CHR 0x0A) fullname of None \<Rightarrow> None | Some e \<Rightarrow> Some (atoi (drop (ofs + e + 1) str)));
                 epos = (case find_char (CHR 0x0A) fullname of None \<Rightarrow> length str | Some e \<Rightarrow> e);
                 ns = nat (strtol (take dpos fullname) mod 256)
             in Some (take (epos - dpos - 1) (drop (ofs + dpos + 1) str), ns, ver))"

definition getFilePrefix :: "string \<Rightarrow> bool \<Rightarrow> string" where
  "getFilePrefix name noEndingSlash =
     (let s = c_str name;
          us = length (takeWhile (\<lambda>c. c \<noteq> CHR ''_'') s);
          root = ''//pf_'' @ take (us + 1) s @ (if noEndingSlash then [] else ''/'')
      in case rfind_char (CHR ''/'') s of
           None \<Rightarrow> root
         | Some slash \<Rightarrow> if us + 1 = slash then root else ''//pf_'' @ take slash s)"

abbreviation file_key :: "file_t \<Rightarrow> string" where
  "file_key f \<equiv> genFileKey (f_namespaceId f) (f_name f) (f_nameLength f)"

abbreviation version_key :: "file_t \<Rightarrow> int \<Rightarrow> string" where
  "version_key f v \<equiv> genVersionedFileKey (f_namespaceId f) (f_name f) (f_nameLength f) v"

abbreviation version_list_key :: "file_t \<Rightarrow> string" where
  "version_list_key f \<equiv> genFileVersionListKey (f_namespaceId f) (f_name f) (f_nameLength f)"

subsection \<open>Values are read as they were written\<close>

lemma char_byte_char [simp]: "char_byte (byte_char b) = b"
proof -
  have "unat b < 256" using unsigned_less [of b, where ?'a = nat] by simp
  then show ?thesis by (simp add: char_byte_def byte_char_def)
qed

lemma char_byte_comp [simp]: "char_byte \<circ> byte_char = id"
  by (simp add: fun_eq_iff)

lemma str_length [simp]:
  "length (int_str i) = 4" "length (long_str i) = 8" "length (ulong_str n) = 8" "length (uint_str n) = 4" "length (uchar_str i) = 1"
  by (simp_all add: int_str_def long_str_def ulong_str_def uint_str_def uchar_str_def)

lemma str_int_str [simp]: "is_int i \<Longrightarrow> str_int (int_str i) = i"
  by (simp add: str_int_def int_str_def bytes_int_bytes0 is_int_def)

lemma str_ulong_str [simp]: "n < 2 ^ 64 \<Longrightarrow> str_ulong (ulong_str n) = n"
  by (simp add: str_ulong_def ulong_str_def le_value_bytes)

lemma str_uint_str [simp]: "n < 2 ^ 32 \<Longrightarrow> str_uint (uint_str n) = n"
  by (simp add: str_uint_def uint_str_def le_value_bytes)

lemma str_long_str [simp]: "- (2 ^ 63) \<le> i \<Longrightarrow> i < 2 ^ 63 \<Longrightarrow> str_long (long_str i) = i"
  by (simp add: str_long_def long_str_def bytes_long_bytes to_signed_id)

lemma str_uchar_str [simp]: "0 \<le> i \<Longrightarrow> i < 256 \<Longrightarrow> str_uchar (uchar_str i) = i"
  by (simp add: str_uchar_def uchar_str_def unsigned_of_int take_bit_int_eq_self)

end
