(* ===== verification/Meta_Store.thy ===== *)
theory Meta_Store
  imports Meta_Keys
begin

text \<open>
  Storing, fetching, deleting and renaming file metadata (\<^verbatim>\<open>RedisMetaStore\<close> in
  \<^verbatim>\<open>src/proxy/metastore/redis_metastore.cc\<close>).  \<open>uts\<close> and \<open>sgen\<close> print and parse UUIDs, \<open>gen\<close> makes one from a name,
  \<open>overwrite\<close> is the configuration's \<^verbatim>\<open>overwriteFiles\<close>, \<open>junk\<close> and \<open>newOk\<close> are the memory allocator.  The blocks of
  deduplication, which are not part of the file record, are passed separately, in the order of the map that holds them.
  An operation that fails leaves the object of its caller half filled in; the model returns none then.  A null pointer that is
  followed and a read past a buffer end the operation as \<open>Crashed\<close>.  Each operation runs alone, as under the lock of the store, and
  reconnecting after a lost reply succeeds.
\<close>

subsection \<open>Fields\<close>

datatype 'a outcome = Crashed | NoResult | Result 'a

record blocks =
  b_unique :: "((nat \<times> nat) \<times> string \<times> int) list"
  b_duplicate :: "((nat \<times> nat) \<times> string) list"

definition no_blocks :: blocks where "no_blocks = \<lparr>b_unique = [], b_duplicate = []\<rparr>"

text \<open>The coding state, read from a one-byte literal when the file is empty or has none.\<close>

definition coding_state_str :: "file_t \<Rightarrow> string option" where
  "coding_state_str f =
     (let cm = f_codingMeta f; n = cm_codingStateSize cm;
          buf = (if f_size f = 0 then [0] else case cm_codingState cm of None \<Rightarrow> [0] | Some b \<Rightarrow> b)
      in if 0 \<le> n \<and> n \<le> int (length buf) then Some (bstr (take (nat n) buf)) else None)"

definition file_fields :: "(uuid \<Rightarrow> string) \<Rightarrow> string \<Rightarrow> blocks \<Rightarrow> file_t \<Rightarrow> (string \<times> string) list" where
  "file_fields uts codingState bl f =
     (let cm = f_codingMeta f; st = f_staged f; sm = st_codingMeta st in
      [(''name'', take (nat (f_nameLength f)) (cstr (f_name f))), (''uuid'', uts (f_uuid f)), (''size'', ulong_str (f_size f)), (''numC'', int_str (f_numChunks f)),
       (''sc'', c_str (f_storageClass f)), (''cs'', uchar_str (cm_coding cm)), (''n'', int_str (cm_n cm)), (''k'', int_str (cm_k cm)), (''f'', int_str (cm_f cm)),
       (''maxCS'', int_str (cm_maxChunkSize cm)), (''codingStateS'', int_str (cm_codingStateSize cm)), (''codingState'', codingState),
       (''numS'', int_str (f_numStripes f)), (''ver'', int_str (f_version f)),
       (''ctime'', long_str (f_ctime f)), (''atime'', long_str (f_atime f)), (''mtime'', long_str (f_mtime f)), (''tctime'', long_str (f_tctime f)),
       (''md5'', bstr (take MD5_DIGEST_LENGTH (f_md5 f))),
       (''sg_size'', ulong_str (st_size st)), (''sg_sc'', c_str (st_storageClass st)), (''sg_cs'', uchar_str (cm_coding sm)), (''sg_n'', int_str (cm_n sm)),
       (''sg_k'', int_str (cm_k sm)), (''sg_f'', int_str (cm_f sm)), (''sg_maxCS'', int_str (cm_maxChunkSize sm)), (''sg_mtime'', long_str (st_mtime st)),
       (''dm'', if f_size f = 0 \<and> f_isDeleted f then ''1'' else ''0''),
       (''numUB'', ulong_str (length (b_unique bl))), (''numDB'', ulong_str (length (b_duplicate bl)))])"

definition chunk_fields :: "file_t \<Rightarrow> nat \<Rightarrow> (string \<times> string) list" where
  "chunk_fields f i =
     (let c = f_chunks f ! i; cname = genChunkKeyPrefix (c_chunkId c) in
      [(cname @ ''-cid'', int_str (f_containerIds f ! i)), (cname @ ''-size'', int_str (c_size c)),
       (cname @ ''-md5'', bstr (take MD5_DIGEST_LENGTH (c_md5 c))),
       (cname @ ''-bad'', if f_chunksCorrupted f \<noteq> [] \<and> f_chunksCorrupted f ! i then ''1'' else ''0'')])"

definition unique_block_field :: "nat \<times> (nat \<times> nat) \<times> string \<times> int \<Rightarrow> (string \<times> string) list" where
  "unique_block_field e = (case e of (bid, (ofs, len), fp, p) \<Rightarrow>
     [(genBlockKey (int bid) True, ulong_str ofs @ uint_str len @ fp @ int_str p)])"

definition duplicate_block_field :: "nat \<times> (nat \<times> nat) \<times> string \<Rightarrow> (string \<times> string) list" where
  "duplicate_block_field e = (case e of (bid, (ofs, len), fp) \<Rightarrow>
     [(genBlockKey (int bid) False, ulong_str ofs @ uint_str len @ fp)])"

text \<open>The groups of fields that \<^verbatim>\<open>putMeta\<close> sets, one command each.\<close>

definition meta_field_groups :: "(uuid \<Rightarrow> string) \<Rightarrow> string \<Rightarrow> blocks \<Rightarrow> file_t \<Rightarrow> (string \<times> string) list list" where
  "meta_field_groups uts codingState bl f =
     file_fields uts codingState bl f # map (chunk_fields f) [0..<nat (f_numChunks f)] @
     map unique_block_field (enumerate 0 (b_unique bl)) @ map duplicate_block_field (enumerate 0 (b_duplicate bl))"

subsection \<open>Storing\<close>

definition summary_fields :: "string list" where
  "summary_fields = [''size'', ''mtime'', ''md5'', ''dm'', ''numC'']"

fun summary_text :: "reply list \<Rightarrow> string" where
  "summary_text [] = []"
| "summary_text [r] = (case r of RString s \<Rightarrow> s | _ \<Rightarrow> ''-'')"
| "summary_text (r # rs) = (case r of RString s \<Rightarrow> s | _ \<Rightarrow> ''-'') @ '' '' @ summary_text rs"

text \<open>The previous version moves to the key of the version before the new one and is entered into the version list.\<close>

definition backup_version :: "'db store \<Rightarrow> file_t \<Rightarrow> 'db \<Rightarrow> 'db \<times> bool" where
  "backup_version D f db =
     (let v = f_version f - 1; vkey = version_key f v in
      case call D (RENAME D (file_key f) vkey) db of
        (db1, Some (RStatus s)) \<Rightarrow>
          if take 2 s \<noteq> ''OK'' then (db1, False)
          else (case call D (HMGET D vkey summary_fields) db1 of (db2, r) \<Rightarrow>
            let fsummary = int_to_string v @ '' '' @ (case r of Some (RArray rs) \<Rightarrow> summary_text rs | _ \<Rightarrow> [])
            in (fst (call D (ZADD D (version_list_key f) v fsummary) db2), True))
      | (db1, _) \<Rightarrow> (db1, False))"

definition put_commands ::
  "'db store \<Rightarrow> (uuid \<Rightarrow> string) \<Rightarrow> string \<Rightarrow> string \<Rightarrow> string \<Rightarrow> blocks \<Rightarrow> file_t \<Rightarrow> ('db \<Rightarrow> 'db \<times> reply) list" where
  "put_commands D uts filename prefix codingState bl f =
     map (HMSET D filename) (meta_field_groups uts codingState bl f) @
     (case genFileUuidKey uts (f_namespaceId f) (f_uuid f) of None \<Rightarrow> []
       | Some fidKey \<Rightarrow> [SET D fidKey (take (nat (f_nameLength f)) (cstr (f_name f)))]) @
     [SADD D (c_str prefix) filename, SADD D DIR_LIST_KEY (c_str prefix)]"

definition put_record :: "'db store \<Rightarrow> (uuid \<Rightarrow> string) \<Rightarrow> string \<Rightarrow> blocks \<Rightarrow> file_t \<Rightarrow> 'db \<Rightarrow> 'db \<times> bool outcome" where
  "put_record D uts filename bl f db =
     (case coding_state_str f of
        None \<Rightarrow> (db, Crashed)
      | Some codingState \<Rightarrow>
          (case pipeline D (put_commands D uts filename (getFilePrefix (file_key f) False) codingState bl f) db of
             (db1, _, ok) \<Rightarrow> (db1, Result ok)))"

definition current_version :: "reply \<Rightarrow> int" where
  "current_version r = (case r of RString s \<Rightarrow> if length s = 4 then str_int s else -1 | _ \<Rightarrow> -1)"

definition putMeta :: "'db store \<Rightarrow> (uuid \<Rightarrow> string) \<Rightarrow> bool \<Rightarrow> blocks \<Rightarrow> file_t \<Rightarrow> 'db \<Rightarrow> 'db \<times> bool outcome" where
  "putMeta D uts overwrite bl f db =
     (case call D (HGET D (file_key f) ''ver'') db of
        (db1, None) \<Rightarrow> (db1, Result False)
      | (db1, Some vr) \<Rightarrow>
          let curVersion = current_version vr; keepVersion = (\<not> overwrite) in
          if keepVersion \<and> curVersion \<noteq> -1 \<and> f_version f > curVersion then
            (case backup_version D f db1 of
               (db2, False) \<Rightarrow> (db2, Result False)
             | (db2, True) \<Rightarrow> put_record D uts (file_key f) bl f db2)
          else if keepVersion \<and> curVersion \<noteq> -1 \<and> f_version f < curVersion then
            (case call D (ZRANGEBYSCORE D (version_list_key f) (f_version f)) db1 of
               (db2, None) \<Rightarrow> (db2, Crashed)
             | (db2, Some (RArray (e # es))) \<Rightarrow> put_record D uts (version_key f (f_version f)) bl f db2
             | (db2, _) \<Rightarrow> (db2, Result False))
          else put_record D uts (file_key f) bl f db1)"

subsection \<open>Fetching\<close>

definition meta_names :: "string list" where
  "meta_names = [''size'', ''numC'', ''numS'', ''uuid'', ''sc'', ''cs'', ''n'', ''k'', ''f'', ''maxCS'', ''codingStateS'', ''codingState'',
     ''ver'', ''ctime'', ''atime'', ''mtime'', ''tctime'', ''md5'', ''sg_size'', ''sg_sc'', ''sg_cs'', ''sg_n'', ''sg_k'', ''sg_f'',
     ''sg_maxCS'', ''sg_mtime'', ''dm'', ''numUB'', ''numDB'']"

definition NUM_REQ_FIELDS :: nat where "NUM_REQ_FIELDS = 10"

text \<open>\<^verbatim>\<open>check_and_copy_field\<close>, \<^verbatim>\<open>check_and_copy_field_at_offset\<close>, \<^verbatim>\<open>check_and_copy_string\<close> and the variants with a default.\<close>

definition field_at :: "reply list \<Rightarrow> nat \<Rightarrow> nat \<Rightarrow> nat \<Rightarrow> string option" where
  "field_at rs i ofs len = (case rs ! i of RString s \<Rightarrow> if length s < ofs + len then None else Some (take len (drop ofs s)) | _ \<Rightarrow> None)"

abbreviation copy_field :: "reply list \<Rightarrow> nat \<Rightarrow> nat \<Rightarrow> string option" where
  "copy_field rs i len \<equiv> field_at rs i 0 len"

definition copy_string :: "reply list \<Rightarrow> nat \<Rightarrow> string" where
  "copy_string rs i = (case rs ! i of RString s \<Rightarrow> s | _ \<Rightarrow> [])"

definition field_or :: "(string \<Rightarrow> 'a) \<Rightarrow> reply list \<Rightarrow> nat \<Rightarrow> nat \<Rightarrow> 'a \<Rightarrow> 'a" where
  "field_or conv rs i len d = (if length rs \<le> i then d else case copy_field rs i len of None \<Rightarrow> d | Some s \<Rightarrow> conv s)"

text \<open>The default of a digest replaces only its first byte.\<close>

definition md5_or :: "reply list \<Rightarrow> nat \<Rightarrow> byte list \<Rightarrow> byte list" where
  "md5_or rs i old = field_or strb rs i MD5_DIGEST_LENGTH (old[0 := 0])"

definition parse_coding :: "reply list \<Rightarrow> nat \<Rightarrow> coding_meta \<Rightarrow> coding_meta option" where
  "parse_coding rs i cm = do {
     c \<leftarrow> copy_field rs i 1; n \<leftarrow> copy_field rs (i + 1) 4; k \<leftarrow> copy_field rs (i + 2) 4; g \<leftarrow> copy_field rs (i + 3) 4;
     m \<leftarrow> copy_field rs (i + 4) 4;
     Some (cm\<lparr>cm_coding := str_uchar c, cm_n := str_int n, cm_k := str_int k, cm_f := str_int g, cm_maxChunkSize := str_int m\<rparr>) }"

definition parse_coding_state :: "reply list \<Rightarrow> coding_meta \<Rightarrow> coding_meta option" where
  "parse_coding_state rs cm = do {
     s \<leftarrow> copy_field rs 10 4;
     let n = str_int s;
     if n > 0 then do { b \<leftarrow> copy_field rs 11 (nat n); Some (cm\<lparr>cm_codingStateSize := n, cm_codingState := Some (strb b)\<rparr>) }
     else Some (cm\<lparr>cm_codingStateSize := n\<rparr>) }"

definition parse_meta :: "(string \<Rightarrow> uuid option) \<Rightarrow> reply list \<Rightarrow> file_t \<Rightarrow> (file_t \<times> nat \<times> nat) option" where
  "parse_meta sgen rs f = do {
     sz \<leftarrow> copy_field rs 0 8; nc \<leftarrow> copy_field rs 1 4; nst \<leftarrow> copy_field rs 2 4;
     u \<leftarrow> sgen (copy_string rs 3);
     cm \<leftarrow> parse_coding rs 5 (f_codingMeta f);
     cm1 \<leftarrow> parse_coding_state rs cm;
     v \<leftarrow> copy_field rs 12 4;
     sm \<leftarrow> parse_coding rs 20 (st_codingMeta (f_staged f));
     Some (f\<lparr>f_size := str_ulong sz, f_numChunks := str_int nc, f_numStripes := str_int nst, f_uuid := u,
             f_storageClass := copy_string rs 4, f_codingMeta := cm1, f_version := str_int v,
             f_ctime := field_or str_long rs 13 8 0, f_atime := field_or str_long rs 14 8 0, f_mtime := field_or str_long rs 15 8 0,
             f_tctime := field_or str_long rs 16 8 0, f_md5 := md5_or rs 17 (f_md5 f),
             f_staged := (f_staged f)\<lparr>st_size := field_or str_ulong rs 18 8 INVALID_FILE_OFFSET, st_storageClass := copy_string rs 19,
               st_codingMeta := sm, st_mtime := field_or str_long rs 25 8 0\<rparr>,
             f_isDeleted := field_or (\<lambda>s. atoi (copy_string rs 26) \<noteq> 0) rs 26 1 False\<rparr>,
           field_or str_ulong rs 27 8 0, field_or str_ulong rs 28 8 0) }"

definition chunk_names :: "nat \<Rightarrow> string list" where
  "chunk_names i = map (\<lambda>s. genChunkKeyPrefix (int i) @ s) [''-cid'', ''-size'', ''-md5'', ''-bad'']"

text \<open>One chunk: a reply that is no array is released before it is printed, a missing \<^verbatim>\<open>bad\<close> field is converted all the same.\<close>

definition read_chunk :: "reply \<Rightarrow> nat \<Rightarrow> file_t \<Rightarrow> file_t outcome" where
  "read_chunk r i f = (case r of
      RArray rs \<Rightarrow>
        if length rs < 2 then Crashed
        else (case (copy_field rs 0 4, copy_field rs 1 4) of
            (Some cid, Some sz) \<Rightarrow>
              (case (if length rs \<le> 3 then RString ''0'' else rs ! 3) of
                 RString b \<Rightarrow>
                   let c = (f_chunks f ! i)\<lparr>c_size := str_int sz, c_md5 := md5_or rs 2 (c_md5 (f_chunks f ! i))\<rparr>;
                       c1 = (setId (f_namespaceId f) (f_uuid f) (int i) c)\<lparr>c_data := None, c_freeData := True, c_fileVersion := f_version f\<rparr>
                   in Result (f\<lparr>f_containerIds := (f_containerIds f)[i := str_int cid], f_chunks := (f_chunks f)[i := c1],
                              f_chunksCorrupted := (f_chunksCorrupted f)[i := (atoi b \<noteq> 0)]\<rparr>)
               | _ \<Rightarrow> Crashed)
          | _ \<Rightarrow> NoResult)
    | _ \<Rightarrow> Crashed)"

fun read_chunks :: "reply list \<Rightarrow> nat \<Rightarrow> file_t \<Rightarrow> file_t outcome" where
  "read_chunks [] i f = Result f"
| "read_chunks (r # rs) i f = (case read_chunk r i f of Result f1 \<Rightarrow> read_chunks rs (Suc i) f1 | e \<Rightarrow> e)"

text \<open>Insertion into a map ordered by offset: an offset that is present is kept.\<close>

definition emplace :: "(nat \<times> nat) \<times> 'a \<Rightarrow> ((nat \<times> nat) \<times> 'a) list \<Rightarrow> ((nat \<times> nat) \<times> 'a) list" where
  "emplace e m = (if fst (fst e) \<in> (fst \<circ> fst) ` set m then m else insort_key (fst \<circ> fst) e m)"

definition SHA256_DIGEST_LENGTH :: nat where "SHA256_DIGEST_LENGTH = 32"

text \<open>The fingerprint variable \<open>fp\<close> lives across the blocks: a record without one gets the previous one.\<close>

fun read_unique :: "reply list \<Rightarrow> string \<Rightarrow> ((nat \<times> nat) \<times> string \<times> int) list \<Rightarrow> (string \<times> ((nat \<times> nat) \<times> string \<times> int) list) option" where
  "read_unique [] fp m = Some (fp, m)"
| "read_unique (r # rs) fp m = (case r of
      RArray [RString s] \<Rightarrow> do {
        ofs \<leftarrow> field_at [RString s] 0 0 8; len \<leftarrow> field_at [RString s] 0 8 4;
        let full = (length s \<ge> 8 + 4 + SHA256_DIGEST_LENGTH + 4);
        let fp1 = (if full then take SHA256_DIGEST_LENGTH (drop 12 s) else fp);
        p \<leftarrow> field_at [RString s] 0 (if full then 12 + SHA256_DIGEST_LENGTH else 12) 4;
        read_unique rs fp1 (emplace ((str_ulong ofs, str_uint len), fp1, str_int p) m) }
    | _ \<Rightarrow> None)"

fun read_duplicate :: "reply list \<Rightarrow> string \<Rightarrow> ((nat \<times> nat) \<times> string) list \<Rightarrow> ((nat \<times> nat) \<times> string) list option" where
  "read_duplicate [] fp m = Some m"
| "read_duplicate (r # rs) fp m = (case r of
      RArray [RString s] \<Rightarrow> do {
        ofs \<leftarrow> field_at [RString s] 0 0 8; len \<leftarrow> field_at [RString s] 0 8 4;
        let fp1 = (if length s \<ge> 8 + 4 + SHA256_DIGEST_LENGTH then take SHA256_DIGEST_LENGTH (drop 12 s) else fp);
        read_duplicate rs fp1 (emplace ((str_ulong ofs, str_uint len), fp1) m) }
    | _ \<Rightarrow> None)"

text \<open>\<^verbatim>\<open>getMeta\<close>: which key, the fields of the file, the chunks, the blocks.\<close>

definition meta_key :: "'db store \<Rightarrow> file_t \<Rightarrow> 'db \<Rightarrow> 'db \<times> string" where
  "meta_key D f db =
     (if f_version f = -1 then (db, file_key f)
      else case call D (HGET D (file_key f) ''ver'') db of (db1, r) \<Rightarrow>
        let version = (case r of Some (RString s) \<Rightarrow> str_int s | _ \<Rightarrow> -1)
        in (db1, if version \<noteq> f_version f then version_key f (f_version f) else file_key f))"

definition get_blocks :: "'db store \<Rightarrow> string \<Rightarrow> int \<Rightarrow> nat \<Rightarrow> nat \<Rightarrow> blocks \<Rightarrow> 'db \<Rightarrow> 'db \<times> blocks option" where
  "get_blocks D key which nu nd bl db =
     (let (db1, ur, uok) = (if which = 1 \<or> which = 3 then pipeline D (map (\<lambda>i. HMGET D key [genBlockKey (int i) True]) [0..<nu]) db else (db, [], True))
      in case read_unique ur [] (b_unique bl) of
           None \<Rightarrow> (db1, None)
         | Some (fp, um) \<Rightarrow>
             if \<not> uok then (db1, None)
             else let (db2, dr, dok) = (if which = 2 \<or> which = 3 then pipeline D (map (\<lambda>i. HMGET D key [genBlockKey (int i) False]) [0..<nd]) db1 else (db1, [], True))
               in case read_duplicate dr fp (b_duplicate bl) of
                    None \<Rightarrow> (db2, None)
                  | Some dm \<Rightarrow> (db2, if dok then Some \<lparr>b_unique = um, b_duplicate = dm\<rparr> else None))"

definition get_chunk_fields :: "'db store \<Rightarrow> string \<Rightarrow> file_t \<Rightarrow> 'db \<Rightarrow> 'db \<times> file_t outcome" where
  "get_chunk_fields D key f db =
     (case pipeline D (map (\<lambda>i. HMGET D key (chunk_names i)) [0..<nat (f_numChunks f)]) db of
        (db1, rs, ok) \<Rightarrow> (db1, case read_chunks rs 0 f of Result f1 \<Rightarrow> if ok then Result f1 else NoResult | e \<Rightarrow> e))"

definition getMeta ::
  "'db store \<Rightarrow> (string \<Rightarrow> uuid option) \<Rightarrow> (nat \<Rightarrow> int) \<Rightarrow> bool \<Rightarrow> int \<Rightarrow> file_t \<times> blocks \<Rightarrow> 'db \<Rightarrow> 'db \<times> (file_t \<times> blocks) outcome" where
  "getMeta D sgen junk newOk which fb db =
     (case fb of (f, bl) \<Rightarrow>
      case meta_key D f db of (db1, key) \<Rightarrow>
      case call D (HMGET D key meta_names) db1 of
        (db2, Some (RArray rs)) \<Rightarrow>
          if length rs \<le> NUM_REQ_FIELDS then (db2, NoResult)
          else (case parse_meta sgen rs f of
              None \<Rightarrow> (db2, NoResult)
            | Some (f1, nu, nd) \<Rightarrow>
                (case initChunksAndContainerIds junk newOk (-1) f1 of
                   (f2, False) \<Rightarrow> (db2, NoResult)
                 | (f2, True) \<Rightarrow>
                     (case get_chunk_fields D key f2 db2 of
                        (db3, Result f3) \<Rightarrow>
                          (case get_blocks D key which nu nd bl db3 of
                             (db4, None) \<Rightarrow> (db4, NoResult)
                           | (db4, Some bl1) \<Rightarrow> (db4, Result (f3, bl1)))
                      | (db3, NoResult) \<Rightarrow> (db3, NoResult)
                      | (db3, Crashed) \<Rightarrow> (db3, Crashed))))
      | (db2, _) \<Rightarrow> (db2, NoResult))"

subsection \<open>Deleting\<close>

text \<open>The script that removes a file from its directory and the directory from the list of directories when it is empty.\<close>

definition remove_from_prefix :: "'db store \<Rightarrow> string \<Rightarrow> string \<Rightarrow> 'db \<Rightarrow> 'db \<times> reply" where
  "remove_from_prefix D prefix filename db =
     (case SREM D prefix filename db of
        (db1, RError) \<Rightarrow> (db1, RError)
      | (db1, ret) \<Rightarrow>
          (case SCARD D prefix db1 of
             (db2, RInteger n) \<Rightarrow> if n = 0 then SREM D DIR_LIST_KEY prefix db2 else (db2, ret)
           | (db2, _) \<Rightarrow> (db2, RError)))"

text \<open>The whole record of the current version, the reverse mapping and the directory entry.\<close>

definition delete_record :: "'db store \<Rightarrow> (uuid \<Rightarrow> string) \<Rightarrow> namegen \<Rightarrow> file_t \<Rightarrow> 'db \<Rightarrow> 'db \<times> (file_t \<times> bool)" where
  "delete_record D uts gen f db =
     (case call D (DEL D (file_key f)) db of
        (db1, Some (RInteger n)) \<Rightarrow>
          if n \<le> 0 then (db1, f, False)
          else let f1 = genUUID gen f;
                   db2 = (case genFileUuidKey uts (f_namespaceId f1) (f_uuid f1) of None \<Rightarrow> db1 | Some k \<Rightarrow> fst (call D (DEL D k) db1))
               in (fst (call D (remove_from_prefix D (c_str (getFilePrefix (file_key f) False)) (file_key f)) db2), f1, True)
      | (db1, _) \<Rightarrow> (db1, f, False))"

definition delete_marker :: "int \<Rightarrow> file_t \<Rightarrow> file_t" where
  "delete_marker now f = f\<lparr>f_isDeleted := True, f_size := 0, f_version := f_version f + 1, f_numChunks := 0, f_numStripes := 0,
     f_mtime := now, f_md5 := replicate MD5_DIGEST_LENGTH 0\<rparr>"

text \<open>The version that has to leave the version list: \<open>Inl\<close> the operation ends here, \<open>Inr\<close> it goes on.\<close>

definition version_to_remove :: "'db store \<Rightarrow> file_t \<Rightarrow> int \<Rightarrow> int \<Rightarrow> 'db \<Rightarrow> 'db \<times> (bool + int)" where
  "version_to_remove D f curVersion numVersions db =
     (if curVersion = f_version f then
        if numVersions > 0 then
          (case call D (ZMAX D (version_list_key f)) db of
             (db1, Some (RArray (RString s # e # es))) \<Rightarrow>
               let v = atoi s in
               (case call D (RENAME D (version_key f v) (file_key f)) db1 of
                  (db2, Some (RStatus t)) \<Rightarrow> (db2, if take 2 t = ''OK'' then Inr v else Inl False)
                | (db2, _) \<Rightarrow> (db2, Inl False))
           | (db1, _) \<Rightarrow> (db1, Inl False))
        else (db, Inr (-1))
      else if numVersions = 0 then (db, Inl False) else (db, Inr (f_version f)))"

definition remove_version :: "'db store \<Rightarrow> file_t \<Rightarrow> int \<Rightarrow> int \<Rightarrow> 'db \<Rightarrow> 'db" where
  "remove_version D f curVersion v db =
     (let db1 = fst (call D (ZREMRANGEBYSCORE D (version_list_key f) v) db)
      in if curVersion \<noteq> f_version f then fst (call D (DEL D (version_key f (f_version f))) db1) else db1)"

definition delete_version ::
  "'db store \<Rightarrow> (uuid \<Rightarrow> string) \<Rightarrow> namegen \<Rightarrow> file_t \<Rightarrow> 'db \<Rightarrow> 'db \<times> (file_t \<times> bool)" where
  "delete_version D uts gen f db =
     (case call D (HGET D (file_key f) ''ver'') db of
        (db1, Some (RString s)) \<Rightarrow>
          (case call D (ZCARD D (version_list_key f)) db1 of (db2, zr) \<Rightarrow>
             let numVersions = (case zr of Some (RInteger n) \<Rightarrow> n | _ \<Rightarrow> 0); curVersion = str_int s
             in case version_to_remove D f curVersion numVersions db2 of
                  (db3, Inl b) \<Rightarrow> (db3, f, b)
                | (db3, Inr v) \<Rightarrow>
                    if v \<noteq> -1 then (remove_version D f curVersion v db3, f, True)
                    else delete_record D uts gen f db3)
      | (db1, _) \<Rightarrow> (db1, f, False))"

definition deleteMeta ::
  "'db store \<Rightarrow> (uuid \<Rightarrow> string) \<Rightarrow> (string \<Rightarrow> uuid option) \<Rightarrow> namegen \<Rightarrow> (nat \<Rightarrow> int) \<Rightarrow> bool \<Rightarrow> bool \<Rightarrow> int \<Rightarrow>
   file_t \<times> blocks \<Rightarrow> 'db \<Rightarrow> 'db \<times> (file_t \<times> bool) outcome" where
  "deleteMeta D uts sgen gen junk newOk overwrite now fb db =
     (let versionToDelete = f_version (fst fb) in
      case getMeta D sgen junk newOk 3 fb db of
        (db1, Crashed) \<Rightarrow> (db1, Crashed)
      | (db1, NoResult) \<Rightarrow> (db1, NoResult)
      | (db1, Result (f, bl)) \<Rightarrow>
          if \<not> overwrite \<and> versionToDelete = -1 then
            (case putMeta D uts overwrite bl (delete_marker now f) db1 of
               (db2, Result ok) \<Rightarrow> (db2, Result ((delete_marker now f)\<lparr>f_version := -1\<rparr>, ok))
             | (db2, _) \<Rightarrow> (db2, Crashed))
          else if \<not> overwrite then
            (case delete_version D uts gen f db1 of (db2, r) \<Rightarrow> (db2, Result r))
          else (case delete_record D uts gen f db1 of (db2, r) \<Rightarrow> (db2, Result r)))"

subsection \<open>Renaming and updating\<close>

definition is_error :: "reply option \<Rightarrow> bool" where
  "is_error r \<longleftrightarrow> r = None \<or> r = Some RError"

definition undo_rename :: "'db store \<Rightarrow> file_t \<Rightarrow> file_t \<Rightarrow> 'db \<Rightarrow> 'db" where
  "undo_rename D sf df db = fst (call D (RENAME D (file_key df) (file_key sf)) db)"

definition renameMeta :: "'db store \<Rightarrow> (uuid \<Rightarrow> string) \<Rightarrow> namegen \<Rightarrow> file_t \<Rightarrow> file_t \<Rightarrow> 'db \<Rightarrow> 'db \<times> bool" where
  "renameMeta D uts gen sf df db =
     (let su = gen (cstr (f_name sf)); du = gen (cstr (f_name df)) in
      case (genFileUuidKey uts (f_namespaceId sf) su, genFileUuidKey uts (f_namespaceId df) du) of
        (Some sfidKey, Some dfidKey) \<Rightarrow>
          (case call D (RENAMENX D (file_key sf) (file_key df)) db of
             (db1, Some (RInteger n)) \<Rightarrow>
               if n \<noteq> 1 then (db1, False)
               else (case call D (SET D dfidKey (file_key df)) db1 of (db2, r) \<Rightarrow>
                 if is_error r then (undo_rename D sf df db2, False)
                 else let db3 = fst (call D (DEL D sfidKey) db2) in
                   case call D (HSET D (file_key df) ''uuid'' (uts du)) db3 of (db4, r1) \<Rightarrow>
                     if is_error r1 then (undo_rename D sf df db4, False)
                     else let db5 = fst (call D (SREM D (c_str (getFilePrefix (file_key sf) False)) (file_key sf)) db4)
                       in (fst (call D (SADD D (c_str (getFilePrefix (file_key df) False)) (file_key df)) db5), True))
           | (db1, _) \<Rightarrow> (db1, False))
      | _ \<Rightarrow> (db, False))"

definition updateTimestamps :: "'db store \<Rightarrow> file_t \<Rightarrow> 'db \<Rightarrow> 'db \<times> bool" where
  "updateTimestamps D f db =
     (case call D (HMSET D (file_key f) [(''atime'', long_str (f_atime f)), (''mtime'', long_str (f_mtime f)), (''tctime'', long_str (f_tctime f))]) db of
        (db1, r) \<Rightarrow> (db1, r = Some (RStatus ''OK'')))"

text \<open>
  The script of \<^verbatim>\<open>updateChunks\<close>.  The file name is pasted between single quotes into its text, so a name with a quote, a
  backslash or a line break makes another script, which is not modelled: \<open>Crashed\<close>.  The version argument of the method is not used.
\<close>

definition updateChunks_script :: "'db store \<Rightarrow> file_t \<Rightarrow> string \<Rightarrow> 'db \<Rightarrow> 'db \<times> reply" where
  "updateChunks_script D f key db =
     (case HGET D key ''ver'' db of
        (db1, RString s) \<Rightarrow>
          if length s < 4 then (db1, RError)
          else if int (str_uint s) = f_version f then
            let fvs = concat (map (\<lambda>i. [(genChunkKeyPrefix (c_chunkId (f_chunks f ! i)) @ ''-cid'', int_str (f_containerIds f ! i)),
                                        (genChunkKeyPrefix (c_chunkId (f_chunks f ! i)) @ ''-size'', int_str (c_size (f_chunks f ! i)))]) [0..<nat (f_numChunks f)])
            in if fvs = [] then (db1, RError) else HMSET D key fvs db1
          else (db1, RInteger 1)
      | (db1, _) \<Rightarrow> (db1, RError))"

definition updateChunks :: "'db store \<Rightarrow> file_t \<Rightarrow> 'db \<Rightarrow> 'db \<times> int outcome" where
  "updateChunks D f db =
     (if set (file_key f) \<inter> {CHR 0x27, CHR 0x5C, CHR 0x0A, CHR 0x0D} \<noteq> {} then (db, Crashed)
      else case call D (updateChunks_script D f (file_key f)) db of
        (db1, r) \<Rightarrow> (db1, Result (case r of Some (RStatus s) \<Rightarrow> if s = ''OK'' then 0 else 2 | Some (RInteger n) \<Rightarrow> int32 n | _ \<Rightarrow> 2)))"

text \<open>The name of a file by its UUID.\<close>

definition getFileName :: "'db store \<Rightarrow> (uuid \<Rightarrow> string) \<Rightarrow> uuid \<Rightarrow> file_t \<Rightarrow> 'db \<Rightarrow> 'db \<times> file_t option" where
  "getFileName D uts fuuid f db =
     (case genFileUuidKey uts (f_namespaceId f) fuuid of
        None \<Rightarrow> (db, None)
      | Some k \<Rightarrow> (case call D (GET D k) db of
            (db1, Some (RString s)) \<Rightarrow> (db1, Some (f\<lparr>f_name := Some s, f_nameLength := int (length s)\<rparr>))
          | (db1, _) \<Rightarrow> (db1, None)))"

end
