(* ===== verification/Meta_Record.thy ===== *)
theory Meta_Record
  imports Meta_Store
begin

text \<open>
  Correctness of the metadata store when the server answers.  \<open>fetch\<close> is what \<^verbatim>\<open>getMeta\<close> computes from the
  hash of one key; \<open>record_of\<close> is the hash that \<^verbatim>\<open>putMeta\<close> writes.
\<close>

subsection \<open>Requests to a server that answers\<close>

fun run_commands :: "('db \<Rightarrow> 'db \<times> reply) list \<Rightarrow> 'db \<Rightarrow> 'db" where
  "run_commands [] db = db"
| "run_commands (f # fs) db = run_commands fs (fst (f db))"

fun run_replies :: "('db \<Rightarrow> 'db \<times> reply) list \<Rightarrow> 'db \<Rightarrow> reply list" where
  "run_replies [] db = []"
| "run_replies (f # fs) db = snd (f db) # run_replies fs (fst (f db))"

lemma run_commands_append [simp]: "run_commands (fs @ gs) db = run_commands gs (run_commands fs db)"
  by (induction fs arbitrary: db) simp_all

definition reply_of :: "(string \<rightharpoonup> string) \<Rightarrow> string \<Rightarrow> reply" where
  "reply_of h n = (case h n of None \<Rightarrow> RNil | Some v \<Rightarrow> RString v)"

text \<open>What is fetched from a hash.\<close>

definition fetch_blocks :: "(string \<rightharpoonup> string) \<Rightarrow> int \<Rightarrow> nat \<Rightarrow> nat \<Rightarrow> blocks \<Rightarrow> blocks option" where
  "fetch_blocks h which nu nd bl =
     (case read_unique (if which = 1 \<or> which = 3 then map (\<lambda>i. RArray [reply_of h (genBlockKey (int i) True)]) [0..<nu] else []) [] (b_unique bl) of
        None \<Rightarrow> None
      | Some (fp, um) \<Rightarrow>
          map_option (\<lambda>dm. \<lparr>b_unique = um, b_duplicate = dm\<rparr>)
            (read_duplicate (if which = 2 \<or> which = 3 then map (\<lambda>i. RArray [reply_of h (genBlockKey (int i) False)]) [0..<nd] else []) fp (b_duplicate bl)))"

definition fetch ::
  "(string \<Rightarrow> uuid option) \<Rightarrow> (nat \<Rightarrow> int) \<Rightarrow> bool \<Rightarrow> int \<Rightarrow> (string \<rightharpoonup> string) \<Rightarrow> file_t \<times> blocks \<Rightarrow> (file_t \<times> blocks) outcome" where
  "fetch sgen junk newOk which h fb =
     (case parse_meta sgen (map (reply_of h) meta_names) (fst fb) of
        None \<Rightarrow> NoResult
      | Some (f1, nu, nd) \<Rightarrow>
          (case initChunksAndContainerIds junk newOk (-1) f1 of
             (f2, False) \<Rightarrow> NoResult
           | (f2, True) \<Rightarrow>
               (case read_chunks (map (\<lambda>i. RArray (map (reply_of h) (chunk_names i))) [0..<nat (f_numChunks f2)]) 0 f2 of
                  Crashed \<Rightarrow> Crashed
                | NoResult \<Rightarrow> NoResult
                | Result f3 \<Rightarrow> (case fetch_blocks h which nu nd (snd fb) of None \<Rightarrow> NoResult | Some bl1 \<Rightarrow> Result (f3, bl1)))))"

text \<open>The key of the version that is asked for.\<close>

definition fetch_key :: "(string \<rightharpoonup> redis_value) \<Rightarrow> file_t \<Rightarrow> string" where
  "fetch_key w f = (if f_version f = -1 then file_key f
     else if (case hash_of (w (file_key f)) ''ver'' of Some s \<Rightarrow> str_int s | None \<Rightarrow> -1) \<noteq> f_version f
     then version_key f (f_version f) else file_key f)"

locale reliable_store = store_server +
  assumes replied: "r_fate (d_redis D) db = Replied"
begin

lemma call_replied: "call D f db = (fst (f db), Some (snd (f db)))"
  by (simp add: redis_call_def replied split: prod.splits)

lemma pipeline_replied: "pipeline D fs db = (run_commands fs db, run_replies fs db, True)"
  by (induction fs arbitrary: db) (simp_all add: call_replied)

lemma hmget_reply: "typed D THash k db \<Longrightarrow> HMGET D k fs db = (db, RArray (map (reply_of (hash_of (val db k))) fs))"
  by (simp add: HMGET_def on_type_def hmget_def hget_val reply_of_def)

lemma hget_reply: "typed D THash k db \<Longrightarrow> HGET D k f db = (db, reply_of (hash_of (val db k)) f)"
  by (simp add: HGET_def on_type_def hget_val reply_of_def)

lemma hmgets:
  assumes "typed D THash k db"
  shows "run_commands (map (\<lambda>i. HMGET D k (names i)) is) db = db"
    and "run_replies (map (\<lambda>i. HMGET D k (names i)) is) db = map (\<lambda>i. RArray (map (reply_of (hash_of (val db k))) (names i))) is"
  using assms by (induction "is") (simp_all add: hmget_reply)

lemma val_HMSET: "typed D THash k db \<Longrightarrow> fvs \<noteq> [] \<Longrightarrow>
  val (fst (HMSET D k fvs db)) = (val db)(k \<mapsto> HashValue (hash_of (val db k) ++ map_of (rev fvs)))"
  by (simp add: HMSET_def on_type_def val_hset)

lemma val_HMSETs:
  assumes "typed D THash k db" and "[] \<notin> set gs" and "gs \<noteq> []"
  shows "val (run_commands (map (HMSET D k) gs) db) = (val db)(k \<mapsto> HashValue (hash_of (val db k) ++ map_of (rev (concat gs))))"
  using assms
proof (induction gs arbitrary: db)
  case (Cons g gs)
  let ?db = "fst (HMSET D k g db)"
  have v: "val ?db = (val db)(k \<mapsto> HashValue (hash_of (val db k) ++ map_of (rev g)))"
    using Cons.prems by (intro val_HMSET) auto
  have t: "typed D THash k ?db" by (simp add: typed_val v)
  show ?case
  proof (cases "gs = []")
    case True
    then show ?thesis by (simp add: v)
  next
    case False
    then show ?thesis using Cons.IH [OF t] Cons.prems by (auto simp: v fun_eq_iff)
  qed
qed simp

text \<open>\<^verbatim>\<open>getMeta\<close> fetches from the hash of the key it selects.\<close>

lemma meta_key_val: "typed D THash (file_key f) db \<Longrightarrow> meta_key D f db = (db, fetch_key (val db) f)"
  by (simp add: meta_key_def fetch_key_def call_replied hget_reply reply_of_def split: option.splits)

lemma get_blocks_val:
  assumes "typed D THash key db"
  shows "get_blocks D key which nu nd bl db = (db, fetch_blocks (hash_of (val db key)) which nu nd bl)"
  using assms hmgets [where k = key and db = db and names = "\<lambda>i. [genBlockKey (int i) True]"]
    hmgets [where k = key and db = db and names = "\<lambda>i. [genBlockKey (int i) False]"]
  by (simp add: get_blocks_def fetch_blocks_def pipeline_replied Let_def split: option.splits)

lemma getMeta_val:
  assumes "typed D THash (file_key f) db" and "typed D THash (fetch_key (val db) f) db"
  shows "getMeta D sgen junk newOk which (f, bl) db = (db, fetch sgen junk newOk which (hash_of (val db (fetch_key (val db) f))) (f, bl))"
  using assms hmgets [where k = "fetch_key (val db) f" and db = db and names = chunk_names]
  by (simp add: getMeta_def fetch_def meta_key_val call_replied hmget_reply get_chunk_fields_def pipeline_replied get_blocks_val
      NUM_REQ_FIELDS_def meta_names_def split: option.splits prod.splits bool.splits outcome.splits)

end

subsection \<open>The record of a file\<close>

definition record_of :: "(uuid \<Rightarrow> string) \<Rightarrow> string \<Rightarrow> blocks \<Rightarrow> file_t \<Rightarrow> string \<rightharpoonup> string" where
  "record_of uts cs bl f = map_of (rev (concat (meta_field_groups uts cs bl f)))"

text \<open>What fits the fields: the ranges of the machine types, complete digests, chunks numbered in order.\<close>

definition is_long :: "int \<Rightarrow> bool" where "is_long x \<longleftrightarrow> - (2 ^ 63) \<le> x \<and> x < 2 ^ 63"

definition coding_ok :: "coding_meta \<Rightarrow> bool" where
  "coding_ok cm \<longleftrightarrow> 0 \<le> cm_coding cm \<and> cm_coding cm < 256 \<and> is_int (cm_n cm) \<and> is_int (cm_k cm) \<and> is_int (cm_f cm) \<and> is_int (cm_maxChunkSize cm)"

definition meta_ok :: "file_t \<Rightarrow> bool" where
  "meta_ok f \<longleftrightarrow> name_ok f \<and> file_wf f \<and> f_size f < 2 ^ 64 \<and> is_int (f_numChunks f) \<and> is_int (f_numStripes f) \<and> is_int (f_version f)
     \<and> 0 \<le> f_version f \<and> coding_ok (f_codingMeta f) \<and> coding_ok (st_codingMeta (f_staged f)) \<and> is_int (cm_codingStateSize (f_codingMeta f))
     \<and> (cm_codingStateSize (f_codingMeta f) = 0 \<or>
        0 < f_size f \<and> 0 < cm_codingStateSize (f_codingMeta f) \<and>
        (case cm_codingState (f_codingMeta f) of None \<Rightarrow> False | Some b \<Rightarrow> int (length b) = cm_codingStateSize (f_codingMeta f)))
     \<and> is_long (f_ctime f) \<and> is_long (f_atime f) \<and> is_long (f_mtime f) \<and> is_long (f_tctime f) \<and> is_long (st_mtime (f_staged f))
     \<and> st_size (f_staged f) < 2 ^ 64 \<and> length (f_md5 f) = MD5_DIGEST_LENGTH
     \<and> CHR 0x00 \<notin> set (f_storageClass f) \<and> CHR 0x00 \<notin> set (st_storageClass (f_staged f)) \<and> (f_isDeleted f \<longrightarrow> f_size f = 0)
     \<and> list_all is_int (f_containerIds f)
     \<and> list_all (\<lambda>i. c_chunkId (f_chunks f ! i) = int i \<and> is_int (c_size (f_chunks f ! i)) \<and> length (c_md5 (f_chunks f ! i)) = MD5_DIGEST_LENGTH)
         [0..<nat (f_numChunks f)]"

definition blocks_ok :: "blocks \<Rightarrow> bool" where
  "blocks_ok bl \<longleftrightarrow> length (b_unique bl) < 2 ^ 31 \<and> length (b_duplicate bl) < 2 ^ 31
     \<and> list_all (\<lambda>((ofs, len), fp, p). ofs < 2 ^ 64 \<and> len < 2 ^ 32 \<and> length fp = SHA256_DIGEST_LENGTH \<and> is_int p) (b_unique bl)
     \<and> list_all (\<lambda>((ofs, len), fp). ofs < 2 ^ 64 \<and> len < 2 ^ 32 \<and> length fp = SHA256_DIGEST_LENGTH) (b_duplicate bl)
     \<and> sorted_wrt (<) (map (fst \<circ> fst) (b_unique bl)) \<and> sorted_wrt (<) (map (fst \<circ> fst) (b_duplicate bl))"

lemma c_str_id: "CHR 0x00 \<notin> set s \<Longrightarrow> c_str s = s"
  by (auto simp: c_str_def takeWhile_eq_all_conv)

lemma map_of_rev_unique: "(n, v) \<in> set xs \<Longrightarrow> (\<And>w. (n, w) \<in> set xs \<Longrightarrow> w = v) \<Longrightarrow> map_of (rev xs) n = Some v"
  by (metis map_of_SomeD set_rev weak_map_of_SomeI)

lemma map_of_rev_append_other: "n \<notin> fst ` set ys \<Longrightarrow> map_of (rev (xs @ ys)) n = map_of (rev xs) n"
  by (simp add: map_add_def map_of_eq_None_iff split: option.splits) (metis map_of_eq_None_iff option.distinct(1) set_rev)

text \<open>Field names tell the three kinds of fields apart.\<close>

lemma chunk_field_names: "(n, w) \<in> set (chunk_fields f i) \<Longrightarrow> CHR ''-'' \<in> set n \<and> take 1 n = ''c''"
  by (auto simp: chunk_fields_def genChunkKeyPrefix_def Let_def)

lemma block_field_names:
  "(n, w) \<in> set (unique_block_field e) \<Longrightarrow> take 2 n = ''ub''" "(n, w) \<in> set (duplicate_block_field d) \<Longrightarrow> take 2 n = ''db''"
  by (auto simp: unique_block_field_def duplicate_block_field_def genBlockKey_def getBlockKeyPrefix_def split: prod.splits)

lemma record_members:
  "e \<in> set (concat (meta_field_groups uts cs bl f)) \<longleftrightarrow>
     e \<in> set (file_fields uts cs bl f) \<or> (\<exists>i < nat (f_numChunks f). e \<in> set (chunk_fields f i)) \<or>
     (\<exists>i < length (b_unique bl). e \<in> set (unique_block_field (i, b_unique bl ! i))) \<or>
     (\<exists>i < length (b_duplicate bl). e \<in> set (duplicate_block_field (i, b_duplicate bl ! i)))"
proof -
  have enum: "(\<exists>x \<in> set (enumerate 0 xs). e \<in> set (F x)) \<longleftrightarrow> (\<exists>i < length xs. e \<in> set (F (i, xs ! i)))" for F and xs :: "'b list"
    by (auto simp: in_set_enumerate_eq)
  show ?thesis by (auto simp: meta_field_groups_def simp flip: enum)
qed

lemma record_file_field:
  assumes "CHR ''-'' \<notin> set n" and "take 2 n \<noteq> ''ub''" and "take 2 n \<noteq> ''db''"
  shows "record_of uts cs bl f n = map_of (rev (file_fields uts cs bl f)) n"
proof -
  have other: "(n, w) \<in> set (concat (meta_field_groups uts cs bl f)) \<longleftrightarrow> (n, w) \<in> set (file_fields uts cs bl f)" for w
    using assms chunk_field_names [of n w f] block_field_names [of n w] unfolding record_members by blast
  have d: "distinct (map fst (file_fields uts cs bl f))" by (simp add: file_fields_def Let_def)
  show ?thesis
  proof (cases "map_of (rev (file_fields uts cs bl f)) n")
    case None
    then have "n \<notin> fst ` set (concat (meta_field_groups uts cs bl f))"
      using other by (force simp: map_of_eq_None_iff)
    then have "record_of uts cs bl f n = None" by (simp add: record_of_def map_of_eq_None_iff)
    then show ?thesis using None by simp
  next
    case (Some v)
    then have v: "(n, v) \<in> set (file_fields uts cs bl f)" using map_of_SomeD by force
    have "record_of uts cs bl f n = Some v"
      unfolding record_of_def by (rule map_of_rev_unique) (use other v d in \<open>auto dest: eq_key_imp_eq_value\<close>)
    then show ?thesis using Some by simp
  qed
qed

lemma chunk_name_inject:
  assumes "genChunkKeyPrefix (int i) @ ''-'' @ s = genChunkKeyPrefix (int j) @ ''-'' @ t"
  shows "i = j \<and> s = t"
proof -
  have no: "CHR ''-'' \<notin> set (nat_to_string n)" for n using nat_to_string_digits minus_not_digit by blast
  have "nat_to_string i @ CHR ''-'' # s = nat_to_string j @ CHR ''-'' # t"
    using assms by (simp add: genChunkKeyPrefix_def int_to_string_def)
  from split_at_separator [OF this no no] show ?thesis by simp
qed

lemma chunk_field_unique:
  assumes "(n, v) \<in> set (chunk_fields f i)" and "(n, w) \<in> set (chunk_fields f j)"
    and "c_chunkId (f_chunks f ! i) = int i" and "c_chunkId (f_chunks f ! j) = int j"
  shows "w = v"
proof -
  obtain s where s: "n = genChunkKeyPrefix (int i) @ ''-'' @ s" using assms(1,3) by (auto simp: chunk_fields_def Let_def)
  obtain t where t: "n = genChunkKeyPrefix (int j) @ ''-'' @ t" using assms(2,4) by (auto simp: chunk_fields_def Let_def)
  have "i = j" using chunk_name_inject s t by metis
  with assms(1,2) show ?thesis by (auto simp: chunk_fields_def Let_def)
qed

lemma record_chunk_field:
  assumes "meta_ok f" and "i < nat (f_numChunks f)" and "(n, v) \<in> set (chunk_fields f i)"
  shows "record_of uts cs bl f n = Some v"
  unfolding record_of_def
proof (rule map_of_rev_unique)
  have c: "CHR ''-'' \<in> set n" "take 1 n = ''c''" using chunk_field_names [OF assms(3)] by auto
  have ids: "j < nat (f_numChunks f) \<Longrightarrow> c_chunkId (f_chunks f ! j) = int j" for j
    using assms(1) by (auto simp: meta_ok_def list_all_iff)
  show "(n, v) \<in> set (concat (meta_field_groups uts cs bl f))" using assms(2,3) record_members by blast
  fix w assume "(n, w) \<in> set (concat (meta_field_groups uts cs bl f))"
  then consider "(n, w) \<in> set (file_fields uts cs bl f)" | j where "j < nat (f_numChunks f)" "(n, w) \<in> set (chunk_fields f j)"
    | e where "(n, w) \<in> set (unique_block_field e)" | e where "(n, w) \<in> set (duplicate_block_field e)"
    unfolding record_members by blast
  then show "w = v"
  proof cases
    case 1
    then have "CHR ''-'' \<notin> set n" by (auto simp: file_fields_def Let_def)
    with c show ?thesis by simp
  next
    case 2
    then show ?thesis using chunk_field_unique [OF assms(3)] ids assms(2) by blast
  next
    case (3 e)
    then have "take 2 n = ''ub''" by (rule block_field_names)
    with c show ?thesis by (cases n; cases "tl n") auto
  next
    case (4 e)
    then have "take 2 n = ''db''" by (rule block_field_names)
    with c show ?thesis by (cases n; cases "tl n") auto
  qed
qed

lemma record_block_field:
  shows "i < length (b_unique bl) \<Longrightarrow> (n, v) \<in> set (unique_block_field (i, b_unique bl ! i)) \<Longrightarrow> record_of uts cs bl f n = Some v"
    and "i < length (b_duplicate bl) \<Longrightarrow> (n, v) \<in> set (duplicate_block_field (i, b_duplicate bl ! i)) \<Longrightarrow> record_of uts cs bl f n = Some v"
proof -
  let ?all = "set (concat (meta_field_groups uts cs bl f))"
  have ff: "(n, w) \<in> set (file_fields uts cs bl f) \<Longrightarrow> take 2 n \<noteq> ''ub'' \<and> take 2 n \<noteq> ''db''" for w
    by (auto simp: file_fields_def Let_def)
  have chunk: "(n, w) \<in> set (chunk_fields f j) \<Longrightarrow> take 2 n \<noteq> ''ub'' \<and> take 2 n \<noteq> ''db''" for w j
    using chunk_field_names [of n w f j] by (cases n; cases "tl n") auto
  have un: "take 2 n = ''ub'' \<Longrightarrow> (n, w) \<in> ?all \<Longrightarrow> \<exists>j < length (b_unique bl). (n, w) \<in> set (unique_block_field (j, b_unique bl ! j))" for w
  proof -
    assume u: "take 2 n = ''ub''" and "(n, w) \<in> ?all"
    moreover have "(n, w) \<notin> set (duplicate_block_field e)" for e using u block_field_names(2) [of n w e] by auto
    ultimately show ?thesis using ff [of w] chunk [of w] unfolding record_members by blast
  qed
  have du: "take 2 n = ''db'' \<Longrightarrow> (n, w) \<in> ?all \<Longrightarrow> \<exists>j < length (b_duplicate bl). (n, w) \<in> set (duplicate_block_field (j, b_duplicate bl ! j))" for w
  proof -
    assume u: "take 2 n = ''db''" and "(n, w) \<in> ?all"
    moreover have "(n, w) \<notin> set (unique_block_field e)" for e using u block_field_names(1) [of n w e] by auto
    ultimately show ?thesis using ff [of w] chunk [of w] unfolding record_members by blast
  qed
  {
    assume i: "i < length (b_unique bl)" and v: "(n, v) \<in> set (unique_block_field (i, b_unique bl ! i))"
    show "record_of uts cs bl f n = Some v" unfolding record_of_def
    proof (rule map_of_rev_unique)
      show "(n, v) \<in> ?all" using i v record_members by blast
      fix w assume "(n, w) \<in> ?all"
      then obtain j where "(n, w) \<in> set (unique_block_field (j, b_unique bl ! j))" using un block_field_names(1) [OF v] by blast
      moreover from this v have "j = i" by (auto simp: unique_block_field_def genBlockKey_def split: prod.splits)
      ultimately show "w = v" using v by (cases "b_unique bl ! i") (auto simp: unique_block_field_def)
    qed
  next
    assume i: "i < length (b_duplicate bl)" and v: "(n, v) \<in> set (duplicate_block_field (i, b_duplicate bl ! i))"
    show "record_of uts cs bl f n = Some v" unfolding record_of_def
    proof (rule map_of_rev_unique)
      show "(n, v) \<in> ?all" using i v record_members by blast
      fix w assume "(n, w) \<in> ?all"
      then obtain j where "(n, w) \<in> set (duplicate_block_field (j, b_duplicate bl ! j))" using du block_field_names(2) [OF v] by blast
      moreover from this v have "j = i" by (auto simp: duplicate_block_field_def genBlockKey_def split: prod.splits)
      ultimately show "w = v" using v by (cases "b_duplicate bl ! i") (auto simp: duplicate_block_field_def)
    qed
  }
qed

subsection \<open>What is read back\<close>

definition stored_meta :: "file_t \<Rightarrow> file_t \<Rightarrow> file_t" where
  "stored_meta f g =
     g\<lparr>f_size := f_size f, f_numChunks := f_numChunks f, f_numStripes := f_numStripes f, f_uuid := f_uuid f, f_storageClass := f_storageClass f,
       f_codingMeta := codingMeta_copyMeta (f_codingMeta f) False (f_codingMeta g), f_version := f_version f,
       f_ctime := f_ctime f, f_atime := f_atime f, f_mtime := f_mtime f, f_tctime := f_tctime f, f_md5 := f_md5 f,
       f_staged := (f_staged g)\<lparr>st_size := st_size (f_staged f), st_storageClass := st_storageClass (f_staged f),
         st_codingMeta := codingMeta_copyMeta (st_codingMeta (f_staged f)) True (st_codingMeta (f_staged g)), st_mtime := st_mtime (f_staged f)\<rparr>,
       f_isDeleted := f_isDeleted f\<rparr>"

definition stored_chunk :: "file_t \<Rightarrow> file_t \<Rightarrow> nat \<Rightarrow> chunk" where
  "stored_chunk f g i = (setId (f_namespaceId g) (f_uuid f) (int i) chunk_reset)
     \<lparr>c_size := c_size (f_chunks f ! i), c_md5 := c_md5 (f_chunks f ! i), c_fileVersion := f_version f\<rparr>"

definition stored_file :: "file_t \<Rightarrow> file_t \<Rightarrow> file_t" where
  "stored_file f g = (stored_meta f g)\<lparr>f_containerIds := f_containerIds f, f_chunks := map (stored_chunk f g) [0..<nat (f_numChunks f)],
     f_chunksCorrupted := f_chunksCorrupted f\<rparr>"

definition meta_values :: "(uuid \<Rightarrow> string) \<Rightarrow> string \<Rightarrow> blocks \<Rightarrow> file_t \<Rightarrow> string list" where
  "meta_values uts cs bl f = map (\<lambda>n. the (map_of (rev (file_fields uts cs bl f)) n)) meta_names"

lemma meta_replies: "map (reply_of (h0 ++ record_of uts cs bl f)) meta_names = map RString (meta_values uts cs bl f)"
proof -
  have "reply_of (h0 ++ record_of uts cs bl f) n = RString (the (map_of (rev (file_fields uts cs bl f)) n))" if "n \<in> set meta_names" for n
  proof -
    have r: "record_of uts cs bl f n = map_of (rev (file_fields uts cs bl f)) n"
      by (rule record_file_field) (use that in \<open>auto simp: meta_names_def\<close>)
    have "n \<in> fst ` set (rev (file_fields uts cs bl f))" using that by (auto simp: meta_names_def file_fields_def Let_def)
    then have "map_of (rev (file_fields uts cs bl f)) n \<noteq> None" by (simp add: map_of_eq_None_iff)
    then show ?thesis by (auto simp: reply_of_def map_add_def r split: option.splits)
  qed
  then show ?thesis by (simp add: meta_values_def)
qed

lemma parse_coding_values:
  assumes "coding_ok cm" and "i + 4 < length vs" and "vs ! i = uchar_str (cm_coding cm)" and "vs ! (i + 1) = int_str (cm_n cm)"
    and "vs ! (i + 2) = int_str (cm_k cm)" and "vs ! (i + 3) = int_str (cm_f cm)" and "vs ! (i + 4) = int_str (cm_maxChunkSize cm)"
  shows "parse_coding (map RString vs) i m = Some (codingMeta_copyMeta cm True m)"
  using assms by (simp add: parse_coding_def field_at_def coding_ok_def codingMeta_copyMeta_def)

lemma meta_value_list:
  "meta_values uts cs bl f = (let cm = f_codingMeta f; st = f_staged f; sm = st_codingMeta st in
     [ulong_str (f_size f), int_str (f_numChunks f), int_str (f_numStripes f), uts (f_uuid f), c_str (f_storageClass f),
      uchar_str (cm_coding cm), int_str (cm_n cm), int_str (cm_k cm), int_str (cm_f cm), int_str (cm_maxChunkSize cm),
      int_str (cm_codingStateSize cm), cs, int_str (f_version f), long_str (f_ctime f), long_str (f_atime f), long_str (f_mtime f),
      long_str (f_tctime f), bstr (take MD5_DIGEST_LENGTH (f_md5 f)), ulong_str (st_size st), c_str (st_storageClass st),
      uchar_str (cm_coding sm), int_str (cm_n sm), int_str (cm_k sm), int_str (cm_f sm), int_str (cm_maxChunkSize sm), long_str (st_mtime st),
      if f_size f = 0 \<and> f_isDeleted f then ''1'' else ''0'', ulong_str (length (b_unique bl)), ulong_str (length (b_duplicate bl))])"
  by (simp add: meta_values_def meta_names_def file_fields_def Let_def)

lemma meta_value_nth:
  "meta_values uts cs bl f ! 0 = ulong_str (f_size f)"
  "meta_values uts cs bl f ! 1 = int_str (f_numChunks f)"
  "meta_values uts cs bl f ! 2 = int_str (f_numStripes f)"
  "meta_values uts cs bl f ! 3 = uts (f_uuid f)"
  "meta_values uts cs bl f ! 4 = c_str (f_storageClass f)"
  "meta_values uts cs bl f ! 12 = int_str (f_version f)"
  "meta_values uts cs bl f ! 13 = long_str (f_ctime f)"
  "meta_values uts cs bl f ! 14 = long_str (f_atime f)"
  "meta_values uts cs bl f ! 15 = long_str (f_mtime f)"
  "meta_values uts cs bl f ! 16 = long_str (f_tctime f)"
  "meta_values uts cs bl f ! 17 = bstr (take MD5_DIGEST_LENGTH (f_md5 f))"
  "meta_values uts cs bl f ! 18 = ulong_str (st_size (f_staged f))"
  "meta_values uts cs bl f ! 19 = c_str (st_storageClass (f_staged f))"
  "meta_values uts cs bl f ! 25 = long_str (st_mtime (f_staged f))"
  "meta_values uts cs bl f ! 26 = (if f_size f = 0 \<and> f_isDeleted f then ''1'' else ''0'')"
  "meta_values uts cs bl f ! 27 = ulong_str (length (b_unique bl))"
  "meta_values uts cs bl f ! 28 = ulong_str (length (b_duplicate bl))"
  by (simp_all add: meta_value_list Let_def)

lemma atoi_flag [simp]: "atoi ''0'' = 0" "atoi ''1'' = 1"
  by (simp_all add: atoi_def strtol_def dec_value_def digit_value_def is_digit_def to_signed_def)

lemma coding_state_stored:
  assumes "meta_ok f"
  shows "coding_state_str f = Some (if cm_codingStateSize (f_codingMeta f) = 0 then [] else bstr (the (cm_codingState (f_codingMeta f))))"
  using assms by (auto simp: meta_ok_def coding_state_str_def Let_def split: option.splits)

lemma parse_coding_state_values:
  assumes "meta_ok f" and "coding_state_str f = Some cs" and "12 \<le> length vs"
    and "vs ! 10 = int_str (cm_codingStateSize (f_codingMeta f))" and "vs ! 11 = cs"
  shows "parse_coding_state (map RString vs) (codingMeta_copyMeta (f_codingMeta f) True m) = Some (codingMeta_copyMeta (f_codingMeta f) False m)"
  using assms coding_state_stored [OF assms(1)]
  by (auto simp: parse_coding_state_def field_at_def meta_ok_def codingMeta_copyMeta_def Let_def split: option.splits)

lemma parse_record:
  assumes ok: "meta_ok f" and cs: "coding_state_str f = Some cs" and u: "sgen (uts (f_uuid f)) = Some (f_uuid f)" and bl: "blocks_ok bl"
  shows "parse_meta sgen (map (reply_of (h0 ++ record_of uts cs bl f)) meta_names) g = Some (stored_meta f g, length (b_unique bl), length (b_duplicate bl))"
proof -
  let ?vs = "meta_values uts cs bl f"
  have vs: "length ?vs = 29" by (simp add: meta_values_def meta_names_def)
  have c: "parse_coding (map RString ?vs) 5 m = Some (codingMeta_copyMeta (f_codingMeta f) True m)" for m
    by (rule parse_coding_values) (use ok in \<open>simp_all add: meta_ok_def meta_value_list Let_def\<close>)
  have s: "parse_coding (map RString ?vs) 20 m = Some (codingMeta_copyMeta (st_codingMeta (f_staged f)) True m)" for m
    by (rule parse_coding_values) (use ok in \<open>simp_all add: meta_ok_def meta_value_list Let_def\<close>)
  have p: "parse_coding_state (map RString ?vs) (codingMeta_copyMeta (f_codingMeta f) True m) = Some (codingMeta_copyMeta (f_codingMeta f) False m)" for m
    by (rule parse_coding_state_values [OF ok cs]) (simp_all add: meta_value_list Let_def)
  have at: "field_at (map RString ?vs) i 0 n = (if length (?vs ! i) < n then None else Some (take n (?vs ! i)))" if "i < 29" for i n
    using that vs by (simp add: field_at_def)
  have str: "copy_string (map RString ?vs) i = ?vs ! i" if "i < 29" for i using that vs by (simp add: copy_string_def)
  have fo: "field_or conv (map RString ?vs) i n d = (if length (?vs ! i) < n then d else conv (take n (?vs ! i)))" if "i < 29" for conv :: "string \<Rightarrow> 'x" and i n d
    using that vs at [OF that] by (simp add: field_or_def)
  have nums: "length (b_unique bl) < 2 ^ 64" "length (b_duplicate bl) < 2 ^ 64" using bl by (simp_all add: blocks_ok_def)
  have ints: "copy_field (map RString ?vs) 0 8 = Some (ulong_str (f_size f))" "copy_field (map RString ?vs) 1 4 = Some (int_str (f_numChunks f))"
    "copy_field (map RString ?vs) 2 4 = Some (int_str (f_numStripes f))" "copy_field (map RString ?vs) 12 4 = Some (int_str (f_version f))"
    by (simp_all add: at meta_value_nth del: One_nat_def)
  have longs: "field_or str_long (map RString ?vs) 13 8 0 = f_ctime f" "field_or str_long (map RString ?vs) 14 8 0 = f_atime f"
    "field_or str_long (map RString ?vs) 15 8 0 = f_mtime f" "field_or str_long (map RString ?vs) 16 8 0 = f_tctime f"
    "field_or str_long (map RString ?vs) 25 8 0 = st_mtime (f_staged f)"
    "field_or str_ulong (map RString ?vs) 18 8 INVALID_FILE_OFFSET = st_size (f_staged f)"
    "field_or str_ulong (map RString ?vs) 27 8 0 = length (b_unique bl)" "field_or str_ulong (map RString ?vs) 28 8 0 = length (b_duplicate bl)"
    using ok nums by (simp_all add: fo meta_value_nth meta_ok_def is_long_def)
  have strs: "copy_string (map RString ?vs) 3 = uts (f_uuid f)" "copy_string (map RString ?vs) 4 = f_storageClass f"
    "copy_string (map RString ?vs) 19 = st_storageClass (f_staged f)"
    using ok by (simp_all add: str meta_value_nth meta_ok_def c_str_id)
  have md5: "md5_or (map RString ?vs) 17 old = f_md5 f" for old
    using ok by (simp add: md5_or_def fo meta_value_nth meta_ok_def)
  have dm: "field_or (\<lambda>s. atoi (copy_string (map RString ?vs) 26) \<noteq> 0) (map RString ?vs) 26 1 False = f_isDeleted f"
    using ok by (auto simp: fo str meta_value_nth meta_ok_def)
  have r: "str_ulong (ulong_str (f_size f)) = f_size f" "str_int (int_str (f_numChunks f)) = f_numChunks f"
    "str_int (int_str (f_numStripes f)) = f_numStripes f" "str_int (int_str (f_version f)) = f_version f"
    using ok by (simp_all add: meta_ok_def)
  show ?thesis
    unfolding meta_replies parse_meta_def ints longs strs md5 dm c s p u bind.bind_lunit r stored_meta_def by simp
qed

lemma chunk_replies:
  assumes ok: "meta_ok f" and i: "i < nat (f_numChunks f)"
  shows "map (reply_of (h0 ++ record_of uts cs bl f)) (chunk_names i) =
    [RString (int_str (f_containerIds f ! i)), RString (int_str (c_size (f_chunks f ! i))), RString (bstr (c_md5 (f_chunks f ! i))),
     RString (if f_chunksCorrupted f ! i then ''1'' else ''0'')]"
proof -
  have c: "c_chunkId (f_chunks f ! i) = int i" "length (c_md5 (f_chunks f ! i)) = MD5_DIGEST_LENGTH" "f_chunksCorrupted f \<noteq> []"
    using ok i by (auto simp: meta_ok_def list_all_iff file_wf_def)
  have fields: "chunk_fields f i = zip (chunk_names i) [int_str (f_containerIds f ! i), int_str (c_size (f_chunks f ! i)),
      bstr (c_md5 (f_chunks f ! i)), if f_chunksCorrupted f ! i then ''1'' else ''0'']"
    using c by (simp add: chunk_fields_def chunk_names_def Let_def)
  have "reply_of (h0 ++ record_of uts cs bl f) n = RString v" if "(n, v) \<in> set (chunk_fields f i)" for n v
    using record_chunk_field [OF ok i that] by (simp add: reply_of_def map_add_def)
  then show ?thesis by (simp add: fields chunk_names_def)
qed

definition fill_chunk :: "file_t \<Rightarrow> file_t \<Rightarrow> nat \<Rightarrow> chunk \<Rightarrow> chunk" where
  "fill_chunk f g i c = (setId (f_namespaceId g) (f_uuid g) (int i) (c\<lparr>c_size := c_size (f_chunks f ! i), c_md5 := c_md5 (f_chunks f ! i)\<rparr>))
     \<lparr>c_data := None, c_freeData := True, c_fileVersion := f_version g\<rparr>"

lemma read_chunk_record:
  assumes ok: "meta_ok f" and i: "i < nat (f_numChunks f)"
  shows "read_chunk (RArray (map (reply_of (h0 ++ record_of uts cs bl f)) (chunk_names i))) i g =
    Result (g\<lparr>f_containerIds := (f_containerIds g)[i := f_containerIds f ! i], f_chunks := (f_chunks g)[i := fill_chunk f g i (f_chunks g ! i)],
             f_chunksCorrupted := (f_chunksCorrupted g)[i := f_chunksCorrupted f ! i]\<rparr>)"
proof -
  have "is_int (f_containerIds f ! i)" "is_int (c_size (f_chunks f ! i))" "length (c_md5 (f_chunks f ! i)) = MD5_DIGEST_LENGTH"
    using ok i by (auto simp: meta_ok_def list_all_iff file_wf_def)
  then show ?thesis
    unfolding chunk_replies [OF ok i] read_chunk_def
    by (simp add: field_at_def md5_or_def field_or_def fill_chunk_def Let_def)
qed

lemma read_chunks_record:
  assumes ok: "meta_ok f" and n: "n = nat (f_numChunks f)"
  shows "j \<le> n \<Longrightarrow> length (f_containerIds g) = n \<Longrightarrow> length (f_chunks g) = n \<Longrightarrow> length (f_chunksCorrupted g) = n \<Longrightarrow>
    read_chunks (map (\<lambda>i. RArray (map (reply_of (h0 ++ record_of uts cs bl f)) (chunk_names i))) [j..<n]) j g =
    Result (g\<lparr>f_containerIds := take j (f_containerIds g) @ drop j (f_containerIds f),
             f_chunks := take j (f_chunks g) @ map (\<lambda>i. fill_chunk f g i (f_chunks g ! i)) [j..<n],
             f_chunksCorrupted := take j (f_chunksCorrupted g) @ drop j (f_chunksCorrupted f)\<rparr>)"
proof (induction "n - j" arbitrary: j g)
  case 0
  then show ?case using ok n by (simp add: meta_ok_def file_wf_def)
next
  case (Suc k)
  then have j: "j < n" by simp
  have lens: "length (f_containerIds f) = n" "length (f_chunksCorrupted f) = n" using ok n by (simp_all add: meta_ok_def file_wf_def)
  let ?g = "g\<lparr>f_containerIds := (f_containerIds g)[j := f_containerIds f ! j], f_chunks := (f_chunks g)[j := fill_chunk f g j (f_chunks g ! j)],
             f_chunksCorrupted := (f_chunksCorrupted g)[j := f_chunksCorrupted f ! j]\<rparr>"
  have fill: "fill_chunk f ?g i c = fill_chunk f g i c" for i c by (simp add: fill_chunk_def)
  have up: "take (Suc j) (xs[j := x]) = take j xs @ [x]" if "length xs = n" for xs :: "'x list" and x
    using that j by (simp add: take_Suc_conv_app_nth)
  have dr: "xs ! j # drop (Suc j) xs = drop j xs" if "length xs = n" for xs :: "'x list"
    using that j by (simp add: Cons_nth_drop_Suc)
  have rest: "map (\<lambda>i. fill_chunk f g i ((f_chunks g)[j := y] ! i)) [Suc j..<n] = map (\<lambda>i. fill_chunk f g i (f_chunks g ! i)) [Suc j..<n]" for y
    by simp
  show ?case
    using Suc.hyps Suc.prems j Suc.hyps(1) [of "Suc j" ?g] read_chunk_record [OF ok, of j h0 uts cs bl g] n
    by (simp add: upt_conv_Cons fill up dr rest lens)
qed

lemma emplace_last:
  assumes "list_all (\<lambda>x. fst (fst x) < fst (fst e)) m"
  shows "emplace e m = m @ [e]"
proof -
  have "insort_key (fst \<circ> fst) e m = m @ [e]" using assms by (induction m) auto
  moreover have "fst (fst e) \<notin> (fst \<circ> fst) ` set m" using assms by (auto simp: list_all_iff)
  ultimately show ?thesis by (simp add: emplace_def)
qed

definition unique_value :: "(nat \<times> nat) \<times> string \<times> int \<Rightarrow> string" where
  "unique_value e = (case e of ((ofs, len), fp, p) \<Rightarrow> ulong_str ofs @ uint_str len @ fp @ int_str p)"

definition duplicate_value :: "(nat \<times> nat) \<times> string \<Rightarrow> string" where
  "duplicate_value e = (case e of ((ofs, len), fp) \<Rightarrow> ulong_str ofs @ uint_str len @ fp)"

lemma block_replies:
  "map (\<lambda>i. RArray [reply_of (h0 ++ record_of uts cs bl f) (genBlockKey (int i) True)]) [0..<length (b_unique bl)]
     = map (\<lambda>e. RArray [RString (unique_value e)]) (b_unique bl)"
  "map (\<lambda>i. RArray [reply_of (h0 ++ record_of uts cs bl f) (genBlockKey (int i) False)]) [0..<length (b_duplicate bl)]
     = map (\<lambda>e. RArray [RString (duplicate_value e)]) (b_duplicate bl)"
proof -
  have "record_of uts cs bl f (genBlockKey (int i) True) = Some (unique_value (b_unique bl ! i))" if "i < length (b_unique bl)" for i
    using that by (intro record_block_field(1)) (simp_all add: unique_block_field_def unique_value_def case_prod_unfold)
  then show "map (\<lambda>i. RArray [reply_of (h0 ++ record_of uts cs bl f) (genBlockKey (int i) True)]) [0..<length (b_unique bl)]
     = map (\<lambda>e. RArray [RString (unique_value e)]) (b_unique bl)"
    by (intro nth_equalityI) (simp_all add: reply_of_def map_add_def)
  have "record_of uts cs bl f (genBlockKey (int i) False) = Some (duplicate_value (b_duplicate bl ! i))" if "i < length (b_duplicate bl)" for i
    using that by (intro record_block_field(2)) (simp_all add: duplicate_block_field_def duplicate_value_def case_prod_unfold)
  then show "map (\<lambda>i. RArray [reply_of (h0 ++ record_of uts cs bl f) (genBlockKey (int i) False)]) [0..<length (b_duplicate bl)]
     = map (\<lambda>e. RArray [RString (duplicate_value e)]) (b_duplicate bl)"
    by (intro nth_equalityI) (simp_all add: reply_of_def map_add_def)
qed

lemma read_unique_values:
  assumes "list_all (\<lambda>((ofs, len), fp, p). ofs < 2 ^ 64 \<and> len < 2 ^ 32 \<and> length fp = SHA256_DIGEST_LENGTH \<and> is_int p) es"
    and "sorted_wrt (<) (map (fst \<circ> fst) (m @ es))"
  shows "\<exists>fp1. read_unique (map (\<lambda>e. RArray [RString (unique_value e)]) es) fp m = Some (fp1, m @ es)"
  using assms
proof (induction es arbitrary: fp m)
  case (Cons e es)
  obtain ofs len fq p where e: "e = ((ofs, len), fq, p)" by (metis surj_pair)
  have last: "emplace ((ofs, len), fq, p) m = m @ [e]"
    unfolding e by (rule emplace_last) (use Cons.prems(2) in \<open>auto simp: e sorted_wrt_append list_all_iff\<close>)
  have "read_unique (map (\<lambda>e. RArray [RString (unique_value e)]) (e # es)) fp m
      = read_unique (map (\<lambda>e. RArray [RString (unique_value e)]) es) fq (m @ [e])"
    using Cons.prems(1) by (simp add: e unique_value_def field_at_def SHA256_DIGEST_LENGTH_def last [unfolded e])
  then show ?case using Cons.IH [of "m @ [e]" fq] Cons.prems by simp
qed simp

lemma read_duplicate_values:
  assumes "list_all (\<lambda>((ofs, len), fp). ofs < 2 ^ 64 \<and> len < 2 ^ 32 \<and> length fp = SHA256_DIGEST_LENGTH) es"
    and "sorted_wrt (<) (map (fst \<circ> fst) (m @ es))"
  shows "read_duplicate (map (\<lambda>e. RArray [RString (duplicate_value e)]) es) fp m = Some (m @ es)"
  using assms
proof (induction es arbitrary: fp m)
  case (Cons e es)
  obtain ofs len fq where e: "e = ((ofs, len), fq)" by (metis surj_pair)
  have last: "emplace ((ofs, len), fq) m = m @ [e]"
    unfolding e by (rule emplace_last) (use Cons.prems(2) in \<open>auto simp: e sorted_wrt_append list_all_iff\<close>)
  have "read_duplicate (map (\<lambda>e. RArray [RString (duplicate_value e)]) (e # es)) fp m
      = read_duplicate (map (\<lambda>e. RArray [RString (duplicate_value e)]) es) fq (m @ [e])"
    using Cons.prems(1) by (simp add: e duplicate_value_def field_at_def SHA256_DIGEST_LENGTH_def last [unfolded e])
  then show ?case using Cons.IH [of "m @ [e]" fq] Cons.prems by simp
qed simp

lemma fetch_blocks_record:
  assumes "blocks_ok bl"
  shows "fetch_blocks (h0 ++ record_of uts cs bl f) 3 (length (b_unique bl)) (length (b_duplicate bl)) no_blocks = Some bl"
proof -
  obtain fp where "read_unique (map (\<lambda>e. RArray [RString (unique_value e)]) (b_unique bl)) [] [] = Some (fp, b_unique bl)"
    using read_unique_values [of "b_unique bl" "[]" "[]"] assms by (auto simp: blocks_ok_def)
  moreover have "read_duplicate (map (\<lambda>e. RArray [RString (duplicate_value e)]) (b_duplicate bl)) fp [] = Some (b_duplicate bl)"
    using read_duplicate_values [of "b_duplicate bl" "[]" fp] assms by (simp add: blocks_ok_def)
  ultimately show ?thesis by (simp add: fetch_blocks_def block_replies no_blocks_def)
qed

text \<open>Fetching from a record gives back the file.\<close>

lemma fetch_record:
  assumes ok: "meta_ok f" and cs: "coding_state_str f = Some cs" and u: "sgen (uts (f_uuid f)) = Some (f_uuid f)" and bl: "blocks_ok bl"
  shows "fetch sgen junk True 3 (h0 ++ record_of uts cs bl f) (g, no_blocks) = Result (stored_file f g, bl)"
proof -
  let ?n = "nat (f_numChunks f)"
  obtain g2 where i: "initChunksAndContainerIds junk True (-1) (stored_meta f g) = (g2, True)"
    and g2: "g2 = (stored_meta f g)\<lparr>f_containerIds := map junk [0..<?n], f_chunks := replicate ?n chunk_reset, f_chunksCorrupted := replicate ?n False,
      f_numChunks := f_numChunks f\<rparr>"
    using ok by (simp add: initChunksAndContainerIds_def Let_def stored_meta_def meta_ok_def file_wf_def)
  have n: "f_numChunks g2 = f_numChunks f" by (simp add: g2)
  have fill: "map (\<lambda>i. fill_chunk f g2 i (f_chunks g2 ! i)) [0..<?n] = map (stored_chunk f g) [0..<?n]"
    by (simp add: fill_chunk_def stored_chunk_def g2 stored_meta_def setId_def chunk_reset_def chunk_resetMD5_def)
  have lens: "length (f_containerIds g2) = ?n" "length (f_chunks g2) = ?n" "length (f_chunksCorrupted g2) = ?n" by (simp_all add: g2)
  have "read_chunks (map (\<lambda>i. RArray (map (reply_of (h0 ++ record_of uts cs bl f)) (chunk_names i))) [0..<?n]) 0 g2 =
      Result (g2\<lparr>f_containerIds := f_containerIds f, f_chunks := map (stored_chunk f g) [0..<?n], f_chunksCorrupted := f_chunksCorrupted f\<rparr>)"
    using read_chunks_record [OF ok refl le0 lens, where uts = uts and cs = cs and bl = bl and ?h0.0 = h0] unfolding fill by simp
  also have "\<dots> = Result (stored_file f g)" by (simp add: g2 stored_file_def stored_meta_def)
  finally have c: "read_chunks (map (\<lambda>i. RArray (map (reply_of (h0 ++ record_of uts cs bl f)) (chunk_names i))) [0..<?n]) 0 g2 = Result (stored_file f g)" .
  show ?thesis
    by (simp add: fetch_def parse_record [where sgen = sgen and uts = uts, OF ok cs u bl] i n c fetch_blocks_record [OF bl])
qed

end
