(* ===== verification/Meta_View.thy ===== *)
theory Meta_View
  imports Meta_Record
begin

text \<open>
  The metadata store as a map from keys to values.  \<open>put_view\<close>, \<open>backup_view\<close>, \<open>delete_view\<close> and \<open>rename_view\<close> say what the operations do
  to the map; with a server that answers, the operations implement them.  \<open>key_kind\<close> is the type of the values that a key of
  the store may hold.
\<close>

subsection \<open>Kinds of keys\<close>

definition key_kind :: "string \<Rightarrow> key_type option" where
  "key_kind k =
     (if k = [] then None
      else if is_digit (hd k) then Some THash
      else if take 4 k = ''//vl'' then Some TZSet
      else if take 4 k = ''//fu'' then Some TString
      else if take 5 k = ''//pf_'' then Some TSet
      else if k = BG_TASK_PENDING_KEY then Some TZSet
      else if take 6 k = ''//sncc'' then Some TSet
      else if take 1 k = ''/'' \<and> 1 < length k \<and> is_digit (k ! 1) then Some THash
      else None)"

definition well_typed :: "(string \<rightharpoonup> redis_value) \<Rightarrow> bool" where
  "well_typed w \<longleftrightarrow> (\<forall>k v. w k = Some v \<longrightarrow> key_kind k = Some (value_type v))"

lemma well_typedD: "well_typed w \<Longrightarrow> w k = Some v \<Longrightarrow> key_kind k = Some t \<Longrightarrow> value_type v = t"
  by (auto simp: well_typed_def)

lemma well_typed_upd [intro]: "well_typed w \<Longrightarrow> (\<And>v. x = Some v \<Longrightarrow> key_kind k = Some (value_type v)) \<Longrightarrow> well_typed (w(k := x))"
  by (auto simp: well_typed_def)

lemma well_typed_set: "well_typed w \<Longrightarrow> key_kind k = Some (value_type v) \<Longrightarrow> well_typed (w(k \<mapsto> v))"
  by auto

lemma key_number_length: "n < 10 ^ Suc k \<Longrightarrow> length (nat_to_string n) \<le> Suc k"
proof (induction k arbitrary: n)
  case (Suc k)
  have "n div 10 < 10 ^ Suc k" using Suc.prems by (simp add: less_mult_imp_div_less)
  then show ?case using Suc.IH [of "n div 10"] by (subst nat_to_string.simps) simp
qed (simp add: nat_to_string.simps)

lemma key_int_length: "is_int i \<Longrightarrow> length (int_to_string i) \<le> 11"
proof -
  assume "is_int i"
  then have "nat (abs i) < 10 ^ Suc 9" by (simp add: is_int_def nat_less_iff abs_less_iff)
  then have "length (nat_to_string (nat (abs i))) \<le> 10" using key_number_length [of "nat (abs i)" 9] by simp
  then show ?thesis by (cases "i < 0") (simp_all add: int_to_string_def)
qed

lemma name_okD:
  assumes "name_ok f"
  obtains n where "f_name f = Some n" "f_nameLength f = int (length n)" "CHR 0x00 \<notin> set n" "length n \<le> 4000" "f_namespaceId f < 256"
  using assms by (auto simp: name_ok_def split: option.splits)

lemma keys_of_name:
  assumes "name_ok f"
  shows "file_key f = nat_to_string (f_namespaceId f) @ ''_'' @ the (f_name f)"
    and "is_int v \<Longrightarrow> version_key f v = ''/'' @ file_key f @ [CHR 0x0A] @ int_to_string v"
    and "version_list_key f = ''//vl'' @ file_key f"
proof -
  obtain n where n: "f_name f = Some n" "f_nameLength f = int (length n)" "CHR 0x00 \<notin> set n" "length n \<le> 4000" "f_namespaceId f < 256"
    by (rule name_okD [OF assms])
  have s: "length (nat_to_string (f_namespaceId f)) \<le> 3" by (rule nat_to_string_short [OF n(5)])
  show k: "file_key f = nat_to_string (f_namespaceId f) @ ''_'' @ the (f_name f)"
    using n s by (simp add: genFileKey_def print_width_exact PATH_MAX_def)
  show "version_key f v = ''/'' @ file_key f @ [CHR 0x0A] @ int_to_string v" if "is_int v"
    using n s key_int_length [OF that] unfolding k by (simp add: genVersionedFileKey_def print_width_exact PATH_MAX_def)
  show "version_list_key f = ''//vl'' @ file_key f"
    using n s unfolding k by (simp add: genFileVersionListKey_def print_width_exact PATH_MAX_def)
qed

lemma genFileKey_hd: "\<exists>c r. genFileKey ns name l = c # r \<and> is_digit c"
proof -
  have "nat_to_string ns \<noteq> []" by simp
  then obtain c r where "nat_to_string ns = c # r" by (cases "nat_to_string ns") auto
  then show ?thesis using nat_to_string_digits [of c ns] by (simp add: genFileKey_def PATH_MAX_def take_Cons')
qed

lemma slash_not_digit [simp]: "\<not> is_digit (CHR ''/'')"
  by (simp add: is_digit_def)

lemma key_kind_shape:
  "is_digit c \<Longrightarrow> key_kind (c # r) = Some THash"
  "is_digit c \<Longrightarrow> key_kind (CHR ''/'' # c # r) = Some THash"
  "key_kind (CHR ''/'' # CHR ''/'' # CHR ''v'' # CHR ''l'' # r) = Some TZSet"
  "key_kind (CHR ''/'' # CHR ''/'' # CHR ''f'' # CHR ''u'' # r) = Some TString"
  "key_kind (CHR ''/'' # CHR ''/'' # CHR ''p'' # CHR ''f'' # CHR ''_'' # r) = Some TSet"
proof -
  show "is_digit c \<Longrightarrow> key_kind (c # r) = Some THash" by (simp add: key_kind_def)
  have "is_digit c \<Longrightarrow> c \<noteq> CHR ''/''" by auto
  then show "is_digit c \<Longrightarrow> key_kind (CHR ''/'' # c # r) = Some THash" by (auto simp: key_kind_def system_keys)
  show "key_kind (CHR ''/'' # CHR ''/'' # CHR ''v'' # CHR ''l'' # r) = Some TZSet" by (simp add: key_kind_def)
  show "key_kind (CHR ''/'' # CHR ''/'' # CHR ''f'' # CHR ''u'' # r) = Some TString" by (simp add: key_kind_def)
  show "key_kind (CHR ''/'' # CHR ''/'' # CHR ''p'' # CHR ''f'' # CHR ''_'' # r) = Some TSet" by (simp add: key_kind_def)
qed

lemma key_kind_file [simp]: "key_kind (genFileKey ns name l) = Some THash"
  using genFileKey_hd [of ns name l] key_kind_shape(1) by metis

lemma key_kind_version [simp]: "key_kind (genVersionedFileKey ns name l v) = Some THash"
proof -
  obtain c r where c: "nat_to_string ns = c # r" by (cases "nat_to_string ns") auto
  then have d: "is_digit c" using nat_to_string_digits [of c ns] by simp
  have "\<exists>q. genVersionedFileKey ns name l v = CHR ''/'' # c # q"
    by (simp add: genVersionedFileKey_def PATH_MAX_def c)
  then show ?thesis using key_kind_shape(2) [OF d] by metis
qed

lemma key_kind_version_list [simp]: "key_kind (genFileVersionListKey ns name l) = Some TZSet"
proof -
  have "\<exists>q. genFileVersionListKey ns name l = CHR ''/'' # CHR ''/'' # CHR ''v'' # CHR ''l'' # q"
    by (simp add: genFileVersionListKey_def PATH_MAX_def)
  then show ?thesis using key_kind_shape(3) by metis
qed

lemma key_kind_uuid: "genFileUuidKey uts ns u = Some k \<Longrightarrow> key_kind k = Some TString"
  using key_kind_shape(4) by (auto simp: genFileUuidKey_def Let_def split: if_splits)

lemma key_kind_prefix [simp]: "key_kind (c_str (getFilePrefix k b)) = Some TSet"
proof -
  have "\<exists>q. c_str (getFilePrefix k b) = CHR ''/'' # CHR ''/'' # CHR ''p'' # CHR ''f'' # CHR ''_'' # q"
    by (simp add: getFilePrefix_def Let_def c_str_def split: option.split)
  then show ?thesis using key_kind_shape(5) by metis
qed

lemma key_kind_system [simp]:
  "key_kind FILE_LOCK_KEY = Some TSet" "key_kind FILE_PIN_STAGED_KEY = Some TSet" "key_kind FILE_REPAIR_KEY = Some TSet"
  "key_kind FILE_PENDING_WRITE_KEY = Some TSet" "key_kind FILE_PENDING_WRITE_COMP_KEY = Some TSet" "key_kind BG_TASK_PENDING_KEY = Some TZSet"
  "key_kind DIR_LIST_KEY = Some TSet"
  by (simp_all add: key_kind_def system_keys)

lemma version_key_not_file [simp]: "genVersionedFileKey ns name l v \<noteq> genFileKey ns' name' l'" "genFileKey ns' name' l' \<noteq> genVersionedFileKey ns name l v"
proof -
  obtain c r where "genFileKey ns' name' l' = c # r" "is_digit c" using genFileKey_hd by blast
  moreover from this have "c \<noteq> CHR ''/''" by auto
  ultimately show "genVersionedFileKey ns name l v \<noteq> genFileKey ns' name' l'" "genFileKey ns' name' l' \<noteq> genVersionedFileKey ns name l v"
    by (auto simp: genVersionedFileKey_def PATH_MAX_def take_Cons')
qed

lemma file_key_inject:
  assumes "name_ok f" and "name_ok g"
  shows "file_key f = file_key g \<longleftrightarrow> f_namespaceId f = f_namespaceId g \<and> f_name f = f_name g"
proof
  assume "file_key f = file_key g"
  then have e: "nat_to_string (f_namespaceId f) @ CHR ''_'' # the (f_name f) = nat_to_string (f_namespaceId g) @ CHR ''_'' # the (f_name g)"
    using assms by (simp add: keys_of_name(1))
  show "f_namespaceId f = f_namespaceId g \<and> f_name f = f_name g"
    using split_at_separator [OF e] assms by (auto simp: name_ok_def split: option.splits)
next
  assume "f_namespaceId f = f_namespaceId g \<and> f_name f = f_name g"
  then show "file_key f = file_key g" unfolding keys_of_name(1) [OF assms(1)] keys_of_name(1) [OF assms(2)] by simp
qed

subsection \<open>Storing as an operation on the map\<close>

definition stored_version :: "(string \<rightharpoonup> redis_value) \<Rightarrow> file_t \<Rightarrow> int" where
  "stored_version w f = current_version (reply_of (hash_of (w (file_key f))) ''ver'')"

definition put_view ::
  "(uuid \<Rightarrow> string) \<Rightarrow> string \<Rightarrow> string \<Rightarrow> blocks \<Rightarrow> file_t \<Rightarrow> (string \<rightharpoonup> redis_value) \<Rightarrow> string \<rightharpoonup> redis_value" where
  "put_view uts filename cs bl f w =
     (let prefix = c_str (getFilePrefix (file_key f) False);
          w1 = w(filename \<mapsto> HashValue (hash_of (w filename) ++ record_of uts cs bl f));
          w2 = (case genFileUuidKey uts (f_namespaceId f) (f_uuid f) of None \<Rightarrow> w1
                | Some k \<Rightarrow> w1(k \<mapsto> StringValue (take (nat (f_nameLength f)) (cstr (f_name f)))));
          w3 = w2(prefix \<mapsto> SetValue (insert filename (set_of (w2 prefix))))
      in w3(DIR_LIST_KEY \<mapsto> SetValue (insert prefix (set_of (w3 DIR_LIST_KEY)))))"

definition summary_of :: "(string \<rightharpoonup> redis_value) \<Rightarrow> file_t \<Rightarrow> string" where
  "summary_of w f = int_to_string (f_version f - 1) @ '' '' @ summary_text (map (reply_of (hash_of (w (file_key f)))) summary_fields)"

definition backup_view :: "file_t \<Rightarrow> (string \<rightharpoonup> redis_value) \<Rightarrow> string \<rightharpoonup> redis_value" where
  "backup_view f w =
     (let v = f_version f - 1; w1 = w(file_key f := None, version_key f v := w (file_key f))
      in w1(version_list_key f \<mapsto> ZSetValue ((zset_of (w1 (version_list_key f)))(summary_of w f \<mapsto> v))))"

lemma stored_version_exists: "stored_version w f \<noteq> -1 \<Longrightarrow> w (file_key f) \<noteq> None"
  by (cases "w (file_key f)") (simp_all add: stored_version_def reply_of_def current_version_def)

lemma kind_differs: "key_kind k = Some t \<Longrightarrow> key_kind l = Some u \<Longrightarrow> t \<noteq> u \<Longrightarrow> k \<noteq> l"
  by auto

lemma put_view_other:
  assumes "key_kind k = Some THash" and "k \<noteq> filename"
  shows "put_view uts filename cs bl f w k = w k"
proof -
  have "k \<noteq> DIR_LIST_KEY" "k \<noteq> c_str (getFilePrefix (file_key f) False)" "genFileUuidKey uts (f_namespaceId f) (f_uuid f) \<noteq> Some k"
    using assms(1) key_kind_uuid by (auto intro: kind_differs)
  then show ?thesis using assms(2) by (auto simp: put_view_def Let_def split: option.split)
qed

lemma put_view_file:
  assumes "key_kind filename = Some THash"
  shows "put_view uts filename cs bl f w filename = Some (HashValue (hash_of (w filename) ++ record_of uts cs bl f))"
proof -
  have "filename \<noteq> DIR_LIST_KEY" "filename \<noteq> c_str (getFilePrefix (file_key f) False)" "genFileUuidKey uts (f_namespaceId f) (f_uuid f) \<noteq> Some filename"
    using assms key_kind_uuid by (auto intro: kind_differs)
  then show ?thesis by (auto simp: put_view_def Let_def split: option.split)
qed

lemma put_view_typed: "well_typed w \<Longrightarrow> key_kind filename = Some THash \<Longrightarrow> well_typed (put_view uts filename cs bl f w)"
  unfolding put_view_def Let_def
  by (cases "genFileUuidKey uts (f_namespaceId f) (f_uuid f)") (simp_all add: well_typed_set key_kind_uuid del: fun_upd_apply)

lemma backup_view_keys:
  "backup_view f w (file_key f) = None" "backup_view f w (version_key f (f_version f - 1)) = w (file_key f)"
  "key_kind k = Some THash \<Longrightarrow> k \<noteq> file_key f \<Longrightarrow> k \<noteq> version_key f (f_version f - 1) \<Longrightarrow> backup_view f w k = w k"
proof -
  have ne: "version_list_key f \<noteq> file_key f" "version_list_key f \<noteq> version_key f (f_version f - 1)"
    by (rule kind_differs [of _ TZSet _ THash]; simp)+
  then show "backup_view f w (file_key f) = None" "backup_view f w (version_key f (f_version f - 1)) = w (file_key f)"
    by (simp_all add: backup_view_def Let_def)
  show "backup_view f w k = w k" if "key_kind k = Some THash" "k \<noteq> file_key f" "k \<noteq> version_key f (f_version f - 1)"
  proof -
    have "k \<noteq> version_list_key f" by (rule kind_differs [OF that(1), of _ TZSet]) simp_all
    then show ?thesis using that by (simp add: backup_view_def Let_def)
  qed
qed

lemma backup_view_typed: "well_typed w \<Longrightarrow> well_typed (backup_view f w)"
  unfolding backup_view_def Let_def by (intro well_typed_upd) (auto dest: well_typedD)

text \<open>Storing the same or a newer version, and overwriting.\<close>

definition put_base :: "bool \<Rightarrow> file_t \<Rightarrow> (string \<rightharpoonup> redis_value) \<Rightarrow> string \<rightharpoonup> redis_value" where
  "put_base overwrite f w = (if \<not> overwrite \<and> stored_version w f \<noteq> -1 \<and> f_version f > stored_version w f then backup_view f w else w)"

context reliable_store
begin

lemma typed_kind: "well_typed (val db) \<Longrightarrow> key_kind k = Some t \<Longrightarrow> typed D t k db"
  by (auto simp: typed_val dest: well_typedD)

lemma val_SET: "val (fst (SET D k v db)) = (val db)(k \<mapsto> StringValue v)"
  by (simp add: SET_def val_set)

lemma val_SADD: "typed D TSet k db \<Longrightarrow> val (fst (SADD D k m db)) = (val db)(k \<mapsto> SetValue (insert m (set_of (val db k))))"
  by (simp add: SADD_def on_type_def val_sadd)

lemma val_RENAME: "val db k \<noteq> None \<Longrightarrow> val (fst (RENAME D k k1 db)) = (val db)(k := None, k1 := val db k) \<and> snd (RENAME D k k1 db) = RStatus ''OK''"
  by (simp add: RENAME_def rename_key_def exists_val val_rename)

lemma val_ZADD: "typed D TZSet k db \<Longrightarrow> val (fst (ZADD D k sc m db)) = (val db)(k \<mapsto> ZSetValue ((zset_of (val db k))(m \<mapsto> sc)))"
  by (simp add: ZADD_def on_type_def val_zadd)

lemma groups_nonempty: "[] \<notin> set (meta_field_groups uts cs bl f)" "meta_field_groups uts cs bl f \<noteq> []"
  by (auto simp: meta_field_groups_def file_fields_def chunk_fields_def unique_block_field_def duplicate_block_field_def Let_def split: prod.splits)

lemma put_record_val:
  assumes w: "well_typed (val db)" and k: "key_kind filename = Some THash" and cs: "coding_state_str f = Some cs"
  shows "\<exists>db1. put_record D uts filename bl f db = (db1, Result True) \<and> val db1 = put_view uts filename cs bl f (val db)"
proof -
  let ?prefix = "c_str (getFilePrefix (file_key f) False)" and ?fid = "genFileUuidKey uts (f_namespaceId f) (f_uuid f)"
  let ?name = "take (nat (f_nameLength f)) (cstr (f_name f))"
  let ?db1 = "run_commands (map (HMSET D filename) (meta_field_groups uts cs bl f)) db"
  let ?db2 = "run_commands (case ?fid of None \<Rightarrow> [] | Some k \<Rightarrow> [SET D k ?name]) ?db1"
  let ?w1 = "(val db)(filename \<mapsto> HashValue (hash_of (val db filename) ++ record_of uts cs bl f))"
  have v1: "val ?db1 = ?w1" unfolding record_of_def by (rule val_HMSETs [OF typed_kind [OF w k] groups_nonempty])
  have v2: "val ?db2 = (case ?fid of None \<Rightarrow> ?w1 | Some k \<Rightarrow> ?w1(k \<mapsto> StringValue ?name))"
    by (simp add: val_SET v1 split: option.split)
  have w1: "well_typed ?w1" using w k by auto
  have w2: "well_typed (val ?db2)" unfolding v2 using w1 key_kind_uuid by (auto split: option.split)
  let ?db3 = "fst (SADD D ?prefix filename ?db2)"
  have v3: "val ?db3 = (val ?db2)(?prefix \<mapsto> SetValue (insert filename (set_of (val ?db2 ?prefix))))"
    by (rule val_SADD, rule typed_kind [OF w2]) simp
  have w3: "well_typed (val ?db3)" unfolding v3 using w2 by auto
  have v4: "val (fst (SADD D DIR_LIST_KEY ?prefix ?db3)) = (val ?db3)(DIR_LIST_KEY \<mapsto> SetValue (insert ?prefix (set_of (val ?db3 DIR_LIST_KEY))))"
    by (rule val_SADD, rule typed_kind [OF w3]) simp
  show ?thesis
    by (simp add: put_record_def cs pipeline_replied put_commands_def v4 v3 v2 put_view_def Let_def)
qed

lemma backup_version_val:
  assumes w: "well_typed (val db)" and e: "val db (file_key f) \<noteq> None"
  shows "\<exists>db1. backup_version D f db = (db1, True) \<and> val db1 = backup_view f (val db)"
proof -
  let ?v = "f_version f - 1" let ?vkey = "version_key f ?v"
  let ?db1 = "fst (RENAME D (file_key f) ?vkey db)"
  have r: "val ?db1 = (val db)(file_key f := None, ?vkey := val db (file_key f))" "snd (RENAME D (file_key f) ?vkey db) = RStatus ''OK''"
    using val_RENAME [OF e] by blast+
  have w1: "well_typed (val ?db1)" unfolding r(1) by (intro well_typed_upd w) (auto dest: well_typedD [OF w])
  have m: "HMGET D ?vkey summary_fields ?db1 = (?db1, RArray (map (reply_of (hash_of (val db (file_key f)))) summary_fields))"
    using hmget_reply [OF typed_kind [OF w1 key_kind_version]] by (simp add: r(1))
  have z: "val (fst (ZADD D (version_list_key f) ?v (summary_of (val db) f) ?db1))
      = (val ?db1)(version_list_key f \<mapsto> ZSetValue ((zset_of (val ?db1 (version_list_key f)))(summary_of (val db) f \<mapsto> ?v)))"
    by (rule val_ZADD, rule typed_kind [OF w1]) simp
  have b: "backup_version D f db = (fst (ZADD D (version_list_key f) ?v (summary_of (val db) f) ?db1), True)"
    by (simp add: backup_version_def Let_def call_replied r(2) m summary_of_def)
  show ?thesis using b z by (simp add: backup_view_def Let_def r(1))
qed

lemma putMeta_val:
  assumes w: "well_typed (val db)" and cs: "coding_state_str f = Some cs" and new: "overwrite \<or> stored_version (val db) f \<le> f_version f"
  shows "\<exists>db1. putMeta D uts overwrite bl f db = (db1, Result True) \<and> val db1 = put_view uts (file_key f) cs bl f (put_base overwrite f (val db))"
proof -
  let ?cur = "stored_version (val db) f"
  have h: "HGET D (file_key f) ''ver'' db = (db, reply_of (hash_of (val db (file_key f))) ''ver'')"
    by (rule hget_reply, rule typed_kind [OF w]) simp
  show ?thesis
  proof (cases "\<not> overwrite \<and> ?cur \<noteq> -1 \<and> f_version f > ?cur")
    case True
    then have "val db (file_key f) \<noteq> None" using stored_version_exists by blast
    then obtain db1 where b: "backup_version D f db = (db1, True)" and v: "val db1 = backup_view f (val db)"
      using backup_version_val [OF w] by blast
    have "well_typed (val db1)" unfolding v by (rule backup_view_typed [OF w])
    from put_record_val [OF this key_kind_file cs, of uts "f_namespaceId f" "f_name f" "f_nameLength f" bl]
    show ?thesis using True by (auto simp: putMeta_def call_replied h Let_def stored_version_def b put_base_def v)
  next
    case False
    from put_record_val [OF w key_kind_file cs, of uts "f_namespaceId f" "f_name f" "f_nameLength f" bl]
    show ?thesis using False new by (auto simp: putMeta_def call_replied h Let_def stored_version_def put_base_def)
  qed
qed

end

subsection \<open>Deleting and renaming as operations on the map\<close>

definition leave_prefix :: "file_t \<Rightarrow> (string \<rightharpoonup> redis_value) \<Rightarrow> string \<rightharpoonup> redis_value" where
  "leave_prefix f w =
     (let prefix = c_str (getFilePrefix (file_key f) False);
          rest = set_of (w prefix) - {file_key f};
          w1 = w(prefix := some_set rest)
      in if rest = {} then w1(DIR_LIST_KEY := some_set (set_of (w1 DIR_LIST_KEY) - {prefix})) else w1)"

definition delete_view :: "(uuid \<Rightarrow> string) \<Rightarrow> namegen \<Rightarrow> file_t \<Rightarrow> (string \<rightharpoonup> redis_value) \<Rightarrow> string \<rightharpoonup> redis_value" where
  "delete_view uts gen f w =
     (let w1 = w(file_key f := None)
      in leave_prefix f (case genFileUuidKey uts (f_namespaceId f) (gen (cstr (f_name f))) of None \<Rightarrow> w1 | Some k \<Rightarrow> w1(k := None)))"

definition rename_view :: "(uuid \<Rightarrow> string) \<Rightarrow> string \<Rightarrow> string \<Rightarrow> uuid \<Rightarrow> file_t \<Rightarrow> file_t \<Rightarrow> (string \<rightharpoonup> redis_value) \<Rightarrow> string \<rightharpoonup> redis_value" where
  "rename_view uts sfid dfid du sf df w =
     (let sp = c_str (getFilePrefix (file_key sf) False); dp = c_str (getFilePrefix (file_key df) False);
          w1 = w(file_key sf := None, file_key df := w (file_key sf), dfid := Some (StringValue (file_key df)), sfid := None);
          w2 = w1(file_key df \<mapsto> HashValue ((hash_of (w1 (file_key df)))(''uuid'' \<mapsto> uts du)));
          w3 = w2(sp := some_set (set_of (w2 sp) - {file_key sf}))
      in w3(dp \<mapsto> SetValue (insert (file_key df) (set_of (w3 dp)))))"

lemma some_set_typed [simp]: "some_set s = Some v \<Longrightarrow> value_type v = TSet"
  by (auto simp: some_set_def split: if_splits)

lemma well_typed_clear: "well_typed w \<Longrightarrow> well_typed (w(k := None))"
  by auto

lemma well_typed_some_set: "well_typed w \<Longrightarrow> key_kind k = Some TSet \<Longrightarrow> well_typed (w(k := some_set s))"
  by (rule well_typed_upd) auto

lemmas well_typed_rules = well_typed_clear well_typed_some_set well_typed_set

lemma leave_prefix_typed: "well_typed w \<Longrightarrow> well_typed (leave_prefix f w)"
  by (simp add: leave_prefix_def Let_def well_typed_rules del: fun_upd_apply)

lemma leave_prefix_other: "key_kind k \<noteq> Some TSet \<Longrightarrow> leave_prefix f w k = w k"
  using kind_differs [of "c_str (getFilePrefix (file_key f) False)" TSet k] kind_differs [of DIR_LIST_KEY TSet k]
  by (auto simp: leave_prefix_def Let_def)

lemma rename_view_typed:
  assumes w: "well_typed w" and k: "key_kind sfid = Some TString" "key_kind dfid = Some TString"
  shows "well_typed (rename_view uts sfid dfid du sf df w)"
proof -
  have "well_typed (w(file_key sf := None, file_key df := w (file_key sf), dfid := Some (StringValue (file_key df)), sfid := None))"
    using k by (intro well_typed_upd w) (auto dest: well_typedD [OF w])
  then show ?thesis
    unfolding rename_view_def Let_def by (intro well_typed_set well_typed_some_set) simp_all
qed

lemma delete_view_typed: "well_typed w \<Longrightarrow> well_typed (delete_view uts gen f w)"
  unfolding delete_view_def Let_def
  by (rule leave_prefix_typed) (simp add: well_typed_rules del: fun_upd_apply split: option.split)

lemma delete_view_hash: "key_kind k = Some THash \<Longrightarrow> delete_view uts gen f w k = (if k = file_key f then None else w k)"
proof -
  assume k: "key_kind k = Some THash"
  have "genFileUuidKey uts (f_namespaceId f) u \<noteq> Some k" for u using key_kind_uuid k by fastforce
  then show ?thesis using leave_prefix_other [of k] k by (auto simp: delete_view_def Let_def split: option.split)
qed

context reliable_store
begin

lemma val_DEL: "val (fst (DEL D k db)) = (val db)(k := None)" "snd (DEL D k db) = RInteger (if val db k = None then 0 else 1)"
  by (simp_all add: DEL_def del_key_def val_del exists_val)

lemma val_SREM: "typed D TSet k db \<Longrightarrow> val (fst (SREM D k m db)) = (val db)(k := some_set (set_of (val db k) - {m}))"
  by (simp add: SREM_def on_type_def val_srem)

lemma remove_from_prefix_val:
  assumes w: "well_typed (val db)"
  shows "val (fst (remove_from_prefix D (c_str (getFilePrefix (file_key f) False)) (file_key f) db)) = leave_prefix f (val db)"
proof -
  let ?p = "c_str (getFilePrefix (file_key f) False)" and ?k = "file_key f"
  have t: "typed D TSet ?p db" by (rule typed_kind [OF w]) simp
  obtain db1 r where r: "SREM D ?p ?k db = (db1, RInteger r)" using t by (simp add: SREM_def on_type_def)
  have v1: "val db1 = (val db)(?p := some_set (set_of (val db ?p) - {?k}))" using val_SREM [OF t, of ?k] by (simp add: r)
  have w1: "well_typed (val db1)" unfolding v1 using w by (simp add: well_typed_rules del: fun_upd_apply)
  have c: "SCARD D ?p db1 = (db1, RInteger (int (card (set_of (val db ?p) - {?k}))))"
  proof -
    have "distinct (d_members D db1 ?p)" "set (d_members D db1 ?p) = set_of (val db ?p) - {?k}"
      using members [of db1 ?p] by (auto simp: v1 some_set_def)
    then show ?thesis using typed_kind [OF w1, of ?p TSet] distinct_card [of "d_members D db1 ?p"] by (simp add: SCARD_def on_type_def)
  qed
  have fin: "finite (set_of (val db ?p))" using members(1) [of db ?p] by (metis List.finite_set)
  have v2: "val (fst (SREM D DIR_LIST_KEY ?p db1)) = (val db1)(DIR_LIST_KEY := some_set (set_of (val db1 DIR_LIST_KEY) - {?p}))"
    by (rule val_SREM, rule typed_kind [OF w1]) simp
  show ?thesis
    using fin by (simp add: remove_from_prefix_def r c leave_prefix_def Let_def v2) (simp add: v1)
qed

lemma delete_record_val:
  assumes w: "well_typed (val db)" and e: "val db (file_key f) \<noteq> None"
  shows "\<exists>db1. delete_record D uts gen f db = (db1, genUUID gen f, True) \<and> val db1 = delete_view uts gen f (val db)"
proof -
  let ?k = "genFileUuidKey uts (f_namespaceId f) (gen (cstr (f_name f)))"
  obtain db1 where d: "DEL D (file_key f) db = (db1, RInteger 1)"
    using e val_DEL(2) [of "file_key f" db] by (metis prod.collapse)
  have v1: "val db1 = (val db)(file_key f := None)" using val_DEL(1) [of "file_key f" db] by (simp add: d)
  let ?db2 = "case ?k of None \<Rightarrow> db1 | Some k \<Rightarrow> fst (DEL D k db1)"
  have v2: "val ?db2 = (case ?k of None \<Rightarrow> (val db)(file_key f := None) | Some k \<Rightarrow> (val db)(file_key f := None, k := None))"
    by (simp add: val_DEL v1 split: option.split)
  have w2: "well_typed (val ?db2)" unfolding v2 using w by (simp add: well_typed_rules del: fun_upd_apply split: option.split)
  have "delete_record D uts gen f db =
      (fst (remove_from_prefix D (c_str (getFilePrefix (file_key f) False)) (file_key f) ?db2), genUUID gen f, True)"
    unfolding delete_record_def call_replied d by (simp add: Let_def genUUID_def split: option.split)
  then show ?thesis using remove_from_prefix_val [OF w2, of f] by (simp add: v2 delete_view_def Let_def)
qed

lemma renameMeta_val:
  assumes w: "well_typed (val db)" and e: "val db (file_key sf) \<noteq> None" "val db (file_key df) = None"
    and k: "genFileUuidKey uts (f_namespaceId sf) (gen (cstr (f_name sf))) = Some sfid"
      "genFileUuidKey uts (f_namespaceId df) (gen (cstr (f_name df))) = Some dfid"
  shows "\<exists>db1. renameMeta D uts gen sf df db = (db1, True) \<and> val db1 = rename_view uts sfid dfid (gen (cstr (f_name df))) sf df (val db)"
proof -
  let ?sp = "c_str (getFilePrefix (file_key sf) False)" and ?dp = "c_str (getFilePrefix (file_key df) False)"
  let ?w1 = "(val db)(file_key sf := None, file_key df := val db (file_key sf), dfid := Some (StringValue (file_key df)), sfid := None)"
  note kinds = key_kind_uuid [OF k(1)] key_kind_uuid [OF k(2)]
  let ?r = "r_rename (d_redis D) (file_key sf) (file_key df) db"
  have vr: "val ?r = (val db)(file_key sf := None, file_key df := val db (file_key sf))" by (rule val_rename [OF e(1)])
  let ?a = "fst (DEL D sfid (fst (SET D dfid (file_key df) ?r)))"
  have va: "val ?a = ?w1" by (simp add: val_DEL val_SET vr)
  have wa: "well_typed (val ?a)" unfolding va using kinds
    by (intro well_typed_upd w) (auto dest: well_typedD [OF w])
  have t: "typed D THash (file_key df) ?a" by (rule typed_kind [OF wa]) simp
  let ?b = "r_hset (d_redis D) (file_key df) [(''uuid'', uts (gen (cstr (f_name df))))] ?a"
  have vb: "val ?b = ?w1(file_key df \<mapsto> HashValue ((hash_of (?w1 (file_key df)))(''uuid'' \<mapsto> uts (gen (cstr (f_name df))))))"
    using val_hset [OF t, of "[(''uuid'', uts (gen (cstr (f_name df))))]"] by (simp add: va)
  have wb: "well_typed (val ?b)" unfolding vb using wa unfolding va by (rule well_typed_set) simp
  let ?c = "fst (SREM D ?sp (file_key sf) ?b)"
  have vc: "val ?c = (val ?b)(?sp := some_set (set_of (val ?b ?sp) - {file_key sf}))" by (rule val_SREM, rule typed_kind [OF wb]) simp
  have wc: "well_typed (val ?c)" unfolding vc using wb by (simp add: well_typed_rules del: fun_upd_apply)
  have vd: "val (fst (SADD D ?dp (file_key df) ?c)) = (val ?c)(?dp \<mapsto> SetValue (insert (file_key df) (set_of (val ?c ?dp))))"
    by (rule val_SADD, rule typed_kind [OF wc]) simp
  have "renameMeta D uts gen sf df db = (fst (SADD D ?dp (file_key df) ?c), True)"
    using e t by (simp add: renameMeta_def call_replied RENAMENX_def exists_val k SET_def is_error_def HSET_def on_type_def Let_def)
  then show ?thesis using vd unfolding vc vb rename_view_def Let_def by blast
qed

end

end
