(* ===== verification/Meta_Correct.thy ===== *)
theory Meta_Correct
  imports Meta_View
begin

text \<open>
  The properties of storing and fetching file metadata, with a server that answers and a store that is well typed.
\<close>

lemma version_key_inject:
  assumes "name_ok f" and "name_ok g" and "is_int u" and "is_int v"
  shows "version_key f u = version_key g v \<longleftrightarrow> file_key f = file_key g \<and> u = v"
proof
  assume "version_key f u = version_key g v"
  then have e: "file_key f @ CHR 0x0A # int_to_string u = file_key g @ CHR 0x0A # int_to_string v"
    using assms by (simp add: keys_of_name(2))
  have no: "CHR 0x0A \<notin> set (int_to_string i)" for i using int_to_string_chars [of "CHR 0x0A" i] by (auto simp: is_digit_def)
  from split_at_last_separator [OF e no no] show "file_key f = file_key g \<and> u = v" by simp
next
  assume "file_key f = file_key g \<and> u = v"
  then show "version_key f u = version_key g v" using assms by (simp add: keys_of_name(2))
qed

lemma fetch_version_irrelevant: "fetch sgen junk newOk which h (g\<lparr>f_version := v\<rparr>, bl) = fetch sgen junk newOk which h (g, bl)"
proof -
  have "parse_meta sgen rs (g\<lparr>f_version := v\<rparr>) = parse_meta sgen rs g" for rs
    unfolding parse_meta_def by simp
  then show ?thesis unfolding fetch_def fst_conv snd_conv by simp
qed

lemma fetch_nothing: "fetch sgen junk newOk which Map.empty fb = NoResult"
  by (simp add: fetch_def parse_meta_def field_at_def reply_of_def meta_names_def)

lemma parse_meta_name: "parse_meta sgen rs g = Some (f, x) \<Longrightarrow> f_namespaceId f = f_namespaceId g \<and> f_name f = f_name g \<and> f_nameLength f = f_nameLength g"
  by (auto simp: parse_meta_def bind_eq_Some_conv)

lemma read_chunks_name: "read_chunks rs i g = Result f \<Longrightarrow> f_namespaceId f = f_namespaceId g \<and> f_name f = f_name g \<and> f_nameLength f = f_nameLength g"
  by (induction rs arbitrary: i g) (auto simp: read_chunk_def Let_def split: reply.splits if_splits option.splits outcome.splits)

lemma fetch_names: "fetch sgen junk newOk which h (g, bl) = Result (f, bl1) \<Longrightarrow>
    f_namespaceId f = f_namespaceId g \<and> f_name f = f_name g \<and> f_nameLength f = f_nameLength g"
  by (auto simp: fetch_def initChunksAndContainerIds_def Let_def split: option.splits prod.splits bool.splits outcome.splits if_splits
      dest!: parse_meta_name read_chunks_name)

text \<open>A file without chunks is stored without looking at its arrays.\<close>

lemma put_without_chunks:
  assumes "f_numChunks f = 0"
  shows "putMeta D uts overwrite bl (f\<lparr>f_containerIds := [], f_chunks := [], f_chunksCorrupted := []\<rparr>) db = putMeta D uts overwrite bl f db"
proof -
  let ?g = "f\<lparr>f_containerIds := [], f_chunks := [], f_chunksCorrupted := []\<rparr>"
  have "file_fields uts cs bl ?g = file_fields uts cs bl f" for cs by (simp add: file_fields_def)
  then have "meta_field_groups uts cs bl ?g = meta_field_groups uts cs bl f" for cs using assms by (simp add: meta_field_groups_def)
  moreover have "coding_state_str ?g = coding_state_str f" by (simp add: coding_state_str_def)
  ultimately have r: "put_record D uts k bl ?g = put_record D uts k bl f" for k by (simp add: put_record_def put_commands_def fun_eq_iff split: option.split)
  have fields: "f_namespaceId ?g = f_namespaceId f" "f_name ?g = f_name f" "f_nameLength ?g = f_nameLength f" "f_version ?g = f_version f" by simp_all
  show ?thesis unfolding putMeta_def backup_version_def r fields ..
qed

lemma record_uuid: "record_of uts cs bl (f\<lparr>f_uuid := u\<rparr>) = (record_of uts cs bl f)(''uuid'' \<mapsto> uts u)"
proof -
  let ?s = "\<lambda>(n, v). (n, if n = ''uuid'' then uts u else v)"
  have no: "map ?s xs = xs" if "\<And>n v. (n, v) \<in> set xs \<Longrightarrow> n \<noteq> ''uuid''" for xs
    by (rule map_idI) (use that in force)
  have ff: "file_fields uts cs bl (f\<lparr>f_uuid := u\<rparr>) = map ?s (file_fields uts cs bl f)" by (simp add: file_fields_def Let_def)
  have "chunk_fields (f\<lparr>f_uuid := u\<rparr>) i = map ?s (chunk_fields f i)" for i
    using no [of "chunk_fields f i"] chunk_field_names [of _ _ f i] by (force simp: chunk_fields_def)
  then have cf: "chunk_fields (f\<lparr>f_uuid := u\<rparr>) = (\<lambda>i. map ?s (chunk_fields f i))" by (rule ext)
  have ub: "map ?s (unique_block_field e) = unique_block_field e" for e by (rule no) (use block_field_names(1) in fastforce)
  have db: "map ?s (duplicate_block_field e) = duplicate_block_field e" for e by (rule no) (use block_field_names(2) in fastforce)
  have "concat (meta_field_groups uts cs bl (f\<lparr>f_uuid := u\<rparr>)) = map ?s (concat (meta_field_groups uts cs bl f))"
    by (simp add: meta_field_groups_def map_concat ff cf comp_def ub db)
  moreover have "map_of (map ?s xs) n = (if n = ''uuid'' then map_option (\<lambda>_. uts u) (map_of xs n) else map_of xs n)" for xs n
    by (induction xs) auto
  moreover have "record_of uts cs bl f ''uuid'' \<noteq> None" by (subst record_file_field) (simp_all add: file_fields_def Let_def)
  ultimately show ?thesis by (auto simp: record_of_def rev_map fun_eq_iff)
qed

context reliable_store
begin

lemma getMeta_typed:
  "well_typed (val db) \<Longrightarrow> getMeta D sgen junk newOk which (f, bl) db = (db, fetch sgen junk newOk which (hash_of (val db (fetch_key (val db) f))) (f, bl))"
  by (intro getMeta_val typed_kind) (simp_all add: fetch_key_def)

lemma get_after_put:
  assumes w: "well_typed (val db)" and ok: "meta_ok f" "blocks_ok bl" and u: "sgen (uts (f_uuid f)) = Some (f_uuid f)"
    and new: "overwrite \<or> stored_version (val db) f \<le> f_version f"
    and g: "f_namespaceId g = f_namespaceId f" "f_name g = f_name f" "f_nameLength g = f_nameLength f" "f_version g = -1 \<or> f_version g = f_version f"
  shows "\<exists>db1. putMeta D uts overwrite bl f db = (db1, Result True) \<and> well_typed (val db1) \<and>
    getMeta D sgen junk True 3 (g, no_blocks) db1 = (db1, Result (stored_file f g, bl))"
proof -
  obtain cs where cs: "coding_state_str f = Some cs" using coding_state_stored [OF ok(1)] by blast
  let ?b = "put_base overwrite f (val db)"
  obtain db1 where p: "putMeta D uts overwrite bl f db = (db1, Result True)" and v: "val db1 = put_view uts (file_key f) cs bl f ?b"
    using putMeta_val [OF w cs new] by blast
  have wb: "well_typed ?b" using w backup_view_typed by (simp add: put_base_def)
  have w1: "well_typed (val db1)" unfolding v by (rule put_view_typed [OF wb]) simp
  have h: "hash_of (val db1 (file_key f)) = hash_of (?b (file_key f)) ++ record_of uts cs bl f" by (simp add: v put_view_file)
  have "record_of uts cs bl f ''ver'' = Some (int_str (f_version f))"
    by (subst record_file_field) (simp_all add: file_fields_def Let_def)
  then have "hash_of (val db1 (file_key f)) ''ver'' = Some (int_str (f_version f))" by (simp add: h map_add_def)
  then have k: "fetch_key (val db1) g = file_key f" using g ok(1) by (auto simp: fetch_key_def meta_ok_def)
  show ?thesis
    using p w1 getMeta_typed [OF w1, of sgen junk True 3 g no_blocks] fetch_record [where sgen = sgen and uts = uts, OF ok(1) cs u ok(2), of junk _ g]
    by (simp add: k h)
qed

lemma other_after_put:
  assumes w: "well_typed (val db)" and f: "meta_ok f" and g: "name_ok g" "is_int (f_version g)"
    and other: "f_namespaceId g \<noteq> f_namespaceId f \<or> f_name g \<noteq> f_name f" and new: "overwrite \<or> stored_version (val db) f \<le> f_version f"
  shows "snd (getMeta D sgen junk newOk which (g, bl1) (fst (putMeta D uts overwrite bl f db))) = snd (getMeta D sgen junk newOk which (g, bl1) db)"
proof -
  obtain cs where cs: "coding_state_str f = Some cs" using coding_state_stored [OF f] by blast
  obtain db1 where p: "putMeta D uts overwrite bl f db = (db1, Result True)"
    and v: "val db1 = put_view uts (file_key f) cs bl f (put_base overwrite f (val db))"
    using putMeta_val [OF w cs new] by blast
  have n: "name_ok f" "is_int (f_version f)" "0 \<le> f_version f" using f by (simp_all add: meta_ok_def)
  have i: "is_int (f_version f - 1)" using n by (simp add: is_int_def)
  have k: "file_key g \<noteq> file_key f" using file_key_inject [OF g(1) n(1)] other by auto
  have vk: "version_key g (f_version g) \<noteq> version_key f (f_version f - 1)" using version_key_inject [OF g(1) n(1) g(2) i] k by auto
  have same: "val db1 k = val db k" if "key_kind k = Some THash" "k \<noteq> file_key f" "k \<noteq> version_key f (f_version f - 1)" for k
    using that by (simp add: v put_view_other put_base_def backup_view_keys)
  have w1: "well_typed (val db1)" unfolding v using w backup_view_typed by (intro put_view_typed) (simp_all add: put_base_def)
  have fk: "val db1 (file_key g) = val db (file_key g)" "val db1 (version_key g (f_version g)) = val db (version_key g (f_version g))"
    using k vk by (intro same; simp)+
  then have "fetch_key (val db1) g = fetch_key (val db) g" "val db1 (fetch_key (val db) g) = val db (fetch_key (val db) g)"
    by (auto simp: fetch_key_def)
  then show ?thesis by (simp add: p getMeta_typed [OF w1] getMeta_typed [OF w])
qed

lemma old_after_put:
  assumes w: "well_typed (val db)" and f: "meta_ok f"
    and new: "stored_version (val db) f \<noteq> -1" "stored_version (val db) f < f_version f" "0 < f_version f"
    and g: "f_namespaceId g = f_namespaceId f" "f_name g = f_name f" "f_nameLength g = f_nameLength f" "f_version g = f_version f - 1"
  shows "snd (getMeta D sgen junk newOk which (g, bl1) (fst (putMeta D uts False bl f db)))
    = snd (getMeta D sgen junk newOk which (g\<lparr>f_version := -1\<rparr>, bl1) db)"
proof -
  obtain cs where cs: "coding_state_str f = Some cs" using coding_state_stored [OF f] by blast
  obtain db1 where p: "putMeta D uts False bl f db = (db1, Result True)"
    and v: "val db1 = put_view uts (file_key f) cs bl f (backup_view f (val db))"
    using putMeta_val [OF w cs, of False uts bl] new by (auto simp: put_base_def)
  have w1: "well_typed (val db1)" unfolding v using w backup_view_typed by (intro put_view_typed) simp_all
  have "record_of uts cs bl f ''ver'' = Some (int_str (f_version f))"
    by (subst record_file_field) (simp_all add: file_fields_def Let_def)
  then have "hash_of (val db1 (file_key f)) ''ver'' = Some (int_str (f_version f))" by (simp add: v put_view_file map_add_def)
  then have k: "fetch_key (val db1) g = version_key f (f_version f - 1)" using g f new by (simp add: fetch_key_def meta_ok_def)
  have "val db1 (version_key f (f_version f - 1)) = val db (file_key f)" by (simp add: v put_view_other backup_view_keys)
  moreover have "fetch_key (val db) (g\<lparr>f_version := -1\<rparr>) = file_key f" using g by (simp add: fetch_key_def)
  ultimately show ?thesis by (simp add: p getMeta_typed [OF w1] getMeta_typed [OF w] k fetch_version_irrelevant)
qed

text \<open>Deleting.\<close>

lemma get_deleted: "well_typed (val db) \<Longrightarrow> val db (file_key g) = None \<Longrightarrow> f_version g = -1 \<Longrightarrow> snd (getMeta D sgen junk newOk which (g, bl) db) = NoResult"
  by (simp add: getMeta_typed fetch_key_def fetch_nothing)

lemma delete_overwriting:
  assumes w: "well_typed (val db)" and get: "getMeta D sgen junk newOk 3 (g, bl) db = (db, Result (f, bl1))" and v: "f_version g = -1"
  shows "\<exists>db1. deleteMeta D uts sgen gen junk newOk True now (g, bl) db = (db1, Result (genUUID gen f, True)) \<and> well_typed (val db1) \<and>
    (\<forall>k. key_kind k = Some THash \<longrightarrow> val db1 k = (if k = file_key g then None else val db k))"
proof -
  have r: "fetch sgen junk newOk 3 (hash_of (val db (file_key g))) (g, bl) = Result (f, bl1)"
    using get v by (simp add: getMeta_typed [OF w] fetch_key_def)
  have k: "file_key f = file_key g" using fetch_names [OF r] by simp
  have "val db (file_key f) \<noteq> None" using r unfolding k by (cases "val db (file_key g)") (simp_all add: fetch_nothing)
  then obtain db1 where d: "delete_record D uts gen f db = (db1, genUUID gen f, True)" and v1: "val db1 = delete_view uts gen f (val db)"
    using delete_record_val [OF w] by blast
  show ?thesis
    using get d delete_view_typed [OF w, of uts gen f] by (simp add: deleteMeta_def v1 delete_view_hash k)
qed

lemma delete_keeping_versions:
  assumes w: "well_typed (val db)" and get: "getMeta D sgen junk True 3 (g, no_blocks) db = (db, Result (f, bl))" and v: "f_version g = -1"
    and ok: "meta_ok f" "blocks_ok bl" "cm_codingStateSize (f_codingMeta f) = 0" "is_long now" "is_int (f_version f + 1)"
    and u: "sgen (uts (f_uuid f)) = Some (f_uuid f)"
    and cur: "stored_version (val db) f = f_version f"
  shows "\<exists>db1. deleteMeta D uts sgen gen junk True False now (g, no_blocks) db = (db1, Result ((delete_marker now f)\<lparr>f_version := -1\<rparr>, True)) \<and>
    well_typed (val db1) \<and>
    getMeta D sgen junk True 3 (g, no_blocks) db1 =
      (db1, Result (stored_file ((delete_marker now f)\<lparr>f_containerIds := [], f_chunks := [], f_chunksCorrupted := []\<rparr>) g, bl)) \<and>
    getMeta D sgen junk True 3 (g\<lparr>f_version := f_version f\<rparr>, no_blocks) db1 = (db1, Result (f, bl))"
proof -
  let ?m = "(delete_marker now f)\<lparr>f_containerIds := [], f_chunks := [], f_chunksCorrupted := []\<rparr>"
  have m: "meta_ok ?m" using ok by (auto simp: meta_ok_def delete_marker_def file_wf_def name_ok_def split: option.splits)
  have r: "fetch sgen junk True 3 (hash_of (val db (file_key g))) (g, no_blocks) = Result (f, bl)"
    using get v by (simp add: getMeta_typed [OF w] fetch_key_def)
  have n: "f_namespaceId g = f_namespaceId f" "f_name g = f_name f" "f_nameLength g = f_nameLength f" using fetch_names [OF r] by simp_all
  have c: "stored_version (val db) ?m = f_version f" using cur by (simp add: stored_version_def delete_marker_def)
  have nonneg: "0 \<le> f_version f" using ok(1) by (simp add: meta_ok_def)
  obtain db1 where p: "putMeta D uts False bl ?m db = (db1, Result True)" and w1: "well_typed (val db1)"
    and now: "getMeta D sgen junk True 3 (g, no_blocks) db1 = (db1, Result (stored_file ?m g, bl))"
    using get_after_put [OF w m ok(2), of sgen uts False g junk] u c v n by (auto simp: delete_marker_def)
  have "snd (getMeta D sgen junk True 3 (g\<lparr>f_version := f_version f\<rparr>, no_blocks) (fst (putMeta D uts False bl ?m db)))
      = snd (getMeta D sgen junk True 3 ((g\<lparr>f_version := f_version f\<rparr>)\<lparr>f_version := -1\<rparr>, no_blocks) db)"
    by (rule old_after_put [OF w m]) (use c n nonneg in \<open>auto simp: delete_marker_def\<close>)
  moreover have "(g\<lparr>f_version := f_version f\<rparr>)\<lparr>f_version := -1\<rparr> = g" using v by simp
  ultimately have old: "snd (getMeta D sgen junk True 3 (g\<lparr>f_version := f_version f\<rparr>, no_blocks) db1) = Result (f, bl)"
    using get by (simp add: p)
  have "f_numChunks (delete_marker now f) = 0" by (simp add: delete_marker_def)
  then have p1: "putMeta D uts False bl (delete_marker now f) db = (db1, Result True)" using p put_without_chunks by metis
  have "deleteMeta D uts sgen gen junk True False now (g, no_blocks) db = (db1, Result ((delete_marker now f)\<lparr>f_version := -1\<rparr>, True))"
    using get v by (simp add: deleteMeta_def p1)
  then show ?thesis using w1 now old getMeta_typed [OF w1] by (simp add: prod_eq_iff)
qed

lemma rename_stored:
  assumes w: "well_typed (val db)" and ok: "meta_ok sf" "blocks_ok bl" "name_ok df" "coding_state_str sf = Some cs"
    and e: "hash_of (val db (file_key sf)) = h0 ++ record_of uts cs bl sf" "val db (file_key df) = None"
    and u: "sgen (uts (gen (cstr (f_name df)))) = Some (gen (cstr (f_name df)))" "\<And>u. length (uts u) \<le> 36"
    and g: "f_namespaceId g = f_namespaceId df" "f_name g = f_name df" "f_nameLength g = f_nameLength df" "f_version g = -1"
  shows "\<exists>db1. renameMeta D uts gen sf df db = (db1, True) \<and> well_typed (val db1) \<and>
    getMeta D sgen junk True 3 (g, no_blocks) db1 = (db1, Result (stored_file (sf\<lparr>f_uuid := gen (cstr (f_name df))\<rparr>) g, bl)) \<and>
    getMeta D sgen junk True 3 (sf\<lparr>f_version := -1\<rparr>, no_blocks) db1 = (db1, NoResult)"
proof -
  let ?du = "gen (cstr (f_name df))"
  have "\<exists>k. genFileUuidKey uts (f_namespaceId f) v = Some k" if "name_ok f" for f v
  proof -
    have "length (nat_to_string (f_namespaceId f)) \<le> 3" using that by (intro nat_to_string_short) (auto simp: name_ok_def split: option.splits)
    then show ?thesis using u(2) [of v] by (simp add: genFileUuidKey_def MAX_KEY_SIZE_def)
  qed
  then obtain sfid dfid where k: "genFileUuidKey uts (f_namespaceId sf) (gen (cstr (f_name sf))) = Some sfid"
      "genFileUuidKey uts (f_namespaceId df) ?du = Some dfid" using ok(1,3) by (metis meta_ok_def)
  have "record_of uts cs bl sf ''ver'' = Some (int_str (f_version sf))"
    by (subst record_file_field) (simp_all add: file_fields_def Let_def)
  then have ne: "val db (file_key sf) \<noteq> None" using e(1) by (metis map_add_Some_iff option.distinct(1) value_parts(2))
  then have df: "file_key sf \<noteq> file_key df" using e(2) by auto
  obtain db1 where r: "renameMeta D uts gen sf df db = (db1, True)" and v: "val db1 = rename_view uts sfid dfid ?du sf df (val db)"
    using renameMeta_val [OF w ne e(2) k] by blast
  have h: "key_kind l = Some THash \<Longrightarrow> l \<noteq> sfid \<and> l \<noteq> dfid \<and> l \<noteq> c_str (getFilePrefix x False)" for l x
    using key_kind_uuid [OF k(1)] key_kind_uuid [OF k(2)] by (auto intro: kind_differs)
  have vs: "val db1 (file_key sf) = None" using df h [OF key_kind_file] by (simp add: v rename_view_def Let_def)
  have vd: "val db1 (file_key df) = Some (HashValue ((hash_of (val db (file_key sf)))(''uuid'' \<mapsto> uts ?du)))"
    using df h [OF key_kind_file] by (simp add: v rename_view_def Let_def)
  have w1: "well_typed (val db1)" unfolding v by (rule rename_view_typed [OF w key_kind_uuid [OF k(1)] key_kind_uuid [OF k(2)]])
  have rec: "(hash_of (val db (file_key sf)))(''uuid'' \<mapsto> uts ?du) = h0 ++ record_of uts cs bl (sf\<lparr>f_uuid := ?du\<rparr>)"
    by (simp add: e(1) record_uuid)
  have "name_ok (sf\<lparr>f_uuid := ?du\<rparr>) = name_ok sf" by (simp add: name_ok_def split: option.split)
  then have ok1: "meta_ok (sf\<lparr>f_uuid := ?du\<rparr>)" "coding_state_str (sf\<lparr>f_uuid := ?du\<rparr>) = Some cs"
    using ok(1,4) by (auto simp: meta_ok_def file_wf_def coding_state_str_def split: option.splits)
  have get: "fetch sgen junk True 3 (h0 ++ record_of uts cs bl (sf\<lparr>f_uuid := ?du\<rparr>)) (g, no_blocks) = Result (stored_file (sf\<lparr>f_uuid := ?du\<rparr>) g, bl)"
    by (rule fetch_record [OF ok1 _ ok(2)]) (simp add: u(1))
  show ?thesis using r w1 g vs by (simp add: getMeta_typed [OF w1] fetch_key_def vd rec get fetch_nothing)
qed

end

subsection \<open>A server that answers\<close>

interpretation list_meta: reliable_store "list_store (\<lambda>_. Replied)" ls_val
  by unfold_locales (simp add: list_store_def list_redis_def)

text \<open>Example data: UUIDs printed in decimal, a file of one stripe with one chunk.\<close>

definition example_uts :: "uuid \<Rightarrow> string" where "example_uts u = nat_to_string (unat u mod 10 ^ 36)"
definition example_sgen :: "string \<Rightarrow> uuid option" where "example_sgen s = Some (word_of_nat (dec_value s))"

definition example_record :: "string \<Rightarrow> file_t" where
  "example_record n = (example_file n)\<lparr>f_uuid := 7, f_size := 5, f_version := 1, f_numStripes := 1, f_numChunks := 1, f_containerIds := [4],
     f_chunks := [chunk_reset\<lparr>c_chunkId := 0, c_size := 5\<rparr>], f_chunksCorrupted := [True], f_storageClass := ''STANDARD''\<rparr>"

lemma example_meta_ok: "CHR 0x00 \<notin> set n \<Longrightarrow> length n \<le> 4000 \<Longrightarrow> meta_ok (example_record n)"
  by (simp add: meta_ok_def example_record_def example_file_def name_ok_def file_wf_def new_file_def file_reset_def resetStagingStoragePolicy_def
      is_int_def is_long_def coding_ok_def codingMeta_reset_def UNKNOWN_CODE_def INVALID_FILE_OFFSET_def MD5_DIGEST_LENGTH_def
      chunk_reset_def chunk_resetMD5_def Let_def)

lemma example_fields [simp]:
  "f_namespaceId (example_file n) = 1" "f_name (example_file n) = Some n" "f_nameLength (example_file n) = int (length n)" "f_version (example_file n) = -1"
  "f_namespaceId (example_record n) = 1" "f_name (example_record n) = Some n" "f_nameLength (example_record n) = int (length n)" "f_version (example_record n) = 1"
  "f_uuid (example_record n) = 7" "f_codingMeta (example_record n) = codingMeta_reset"
  by (simp_all add: example_record_def example_file_def new_file_def file_reset_def resetStagingStoragePolicy_def Let_def)

lemma example_blocks_ok: "blocks_ok no_blocks"
  by (simp add: blocks_ok_def no_blocks_def)

lemma example_uuid: "u < 10 ^ 36 \<Longrightarrow> example_sgen (example_uts u) = Some u"
proof -
  assume "u < 10 ^ 36"
  then have "unat u < 10 ^ 36" by (simp add: word_less_nat_alt)
  then show ?thesis by (simp add: example_sgen_def example_uts_def dec_value_nat_to_string)
qed

lemma example_store_typed: "well_typed (ls_val [])"
  by (simp add: well_typed_def ls_val_def)

lemma example_uts_length: "length (example_uts u) \<le> 36"
  using key_number_length [of "unat u mod 10 ^ 36" 35] by (simp add: example_uts_def)

subsection \<open>Properties\<close>

text \<open>
  C5.  What is stored is what is fetched.  With a server that answers and a well-typed store, \<^verbatim>\<open>putMeta\<close> of a file
  whose version is not older than the stored one succeeds, keeps the store well typed, and \<^verbatim>\<open>getMeta\<close> of the same name,
  for the current version or for this version by number, then returns every field that was stored, the container, size, digest and
  corruption mark of every chunk, and the deduplication blocks, whatever was stored under the name before.
\<close>

theorem meta_put_then_get:
  assumes "reliable_store D val" and "well_typed (val db)" and "meta_ok f" and "blocks_ok bl" and "sgen (uts (f_uuid f)) = Some (f_uuid f)"
    and "overwrite \<or> stored_version (val db) f \<le> f_version f"
    and "f_namespaceId g = f_namespaceId f" and "f_name g = f_name f" and "f_nameLength g = f_nameLength f"
    and "f_version g = -1 \<or> f_version g = f_version f"
  shows "\<exists>db1. putMeta D uts overwrite bl f db = (db1, Result True) \<and> well_typed (val db1) \<and>
    getMeta D sgen junk True 3 (g, no_blocks) db1 = (db1, Result (stored_file f g, bl))"
  using assms by (rule reliable_store.get_after_put)

theorem meta_put_then_get_witness:
  "reliable_store (list_store (\<lambda>_. Replied)) ls_val \<and> well_typed (ls_val []) \<and> meta_ok (example_record ''a'') \<and>
   (\<exists>db1. putMeta (list_store (\<lambda>_. Replied)) example_uts False no_blocks (example_record ''a'') [] = (db1, Result True) \<and>
      snd (getMeta (list_store (\<lambda>_. Replied)) example_sgen (\<lambda>_. 0) True 3 (example_file ''a'', no_blocks) db1)
        = Result (stored_file (example_record ''a'') (example_file ''a''), no_blocks))"
proof -
  have r: "reliable_store (list_store (\<lambda>_. Replied)) ls_val" by (rule list_meta.reliable_store_axioms)
  have m: "meta_ok (example_record ''a'')" by (rule example_meta_ok) simp_all
  have v: "stored_version (ls_val []) (example_record ''a'') \<le> 1"
    by (simp add: stored_version_def ls_val_def reply_of_def current_version_def)
  have "\<exists>db1. putMeta (list_store (\<lambda>_. Replied)) example_uts False no_blocks (example_record ''a'') [] = (db1, Result True) \<and> well_typed (ls_val db1) \<and>
      getMeta (list_store (\<lambda>_. Replied)) example_sgen (\<lambda>_. 0) True 3 (example_file ''a'', no_blocks) db1
        = (db1, Result (stored_file (example_record ''a'') (example_file ''a''), no_blocks))"
    by (rule meta_put_then_get [OF r example_store_typed m example_blocks_ok])
      (use v in \<open>simp_all add: example_uuid\<close>)
  then show ?thesis using r m example_store_typed by auto
qed

text \<open>
  C14.  Storing a file does not touch the others: whatever is fetched for another name, current version or a numbered one, is the same
  before and after, also when the previous version of the stored file is moved to its own key.
\<close>

theorem meta_put_keeps_other_files:
  assumes "reliable_store D val" and "well_typed (val db)" and "meta_ok f" and "name_ok g" and "is_int (f_version g)"
    and "f_namespaceId g \<noteq> f_namespaceId f \<or> f_name g \<noteq> f_name f" and "overwrite \<or> stored_version (val db) f \<le> f_version f"
  shows "snd (getMeta D sgen junk newOk which (g, bl1) (fst (putMeta D uts overwrite bl f db))) = snd (getMeta D sgen junk newOk which (g, bl1) db)"
  using assms by (rule reliable_store.other_after_put)

theorem meta_put_keeps_other_files_witness:
  "let D = list_store (\<lambda>_. Replied); f = example_record ''a''; g = example_file ''b'' in
   reliable_store D ls_val \<and> meta_ok f \<and> name_ok g \<and> f_name g \<noteq> f_name f \<and>
   snd (getMeta D example_sgen (\<lambda>_. 0) True 3 (g, no_blocks) (fst (putMeta D example_uts True no_blocks f [])))
     = snd (getMeta D example_sgen (\<lambda>_. 0) True 3 (g, no_blocks) [])"
proof -
  have r: "reliable_store (list_store (\<lambda>_. Replied)) ls_val" by (rule list_meta.reliable_store_axioms)
  have m: "meta_ok (example_record ''a'')" by (rule example_meta_ok) simp_all
  have g: "name_ok (example_file ''b'')" "is_int (f_version (example_file ''b''))" "f_name (example_file ''b'') \<noteq> f_name (example_record ''a'')"
    by (simp_all add: name_ok_def is_int_def)
  show ?thesis
    using r m g meta_put_keeps_other_files [OF r example_store_typed m g(1,2), of True example_sgen "\<lambda>_. 0" True 3 no_blocks example_uts no_blocks]
    by (simp add: Let_def)
qed


text \<open>The example is stored twice: the store then holds version 1 and the next put is version 2.\<close>

definition example_second :: "string \<Rightarrow> file_t" where
  "example_second n = (example_record n)\<lparr>f_version := 2, f_size := 6\<rparr>"

lemma example_second_ok: "CHR 0x00 \<notin> set n \<Longrightarrow> length n \<le> 4000 \<Longrightarrow> meta_ok (example_second n)"
proof -
  assume n: "CHR 0x00 \<notin> set n" "length n \<le> 4000"
  have "f_isDeleted (example_record n) = False" by (simp add: example_record_def example_file_def new_file_def file_reset_def resetStagingStoragePolicy_def Let_def)
  then show ?thesis
    using example_meta_ok [OF n] by (auto simp: example_second_def meta_ok_def name_ok_def file_wf_def is_int_def codingMeta_reset_def)
qed

lemma example_record_stored:
  "\<exists>db. putMeta (list_store (\<lambda>_. Replied)) example_uts False no_blocks (example_record ''a'') [] = (db, Result True) \<and> well_typed (ls_val db) \<and>
     stored_version (ls_val db) (example_record ''a'') = 1 \<and> ls_val db (file_key (example_record ''b'')) = None \<and>
     hash_of (ls_val db (file_key (example_record ''a''))) = Map.empty ++ record_of example_uts [] no_blocks (example_record ''a'') \<and>
     getMeta (list_store (\<lambda>_. Replied)) example_sgen (\<lambda>_. 0) True 3 (example_file ''a'', no_blocks) db
       = (db, Result (stored_file (example_record ''a'') (example_file ''a''), no_blocks))"
proof -
  let ?f = "example_record ''a''"
  have m: "meta_ok ?f" by (rule example_meta_ok) simp_all
  have cs: "coding_state_str ?f = Some []" using coding_state_stored [OF m] by (simp add: codingMeta_reset_def)
  have v: "stored_version (ls_val []) ?f = -1" by (simp add: stored_version_def ls_val_def reply_of_def current_version_def)
  obtain db where p: "putMeta (list_store (\<lambda>_. Replied)) example_uts False no_blocks ?f [] = (db, Result True)"
    and l: "ls_val db = put_view example_uts (file_key ?f) [] no_blocks ?f (ls_val [])"
    using list_meta.putMeta_val [OF example_store_typed cs, of False example_uts no_blocks] v by (auto simp: put_base_def)
  have w: "well_typed (ls_val db)" unfolding l by (rule put_view_typed [OF example_store_typed]) simp
  have h: "hash_of (ls_val db (file_key ?f)) = Map.empty ++ record_of example_uts [] no_blocks ?f"
    unfolding l by (simp add: put_view_file ls_val_def)
  have "record_of example_uts [] no_blocks ?f ''ver'' = Some (int_str 1)" by (subst record_file_field) (simp_all add: file_fields_def Let_def)
  then have sv: "stored_version (ls_val db) ?f = 1" unfolding stored_version_def h by (simp add: reply_of_def current_version_def is_int_def)
  have "file_key (example_record ''b'') \<noteq> file_key ?f" using file_key_inject [of "example_record ''b''" ?f] by (simp add: name_ok_def)
  then have o: "ls_val db (file_key (example_record ''b'')) = None" unfolding l by (subst put_view_other) (simp_all add: ls_val_def)
  have "\<exists>db1. putMeta (list_store (\<lambda>_. Replied)) example_uts False no_blocks ?f [] = (db1, Result True) \<and> well_typed (ls_val db1) \<and>
      getMeta (list_store (\<lambda>_. Replied)) example_sgen (\<lambda>_. 0) True 3 (example_file ''a'', no_blocks) db1 = (db1, Result (stored_file ?f (example_file ''a''), no_blocks))"
    by (rule list_meta.get_after_put [OF example_store_typed m example_blocks_ok]) (simp_all add: example_uuid v)
  then show ?thesis using p w h sv o by auto
qed


text \<open>
  C15.  Without versioning, deleting a file removes it and nothing else: \<^verbatim>\<open>deleteMeta\<close> of a file that can be fetched succeeds, the
  name can not be fetched afterwards, the record of every other file is what it was, and the store stays well typed.
\<close>

theorem meta_delete_removes_file:
  assumes "reliable_store D val" and "well_typed (val db)" and "getMeta D sgen junk newOk 3 (g, bl) db = (db, Result (f, bl1))" and "f_version g = -1"
  shows "\<exists>db1. deleteMeta D uts sgen gen junk newOk True now (g, bl) db = (db1, Result (genUUID gen f, True)) \<and> well_typed (val db1) \<and>
    snd (getMeta D sgen junk newOk 3 (g, bl) db1) = NoResult \<and>
    (\<forall>k. key_kind k = Some THash \<longrightarrow> k \<noteq> file_key g \<longrightarrow> val db1 k = val db k)"
proof -
  obtain db1 where d: "deleteMeta D uts sgen gen junk newOk True now (g, bl) db = (db1, Result (genUUID gen f, True))" "well_typed (val db1)"
    and k: "\<forall>k. key_kind k = Some THash \<longrightarrow> val db1 k = (if k = file_key g then None else val db k)"
    using reliable_store.delete_overwriting [OF assms, of uts gen now] by (elim exE conjE) (rule that)
  have "snd (getMeta D sgen junk newOk 3 (g, bl) db1) = NoResult"
    by (rule reliable_store.get_deleted [OF assms(1) d(2) _ assms(4)]) (simp add: k)
  then show ?thesis using d k by auto
qed

theorem meta_delete_removes_file_witness:
  "\<exists>db db1. well_typed (ls_val db) \<and>
     snd (getMeta (list_store (\<lambda>_. Replied)) example_sgen (\<lambda>_. 0) True 3 (example_file ''a'', no_blocks) db)
       = Result (stored_file (example_record ''a'') (example_file ''a''), no_blocks) \<and>
     fst (deleteMeta (list_store (\<lambda>_. Replied)) example_uts example_sgen (\<lambda>_. 7) (\<lambda>_. 0) True True 0 (example_file ''a'', no_blocks) db) = db1 \<and>
     snd (getMeta (list_store (\<lambda>_. Replied)) example_sgen (\<lambda>_. 0) True 3 (example_file ''a'', no_blocks) db1) = NoResult"
proof -
  have r: "reliable_store (list_store (\<lambda>_. Replied)) ls_val" by (rule list_meta.reliable_store_axioms)
  obtain db where w: "well_typed (ls_val db)"
    and g: "getMeta (list_store (\<lambda>_. Replied)) example_sgen (\<lambda>_. 0) True 3 (example_file ''a'', no_blocks) db
       = (db, Result (stored_file (example_record ''a'') (example_file ''a''), no_blocks))"
    using example_record_stored by (elim exE conjE) (rule that)
  from meta_delete_removes_file [OF r w g, of example_uts "\<lambda>_. 7" 0] show ?thesis
    using w g by (metis example_fields(4) fst_conv snd_conv)
qed

text \<open>
  C24.  With versioning, deleting a file without naming a version only marks it: a marker of the next version becomes current, with
  size zero and no chunks, and the version that was current can still be fetched by its number.
\<close>

theorem meta_delete_keeps_versions:
  assumes "reliable_store D val" and "well_typed (val db)" and "getMeta D sgen junk True 3 (g, no_blocks) db = (db, Result (f, bl))" and "f_version g = -1"
    and "meta_ok f" and "blocks_ok bl" and "cm_codingStateSize (f_codingMeta f) = 0" and "is_long now" and "is_int (f_version f + 1)"
    and "sgen (uts (f_uuid f)) = Some (f_uuid f)" and "stored_version (val db) f = f_version f"
  shows "\<exists>db1. deleteMeta D uts sgen gen junk True False now (g, no_blocks) db = (db1, Result ((delete_marker now f)\<lparr>f_version := -1\<rparr>, True)) \<and>
    well_typed (val db1) \<and>
    getMeta D sgen junk True 3 (g, no_blocks) db1 =
      (db1, Result (stored_file ((delete_marker now f)\<lparr>f_containerIds := [], f_chunks := [], f_chunksCorrupted := []\<rparr>) g, bl)) \<and>
    getMeta D sgen junk True 3 (g\<lparr>f_version := f_version f\<rparr>, no_blocks) db1 = (db1, Result (f, bl))"
  using assms by (rule reliable_store.delete_keeping_versions)

lemma example_fetched_ok: "meta_ok (stored_file (example_record ''a'') (example_file ''a''))"
  by (simp add: meta_ok_def stored_file_def stored_meta_def stored_chunk_def example_record_def example_file_def name_ok_def file_wf_def new_file_def
      file_reset_def resetStagingStoragePolicy_def is_int_def is_long_def coding_ok_def codingMeta_reset_def codingMeta_copyMeta_def UNKNOWN_CODE_def
      INVALID_FILE_OFFSET_def MD5_DIGEST_LENGTH_def chunk_reset_def chunk_resetMD5_def setId_def Let_def)

theorem meta_delete_keeps_versions_witness:
  "\<exists>db. well_typed (ls_val db) \<and> stored_version (ls_val db) (example_record ''a'') = 1 \<and>
     snd (getMeta (list_store (\<lambda>_. Replied)) example_sgen (\<lambda>_. 0) True 3 ((example_file ''a'')\<lparr>f_version := 1\<rparr>, no_blocks)
       (fst (deleteMeta (list_store (\<lambda>_. Replied)) example_uts example_sgen (\<lambda>_. 7) (\<lambda>_. 0) True False 9 (example_file ''a'', no_blocks) db)))
     = Result (stored_file (example_record ''a'') (example_file ''a''), no_blocks)"
proof -
  let ?f = "stored_file (example_record ''a'') (example_file ''a'')"
  have r: "reliable_store (list_store (\<lambda>_. Replied)) ls_val" by (rule list_meta.reliable_store_axioms)
  obtain db where w: "well_typed (ls_val db)" and v: "stored_version (ls_val db) (example_record ''a'') = 1"
    and g: "getMeta (list_store (\<lambda>_. Replied)) example_sgen (\<lambda>_. 0) True 3 (example_file ''a'', no_blocks) db = (db, Result (?f, no_blocks))"
    using example_record_stored by (elim exE conjE) (rule that)
  have f: "f_version ?f = 1" "f_uuid ?f = 7" "cm_codingStateSize (f_codingMeta ?f) = 0" "f_namespaceId ?f = 1" "f_name ?f = Some ''a''" "f_nameLength ?f = 1"
    by (simp_all add: stored_file_def stored_meta_def codingMeta_copyMeta_def codingMeta_reset_def
        example_file_def new_file_def file_reset_def resetStagingStoragePolicy_def Let_def)
  have c: "stored_version (ls_val db) ?f = f_version ?f" using v by (simp add: stored_version_def f)
  have "\<exists>db1. deleteMeta (list_store (\<lambda>_. Replied)) example_uts example_sgen (\<lambda>_. 7) (\<lambda>_. 0) True False 9 (example_file ''a'', no_blocks) db
        = (db1, Result ((delete_marker 9 ?f)\<lparr>f_version := -1\<rparr>, True)) \<and> well_typed (ls_val db1) \<and>
      getMeta (list_store (\<lambda>_. Replied)) example_sgen (\<lambda>_. 0) True 3 (example_file ''a'', no_blocks) db1 =
        (db1, Result (stored_file ((delete_marker 9 ?f)\<lparr>f_containerIds := [], f_chunks := [], f_chunksCorrupted := []\<rparr>) (example_file ''a''), no_blocks)) \<and>
      getMeta (list_store (\<lambda>_. Replied)) example_sgen (\<lambda>_. 0) True 3 ((example_file ''a'')\<lparr>f_version := f_version ?f\<rparr>, no_blocks) db1 = (db1, Result (?f, no_blocks))"
    by (rule meta_delete_keeps_versions [OF r w g _ example_fetched_ok example_blocks_ok _ _ _ _ c]) (simp_all add: f example_uuid is_long_def is_int_def)
  then show ?thesis using w v by (auto simp: f)
qed

text \<open>
  C16.  Renaming moves the record: when the source is stored and the new name is free, \<^verbatim>\<open>renameMeta\<close> succeeds, the new name
  returns what was stored with the UUID of the new name, and the old name returns nothing.
\<close>

theorem meta_rename_moves_record:
  assumes "reliable_store D val" and "well_typed (val db)" and "meta_ok sf" and "blocks_ok bl" and "name_ok df" and "coding_state_str sf = Some cs"
    and "hash_of (val db (file_key sf)) = h0 ++ record_of uts cs bl sf" and "val db (file_key df) = None"
    and "sgen (uts (gen (cstr (f_name df)))) = Some (gen (cstr (f_name df)))" and "\<And>u. length (uts u) \<le> 36"
    and "f_namespaceId g = f_namespaceId df" and "f_name g = f_name df" and "f_nameLength g = f_nameLength df" and "f_version g = -1"
  shows "\<exists>db1. renameMeta D uts gen sf df db = (db1, True) \<and> well_typed (val db1) \<and>
    getMeta D sgen junk True 3 (g, no_blocks) db1 = (db1, Result (stored_file (sf\<lparr>f_uuid := gen (cstr (f_name df))\<rparr>) g, bl)) \<and>
    getMeta D sgen junk True 3 (sf\<lparr>f_version := -1\<rparr>, no_blocks) db1 = (db1, NoResult)"
  using assms by (rule reliable_store.rename_stored)

theorem meta_rename_moves_record_witness:
  "\<exists>db. well_typed (ls_val db) \<and> snd (renameMeta (list_store (\<lambda>_. Replied)) example_uts (\<lambda>_. 7) (example_record ''a'') (example_record ''b'') db) \<and>
     snd (getMeta (list_store (\<lambda>_. Replied)) example_sgen (\<lambda>_. 0) True 3 (example_file ''b'', no_blocks)
       (fst (renameMeta (list_store (\<lambda>_. Replied)) example_uts (\<lambda>_. 7) (example_record ''a'') (example_record ''b'') db)))
     = Result (stored_file ((example_record ''a'')\<lparr>f_uuid := 7\<rparr>) (example_file ''b''), no_blocks)"
proof -
  have r: "reliable_store (list_store (\<lambda>_. Replied)) ls_val" by (rule list_meta.reliable_store_axioms)
  have m: "meta_ok (example_record ''a'')" by (rule example_meta_ok) simp_all
  have cs: "coding_state_str (example_record ''a'') = Some []" using coding_state_stored [OF m] by (simp add: codingMeta_reset_def)
  have n: "name_ok (example_record ''b'')" by (simp add: name_ok_def)
  obtain db where w: "well_typed (ls_val db)" and b: "ls_val db (file_key (example_record ''b'')) = None"
    and h: "hash_of (ls_val db (file_key (example_record ''a''))) = Map.empty ++ record_of example_uts [] no_blocks (example_record ''a'')"
    using example_record_stored by (elim exE conjE) (rule that)
  have "\<exists>db1. renameMeta (list_store (\<lambda>_. Replied)) example_uts (\<lambda>_. 7) (example_record ''a'') (example_record ''b'') db = (db1, True) \<and> well_typed (ls_val db1) \<and>
      getMeta (list_store (\<lambda>_. Replied)) example_sgen (\<lambda>_. 0) True 3 (example_file ''b'', no_blocks) db1
        = (db1, Result (stored_file ((example_record ''a'')\<lparr>f_uuid := (\<lambda>_. 7) (cstr (f_name (example_record ''b'')))\<rparr>) (example_file ''b''), no_blocks)) \<and>
      getMeta (list_store (\<lambda>_. Replied)) example_sgen (\<lambda>_. 0) True 3 ((example_record ''a'')\<lparr>f_version := -1\<rparr>, no_blocks) db1 = (db1, NoResult)"
    by (rule meta_rename_moves_record [OF r w m example_blocks_ok n cs h b]) (simp_all add: example_uuid example_uts_length)
  then show ?thesis using w by auto
qed

end
