(* ===== verification/Meta_Queue.thy ===== *)
theory Meta_Queue
  imports Meta_Store
begin

text \<open>
  The other operations of \<^verbatim>\<open>RedisMetaStore\<close>: listings of files and folders, counts, the repair queue, files that wait for
  their write to the cloud, background tasks, and locks.  Two members of the object survive from call to call: the cursor \<^verbatim>\<open>_taskScanIt\<close>
  and the mark \<^verbatim>\<open>_endOfPendingWriteSet\<close>; they are arguments and results here.
\<close>

subsection \<open>Listing files\<close>

definition list_names :: "string list" where
  "list_names = [''size'', ''ctime'', ''atime'', ''mtime'', ''ver'', ''dm'', ''md5'', ''numC'', ''sg_size'', ''sg_mtime'', ''sc'']"

definition exact_or :: "(string \<Rightarrow> 'a) \<Rightarrow> reply list \<Rightarrow> nat \<Rightarrow> nat \<Rightarrow> 'a \<Rightarrow> 'a" where
  "exact_or conv rs i len d = (if i < length rs then case rs ! i of RString s \<Rightarrow> if length s = len then conv s else d | _ \<Rightarrow> d else d)"

text \<open>The reply of one file, filled into a slot of the result.  A staged copy that is newer replaces times and size.\<close>

definition fill_info :: "reply list \<Rightarrow> file_info \<Rightarrow> file_info" where
  "fill_info rs slot =
     (let i1 = slot\<lparr>i_size := exact_or str_ulong rs 0 8 0, i_ctime := exact_or str_long rs 1 8 0, i_atime := exact_or str_long rs 2 8 0,
                    i_mtime := exact_or str_long rs 3 8 0, i_version := exact_or str_int rs 4 4 0,
                    i_isDeleted := exact_or (\<lambda>s. atoi s \<noteq> 0) rs 5 1 False,
                    i_md5 := exact_or strb rs 6 MD5_DIGEST_LENGTH (i_md5 slot), i_numChunks := exact_or str_int rs 7 4 (i_numChunks slot)\<rparr>;
          stagedSize = exact_or str_ulong rs 8 8 0;
          stagedTime = exact_or (\<lambda>s. Some (str_long s)) rs 9 8 None;
          i2 = (case stagedTime of None \<Rightarrow> i1 | Some t \<Rightarrow> if t > i_mtime i1 then i1\<lparr>i_mtime := t, i_atime := t, i_size := stagedSize\<rparr> else i1)
      in case (if 10 < length rs then rs ! 10 else RNil) of RString s \<Rightarrow> i2\<lparr>i_storageClass := s\<rparr> | _ \<Rightarrow> i2)"

text \<open>
  One line of the version list: blanks separate the fields, although the size, the times, the digest and the number of chunks are binary.
  The search for the next blank may run past the end of the text; a blank found there ends the line.
\<close>

definition summary_field :: "nat \<Rightarrow> string \<Rightarrow> version_info \<Rightarrow> version_info" where
  "summary_field vj s v =
     (if hd s = CHR ''-'' then v
      else if vj = 0 then v\<lparr>v_version := atoi s\<rparr>
      else if vj = 1 then v\<lparr>v_size := str_ulong s\<rparr>
      else if vj = 2 then v\<lparr>v_mtime := str_long s\<rparr>
      else if vj = 3 then v\<lparr>v_md5 := strb (take MD5_DIGEST_LENGTH s)\<rparr>
      else if vj = 4 then v\<lparr>v_isDeleted := (atoi s \<noteq> 0)\<rparr>
      else v\<lparr>v_numChunks := str_int s\<rparr>)"

function parse_summary :: "nat \<Rightarrow> string \<Rightarrow> version_info \<Rightarrow> version_info" where
  "parse_summary vj s v =
     (if 6 \<le> vj \<or> s = [] then v
      else let v1 = summary_field vj s v in
        if vj = 5 then v1
        else case find_char (CHR '' '') s of None \<Rightarrow> v1 | Some k \<Rightarrow> parse_summary (Suc vj) (drop (k + 1) s) v1)"
  by pat_completeness auto
termination by (relation "measure (\<lambda>(vj, s, v). 6 - vj)") auto

declare parse_summary.simps [simp del]

text \<open>A fresh entry of the version array; \<open>v0\<close> is the uninitialised memory of its version number.\<close>

definition fresh_version :: "int \<Rightarrow> version_info" where
  "fresh_version v0 = version_info_reset \<lparr>v_version = v0, v_numChunks = 0, v_size = 0, v_mtime = 0, v_md5 = [], v_isDeleted = False\<rparr>"

definition list_versions :: "'db store \<Rightarrow> int \<Rightarrow> file_info \<Rightarrow> 'db \<Rightarrow> 'db \<times> file_info" where
  "list_versions D v0 cur db =
     (case call D (ZRANGE D (genFileVersionListKey (i_namespaceId cur) (i_name cur) (i_nameLength cur)) (nat (i_version cur))) db of
        (db1, Some (RArray (e # es))) \<Rightarrow>
          (db1, cur\<lparr>i_numVersions := int (length (e # es)),
                    i_versions := map (\<lambda>r. case r of RString s \<Rightarrow> parse_summary 0 s (fresh_version v0) | _ \<Rightarrow> fresh_version v0) (e # es)\<rparr>)
      | (db1, _) \<Rightarrow> (db1, cur))"

definition list_record :: "'db store \<Rightarrow> bool \<Rightarrow> string \<Rightarrow> file_info \<Rightarrow> 'db \<Rightarrow> 'db \<times> file_info option" where
  "list_record D withMeta key cur db =
     (if withMeta then (case call D (HMGET D (c_str key) list_names) db of
          (db1, Some (RArray (e # es))) \<Rightarrow> (db1, Some (fill_info (e # es) cur))
        | (db1, _) \<Rightarrow> (db1, None))
      else (db, Some cur))"

text \<open>One key of the listing: the slot, and whether it is kept.\<close>

definition list_file :: "'db store \<Rightarrow> int \<Rightarrow> bool \<Rightarrow> bool \<Rightarrow> reply \<Rightarrow> file_info \<Rightarrow> 'db \<Rightarrow> 'db \<times> file_info \<times> bool" where
  "list_file D v0 withMeta withVersions r slot db = (case r of
      RString key \<Rightarrow>
        if isSystemKey key then (db, slot, False)
        else (case getNameFromFileKey key of
            None \<Rightarrow> (db, slot, False)
          | Some (name, ns, _) \<Rightarrow>
              let cur = slot\<lparr>i_name := Some name, i_nameLength := int (length name), i_namespaceId := ns\<rparr>
              in case list_record D withMeta key cur db of
                   (db1, None) \<Rightarrow> (db1, cur, False)
                 | (db1, Some i) \<Rightarrow>
                     if \<not> withVersions \<and> i_isDeleted i then (db1, i, False)
                     else if withVersions \<and> i_version i > 0 then (case list_versions D v0 i db1 of (db2, i2) \<Rightarrow> (db2, i2, True))
                     else (db1, i, True))
    | _ \<Rightarrow> (db, slot, False))"

text \<open>A slot that is not kept is used again for the next key.\<close>

fun list_files :: "'db store \<Rightarrow> int \<Rightarrow> file_info \<Rightarrow> bool \<Rightarrow> bool \<Rightarrow> reply list \<Rightarrow> file_info \<Rightarrow> 'db \<Rightarrow> 'db \<times> file_info list" where
  "list_files D v0 fresh withMeta withVersions [] slot db = (db, [])"
| "list_files D v0 fresh withMeta withVersions (r # rs) slot db = (case list_file D v0 withMeta withVersions r slot db of
      (db1, i, False) \<Rightarrow> list_files D v0 fresh withMeta withVersions rs i db1
    | (db1, i, True) \<Rightarrow> (case list_files D v0 fresh withMeta withVersions rs fresh db1 of (db2, is) \<Rightarrow> (db2, i # is)))"

definition getFileList ::
  "'db store \<Rightarrow> int \<Rightarrow> file_info \<Rightarrow> nat \<Rightarrow> nat \<Rightarrow> bool \<Rightarrow> bool \<Rightarrow> bool \<Rightarrow> string \<Rightarrow> 'db \<Rightarrow> 'db \<times> file_info list" where
  "getFileList D v0 fresh proxyNs namespaceId withSize withTime withVersions prefix db =
     (let ns = (if namespaceId = INVALID_NAMESPACE_ID then proxyNs else namespaceId);
          full = nat_to_string ns @ ''_'' @ c_str prefix;
          search = (if prefix = [] \<or> last prefix \<noteq> CHR ''/'' then KEYS D (full @ ''*'') else SMEMBERS D (c_str (getFilePrefix full False)))
      in case call D search db of
           (db1, Some (RArray rs)) \<Rightarrow> list_files D v0 fresh (withSize \<or> withTime \<or> withVersions) withVersions rs fresh db1
         | (db1, _) \<Rightarrow> (db1, []))"

subsection \<open>Listing folders\<close>

definition folder_pattern :: "nat \<Rightarrow> string \<Rightarrow> string" where
  "folder_pattern ns prefix = getFilePrefix (genFileKey ns (Some (prefix @ ''a'')) (int (length prefix + 1))) True @ ''*''"

definition folders_of :: "string \<Rightarrow> bool \<Rightarrow> reply list \<Rightarrow> string list" where
  "folders_of pattern skipSubfolders rs =
     concat (map (\<lambda>r. case r of
         RString s \<Rightarrow> let n = length pattern - 1 in
           if length s < n \<or> skipSubfolders \<and> CHR ''/'' \<in> set (c_str (drop n s)) then [] else [drop n s]
       | _ \<Rightarrow> []) rs)"

text \<open>The cursor and the members of one answer; none when the answer is not what is expected.\<close>

definition scan_answer :: "reply option \<Rightarrow> (string \<times> reply list) option" where
  "scan_answer r = (case r of Some (RArray [RString c, RArray rs]) \<Rightarrow> Some (c, rs) | _ \<Rightarrow> None)"

partial_function (option) scan_folders :: "'db store \<Rightarrow> string \<Rightarrow> bool \<Rightarrow> string \<Rightarrow> string list \<Rightarrow> 'db \<Rightarrow> ('db \<times> string list) option" where
  "scan_folders D pattern skipSubfolders cursor found db =
     (let (db1, r) = call D (SSCAN D DIR_LIST_KEY cursor pattern) db in
      case scan_answer r of
        None \<Rightarrow> Some (db1, found)
      | Some (c, rs) \<Rightarrow>
          if c = ''0'' then Some (db1, found @ folders_of pattern skipSubfolders rs)
          else scan_folders D pattern skipSubfolders c (found @ folders_of pattern skipSubfolders rs) db1)"

definition getFolderList :: "'db store \<Rightarrow> nat \<Rightarrow> string \<Rightarrow> bool \<Rightarrow> 'db \<Rightarrow> ('db \<times> string list) option" where
  "getFolderList D ns prefix skipSubfolders db = scan_folders D (c_str (folder_pattern ns prefix)) skipSubfolders ''0'' [] db"

subsection \<open>Counts\<close>

text \<open>\<^verbatim>\<open>1 << 31\<close> is a negative \<^verbatim>\<open>int\<close> before it becomes an \<^verbatim>\<open>unsigned long\<close>.\<close>

definition getMaxNumKeysSupported :: nat where
  "getMaxNumKeysSupported = nat ((to_unsigned 64 (int32 (2 ^ 31)) - 8 div 2 - 8 mod 2) mod 2 ^ 64)"

definition getNumFiles :: "'db store \<Rightarrow> 'db \<Rightarrow> 'db \<times> nat" where
  "getNumFiles D db =
     (case call D (DBSIZE D) db of
        (db1, Some (RInteger n)) \<Rightarrow>
          (case call D (SCARD D DIR_LIST_KEY) db1 of (db2, r) \<Rightarrow>
           case call D (KEYS D ''//sncc*'') db2 of (db3, r1) \<Rightarrow>
             let dirs = (case r of Some (RInteger m) \<Rightarrow> m | _ \<Rightarrow> 0); sys = (case r1 of Some (RArray ks) \<Rightarrow> int (length ks) | _ \<Rightarrow> 0)
             in (db3, nat ((n - dirs - sys) mod 2 ^ 64) div 2))
      | (db1, _) \<Rightarrow> (db1, 0))"

definition getNumFilesToRepair :: "'db store \<Rightarrow> 'db \<Rightarrow> 'db \<times> nat" where
  "getNumFilesToRepair D db =
     (case call D (SCARD D FILE_REPAIR_KEY) db of
        (db1, Some (RInteger n)) \<Rightarrow> (db1, nat n)
      | (db1, Some RNil) \<Rightarrow> (db1, 0)
      | (db1, _) \<Rightarrow> (db1, 2 ^ 64 - 1))"

subsection \<open>Queues\<close>

definition markFileStatus :: "'db store \<Rightarrow> file_t \<Rightarrow> string \<Rightarrow> bool \<Rightarrow> 'db \<Rightarrow> 'db \<times> bool" where
  "markFileStatus D f listName on db =
     (case call D ((if on then SADD else SREM) D listName (version_key f (f_version f))) db of
        (db1, Some (RInteger _)) \<Rightarrow> (db1, True)
      | (db1, _) \<Rightarrow> (db1, False))"

definition markFileRepairStatus :: "'db store \<Rightarrow> file_t \<Rightarrow> bool \<Rightarrow> 'db \<Rightarrow> 'db \<times> bool" where
  "markFileRepairStatus D f needsRepair = markFileStatus D f FILE_REPAIR_KEY needsRepair"

definition markFileAsRepaired :: "'db store \<Rightarrow> file_t \<Rightarrow> 'db \<Rightarrow> 'db \<times> bool" where
  "markFileAsRepaired D f = markFileRepairStatus D f False"

definition markFileAsNeedsRepair :: "'db store \<Rightarrow> file_t \<Rightarrow> 'db \<Rightarrow> 'db \<times> bool" where
  "markFileAsNeedsRepair D f = markFileRepairStatus D f True"

definition markFileAsPendingWriteToCloud :: "'db store \<Rightarrow> file_t \<Rightarrow> 'db \<Rightarrow> 'db \<times> bool" where
  "markFileAsPendingWriteToCloud D f = markFileStatus D f FILE_PENDING_WRITE_KEY True"

definition markFileAsWrittenToCloud :: "'db store \<Rightarrow> file_t \<Rightarrow> bool \<Rightarrow> 'db \<Rightarrow> 'db \<times> bool" where
  "markFileAsWrittenToCloud D f removePending db =
     (case markFileStatus D f FILE_PENDING_WRITE_COMP_KEY False db of
        (db1, False) \<Rightarrow> (db1, False)
      | (db1, True) \<Rightarrow> if \<not> removePending then (db1, True) else markFileStatus D f FILE_PENDING_WRITE_KEY False db1)"

definition fill_name :: "string \<times> nat \<times> int option \<Rightarrow> file_t \<Rightarrow> file_t" where
  "fill_name k f = (case k of (name, ns, ver) \<Rightarrow>
     f\<lparr>f_name := Some name, f_nameLength := int (length name), f_namespaceId := ns, f_version := (case ver of None \<Rightarrow> f_version f | Some v \<Rightarrow> v)\<rparr>)"

text \<open>The popped keys go into the array of the caller; what is left over is to be put back.\<close>

fun fill_files :: "reply list \<Rightarrow> nat \<Rightarrow> file_t list \<Rightarrow> nat \<Rightarrow> file_t list \<times> nat \<times> reply list" where
  "fill_files [] limit files n = (files, n, [])"
| "fill_files (r # rs) limit files n =
     (if limit = 0 then (files, n, r # rs)
      else case r of
        RString s \<Rightarrow> (case getNameFromFileKey s of
            None \<Rightarrow> (files, n, r # rs)
          | Some k \<Rightarrow> fill_files rs (limit - 1) (files[n := fill_name k (files ! n)]) (Suc n))
      | _ \<Rightarrow> fill_files rs (limit - 1) files n)"

text \<open>
  The command that puts a key back joins the key of the queue to its format, so one of its two texts has no argument:
  \<open>Crashed\<close>.
\<close>

definition getFilesToRepair :: "'db store \<Rightarrow> nat \<Rightarrow> file_t list \<Rightarrow> 'db \<Rightarrow> 'db \<times> (file_t list \<times> nat) outcome" where
  "getFilesToRepair D numFiles files db =
     (let (db1, r) = (case call D (SPOPN D FILE_REPAIR_KEY numFiles) db of
             (d, Some RError) \<Rightarrow> call D (SPOP D FILE_REPAIR_KEY) d
           | x \<Rightarrow> x)
      in case r of
           Some (RArray rs) \<Rightarrow> (case fill_files rs numFiles files 0 of
               (fs, n, []) \<Rightarrow> (db1, Result (fs, n))
             | _ \<Rightarrow> (db1, Crashed))
         | Some (RString s) \<Rightarrow> (case getNameFromFileKey s of
               Some k \<Rightarrow> (db1, Result (files[0 := fill_name k (files ! 0)], 1))
             | None \<Rightarrow> (db1, Crashed))
         | _ \<Rightarrow> (db1, Result (files, 0)))"

definition pending_copy_key :: string where "pending_copy_key = FILE_PENDING_WRITE_KEY @ ''_copy''"
definition pending_gone_key :: string where "pending_gone_key = FILE_PENDING_WRITE_KEY @ ''_not_exists''"

text \<open>The copy is refilled when it is empty, but only after one call has reported the end of the previous round.\<close>

definition refill_pending :: "'db store \<Rightarrow> bool \<Rightarrow> 'db \<Rightarrow> 'db \<times> bool \<times> bool" where
  "refill_pending D endOfSet db =
     (case call D (SCARD D pending_copy_key) db of
        (db1, r) \<Rightarrow>
          if r = Some (RInteger 0) then
            if \<not> endOfSet then (db1, True, False)
            else (case call D (SDIFFSTORE D pending_copy_key FILE_PENDING_WRITE_KEY pending_gone_key) db1 of
                (db2, Some (RInteger n)) \<Rightarrow> if n = 0 then (db2, endOfSet, False) else (db2, False, True)
              | (db2, _) \<Rightarrow> (db2, endOfSet, False))
          else (db1, False, True))"

definition getFilesPendingWriteToCloud :: "'db store \<Rightarrow> bool \<Rightarrow> file_t \<Rightarrow> 'db \<Rightarrow> 'db \<times> bool \<times> file_t option" where
  "getFilesPendingWriteToCloud D endOfSet f db =
     (case refill_pending D endOfSet db of
        (db1, e, False) \<Rightarrow> (db1, e, None)
      | (db1, e, True) \<Rightarrow>
          (case call D (SPOP D pending_copy_key) db1 of
             (db2, Some (RString key)) \<Rightarrow>
               (case call D (SMOVE D FILE_PENDING_WRITE_KEY FILE_PENDING_WRITE_COMP_KEY (c_str key)) db2 of
                  (db3, r) \<Rightarrow> (db3, e, if r = Some (RInteger 1) then map_option (\<lambda>k. fill_name k f) (getNameFromFileKey key) else None))
           | (db2, _) \<Rightarrow> (db2, e, None)))"

subsection \<open>Background tasks\<close>

text \<open>The script that counts a finished task.\<close>

definition task_done_script :: "'db store \<Rightarrow> string \<Rightarrow> 'db \<Rightarrow> 'db \<times> reply" where
  "task_done_script D key db =
     (case ZINCRBY D BG_TASK_PENDING_KEY (-1) key db of
        (db1, RString v) \<Rightarrow> ((if v = ''0'' then fst (ZREM D BG_TASK_PENDING_KEY key db1) else db1), RInteger 1)
      | (db1, _) \<Rightarrow> (db1, RError))"

definition updateFileStatus :: "'db store \<Rightarrow> int \<Rightarrow> file_t \<Rightarrow> 'db \<Rightarrow> 'db \<times> bool" where
  "updateFileStatus D now f db =
     (let (db1, ret) = (case f_status f of
             PART_BG_TASK_COMPLETED \<Rightarrow> (case call D (task_done_script D (c_str (file_key f))) db of (d, r) \<Rightarrow> (d, r = Some (RInteger 1)))
           | BG_TASK_PENDING \<Rightarrow> (case call D (ZINCRBY D BG_TASK_PENDING_KEY 1 (file_key f)) db of (d, Some (RString _)) \<Rightarrow> (d, True) | (d, _) \<Rightarrow> (d, False))
           | ALL_BG_TASKS_COMPLETED \<Rightarrow> (case call D (ZREM D BG_TASK_PENDING_KEY (file_key f)) db of (d, r) \<Rightarrow> (d, r = Some (RInteger 1)))
           | NONE \<Rightarrow> (db, False))
      in (fst (call D (HSET D (file_key f) ''tctime'' (long_str now)) db1), ret))"

text \<open>Only the first element of an answer is used.\<close>

definition getNextFileForTaskCheck :: "'db store \<Rightarrow> string \<Rightarrow> file_t \<Rightarrow> 'db \<Rightarrow> 'db \<times> string \<times> file_t option" where
  "getNextFileForTaskCheck D taskScanIt f db =
     (case call D (ZSCAN D BG_TASK_PENDING_KEY taskScanIt) db of
        (db1, Some (RArray [RString c, r])) \<Rightarrow>
          (db1, c_str c, case r of
              RArray (RString key # e # es) \<Rightarrow>
                (case find_char (CHR ''_'') (c_str key) of
                   None \<Rightarrow> None
                 | Some d \<Rightarrow> Some (f\<lparr>f_nameLength := int (length key - (d + 1)), f_name := Some (drop (d + 1) key), f_namespaceId := nat (atoi key mod 256)\<rparr>))
            | _ \<Rightarrow> None)
      | (db1, _) \<Rightarrow> (db1, taskScanIt, None))"

subsection \<open>Locks\<close>

definition lock_operation :: "'db store \<Rightarrow> file_t \<Rightarrow> bool \<Rightarrow> string \<Rightarrow> 'db \<Rightarrow> 'db \<times> bool" where
  "lock_operation D f lock type db =
     (case call D ((if lock then SADD else SREM) D type (file_key f)) db of (db1, r) \<Rightarrow> (db1, r = Some (RInteger 1)))"

definition getLockOnFile :: "'db store \<Rightarrow> file_t \<Rightarrow> bool \<Rightarrow> 'db \<Rightarrow> 'db \<times> bool" where
  "getLockOnFile D f lock = lock_operation D f lock FILE_LOCK_KEY"

definition pinStagedFile :: "'db store \<Rightarrow> file_t \<Rightarrow> bool \<Rightarrow> 'db \<Rightarrow> 'db \<times> bool" where
  "pinStagedFile D f lock = lock_operation D f lock FILE_PIN_STAGED_KEY"

definition lockFile :: "'db store \<Rightarrow> file_t \<Rightarrow> 'db \<Rightarrow> 'db \<times> bool" where "lockFile D f = getLockOnFile D f True"
definition unlockFile :: "'db store \<Rightarrow> file_t \<Rightarrow> 'db \<Rightarrow> 'db \<times> bool" where "unlockFile D f = getLockOnFile D f False"

end
