(* ===== verification/Meta_Types.thy ===== *)
theory Meta_Types
  imports Meta_View Meta_Queue
begin

text \<open>
  Every operation of the metadata store keeps the store well typed, whatever the network does to its requests, so no command of the
  store ever meets a key with a value of another type.
\<close>

datatype meta_op =
    MPut blocks file_t | MGet int file_t blocks | MDelete file_t blocks | MRename file_t file_t | MTimestamps file_t | MChunks file_t
  | MFileName uuid file_t | MFileList nat bool bool bool string | MNumFiles | MNumRepair | MMark file_t string bool | MWritten file_t bool
  | MRepair nat "file_t list" | MPending bool file_t | MStatus file_t | MTaskCheck string file_t | MLock file_t bool | MPin file_t bool

text \<open>Parameters of the operations that are fixed by the configuration and the environment.\<close>

record meta_env =
  me_uts :: "uuid \<Rightarrow> string"
  me_sgen :: "string \<Rightarrow> uuid option"
  me_gen :: namegen
  me_junk :: "nat \<Rightarrow> int"
  me_newOk :: bool
  me_overwrite :: bool
  me_namespace :: nat
  me_fresh :: file_info

definition meta_step :: "'db store \<Rightarrow> meta_env \<Rightarrow> int \<Rightarrow> meta_op \<Rightarrow> 'db \<Rightarrow> 'db" where
  "meta_step D e now op db = (case op of
      MPut bl f \<Rightarrow> fst (putMeta D (me_uts e) (me_overwrite e) bl f db)
    | MGet which f bl \<Rightarrow> fst (getMeta D (me_sgen e) (me_junk e) (me_newOk e) which (f, bl) db)
    | MDelete f bl \<Rightarrow> fst (deleteMeta D (me_uts e) (me_sgen e) (me_gen e) (me_junk e) (me_newOk e) (me_overwrite e) now (f, bl) db)
    | MRename sf df \<Rightarrow> fst (renameMeta D (me_uts e) (me_gen e) sf df db)
    | MTimestamps f \<Rightarrow> fst (updateTimestamps D f db)
    | MChunks f \<Rightarrow> fst (updateChunks D f db)
    | MFileName u f \<Rightarrow> fst (getFileName D (me_uts e) u f db)
    | MFileList ns s t v p \<Rightarrow> fst (getFileList D now (me_fresh e) (me_namespace e) ns s t v p db)
    | MNumFiles \<Rightarrow> fst (getNumFiles D db)
    | MNumRepair \<Rightarrow> fst (getNumFilesToRepair D db)
    | MMark f l on \<Rightarrow> fst (markFileStatus D f l on db)
    | MWritten f r \<Rightarrow> fst (markFileAsWrittenToCloud D f r db)
    | MRepair n fs \<Rightarrow> fst (getFilesToRepair D n fs db)
    | MPending en f \<Rightarrow> fst (getFilesPendingWriteToCloud D en f db)
    | MStatus f \<Rightarrow> fst (updateFileStatus D now f db)
    | MTaskCheck c f \<Rightarrow> fst (getNextFileForTaskCheck D c f db)
    | MLock f on \<Rightarrow> fst (getLockOnFile D f on db)
    | MPin f on \<Rightarrow> fst (pinStagedFile D f on db))"

text \<open>Marks are set on the two lists the store has for them.\<close>

definition mark_list_ok :: "meta_op \<Rightarrow> bool" where
  "mark_list_ok op = (case op of MMark f l on \<Rightarrow> l \<in> {FILE_REPAIR_KEY, FILE_PENDING_WRITE_KEY, FILE_PENDING_WRITE_COMP_KEY} | _ \<Rightarrow> True)"

fun meta_run :: "'db store \<Rightarrow> meta_env \<Rightarrow> (int \<times> meta_op) list \<Rightarrow> 'db \<Rightarrow> 'db" where
  "meta_run D e [] db = db"
| "meta_run D e ((now, op) # ops) db = meta_run D e ops (meta_step D e now op db)"

lemma key_kind_pending [simp]: "key_kind pending_copy_key = Some TSet" "key_kind pending_gone_key = Some TSet"
  by (simp_all add: key_kind_def pending_copy_key_def pending_gone_key_def system_keys)

lemma well_typed_some_zset: "well_typed w \<Longrightarrow> key_kind k = Some TZSet \<Longrightarrow> well_typed (w(k := some_zset z))"
  by (rule well_typed_upd) (auto simp: some_zset_def split: if_splits)

context store_server
begin

abbreviation sound :: "'db \<Rightarrow> bool" where "sound db \<equiv> well_typed (val db)"

lemma inv_typed: "sound db \<Longrightarrow> key_kind k = Some t \<Longrightarrow> typed D t k db"
  by (auto simp: typed_val dest: well_typedD)

lemma inv_call: "sound db \<Longrightarrow> (sound db \<Longrightarrow> sound (fst (f db))) \<Longrightarrow> sound (fst (call D f db))"
  by (auto simp: redis_call_def split: fate.split prod.split)

lemma inv_reads:
  "fst (HGET D k f db) = db" "fst (HMGET D k fs db) = db" "fst (GET D k db) = db" "fst (SCARD D k db) = db" "fst (SMEMBERS D k db) = db"
  "fst (ZCARD D k db) = db" "fst (ZRANGEBYSCORE D k sc db) = db" "fst (ZMAX D k db) = db" "fst (ZRANGE D k n db) = db" "fst (KEYS D p db) = db"
  "fst (DBSIZE D db) = db" "fst (ZSCAN D k c db) = db" "fst (SSCAN D k c p db) = db"
  by (simp_all add: HGET_def HMGET_def GET_def SCARD_def SMEMBERS_def ZCARD_def ZRANGEBYSCORE_def ZMAX_def ZRANGE_def KEYS_def DBSIZE_def
      ZSCAN_def SSCAN_def on_type_def hmget_def split: prod.split)

lemma inv_HMSET: "sound db \<Longrightarrow> key_kind k = Some THash \<Longrightarrow> fvs \<noteq> [] \<Longrightarrow> sound (fst (HMSET D k fvs db))"
  by (auto simp: HMSET_def on_type_def val_hset well_typed_set)

lemma inv_HSET: "sound db \<Longrightarrow> key_kind k = Some THash \<Longrightarrow> sound (fst (HSET D k f v db))"
  by (auto simp: HSET_def on_type_def val_hset well_typed_set)

lemma inv_RENAME: "sound db \<Longrightarrow> key_kind k1 = key_kind k \<Longrightarrow> sound (fst (RENAME D k k1 db))"
  by (auto simp: RENAME_def rename_key_def exists_val val_rename well_typed_def)

lemma inv_RENAMENX: "sound db \<Longrightarrow> key_kind k1 = key_kind k \<Longrightarrow> sound (fst (RENAMENX D k k1 db))"
  by (auto simp: RENAMENX_def exists_val val_rename well_typed_def)

lemma inv_DEL: "sound db \<Longrightarrow> sound (fst (DEL D k db))"
  by (simp add: DEL_def del_key_def val_del well_typed_clear)

lemma inv_SET: "sound db \<Longrightarrow> key_kind k = Some TString \<Longrightarrow> sound (fst (SET D k v db))"
  by (simp add: SET_def val_set well_typed_set)

lemma inv_sadd: "sound db \<Longrightarrow> key_kind k = Some TSet \<Longrightarrow> sound (d_sadd D k m db)"
  using inv_typed [of db k TSet] by (simp add: val_sadd well_typed_set)

lemma inv_srem: "sound db \<Longrightarrow> key_kind k = Some TSet \<Longrightarrow> sound (d_srem D k m db)"
  using inv_typed [of db k TSet] by (simp add: val_srem well_typed_some_set)

lemma inv_SADD: "sound db \<Longrightarrow> key_kind k = Some TSet \<Longrightarrow> sound (fst (SADD D k m db))"
  by (simp add: SADD_def on_type_def inv_sadd)

lemma inv_SREM: "sound db \<Longrightarrow> key_kind k = Some TSet \<Longrightarrow> sound (fst (SREM D k m db))"
  by (simp add: SREM_def on_type_def inv_srem)

lemma inv_srems: "sound db \<Longrightarrow> key_kind k = Some TSet \<Longrightarrow> sound (foldl (\<lambda>db m. d_srem D k m db) db ms)"
  by (induction ms arbitrary: db) (simp_all add: inv_srem)

lemma inv_sadds: "sound db \<Longrightarrow> key_kind k = Some TSet \<Longrightarrow> sound (foldl (\<lambda>db m. d_sadd D k m db) db ms)"
  by (induction ms arbitrary: db) (simp_all add: inv_sadd)

lemma inv_SPOP: "sound db \<Longrightarrow> key_kind k = Some TSet \<Longrightarrow> sound (fst (SPOP D k db))" "sound db \<Longrightarrow> key_kind k = Some TSet \<Longrightarrow> sound (fst (SPOPN D k n db))"
  by (simp_all add: SPOP_def SPOPN_def on_type_def Let_def inv_srem inv_srems split: list.split)

lemma inv_SMOVE: "sound db \<Longrightarrow> key_kind k = Some TSet \<Longrightarrow> key_kind k1 = Some TSet \<Longrightarrow> sound (fst (SMOVE D k k1 m db))"
  by (simp add: SMOVE_def on_type_def inv_srem inv_sadd)

lemma inv_SDIFFSTORE: "sound db \<Longrightarrow> key_kind k = Some TSet \<Longrightarrow> sound (fst (SDIFFSTORE D k a b db))"
  by (simp add: SDIFFSTORE_def on_type_def Let_def inv_sadds val_del well_typed_clear)

lemma inv_ZADD: "sound db \<Longrightarrow> key_kind k = Some TZSet \<Longrightarrow> sound (fst (ZADD D k sc m db))"
  by (auto simp: ZADD_def on_type_def val_zadd well_typed_set)

lemma inv_ZINCRBY: "sound db \<Longrightarrow> key_kind k = Some TZSet \<Longrightarrow> sound (fst (ZINCRBY D k i m db))"
  by (auto simp: ZINCRBY_def on_type_def Let_def val_zadd well_typed_set)

lemma inv_ZREM: "sound db \<Longrightarrow> key_kind k = Some TZSet \<Longrightarrow> sound (fst (ZREM D k m db))"
  "sound db \<Longrightarrow> key_kind k = Some TZSet \<Longrightarrow> sound (fst (ZREMRANGEBYSCORE D k sc db))"
  by (auto simp: ZREM_def ZREMRANGEBYSCORE_def on_type_def Let_def val_zrem well_typed_some_zset)

lemmas inv_commands = inv_HMSET inv_HSET inv_RENAME inv_RENAMENX inv_DEL inv_SET inv_SADD inv_SREM inv_SPOP inv_SMOVE inv_SDIFFSTORE
  inv_ZADD inv_ZINCRBY inv_ZREM

lemma inv_case: "sound (fst p) \<Longrightarrow> (\<And>a b. sound a \<Longrightarrow> sound (fst (g a b))) \<Longrightarrow> sound (fst (case p of (a, b) \<Rightarrow> g a b))"
  by (simp add: case_prod_unfold)

lemma inv_pipeline: "(\<And>f db. f \<in> set fs \<Longrightarrow> sound db \<Longrightarrow> sound (fst (f db))) \<Longrightarrow> sound db \<Longrightarrow> sound (fst (pipeline D fs db))"
proof (induction fs arbitrary: db)
  case (Cons f fs)
  have c: "sound (fst (call D f db))" by (rule inv_call [OF Cons.prems(2)]) (simp add: Cons.prems(1))
  obtain db1 r where e: "call D f db = (db1, r)" by fastforce
  show ?case
  proof (cases r)
    case None
    then show ?thesis using c by (simp add: e)
  next
    case (Some a)
    have "sound (fst (pipeline D fs db1))" using c Cons.prems(1) by (intro Cons.IH) (simp_all add: e)
    then show ?thesis using Some by (simp add: e case_prod_unfold)
  qed
qed simp

lemma inv_put_record: "sound db \<Longrightarrow> key_kind k = Some THash \<Longrightarrow> sound (fst (put_record D uts k bl f db))"
proof -
  assume s: "sound db" and k: "key_kind k = Some THash"
  have g: "[] \<notin> set (meta_field_groups uts cs bl f)" for cs
    by (auto simp: meta_field_groups_def file_fields_def chunk_fields_def unique_block_field_def duplicate_block_field_def Let_def split: prod.splits)
  have "sound (fst (c db))" if "c \<in> set (put_commands D uts k (getFilePrefix (file_key f) False) cs bl f)" "sound db" for c cs db
    using that k g [of cs] by (auto simp: put_commands_def key_kind_uuid intro!: inv_commands split: option.splits)
  then have "sound (fst (pipeline D (put_commands D uts k (getFilePrefix (file_key f) False) cs bl f) db))" for cs
    using s by (intro inv_pipeline) auto
  then show ?thesis using s by (simp add: put_record_def case_prod_unfold split: option.split)
qed

lemma inv_backup: "sound db \<Longrightarrow> sound (fst (backup_version D f db))"
  unfolding backup_version_def Let_def
  by (auto intro!: inv_case inv_call inv_commands simp: inv_reads split: option.split reply.split)

lemma inv_putMeta: "sound db \<Longrightarrow> sound (fst (putMeta D uts overwrite bl f db))"
  unfolding putMeta_def Let_def
  by (intro inv_case inv_call) (auto intro!: inv_case inv_call inv_backup inv_put_record simp: inv_reads split: option.split reply.split list.split bool.split)

lemma inv_HMGETs: "sound db \<Longrightarrow> sound (fst (pipeline D (map (\<lambda>i. HMGET D k (ns i)) is) db))"
  by (rule inv_pipeline) (auto simp: inv_reads)

lemma inv_getMeta: "sound db \<Longrightarrow> sound (fst (getMeta D sgen junk newOk which fb db))"
proof -
  have k: "sound db \<Longrightarrow> sound (fst (meta_key D f db))" for f db
    unfolding meta_key_def by (auto intro!: inv_case inv_call simp: inv_reads Let_def)
  have c: "sound db \<Longrightarrow> sound (fst (get_chunk_fields D key f db))" for key f db
    using inv_HMGETs [where k = key and ns = chunk_names] by (simp add: get_chunk_fields_def case_prod_unfold)
  have b: "sound db \<Longrightarrow> sound (fst (get_blocks D key w nu nd bl db))" for key w nu nd bl db
    using inv_HMGETs [where k = key and ns = "\<lambda>i. [genBlockKey (int i) True]"] inv_HMGETs [where k = key and ns = "\<lambda>i. [genBlockKey (int i) False]"]
    by (simp add: get_blocks_def case_prod_unfold Let_def split: option.split)
  assume "sound db"
  then show ?thesis unfolding getMeta_def case_prod_unfold
    by (auto intro!: inv_call k c b simp: inv_reads split: option.split reply.split bool.split outcome.split)
qed

lemma inv_remove_from_prefix: "sound db \<Longrightarrow> key_kind p = Some TSet \<Longrightarrow> sound (fst (remove_from_prefix D p k db))"
  unfolding remove_from_prefix_def
  by (auto intro!: inv_case inv_commands simp: inv_reads split: reply.split)

lemma inv_delete_record: "sound db \<Longrightarrow> sound (fst (delete_record D uts gen f db))"
  unfolding delete_record_def Let_def
  by (auto intro!: inv_case inv_call inv_commands inv_remove_from_prefix split: option.split reply.split)

lemma inv_delete_version: "sound db \<Longrightarrow> sound (fst (delete_version D uts gen f db))"
proof -
  have v: "sound db \<Longrightarrow> sound (fst (version_to_remove D f c n db))" for c n db
    unfolding version_to_remove_def Let_def
    by (auto intro!: inv_case inv_call inv_commands simp: inv_reads split: option.split reply.split list.split)
  have r: "sound db \<Longrightarrow> sound (remove_version D f c v db)" for c v db
    unfolding remove_version_def Let_def by (auto intro!: inv_call inv_commands)
  assume "sound db"
  then show ?thesis unfolding delete_version_def Let_def
    by (auto intro!: inv_case inv_call v r inv_delete_record simp: inv_reads split: option.split reply.split sum.split)
qed

lemma inv_deleteMeta: "sound db \<Longrightarrow> sound (fst (deleteMeta D uts sgen gen junk newOk overwrite now fb db))"
proof -
  assume "sound db"
  then have s: "sound (fst (getMeta D sgen junk newOk 3 fb db))" by (rule inv_getMeta)
  obtain db1 r where g: "getMeta D sgen junk newOk 3 fb db = (db1, r)" by fastforce
  show ?thesis
  proof (cases r)
    case (Result x)
    obtain f bl where "x = (f, bl)" by fastforce
    then show ?thesis using s unfolding deleteMeta_def Let_def g Result
      by (auto intro!: inv_case inv_putMeta inv_delete_version inv_delete_record split: outcome.split)
  qed (use s in \<open>simp_all add: deleteMeta_def g\<close>)
qed

lemma inv_renameMeta: "sound db \<Longrightarrow> sound (fst (renameMeta D uts gen sf df db))"
  unfolding renameMeta_def Let_def undo_rename_def
  by (auto intro!: inv_case inv_call inv_commands key_kind_uuid split: option.split reply.split)

lemma inv_updates:
  "sound db \<Longrightarrow> sound (fst (updateTimestamps D f db))" "sound db \<Longrightarrow> sound (fst (updateChunks D f db))" "sound db \<Longrightarrow> sound (fst (getFileName D uts u f db))"
proof -
  have s: "sound db \<Longrightarrow> sound (fst (updateChunks_script D f (file_key f) db))" for db
    unfolding updateChunks_script_def Let_def by (auto intro!: inv_case inv_commands simp: inv_reads split: reply.split)
  show "sound db \<Longrightarrow> sound (fst (updateChunks D f db))" by (auto simp: updateChunks_def intro!: inv_case inv_call s)
  show "sound db \<Longrightarrow> sound (fst (updateTimestamps D f db))" by (auto simp: updateTimestamps_def intro!: inv_case inv_call inv_commands)
  show "sound db \<Longrightarrow> sound (fst (getFileName D uts u f db))"
    by (auto simp: getFileName_def inv_reads intro!: inv_case inv_call split: option.split reply.split)
qed

lemma inv_getFileList: "sound db \<Longrightarrow> sound (fst (getFileList D v0 fresh pns ns s t v p db))"
proof -
  have l: "sound db \<Longrightarrow> sound (fst (list_versions D v0 cur db))" for cur db
    unfolding list_versions_def by (auto intro!: inv_case inv_call simp: inv_reads split: option.split reply.split list.split)
  have m: "sound db \<Longrightarrow> sound (fst (list_record D m key cur db))" for m key cur db
    unfolding list_record_def by (auto intro!: inv_case inv_call simp: inv_reads split: option.split reply.split list.split)
  have f: "sound db \<Longrightarrow> sound (fst (list_file D v0 m vs r slot db))" for m vs r slot db
    unfolding list_file_def Let_def case_prod_unfold
    by (auto intro!: l m split: option.split reply.split)
  have fs: "sound db \<Longrightarrow> sound (fst (list_files D v0 fresh m vs rs slot db))" for m vs rs slot db
    by (induction rs arbitrary: slot db) (auto simp: case_prod_unfold intro!: f split: bool.split)
  assume "sound db"
  then show ?thesis unfolding getFileList_def Let_def
    by (auto intro!: inv_case inv_call fs simp: inv_reads split: option.split reply.split)
qed

lemma inv_counts: "sound db \<Longrightarrow> sound (fst (getNumFiles D db))" "sound db \<Longrightarrow> sound (fst (getNumFilesToRepair D db))"
proof -
  have f: "fst (case r of Some (RInteger n) \<Rightarrow> (a, g n) | _ \<Rightarrow> (b, h)) = (case r of Some (RInteger n) \<Rightarrow> a | _ \<Rightarrow> b)" for r a b and g :: "int \<Rightarrow> nat" and h
    by (simp split: option.split reply.split)
  show "sound db \<Longrightarrow> sound (fst (getNumFiles D db))"
    unfolding getNumFiles_def Let_def case_prod_unfold f
    by (simp split: option.split reply.split) (intro conjI impI allI inv_call; simp add: inv_reads)
  show "sound db \<Longrightarrow> sound (fst (getNumFilesToRepair D db))"
    unfolding getNumFilesToRepair_def by (auto intro!: inv_case inv_call simp: inv_reads split: option.split reply.split)
qed

lemma inv_mark: "sound db \<Longrightarrow> key_kind l = Some TSet \<Longrightarrow> sound (fst (markFileStatus D f l on db))"
  unfolding markFileStatus_def by (auto intro!: inv_case inv_call inv_commands split: option.split reply.split)

lemma inv_queues:
  "sound db \<Longrightarrow> sound (fst (markFileAsWrittenToCloud D f r db))" "sound db \<Longrightarrow> sound (fst (getFilesToRepair D n fs db))"
  "sound db \<Longrightarrow> sound (fst (getFilesPendingWriteToCloud D en f db))"
proof -
  show "sound db \<Longrightarrow> sound (fst (markFileAsWrittenToCloud D f r db))"
    unfolding markFileAsWrittenToCloud_def by (auto intro!: inv_case inv_mark split: bool.split)
  have r: "sound db \<Longrightarrow> sound (fst (refill_pending D en db))" for db
    unfolding refill_pending_def by (auto intro!: inv_case inv_call inv_commands simp: inv_reads split: option.split reply.split)
  show "sound db \<Longrightarrow> sound (fst (getFilesPendingWriteToCloud D en f db))"
    unfolding getFilesPendingWriteToCloud_def by (auto intro!: inv_case inv_call inv_commands r split: option.split reply.split bool.split)
  show "sound db \<Longrightarrow> sound (fst (getFilesToRepair D n fs db))"
    unfolding getFilesToRepair_def Let_def case_prod_unfold
    by (auto intro!: inv_call inv_commands split: option.split reply.split list.split)
qed

lemma inv_status:
  "sound db \<Longrightarrow> sound (fst (updateFileStatus D now f db))" "sound db \<Longrightarrow> sound (fst (getNextFileForTaskCheck D c f db))"
  "sound db \<Longrightarrow> key_kind t = Some TSet \<Longrightarrow> sound (fst (lock_operation D f on t db))"
proof -
  have s: "sound db \<Longrightarrow> sound (fst (task_done_script D k db))" for k db
    unfolding task_done_script_def by (auto intro!: inv_case inv_commands split: reply.split)
  show "sound db \<Longrightarrow> sound (fst (updateFileStatus D now f db))"
    unfolding updateFileStatus_def Let_def
    by (auto intro!: inv_case inv_call inv_commands s split: FileStatus.split option.split reply.split)
  show "sound db \<Longrightarrow> sound (fst (getNextFileForTaskCheck D c f db))"
    unfolding getNextFileForTaskCheck_def by (auto intro!: inv_case inv_call simp: inv_reads split: option.split reply.split list.split)
  show "sound db \<Longrightarrow> key_kind t = Some TSet \<Longrightarrow> sound (fst (lock_operation D f on t db))"
    unfolding lock_operation_def by (auto intro!: inv_case inv_call inv_commands)
qed

lemma inv_step: "sound db \<Longrightarrow> mark_list_ok op \<Longrightarrow> sound (meta_step D e now op db)"
  by (cases op) (auto simp: meta_step_def mark_list_ok_def getLockOnFile_def pinStagedFile_def
      intro!: inv_putMeta inv_getMeta inv_deleteMeta inv_renameMeta inv_updates inv_getFileList inv_counts inv_mark inv_queues inv_status)

lemma inv_run: "sound db \<Longrightarrow> list_all (\<lambda>(now, op). mark_list_ok op) ops \<Longrightarrow> sound (meta_run D e ops db)"
  by (induction ops arbitrary: db) (auto simp: inv_step)

end


definition example_meta_env :: meta_env where
  "example_meta_env = \<lparr>me_uts = (\<lambda>_. ''u''), me_sgen = (\<lambda>_. Some 7), me_gen = (\<lambda>_. 7), me_junk = (\<lambda>_. 0), me_newOk = True, me_overwrite = False,
     me_namespace = 1, me_fresh = file_info_reset \<lparr>i_name = None, i_nameLength = 0, i_size = 0, i_ctime = 0, i_atime = 0, i_mtime = 0, i_numChunks = 0,
       i_version = 0, i_numVersions = 0, i_versions = [], i_md5 = [], i_namespaceId = 0, i_status = NONE, i_isDeleted = False, i_storageClass = []\<rparr>\<rparr>"


end
