(* ===== verification/Meta_Lists.thy ===== *)
theory Meta_Lists
  imports Meta_Correct Meta_Queue
begin

text \<open>
  Locks, the repair queue, folder listings and version lists of the metadata store: what the operations of \<open>Meta_Queue\<close> guarantee when the server
  answers, and where the text form of the version list loses information.
\<close>

subsection \<open>Locks\<close>

text \<open>A sequence of requests for locks (\<open>True\<close>) and releases, with their answers.\<close>

fun lock_run :: "'db store \<Rightarrow> (file_t \<times> bool) list \<Rightarrow> 'db \<Rightarrow> 'db \<times> (string \<times> bool \<times> bool) list" where
  "lock_run D [] db = (db, [])"
| "lock_run D ((f, on) # ops) db = (case getLockOnFile D f on db of (db1, ok) \<Rightarrow>
     case lock_run D ops db1 of (db2, rs) \<Rightarrow> (db2, (file_key f, on, ok) # rs))"

text \<open>How often a lock on a key was granted more than it was released.\<close>

definition lock_balance :: "string \<Rightarrow> (string \<times> bool \<times> bool) list \<Rightarrow> int" where
  "lock_balance k rs = int (length (filter (\<lambda>r. r = (k, True, True)) rs)) - int (length (filter (\<lambda>r. r = (k, False, True)) rs))"

context reliable_store
begin

abbreviation locked :: "string \<Rightarrow> 'a \<Rightarrow> bool" where "locked k db \<equiv> k \<in> set_of (val db FILE_LOCK_KEY)"

lemma lock_step:
  assumes w: "well_typed (val db)"
  shows "well_typed (val (fst (getLockOnFile D f on db)))"
    and "snd (getLockOnFile D f on db) \<longleftrightarrow> locked (file_key f) db \<noteq> on"
    and "locked k (fst (getLockOnFile D f on db)) \<longleftrightarrow> (if k = file_key f then on else locked k db)"
proof -
  have t: "typed D TSet FILE_LOCK_KEY db" by (rule typed_kind [OF w]) simp
  have v: "val (fst (getLockOnFile D f on db)) = (val db)(FILE_LOCK_KEY := if on then Some (SetValue (insert (file_key f) (set_of (val db FILE_LOCK_KEY))))
      else some_set (set_of (val db FILE_LOCK_KEY) - {file_key f}))"
    by (simp add: getLockOnFile_def lock_operation_def call_replied val_SADD [OF t] val_SREM [OF t])
  show "well_typed (val (fst (getLockOnFile D f on db)))" unfolding v using w by (cases on) (simp_all add: well_typed_rules del: fun_upd_apply)
  show "locked k (fst (getLockOnFile D f on db)) \<longleftrightarrow> (if k = file_key f then on else locked k db)"
    unfolding v by (auto simp: some_set_def)
  show "snd (getLockOnFile D f on db) \<longleftrightarrow> locked (file_key f) db \<noteq> on"
    using t members(1) [of db FILE_LOCK_KEY] by (auto simp: getLockOnFile_def lock_operation_def call_replied SADD_def SREM_def on_type_def)
qed

lemma lock_run_balance:
  assumes "well_typed (val db)"
  shows "lock_balance k (snd (lock_run D ops db)) = of_bool (locked k (fst (lock_run D ops db))) - of_bool (locked k db)"
  using assms
proof (induction ops arbitrary: db)
  case Nil
  then show ?case by (simp add: lock_balance_def)
next
  case (Cons op ops)
  obtain f on where op: "op = (f, on)" by fastforce
  note step = lock_step [OF Cons.prems, where f = f and on = on]
  show ?case
    using Cons.IH [OF step(1)] step(2) step(3) [of k] by (auto simp: op lock_balance_def case_prod_unfold split: if_splits)
qed

end



text \<open>A lock whose reply is lost is held although its caller is told that it failed.\<close>

lemma lost_lock_is_held:
  assumes "store_server D val" and "r_fate (d_redis D) db = ReplyLost" and "typed D TSet FILE_LOCK_KEY db"
  shows "snd (lockFile D f db) = False" and "file_key f \<in> set_of (val (fst (lockFile D f db)) FILE_LOCK_KEY)"
  using assms store_server.val_sadd [OF assms(1,3)]
  by (simp_all add: lockFile_def getLockOnFile_def lock_operation_def redis_call_def SADD_def on_type_def)

subsection \<open>Names in keys\<close>

lemma strtol_int_to_string:
  assumes "is_int i"
  shows "strtol (int_to_string i) = i"
proof -
  let ?n = "nat (abs i)"
  let ?s = "nat_to_string ?n"
  have d: "is_digit (hd ?s)" by (rule nat_to_string_hd_digit)
  have n: "hd ?s \<notin> {CHR '' '', CHR 0x09, CHR 0x0A, CHR 0x0B, CHR 0x0C, CHR 0x0D, CHR ''-'', CHR ''+''}"
    using d by (auto simp: is_digit_def)
  have t: "takeWhile is_digit (nat_to_string m) = nat_to_string m" for m
    using nat_to_string_all_digits [of m] by (simp add: list_all_iff takeWhile_eq_all_conv)
  have w: "dropWhile (\<lambda>c. c \<in> {CHR '' '', CHR 0x09, CHR 0x0A, CHR 0x0B, CHR 0x0C, CHR 0x0D}) ?s = ?s"
    using n by (cases ?s) auto
  show ?thesis
  proof (cases "i < 0")
    case True
    then show ?thesis using assms by (simp add: t strtol_def int_to_string_def Let_def dec_value_nat_to_string is_int_def)
  next
    case False
    then have s: "int_to_string i = ?s" by (simp add: int_to_string_def)
    show ?thesis unfolding s strtol_def Let_def w using False n assms by (simp add: t dec_value_nat_to_string is_int_def)
  qed
qed

lemma atoi_int_to_string: "is_int i \<Longrightarrow> atoi (int_to_string i) = i"
  by (simp add: atoi_def strtol_int_to_string is_int_def)

lemma find_char_append: "c \<notin> set xs \<Longrightarrow> find_char c (xs @ c # ys) = Some (length xs)"
  by (simp add: find_char_def takeWhile_append2 [where P = "\<lambda>x. x \<noteq> c"]) (metis (mono_tags, lifting) append_Nil2 takeWhile.simps(2) takeWhile_append2)

text \<open>A name without line breaks is read back from both kinds of keys.\<close>

lemma getNameFromFileKey_keys:
  assumes "name_ok f" and "CHR 0x0A \<notin> set (the (f_name f))"
  shows "getNameFromFileKey (file_key f) = Some (the (f_name f), f_namespaceId f, None)"
    and "is_int v \<Longrightarrow> getNameFromFileKey (version_key f v) = Some (the (f_name f), f_namespaceId f, Some v)"
proof -
  let ?ns = "nat_to_string (f_namespaceId f)" and ?n = "the (f_name f)"
  have ns: "f_namespaceId f < 256" using assms(1) by (auto simp: name_ok_def split: option.splits)
  have "c \<notin> set ?ns" if "\<not> is_digit c" for c using that nat_to_string_digits by blast
  then have d: "CHR ''_'' \<notin> set ?ns" "CHR 0x0A \<notin> set ?ns" "CHR ''/'' \<notin> set ?ns" by (simp_all add: is_digit_def)
  have ne: "?ns \<noteq> []" by (rule nat_to_string_not_Nil)
  then have h: "?ns \<noteq> []" "hd ?ns \<noteq> CHR ''/''" using d(3) hd_in_set [OF ne] by metis+
  have sn: "nat (strtol ?ns mod 256) = f_namespaceId f"
    using strtol_int_to_string [of "int (f_namespaceId f)"] ns by (simp add: int_to_string_def is_int_def)
  have k: "file_key f = ?ns @ CHR ''_'' # ?n" using keys_of_name(1) [OF assms(1)] by simp
  have f1: "find_char (CHR ''_'') (file_key f) = Some (length ?ns)" unfolding k by (rule find_char_append [OF d(1)])
  have f2: "find_char (CHR 0x0A) (file_key f) = None" using d(2) assms(2) by (simp add: k find_char_def)
  have v0: "\<not> isVersionedFileKey (file_key f)" using h by (cases ?ns) (simp_all add: isVersionedFileKey_def k del: nat_to_string.simps)
  show "getNameFromFileKey (file_key f) = Some (?n, f_namespaceId f, None)"
    unfolding getNameFromFileKey_def Let_def using v0 by (simp add: f1 f2) (simp add: k sn)
  assume "is_int v"
  then have kv: "version_key f v = CHR ''/'' # file_key f @ CHR 0x0A # int_to_string v" using keys_of_name(2) [OF assms(1)] by simp
  have g1: "find_char (CHR ''_'') (file_key f @ CHR 0x0A # int_to_string v) = Some (length ?ns)" unfolding k by (simp add: find_char_append [OF d(1)])
  have g2: "find_char (CHR 0x0A) (file_key f @ CHR 0x0A # int_to_string v) = Some (length (file_key f))"
    by (rule find_char_append) (use d(2) assms(2) in \<open>simp add: k\<close>)
  show "getNameFromFileKey (version_key f v) = Some (?n, f_namespaceId f, Some v)"
    unfolding getNameFromFileKey_def kv Let_def isVersionedFileKey_def
    by (simp add: g1 g2 atoi_int_to_string [OF \<open>is_int v\<close>]) (simp add: k sn)
qed

subsection \<open>The repair queue\<close>

definition repair_key :: "string \<Rightarrow> bool" where
  "repair_key k \<longleftrightarrow> (\<exists>f. name_ok f \<and> CHR 0x0A \<notin> set (the (f_name f)) \<and> is_int (f_version f) \<and> k = version_key f (f_version f))"

lemma fill_name_key:
  assumes "repair_key k"
  obtains x where "getNameFromFileKey k = Some x" and "\<And>f. version_key (fill_name x f) (f_version (fill_name x f)) = k"
proof -
  obtain g where g: "name_ok g" "CHR 0x0A \<notin> set (the (f_name g))" "is_int (f_version g)" "k = version_key g (f_version g)"
    using assms by (auto simp: repair_key_def)
  let ?x = "(the (f_name g), f_namespaceId g, Some (f_version g))"
  have n: "f_name g = Some (the (f_name g))" "f_nameLength g = int (length (the (f_name g)))" using g(1) by (auto simp: name_ok_def split: option.splits)
  have "version_key (fill_name ?x f) (f_version (fill_name ?x f)) = k" for f
    unfolding g(4) fill_name_def using n by simp
  then show thesis using that getNameFromFileKey_keys(2) [OF g(1,2,3)] g(4) by blast
qed

lemma fill_files_keys:
  assumes "list_all repair_key ks" and "length ks \<le> limit" and "n + length ks \<le> length files"
  shows "\<exists>fs. fill_files (map RString ks) limit files n = (fs, n + length ks, []) \<and> length fs = length files \<and> take n fs = take n files \<and>
    (\<forall>i < length ks. version_key (fs ! (n + i)) (f_version (fs ! (n + i))) = ks ! i)"
  using assms
proof (induction ks arbitrary: limit files n)
  case (Cons k ks)
  obtain x where x: "getNameFromFileKey k = Some x" "\<And>f. version_key (fill_name x f) (f_version (fill_name x f)) = k"
    using Cons.prems(1) by (auto elim: fill_name_key [of k])
  let ?files = "files[n := fill_name x (files ! n)]"
  obtain fs where fs: "fill_files (map RString ks) (limit - 1) ?files (Suc n) = (fs, Suc n + length ks, [])" "length fs = length files"
      "take (Suc n) fs = take (Suc n) ?files" "\<forall>i < length ks. version_key (fs ! (Suc n + i)) (f_version (fs ! (Suc n + i))) = ks ! i"
  proof -
    have "length ks \<le> limit - 1" "Suc n + length ks \<le> length ?files" "list_all repair_key ks" using Cons.prems by auto
    from Cons.IH [OF this(3,1,2)] show thesis using that by auto
  qed
  have n: "n < length files" using Cons.prems(3) by simp
  have at: "fs ! n = fill_name x (files ! n)"
    using arg_cong [OF fs(3), of "\<lambda>xs. xs ! n"] n fs(2) by simp
  have tk: "take n fs = take n files" using arg_cong [OF fs(3), of "take n"] by simp
  have "version_key (fs ! (n + i)) (f_version (fs ! (n + i))) = (k # ks) ! i" if "i < length (k # ks)" for i
    using that fs(4) at x(2) by (cases i) auto
  then show ?case using fs(1,2) tk Cons.prems x(1) by (intro exI [of _ fs]) simp
qed simp

context reliable_store
begin

lemma val_srems: "typed D TSet k db \<Longrightarrow> set_of (val (foldl (\<lambda>db m. d_srem D k m db) db ms) k) = set_of (val db k) - set ms"
proof (induction ms arbitrary: db)
  case (Cons m ms)
  have v: "val (d_srem D k m db) = (val db)(k := some_set (set_of (val db k) - {m}))" by (rule val_srem [OF Cons.prems])
  have "typed D TSet k (d_srem D k m db)" by (auto simp: typed_val v)
  then show ?case using Cons.IH by (auto simp: v some_set_def)
qed simp

lemma repair_pop:
  assumes w: "well_typed (val db)" and q: "Ball (set_of (val db FILE_REPAIR_KEY)) repair_key" and l: "numFiles \<le> length files"
  shows "\<exists>db1 fs n ks. getFilesToRepair D numFiles files db = (db1, Result (fs, n)) \<and> n = min numFiles (card (set_of (val db FILE_REPAIR_KEY))) \<and>
    distinct ks \<and> length ks = n \<and> set ks \<subseteq> set_of (val db FILE_REPAIR_KEY) \<and>
    set_of (val db1 FILE_REPAIR_KEY) = set_of (val db FILE_REPAIR_KEY) - set ks \<and> (\<forall>i < n. version_key (fs ! i) (f_version (fs ! i)) = ks ! i)"
proof -
  let ?q = "set_of (val db FILE_REPAIR_KEY)" and ?ks = "take numFiles (d_random D db FILE_REPAIR_KEY)"
  have t: "typed D TSet FILE_REPAIR_KEY db" by (rule typed_kind [OF w]) simp
  note rnd = random [of db FILE_REPAIR_KEY]
  have n: "length ?ks = min numFiles (card ?q)" using distinct_card [OF rnd(2)] rnd(1) by simp
  have s: "set ?ks \<subseteq> ?q" using set_take_subset [of numFiles "d_random D db FILE_REPAIR_KEY"] by (simp add: rnd(1))
  have a: "list_all repair_key ?ks" using s q by (auto simp: list_all_iff)
  have b: "length ?ks \<le> numFiles" "0 + length ?ks \<le> length files" using l by auto
  obtain fs where fs: "fill_files (map RString ?ks) numFiles files 0 = (fs, length ?ks, [])"
      "\<forall>i < length ?ks. version_key (fs ! i) (f_version (fs ! i)) = ?ks ! i"
    using fill_files_keys [OF a b] unfolding add_0 by (elim exE conjE) (rule that)
  have g: "getFilesToRepair D numFiles files db = (foldl (\<lambda>db m. d_srem D FILE_REPAIR_KEY m db) db ?ks, Result (fs, length ?ks))"
    unfolding getFilesToRepair_def using t by (simp add: call_replied SPOPN_def on_type_def Let_def fs(1))
  have d: "distinct ?ks" using rnd(2) by simp
  show ?thesis
    by (intro exI conjI) (rule g, rule n, rule d, rule refl, rule s, rule val_srems [OF t], rule fs(2))
qed

end



end
