(* ===== verification/Meta_Listing.thy ===== *)
theory Meta_Listing
  imports Meta_Lists
begin

text \<open>
  Listings of the metadata store: \<^verbatim>\<open>getFolderList\<close> scans the set of directories to its end and returns exactly the
  names that follow the directory of the prefix, and the line of a version in the version list is read back field by field as long as no
  binary field has a blank in it.
\<close>

subsection \<open>Folders\<close>

text \<open>The directory of a prefix: what precedes its last slash.\<close>

definition prefix_directory :: "string \<Rightarrow> string" where
  "prefix_directory prefix = (case rfind_char (CHR ''/'') prefix of None \<Rightarrow> [] | Some i \<Rightarrow> take i prefix)"

lemma rfind_char_None: "c \<notin> set s \<Longrightarrow> rfind_char c s = None"
  by (simp add: rfind_char_def)

lemma rfind_char_append:
  assumes "c \<notin> set ys"
  shows "rfind_char c (xs @ c # ys) = Some (length xs)"
proof -
  have "takeWhile (\<lambda>x. x \<noteq> c) (rev ys @ c # rev xs) = rev ys"
    using assms by (subst takeWhile_append2) auto
  then show ?thesis by (simp add: rfind_char_def)
qed

lemma last_slash_cases:
  obtains "CHR ''/'' \<notin> set s" | xs ys where "s = xs @ CHR ''/'' # ys" and "CHR ''/'' \<notin> set ys"
  using split_list_last [of "CHR ''/''" s] by blast

lemma directory_pattern:
  assumes "CHR 0x00 \<notin> set prefix" and "ns < 256" and "length prefix < 4000"
  shows "c_str (folder_pattern ns prefix) = ''//pf_'' @ nat_to_string ns @ ''_'' @ prefix_directory prefix @ ''*''"
proof -
  let ?ns = "nat_to_string ns"
  have z: "CHR 0x00 \<notin> set ?ns" "CHR ''/'' \<notin> set ?ns" using nat_to_string_digits by (force simp: is_digit_def)+
  have "length ?ns \<le> 3" by (rule nat_to_string_short [OF assms(2)])
  then have k: "genFileKey ns (Some (prefix @ ''a'')) (int (length prefix + 1)) = ?ns @ ''_'' @ prefix @ ''a''"
    using print_width_exact [of "prefix @ ''a''"] assms(1,3) by (simp add: genFileKey_def PATH_MAX_def)
  have c: "c_str (?ns @ ''_'' @ prefix @ ''a'') = ?ns @ ''_'' @ prefix @ ''a''"
    by (rule c_str_id) (use z assms(1) in simp)
  have us: "takeWhile (\<lambda>c. c \<noteq> CHR ''_'') (?ns @ CHR ''_'' # r) = ?ns" for r
    by (subst takeWhile_append2) auto
  have "getFilePrefix (?ns @ ''_'' @ prefix @ ''a'') True = ''//pf_'' @ ?ns @ ''_'' @ prefix_directory prefix"
  proof (cases rule: last_slash_cases [of prefix])
    case 1
    then show ?thesis unfolding getFilePrefix_def Let_def c using z by (simp add: us rfind_char_None prefix_directory_def)
  next
    case (2 xs ys)
    have "rfind_char (CHR ''/'') ((?ns @ ''_'' @ xs) @ CHR ''/'' # (ys @ ''a'')) = Some (length (?ns @ ''_'' @ xs))"
      by (rule rfind_char_append) (use 2(2) in simp)
    then show ?thesis unfolding getFilePrefix_def Let_def c using 2 by (auto simp: us rfind_char_append prefix_directory_def)
  qed
  moreover have "CHR 0x00 \<notin> set (prefix_directory prefix)"
    using assms(1) by (auto simp: prefix_directory_def split: option.split dest: in_set_takeD)
  ultimately show ?thesis unfolding folder_pattern_def k using z by (intro trans [OF c_str_id]) simp_all
qed

lemma folders_of_append: "folders_of p skip (rs @ ts) = folders_of p skip rs @ folders_of p skip ts"
  by (simp add: folders_of_def)

lemma folders_of_set:
  assumes "set ms = {m \<in> M. take (length p) m = p}"
  shows "set (folders_of (p @ ''*'') skip (map RString ms)) = {d. p @ d \<in> M \<and> \<not> (skip \<and> CHR ''/'' \<in> set (c_str d))}"
proof -
  have m: "m \<in> set ms \<longleftrightarrow> (\<exists>d. m = p @ d \<and> p @ d \<in> M)" for m
  proof -
    have "take (length p) m = p \<longleftrightarrow> (\<exists>d. m = p @ d)" by (metis append_eq_conv_conj)
    then show ?thesis using assms by auto
  qed
  have "set (folders_of (p @ ''*'') skip (map RString ms))
      = (\<Union>m \<in> set ms. if length m < length p \<or> skip \<and> CHR ''/'' \<in> set (c_str (drop (length p) m)) then {} else {drop (length p) m})"
    by (auto simp: folders_of_def Let_def split: if_splits)
  moreover have "set ms = (\<lambda>d. p @ d) ` {d. p @ d \<in> M}" using m by auto
  ultimately show ?thesis by (auto split: if_splits)
qed

text \<open>The loop of the code follows the scan of the server: it ends when the scan does.\<close>

context reliable_store
begin

lemma scan_folders_all:
  assumes "typed D TSet DIR_LIST_KEY db" and "sscan_all D db DIR_LIST_KEY c p = Some ms"
  shows "scan_folders D p skip c found db = Some (db, found @ folders_of p skip (map RString ms))"
proof -
  have "\<forall>found. D' = D \<longrightarrow> db' = db \<longrightarrow> k' = DIR_LIST_KEY \<longrightarrow> p' = p \<longrightarrow>
      scan_folders D p skip c' found db = Some (db, found @ folders_of p skip (map RString ms'))"
    if "sscan_all D' db' k' c' p' = Some ms'" for D' :: "'a store" and db' k' c' p' ms'
    using that
  proof (induction rule: sscan_all.raw_induct [rotated 1, consumes 1, case_names step])
    case (step scan D' db' k' c' p' ms')
    obtain n xs where s: "d_sscan D' db' k' c' p' = (n, xs)" by (cases "d_sscan D' db' k' c' p'")
    show ?case
    proof (intro allI impI)
      fix found assume e: "D' = D" "db' = db" "k' = DIR_LIST_KEY" "p' = p"
      have r: "call D (SSCAN D DIR_LIST_KEY c' p) db = (db, Some (RArray [RString n, RArray (map RString xs)]))"
        using assms(1) s e by (simp add: call_replied SSCAN_def on_type_def)
      show "scan_folders D p skip c' found db = Some (db, found @ folders_of p skip (map RString ms'))"
      proof (cases "n = ''0''")
        case True
        then show ?thesis using step(2) s e by (subst scan_folders.simps) (simp add: r scan_answer_def)
      next
        case False
        then obtain rest where rest: "scan D' db' k' n p' = Some rest" "ms' = xs @ rest"
          using step(2) s by (auto simp: bind_eq_Some_conv)
        show ?thesis using False step(1) [OF rest(1)] e rest(2)
          by (subst scan_folders.simps) (simp add: r scan_answer_def folders_of_append)
      qed
    qed
  qed
  then show ?thesis using assms(2) by blast
qed

lemma folder_list:
  assumes w: "well_typed (val db)" and p: "CHR 0x00 \<notin> set prefix" "ns < 256" "length prefix < 4000" "plain_pattern (prefix_directory prefix)"
  shows "\<exists>fs. getFolderList D ns prefix skip db = Some (db, fs) \<and>
    set fs = {d. ''//pf_'' @ nat_to_string ns @ ''_'' @ prefix_directory prefix @ d \<in> set_of (val db DIR_LIST_KEY) \<and> \<not> (skip \<and> CHR ''/'' \<in> set (c_str d))}"
proof -
  let ?p = "''//pf_'' @ nat_to_string ns @ ''_'' @ prefix_directory prefix"
  have t: "typed D TSet DIR_LIST_KEY db" by (rule typed_kind [OF w]) simp
  have "plain_pattern (nat_to_string ns)" using nat_to_string_digits by (force simp: plain_pattern_def is_digit_def)
  then have "plain_pattern ?p" using p(4) by (auto simp: plain_pattern_def)
  from sscan [OF this, of db DIR_LIST_KEY]
  obtain ms where ms: "sscan_all D db DIR_LIST_KEY ''0'' (?p @ ''*'') = Some ms"
      "set ms = {m \<in> set_of (val db DIR_LIST_KEY). take (length ?p) m = ?p}" by blast
  have "getFolderList D ns prefix skip db = Some (db, folders_of (?p @ ''*'') skip (map RString ms))"
    unfolding getFolderList_def directory_pattern [OF p(1-3)] using scan_folders_all [OF t ms(1), of skip "[]"] by simp
  with folders_of_set [OF ms(2), of skip] show ?thesis by simp
qed

end



subsection \<open>Lines of the version list\<close>

lemma parse_summary_field:
  assumes "vj < 5" and "CHR '' '' \<notin> set x"
  shows "parse_summary vj (x @ CHR '' '' # y) v = parse_summary (Suc vj) y (summary_field vj (x @ CHR '' '' # y) v)"
  using assms by (subst parse_summary.simps) (simp add: Let_def find_char_append)

lemma parse_summary_last: "vj = 5 \<Longrightarrow> s \<noteq> [] \<Longrightarrow> parse_summary vj s v = summary_field vj s v"
  by (subst parse_summary.simps) (simp add: Let_def)

lemma str_values_append [simp]:
  "n < 2 ^ 64 \<Longrightarrow> str_ulong (ulong_str n @ r) = n"
  "is_long t \<Longrightarrow> str_long (long_str t @ r) = t"
  using str_ulong_str [of n] str_long_str [of t]
  by (simp_all add: str_ulong_def ulong_str_def str_long_def long_str_def bytes_long_def is_long_def)

lemma atoi_field:
  assumes "n < 2 ^ 31"
  shows "atoi (nat_to_string n @ CHR '' '' # r) = int n"
proof -
  let ?s = "nat_to_string n"
  have n: "hd (?s @ CHR '' '' # r) \<notin> {CHR '' '', CHR 0x09, CHR 0x0A, CHR 0x0B, CHR 0x0C, CHR 0x0D, CHR ''-'', CHR ''+''}"
    using nat_to_string_hd_digit [of n] by (auto simp: is_digit_def)
  have w: "dropWhile (\<lambda>c. c \<in> {CHR '' '', CHR 0x09, CHR 0x0A, CHR 0x0B, CHR 0x0C, CHR 0x0D}) (?s @ CHR '' '' # r) = ?s @ CHR '' '' # r"
    using n by (cases ?s) auto
  have t: "takeWhile is_digit (?s @ CHR '' '' # r) = ?s"
    using nat_to_string_digits by (subst takeWhile_append2) (auto simp: is_digit_def)
  have "strtol (?s @ CHR '' '' # r) = int n"
    unfolding strtol_def Let_def w using n assms by (simp add: t dec_value_nat_to_string)
  then show ?thesis using assms by (simp add: atoi_def is_int_def)
qed

lemma summary_line:
  assumes "w (file_key f) = Some (HashValue (record_of uts cs bl old))" and "1 \<le> f_version f"
  shows "summary_of w f = nat_to_string (nat (f_version f - 1)) @ '' '' @ ulong_str (f_size old) @ '' '' @ long_str (f_mtime old) @ '' '' @
    bstr (take MD5_DIGEST_LENGTH (f_md5 old)) @ '' '' @ (if f_size old = 0 \<and> f_isDeleted old then ''1'' else ''0'') @ '' '' @ int_str (f_numChunks old)"
proof -
  have r: "record_of uts cs bl old n = map_of (rev (file_fields uts cs bl old)) n" if "n \<in> set summary_fields" for n
    by (rule record_file_field) (use that in \<open>auto simp: summary_fields_def\<close>)
  have "map (reply_of (record_of uts cs bl old)) summary_fields = [RString (ulong_str (f_size old)), RString (long_str (f_mtime old)),
      RString (bstr (take MD5_DIGEST_LENGTH (f_md5 old))), RString (if f_size old = 0 \<and> f_isDeleted old then ''1'' else ''0''), RString (int_str (f_numChunks old))]"
    using r by (simp add: reply_of_def summary_fields_def file_fields_def Let_def)
  then show ?thesis using assms by (simp add: summary_of_def int_to_string_def)
qed

lemma parse_summary_keeps_mtime: "3 \<le> vj \<Longrightarrow> v_mtime (parse_summary vj s v) = v_mtime v"
proof (induction vj s v rule: parse_summary.induct)
  case (1 vj s v)
  have "v_mtime (summary_field vj s v) = v_mtime v" using 1(2) by (simp add: summary_field_def)
  then show ?case using 1 by (subst parse_summary.simps) (auto simp: Let_def split: option.split)
qed

text \<open>
  C28.  The version list tells the truth about an old version as long as no blank is in the way: when the bytes of size, modification time
  and digest contain no blank and no field starts with a hyphen, the line that \<^verbatim>\<open>putMeta\<close> writes for a record is read back by
  \<^verbatim>\<open>getFileList\<close> with its version, size, time, digest, deletion mark and number of chunks.
\<close>

theorem version_summary_roundtrip:
  assumes "w (file_key f) = Some (HashValue (record_of uts cs bl old))" and "1 \<le> f_version f" and "f_version f < 2 ^ 31"
    and "f_size old < 2 ^ 64" and "is_long (f_mtime old)" and "is_int (f_numChunks old)" and "length (f_md5 old) = MD5_DIGEST_LENGTH"
    and "CHR '' '' \<notin> set (ulong_str (f_size old) @ long_str (f_mtime old) @ bstr (f_md5 old))"
    and "hd (ulong_str (f_size old)) \<noteq> CHR ''-''" and "hd (long_str (f_mtime old)) \<noteq> CHR ''-''"
    and "hd (bstr (f_md5 old)) \<noteq> CHR ''-''" and "hd (int_str (f_numChunks old)) \<noteq> CHR ''-''"
  shows "parse_summary 0 (summary_of w f) v = v\<lparr>v_version := f_version f - 1, v_size := f_size old, v_mtime := f_mtime old, v_md5 := f_md5 old,
    v_isDeleted := (f_size old = 0 \<and> f_isDeleted old), v_numChunks := f_numChunks old\<rparr>"
proof -
  let ?n = "nat (f_version f - 1)" and ?dm = "if f_size old = 0 \<and> f_isDeleted old then ''1'' else ''0''"
  have no: "CHR '' '' \<notin> set (nat_to_string ?n)" using nat_to_string_digits by (force simp: is_digit_def)
  have v: "hd (nat_to_string ?n @ r) \<noteq> CHR ''-''" "atoi (nat_to_string ?n @ CHR '' '' # r) = f_version f - 1" for r
    using nat_to_string_hd_digit [of ?n] atoi_field [of ?n r] assms(2,3) by (auto simp: is_digit_def)
  have dm: "atoi (''1 '' @ r) = 1" "atoi (''0 '' @ r) = 0" for r
  proof -
    have "nat_to_string 1 = ''1''" "nat_to_string 0 = ''0''" by code_simp+
    then show "atoi (''1 '' @ r) = 1" "atoi (''0 '' @ r) = 0" using atoi_field [of 1 r] atoi_field [of 0 r] by simp_all
  qed
  have ne: "ulong_str x \<noteq> []" "long_str y \<noteq> []" "bstr (f_md5 old) \<noteq> []" "int_str i \<noteq> []" for x y i
    using str_length assms(7) by (auto simp: MD5_DIGEST_LENGTH_def simp flip: length_greater_0_conv)
  show ?thesis
    unfolding summary_line [of w f, OF assms(1,2)]
    using assms(4-12) no v dm ne
    by (simp add: parse_summary_field parse_summary_last summary_field_def)
qed

lemma le_bytes_byte:
  assumes "n < 256"
  shows "le_bytes (Suc w) n = word_of_nat n # replicate w 0"
proof -
  have "n div 256 ^ Suc j = 0" for j using assms by (simp add: div_mult2_eq)
  then show ?thesis by (simp add: le_bytes_def map_upt_Suc del: upt_Suc power_Suc flip: map_replicate_const) (simp add: map_replicate_const)
qed

lemma byte_strings:
  "n < 256 \<Longrightarrow> ulong_str n = byte_char (word_of_nat n) # replicate 7 (CHR 0x00)"
  "0 \<le> i \<Longrightarrow> i < 256 \<Longrightarrow> long_str i = byte_char (word_of_int i) # replicate 7 (CHR 0x00)"
  "0 \<le> i \<Longrightarrow> i < 256 \<Longrightarrow> int_str i = byte_char (word_of_int i) # replicate 3 (CHR 0x00)"
proof -
  have z: "byte_char 0 = CHR 0x00" by code_simp
  have e: "(8::nat) = Suc 7" "(4::nat) = Suc 3" by simp_all
  show "n < 256 \<Longrightarrow> ulong_str n = byte_char (word_of_nat n) # replicate 7 (CHR 0x00)"
    unfolding ulong_str_def e(1) by (simp only: le_bytes_byte list.map map_replicate z)
  show "0 \<le> i \<Longrightarrow> i < 256 \<Longrightarrow> long_str i = byte_char (word_of_int i) # replicate 7 (CHR 0x00)"
    unfolding long_str_def long_bytes_def e(1) using le_bytes_byte [of "nat i" 7] by (simp add: to_unsigned_def z)
  show "0 \<le> i \<Longrightarrow> i < 256 \<Longrightarrow> int_str i = byte_char (word_of_int i) # replicate 3 (CHR 0x00)"
    unfolding int_str_def int_bytes_def e(2) using le_bytes_byte [of "nat i" 3] by (simp add: to_unsigned_def z)
qed

lemma byte_chars: "byte_char 0 = CHR 0x00" "byte_char 1 = CHR 0x01" "byte_char 5 = CHR 0x05" "byte_char 32 = CHR '' ''"
  "char_byte (CHR 0x00) = 0" "char_byte (CHR '' '') = 32"
  by code_simp+

definition example_listed :: "nat \<Rightarrow> string \<rightharpoonup> redis_value" where
  "example_listed n = [file_key (example_second ''a'') \<mapsto> HashValue (record_of example_uts [] no_blocks ((example_record ''a'')\<lparr>f_size := n\<rparr>))]"

lemma example_listed_fields [simp]:
  "f_version (example_second n) = 2" "f_mtime (example_record n) = 0" "f_numChunks (example_record n) = 1" "f_isDeleted (example_record n) = False"
  "f_md5 (example_record n) = replicate MD5_DIGEST_LENGTH 0" "f_size (example_record n) = 5"
  by (simp_all add: example_second_def example_record_def example_file_def new_file_def file_reset_def resetStagingStoragePolicy_def Let_def)

theorem version_summary_roundtrip_witness:
  "parse_summary 0 (summary_of (example_listed 5) (example_second ''a'')) (fresh_version 9)
     = \<lparr>v_version = 1, v_numChunks = 1, v_size = 5, v_mtime = 0, v_md5 = replicate MD5_DIGEST_LENGTH 0, v_isDeleted = False\<rparr>"
proof -
  let ?old = "(example_record ''a'')\<lparr>f_size := 5\<rparr>"
  have w: "example_listed 5 (file_key (example_second ''a'')) = Some (HashValue (record_of example_uts [] no_blocks ?old))"
    by (simp add: example_listed_def)
  show ?thesis
    using version_summary_roundtrip [of "example_listed 5", OF w, of "fresh_version 9"]
    by (simp add: byte_strings byte_chars is_long_def is_int_def fresh_version_def MD5_DIGEST_LENGTH_def)
qed

text \<open>
  C36.  A blank in a binary field misplaces the rest of the line: the record of a file of 32 bytes is stored correctly, but its line in the
  version list is read with the modification time \<open>2 ^ 61\<close>, whatever its modification time is.
\<close>

theorem version_summary_misread:
  assumes "w (file_key f) = Some (HashValue (record_of uts cs bl old))" and "1 \<le> f_version f" and "f_size old = 32"
  shows "v_mtime (parse_summary 0 (summary_of w f) v) = 2 ^ 61"
proof -
  let ?n = "nat_to_string (nat (f_version f - 1))"
  have no: "CHR '' '' \<notin> set ?n" using nat_to_string_digits by (force simp: is_digit_def)
  have u: "ulong_str 32 = CHR '' '' # replicate 7 (CHR 0x00)" by (simp add: byte_strings byte_chars)
  obtain r where s: "summary_of w f = ?n @ CHR '' '' # ([] @ CHR '' '' # (replicate 7 (CHR 0x00) @ CHR '' '' # r))"
    using summary_line [of w f, OF assms(1,2)] unfolding assms(3) u by auto
  have "take 8 (strb (replicate 7 (CHR 0x00) @ CHR '' '' # r)) = replicate 7 0 @ [32]" by (simp add: byte_chars)
  moreover have "replicate 7 0 @ [32] = [0, 0, 0, 0, 0, 0, 0, 32 :: byte]" by code_simp
  moreover have "to_signed 64 (int (le_value [0, 0, 0, 0, 0, 0, 0, 32])) = 2 ^ 61" by (simp add: to_signed_def)
  ultimately have t: "str_long (replicate 7 (CHR 0x00) @ CHR '' '' # r) = 2 ^ 61" by (simp add: str_long_def bytes_long_def)
  let ?z = "replicate 7 (CHR 0x00)"
  have p: "parse_summary 0 (?n @ CHR '' '' # x) v = parse_summary 1 x (summary_field 0 (?n @ CHR '' '' # x) v)"
    "parse_summary 1 ([] @ CHR '' '' # x) v = parse_summary 2 x (summary_field 1 ([] @ CHR '' '' # x) v)"
    "parse_summary 2 (?z @ CHR '' '' # r) v = parse_summary 3 r (summary_field 2 (?z @ CHR '' '' # r) v)" for x v
    using parse_summary_field [of 0 ?n] parse_summary_field [of 1 "[]"] parse_summary_field [of 2 ?z] no by (simp_all add: numeral_2_eq_2 numeral_3_eq_3)
  have "v_mtime (summary_field 2 (?z @ CHR '' '' # r) v) = 2 ^ 61" for v using t by (simp add: summary_field_def)
  then show ?thesis unfolding s p by (simp only: parse_summary_keeps_mtime order.refl)
qed

theorem version_summary_misread_witness:
  "v_mtime (parse_summary 0 (summary_of (example_listed 32) (example_second ''a'')) (fresh_version 9)) = 2 ^ 61 \<and> f_mtime (example_record ''a'') = 0"
proof -
  have w: "example_listed 32 (file_key (example_second ''a'')) = Some (HashValue (record_of example_uts [] no_blocks ((example_record ''a'')\<lparr>f_size := 32\<rparr>)))"
    by (simp add: example_listed_def)
  show ?thesis using version_summary_misread [of "example_listed 32", OF w] by simp
qed

end
