(* ===== verification/Spec2Isabelle.thy ===== *)
theory Spec2Isabelle
  imports Nexo_Prelude Nexo_Data Nexo_File Ring_Buffer Url_Codec Immutable_Policy Redis_Interface Policy_Store
    Policy_Retention Isal_Interface RS_Code RS_Correct Proxy_Coordinator Coordinator_Correct Coordinator_Groups
    Coordinator_Spare Fs_Container Fs_Correct Container_Manager Container_Correct
    Chunk_Message Message_Correct Agent Agent_Messages Agent_Repair Cluster_Repair
    Chunk_Manager Chunk_Manager_Ops Chunk_Access Chunk_Write Chunk_Read Chunk_Ready Chunk_Network
    Redis_Store Meta_Keys Meta_Store Meta_Record Meta_View Meta_Correct Meta_Queue Meta_Types Meta_Lists Meta_Listing
begin

text \<open>
  A verification development of Nexoedge, a distributed object store written in C++
  (\<^verbatim>\<open>src/src\<close>).  A proxy splits files into stripes, encodes each stripe into chunks with an
  erasure code and sends the chunks to agents; each agent keeps chunks in containers; a metadata store in
  Redis remembers where the chunks of a file are.  The paths below are relative to \<^verbatim>\<open>src/src\<close>.

  \<^bold>\<open>Conventions.\<close>  A C++ structure is a record whose fields carry a prefix (\<open>c_\<close> for chunks, \<open>f_\<close> for
  files, \<open>e_\<close> for chunk events, and so on), an enumeration is a datatype, a pointer that may be null is an
  option, an operation that changes an object returns the changed record, and an exception is the value \<open>None\<close>.
  Integers that can wrap around are words or are reduced with \<open>int32\<close>; the others are \<open>int\<close> or \<open>nat\<close>.
  Loops are structural recursions, or functions with a termination proof.  Code that is not part of the
  repository is a record of functions with a locale for its documented laws, and every locale is interpreted.
  Examples at the end of a theory apply its results to concrete data.

  \<^bold>\<open>Data.\<close>
  \<^item> \<open>Nexo_Prelude\<close>: decimal text, fixed-width integers, maps and lists.
  \<^item> \<open>Nexo_Data\<close>: constants and opcodes (\<^verbatim>\<open>common/define.hh\<close>), chunks (\<^verbatim>\<open>ds/chunk.hh\<close>) and coding
    metadata (\<^verbatim>\<open>ds/coding_meta.hh\<close>).  Names of chunks identify them.
  \<^item> \<open>Nexo_File\<close>: file records and the copying of their metadata (\<^verbatim>\<open>ds/file.cc\<close>).
  \<^item> \<open>Ring_Buffer\<close>: the blocking queue (\<^verbatim>\<open>ds/ring_buffer.hh\<close>), as a refinement of a bounded queue, and
    with threads as a step relation: safe for one producer and one consumer, not for two producers.
  \<^item> \<open>Url_Codec\<close>: the URL codec (\<^verbatim>\<open>common/util.hh\<close>) and its round trip.

  \<^bold>\<open>Retention policies.\<close>
  \<^item> \<open>Immutable_Policy\<close>: dates, durations and expiry (\<^verbatim>\<open>ds/immutable_policy.cc\<close>), with the ranges in which
    the date arithmetic is exact and what happens outside of them.
  \<^item> \<open>Redis_Interface\<close>: the commands of a Redis server as an interface with laws, and a map that obeys them.
  \<^item> \<open>Policy_Store\<close>: the store and the manager (\<^verbatim>\<open>proxy/immutable\<close>), scripts included.
  \<^item> \<open>Policy_Retention\<close>: no operation shortens the retention of a stored policy; set and get, renewal, deletion
    and moves; and two ways in which protection is lost.

  \<^bold>\<open>Erasure coding.\<close>
  \<^item> \<open>Isal_Interface\<close>: the functions of the ISA-L library as an interface, with the finite field of 256
    elements as the instance.
  \<^item> \<open>RS_Code\<close>: byte buffers, options, decoding plans and the Reed-Solomon code (\<^verbatim>\<open>common/coding\<close>).
  \<^item> \<open>RS_Correct\<close>: decoding inverts encoding, repair returns the lost chunks, and repair from partial
    results of groups of chunks gives the same.

  \<^bold>\<open>Agents.\<close>
  \<^item> \<open>Fs_Container\<close>, \<open>Fs_Correct\<close>: containers in a directory (\<^verbatim>\<open>agent/container/fs.cc\<close>) and their
    contract: what is written is read, other chunks do not change, writes can be reverted.
  \<^item> \<open>Container_Manager\<close>, \<open>Container_Correct\<close>: requests for several chunks
    (\<^verbatim>\<open>agent/container_manager.cc\<close>) over any kind of container that keeps that contract.
  \<^item> \<open>Chunk_Message\<close>, \<open>Message_Correct\<close>: chunk events as messages (\<^verbatim>\<open>ds/chunk_event.hh\<close>,
    \<^verbatim>\<open>common/io.cc\<close>): every event is received as it was sent, except for empty requests.
  \<^item> \<open>Agent\<close>: the event loop (\<^verbatim>\<open>agent/agent.cc\<close>), each case of it a function, and a cluster of agents.
  \<^item> \<open>Agent_Messages\<close>, \<open>Agent_Repair\<close>, \<open>Cluster_Repair\<close>: requests between agents and the repair of
    chunks across them, which composes the message format, the container manager, the containers and
    the erasure code: lost chunks are rebuilt, no other chunk changes, and the request succeeds if nothing fails.

  \<^bold>\<open>Proxy.\<close>
  \<^item> \<open>Proxy_Coordinator\<close>: the registry of agents (\<^verbatim>\<open>proxy/coordinator.cc\<close>).
  \<^item> \<open>Coordinator_Correct\<close>, \<open>Coordinator_Groups\<close>, \<open>Coordinator_Spare\<close>: its consistency, the
    grouping of chunks by agent, and the search for spare containers with its faults.
  \<^item> \<open>Chunk_Manager\<close>, \<open>Chunk_Manager_Ops\<close>: the chunk manager (\<^verbatim>\<open>proxy/chunk_manager.cc\<close>) with its
    requests to agents (\<^verbatim>\<open>proxy/io.cc\<close>): stripes are written, read, copied, moved, deleted, checked and repaired.
  \<^item> \<open>Chunk_Access\<close>, \<open>Chunk_Write\<close>, \<open>Chunk_Read\<close>, \<open>Chunk_Ready\<close>: writing and reading stripes over any network of agents that keeps
    the contract of requests to store and to read a chunk.
  \<^item> \<open>Chunk_Network\<close>: a cluster of agents keeps that contract, so a stripe that the proxy writes to it is read back,
    and failures of agents and containers never lead to wrong data.

  \<^bold>\<open>Metadata.\<close>
  \<^item> \<open>Redis_Store\<close>: the Redis commands of the metadata store over a typed key space, a network that may lose requests and replies,
    the laws of the server as the locale \<open>store_server\<close>, and a list of keys and values that obeys them.
  \<^item> \<open>Meta_Keys\<close>, \<open>Meta_Store\<close>, \<open>Meta_Queue\<close>: the metadata store (\<^verbatim>\<open>proxy/metastore/redis_metastore.cc\<close>): keys and binary fields;
    \<^verbatim>\<open>putMeta\<close>, \<^verbatim>\<open>getMeta\<close>, \<^verbatim>\<open>deleteMeta\<close>, \<^verbatim>\<open>renameMeta\<close> and updates; listings, counts, queues, background tasks and locks.
    An operation returns the state of the server; \<open>Crashed\<close> marks the places where the code dereferences a null pointer or reads
    memory that is not its own, \<open>NoResult\<close> a reported failure.
  \<^item> \<open>Meta_Record\<close>, \<open>Meta_View\<close>: the record of a file as a hash and what reading it gives back, and each operation as a
    function on the abstract key space (\<open>put_view\<close>, \<open>delete_view\<close>, \<open>rename_view\<close>), which the operations are proved to implement
    when the server answers (the locale \<open>reliable_store\<close>).
  \<^item> \<open>Meta_Correct\<close>: what is stored is fetched, other files and earlier versions are kept, deletion and renaming.
  \<^item> \<open>Meta_Types\<close>: no sequence of operations, over any network, gives a key a value of another type than its name stands for.
  \<^item> \<open>Meta_Lists\<close>, \<open>Meta_Listing\<close>: locks exclude each other, the repair queue loses no file, listings of folders are exact, and
    lines of the version list are read back unless a binary field has a blank in it.

  \<^bold>\<open>Bounds.\<close>  Hypotheses such as sizes below \<open>2147483648\<close> state that a value fits its C++ type.  Names in keys are
  at most 4000 bytes long, since longer keys are cut.  Two loops may run forever, the renewal of a policy (for a duration of zero) and
  the scan for folders (for a server whose scan does not end); they are partial functions, and their results are proved to exist otherwise.

  \<^bold>\<open>Not modelled.\<close>  Sockets, threads and locks (requests that the code sends in parallel are taken in their
  order; replies in the background are switched off), the configuration parser, digests, cloud containers, which only translate calls to vendor
  libraries, logging and timing; in the metadata store the journal of chunk changes, connecting and authenticating, replies that
  are left unread after an early return, the partly filled object after a failure, and scripts made from names with quotes; the staging area,
  the composition of all parts under threads in \<^verbatim>\<open>proxy/proxy_file_ops.cc\<close>, and the client interfaces, which are event loops around third-party servers.
\<close>

end
